(* ===== verification/Prelude.thy ===== *)
theory Prelude
  imports Main "HOL-Library.Word" "HOL-Library.List_Lexorder"
begin

text \<open>
  What every component shares: the machine types of the C++ sources, the result type of
  operations that can fail, and the list idioms of the code (\<open>std::find_if\<close> followed by an
  update or an \<open>erase\<close> through the iterator, \<open>std::erase_if\<close>), each with the facts the component
  proofs rest on.

  Conventions. A \<open>std::array<unsigned char, n>\<close> and a \<open>std::vector<uint8_t>\<close> are byte lists (the
  array length is a well-formedness predicate). \<open>operator<\<close> and \<open>std::lexicographical_compare\<close>
  on arrays are the lexicographic order on lists. A pointer that the code tests for null is an
  option. A \<open>bool\<close> result with an \<open>error\<close> out-parameter is a sum with the message on the left.
\<close>

unbundle bit_operations_syntax

section \<open>Machine types\<close>

type_synonym byte = "8 word"
type_synonym u8 = "8 word"
type_synonym u16 = "16 word"
type_synonym u32 = "32 word"
type_synonym u64 = "64 word"

type_synonym node_id = "byte list"
type_synonym ipv6 = "byte list"
type_synonym public_key = "byte list"

text \<open>The value-initialised arrays \<open>NodeId{}\<close>, \<open>IPv6{}\<close> and \<open>std::array<uint8_t, 32>{}\<close>.\<close>

definition zero_node_id :: node_id where
  "zero_node_id = replicate 32 0"

definition zero_ipv6 :: ipv6 where
  "zero_ipv6 = replicate 16 0"

definition zero_public_key :: public_key where
  "zero_public_key = replicate 32 0"

abbreviation is_node_id :: "byte list \<Rightarrow> bool" where
  "is_node_id xs \<equiv> length xs = 32"

abbreviation is_public_key :: "byte list \<Rightarrow> bool" where
  "is_public_key xs \<equiv> length xs = 32"

abbreviation is_ipv6 :: "byte list \<Rightarrow> bool" where
  "is_ipv6 xs \<equiv> length xs = 16"

lemma length_zero_arrays [simp]:
  "length zero_node_id = 32" "length zero_ipv6 = 16" "length zero_public_key = 32"
  by (simp_all add: zero_node_id_def zero_ipv6_def zero_public_key_def)

section \<open>Failures\<close>

text \<open>
  \<open>Reject\<close> carries the message that the code writes through its \<open>error\<close> pointer. \<open>OutOfBounds\<close> is
  no error of the code: it marks a read past the end of a span, which is undefined behaviour in
  C++. Every decoder is proved never to yield it.
\<close>

datatype fault = OutOfBounds | Reject string

definition checked :: "'a option \<Rightarrow> ('a \<Rightarrow> fault + 'b) \<Rightarrow> fault + 'b" where
  "checked r k = (case r of None \<Rightarrow> Inl OutOfBounds | Some v \<Rightarrow> k v)"

lemma checked_simps [simp]:
  "checked None k = Inl OutOfBounds"
  "checked (Some v) k = k v"
  by (simp_all add: checked_def)

text \<open>The rest of a decoder is not simplified before its read is: keeps nested decoders cheap.\<close>

lemma checked_weak_cong [cong]: "r = r' \<Longrightarrow> checked r k = checked r' k"
  by simp

lemma checked_eq_Inr:
  "checked r k = Inr y \<longleftrightarrow> (\<exists>v. r = Some v \<and> k v = Inr y)"
  by (cases r) simp_all

lemma checked_not_oob:
  "checked r k \<noteq> Inl OutOfBounds \<longleftrightarrow> (\<exists>v. r = Some v \<and> k v \<noteq> Inl OutOfBounds)"
  by (cases r) simp_all

lemma rejected_in_bounds:
  "(if c then Inl (Reject m) else r) \<noteq> Inl OutOfBounds \<longleftrightarrow> \<not> c \<longrightarrow> r \<noteq> Inl OutOfBounds"
  by simp

definition accepted :: "'e + 'a \<Rightarrow> bool" where
  "accepted r = (case r of Inl _ \<Rightarrow> False | Inr _ \<Rightarrow> True)"

lemma accepted_simps [simp]: "\<not> accepted (Inl e)" "accepted (Inr x)"
  by (simp_all add: accepted_def)

lemma accepted_iff: "accepted r \<longleftrightarrow> (\<exists>x. r = Inr x)"
  by (cases r) simp_all

section \<open>Decimal rendering (std::to_string)\<close>

fun to_string :: "nat \<Rightarrow> string" where
  "to_string n =
     (if n < 10 then [char_of (48 + n)] else to_string (n div 10) @ [char_of (48 + n mod 10)])"

declare to_string.simps [simp del]

lemma to_string_nonempty [simp]: "to_string n \<noteq> []"
  by (subst to_string.simps) simp

section \<open>std::find_if and the operations through its iterator\<close>

fun update_first :: "('a \<Rightarrow> bool) \<Rightarrow> ('a \<Rightarrow> 'a) \<Rightarrow> 'a list \<Rightarrow> 'a list" where
  "update_first P f [] = []"
| "update_first P f (x # xs) = (if P x then f x # xs else x # update_first P f xs)"

fun remove_first :: "('a \<Rightarrow> bool) \<Rightarrow> 'a list \<Rightarrow> 'a list" where
  "remove_first P [] = []"
| "remove_first P (x # xs) = (if P x then xs else x # remove_first P xs)"

named_theorems first_match \<open>facts on the first element that satisfies a predicate\<close>

lemma find_None_iff_all: "find P xs = None \<longleftrightarrow> (\<forall>x\<in>set xs. \<not> P x)"
  by (induction xs) auto

lemma find_SomeD: "find P xs = Some x \<Longrightarrow> x \<in> set xs \<and> P x"
  by (induction xs) (auto split: if_splits)

lemma find_map: "find P (map f xs) = map_option f (find (P \<circ> f) xs)"
  by (induction xs) auto

lemma find_append:
  "find P (xs @ ys) = (case find P xs of None \<Rightarrow> find P ys | Some x \<Rightarrow> Some x)"
  by (induction xs) auto

lemma length_update_first [simp, first_match]: "length (update_first P f xs) = length xs"
  by (induction xs) auto

lemma update_first_None [first_match]: "find P xs = None \<Longrightarrow> update_first P f xs = xs"
  by (induction xs) (auto split: if_splits)

lemma length_remove_first [first_match]:
  "length (remove_first P xs) = (if find P xs = None then length xs else length xs - 1)"
proof (induction xs)
  case (Cons x xs)
  then show ?case by (cases xs) (auto split: if_splits)
qed simp

lemma remove_first_None [first_match]: "find P xs = None \<Longrightarrow> remove_first P xs = xs"
  by (induction xs) (auto split: if_splits)

lemma set_remove_first_subset: "set (remove_first P xs) \<subseteq> set xs"
  by (induction xs) auto

lemma map_update_first_same:
  "(\<And>x. P x \<Longrightarrow> g (f x) = g x) \<Longrightarrow> map g (update_first P f xs) = map g xs"
  by (induction xs) auto

lemma set_update_first_subset: "set (update_first P f xs) \<subseteq> set xs \<union> f ` {x \<in> set xs. P x}"
  by (induction xs) auto

lemma update_first_all:
  "\<forall>x\<in>set xs. Q x \<Longrightarrow> (\<And>x. P x \<Longrightarrow> Q x \<Longrightarrow> Q (f x)) \<Longrightarrow> \<forall>x\<in>set (update_first P f xs). Q x"
  by (induction xs) auto

text \<open>Lists whose elements carry distinct keys: the vectors of the program are keyed tables.\<close>

lemma distinct_map_remove_first:
  "distinct (map key xs) \<Longrightarrow> distinct (map key (remove_first P xs))"
  by (induction xs) (use set_remove_first_subset in fastforce)+

lemma remove_first_key_absent:
  "distinct (map key xs) \<Longrightarrow> \<forall>x\<in>set (remove_first (\<lambda>x. key x = k) xs). key x \<noteq> k"
  by (induction xs) (auto simp: rev_image_eqI)

lemma set_remove_first_key:
  "distinct (map key xs) \<Longrightarrow> set (remove_first (\<lambda>x. key x = k) xs) = {x \<in> set xs. key x \<noteq> k}"
  by (induction xs) (auto simp: rev_image_eqI)

lemma find_remove_first_other:
  "k' \<noteq> k \<Longrightarrow> find (\<lambda>x. key x = k') (remove_first (\<lambda>x. key x = k) xs) = find (\<lambda>x. key x = k') xs"
  by (induction xs) auto

lemma find_remove_first_same:
  "distinct (map key xs) \<Longrightarrow> find (\<lambda>x. key x = k) (remove_first (\<lambda>x. key x = k) xs) = None"
  by (simp add: find_None_iff_all remove_first_key_absent)

lemma find_update_first_same:
  "(\<And>x. key x = k \<Longrightarrow> key (f x) = k) \<Longrightarrow>
     find (\<lambda>x. key x = k) (update_first (\<lambda>x. key x = k) f xs) =
       map_option f (find (\<lambda>x. key x = k) xs)"
  by (induction xs) auto

lemma find_update_first_other:
  "k' \<noteq> k \<Longrightarrow> (\<And>x. key x = k \<Longrightarrow> key (f x) = k) \<Longrightarrow>
     find (\<lambda>x. key x = k') (update_first (\<lambda>x. key x = k) f xs) = find (\<lambda>x. key x = k') xs"
  by (induction xs) auto

lemma find_filter_key:
  "distinct (map key xs) \<Longrightarrow>
     find (\<lambda>x. key x = k) (filter Q xs) =
       (case find (\<lambda>x. key x = k) xs of
          None \<Rightarrow> None
        | Some x \<Rightarrow> if Q x then Some x else None)"
proof (induction xs)
  case (Cons x xs)
  show ?case
  proof (cases "key x = k")
    case True
    with Cons.prems have "\<forall>y\<in>set xs. key y \<noteq> k" by (auto simp: rev_image_eqI)
    then have "find (\<lambda>x. key x = k) (filter Q xs) = None" by (simp add: find_None_iff_all)
    with True show ?thesis by simp
  next
    case False
    with Cons show ?thesis by simp
  qed
qed simp

lemma find_key_eq_Some:
  "distinct (map key xs) \<Longrightarrow> find (\<lambda>x. key x = k) xs = Some x \<longleftrightarrow> x \<in> set xs \<and> key x = k"
  by (induction xs) auto

lemma filter_same_length: "length (filter P xs) = length xs \<Longrightarrow> filter P xs = xs"
  by (metis filter_True length_filter_less less_irrefl)

section \<open>Keyed tables\<close>

text \<open>
  The interface that the vectors of peers, routes, bucket contacts and trusted peers share: a
  list that holds at most one entry per key and at most \<open>capacity\<close> entries.
\<close>

definition keyed :: "nat \<Rightarrow> ('a \<Rightarrow> 'k) \<Rightarrow> 'a list \<Rightarrow> bool" where
  "keyed capacity key xs \<longleftrightarrow> distinct (map key xs) \<and> length xs \<le> capacity"

lemma keyed_Nil [simp]: "keyed c key []"
  by (simp add: keyed_def)

lemma keyed_remove_first: "keyed c key xs \<Longrightarrow> keyed c key (remove_first P xs)"
  by (auto simp: keyed_def distinct_map_remove_first length_remove_first)

lemma keyed_update_first:
  "keyed c key xs \<Longrightarrow> (\<And>x. P x \<Longrightarrow> key (f x) = key x) \<Longrightarrow> keyed c key (update_first P f xs)"
  by (simp add: keyed_def map_update_first_same)

lemma keyed_filter: "keyed c key xs \<Longrightarrow> keyed c key (filter P xs)"
  by (auto simp: keyed_def distinct_map inj_on_def intro: le_trans [OF length_filter_le])

lemma keyed_append_one:
  "keyed c key (xs @ [x]) \<longleftrightarrow>
     keyed c key xs \<and> length xs < c \<and> find (\<lambda>y. key y = key x) xs = None"
  by (auto simp: keyed_def find_None_iff_all rev_image_eqI)

lemma keyed_mapI: "keyed c key xs \<Longrightarrow> (\<And>x. key (f x) = key x) \<Longrightarrow> keyed c key (map f xs)"
  by (simp add: keyed_def comp_def)

section \<open>Transition systems\<close>

text \<open>
  A component that keeps state is a start state and a step relation. \<open>reachable\<close> is the least set
  that holds the start and is closed under steps; the locale is the contract of an invariant.
\<close>

inductive reachable :: "('s \<Rightarrow> bool) \<Rightarrow> ('s \<Rightarrow> 's \<Rightarrow> bool) \<Rightarrow> 's \<Rightarrow> bool"
  for start :: "'s \<Rightarrow> bool" and step :: "'s \<Rightarrow> 's \<Rightarrow> bool" where
  reachable_start: "start s \<Longrightarrow> reachable start step s"
| reachable_step: "reachable start step s \<Longrightarrow> step s t \<Longrightarrow> reachable start step t"

locale invariant_system =
  fixes start :: "'s \<Rightarrow> bool"
    and step :: "'s \<Rightarrow> 's \<Rightarrow> bool"
    and inv :: "'s \<Rightarrow> bool"
  assumes inv_start: "start s \<Longrightarrow> inv s"
    and inv_step: "inv s \<Longrightarrow> step s t \<Longrightarrow> inv t"
begin

lemma reachable_inv: "reachable start step s \<Longrightarrow> inv s"
  by (induction rule: reachable.induct) (auto intro: inv_start inv_step)

lemma run_inv: "inv s \<Longrightarrow> step\<^sup>*\<^sup>* s t \<Longrightarrow> inv t"
  by (rotate_tac, induction rule: rtranclp_induct) (auto intro: inv_step)

end

end
