(* ===== verification/Topology.thy ===== *)
theory Topology
  imports Prelude
begin

text \<open>
  Peers and the neighbour table: \<open>src/network/peer.cpp\<close>, \<open>topology.cpp\<close>, \<open>heartbeat.cpp\<close> and
  \<open>discovery.cpp\<close>. A topology is a vector of at most \<open>MAX_TOPOLOGY_PEERS\<close> peers with distinct ids;
  the pointer that \<open>topology_find_peer\<close> returns is used to change the peer in place, which is
  \<open>update_first\<close> on the vector. Shown: the invariant over every sequence of operations, liveness
  of peers without wrap-around of the clock difference, what pruning changes, and that replayed
  advertisements are refused.
\<close>

section \<open>Peers\<close>

datatype peer_state = Unknown | Connecting | Connected | Disconnected

definition peer_state_to_string :: "peer_state \<Rightarrow> string" where
  "peer_state_to_string s =
     (case s of
        Unknown \<Rightarrow> ''Unknown''
      | Connecting \<Rightarrow> ''Connecting''
      | Connected \<Rightarrow> ''Connected''
      | Disconnected \<Rightarrow> ''Disconnected'')"

record peer =
  p_id :: node_id
  p_virtual_address :: ipv6
  p_endpoint :: string
  p_state :: peer_state
  p_last_seen :: u64

definition peer_create :: "node_id \<Rightarrow> ipv6 \<Rightarrow> string \<Rightarrow> peer_state \<Rightarrow> u64 \<Rightarrow> peer" where
  "peer_create pid address endpoint st seen =
     \<lparr>p_id = pid, p_virtual_address = address, p_endpoint = endpoint, p_state = st,
      p_last_seen = seen\<rparr>"

definition peer_update_state :: "peer \<Rightarrow> peer_state \<Rightarrow> u64 \<Rightarrow> peer" where
  "peer_update_state p st timestamp =
     (let p = p\<lparr>p_state := st\<rparr> in
      if 0 < timestamp then p\<lparr>p_last_seen := timestamp\<rparr> else p)"

definition peer_is_alive :: "peer \<Rightarrow> u64 \<Rightarrow> u64 \<Rightarrow> bool" where
  "peer_is_alive p current_time timeout_ms =
     (if p_state p \<noteq> Connected then False
      else if p_last_seen p = 0 \<or> current_time < p_last_seen p then False
      else current_time - p_last_seen p \<le> timeout_ms)"

definition peer_equal :: "peer \<Rightarrow> peer \<Rightarrow> bool" where
  "peer_equal a b \<longleftrightarrow> p_id a = p_id b"

lemma peer_update_state_id [simp]: "p_id (peer_update_state p st t) = p_id p"
  by (simp add: peer_update_state_def Let_def)

lemma peer_is_alive_unat:
  "peer_is_alive p now t \<longleftrightarrow>
     p_state p = Connected \<and> 0 < unat (p_last_seen p) \<and> unat (p_last_seen p) \<le> unat now \<and>
     unat now \<le> unat (p_last_seen p) + unat t"
proof -
  have "now - p_last_seen p \<le> t \<longleftrightarrow> unat now \<le> unat (p_last_seen p) + unat t"
    if "p_last_seen p \<le> now"
    using that by (simp add: word_le_nat_alt unat_sub le_diff_conv add.commute)
  then show ?thesis
    by (auto simp: peer_is_alive_def word_le_nat_alt word_less_nat_alt unat_gt_0 not_less)
qed

section \<open>The table\<close>

definition MAX_TOPOLOGY_PEERS :: nat where
  "MAX_TOPOLOGY_PEERS = 16"

record topology =
  peers :: "peer list"

datatype topology_error = TopologyNull | DuplicatePeer | CapacityReached

definition topology_init :: "topology option \<Rightarrow> topology option" where
  "topology_init topo = map_option (\<lambda>t. t\<lparr>peers := []\<rparr>) topo"

definition topology_find_peer :: "topology \<Rightarrow> node_id \<Rightarrow> peer option" where
  "topology_find_peer topo nid = find (\<lambda>p. p_id p = nid) (peers topo)"

definition topology_find_peer_ptr :: "topology option \<Rightarrow> node_id \<Rightarrow> peer option" where
  "topology_find_peer_ptr topo nid =
     (case topo of None \<Rightarrow> None | Some t \<Rightarrow> find (\<lambda>p. p_id p = nid) (peers t))"

definition topology_find_by_address :: "topology \<Rightarrow> ipv6 \<Rightarrow> peer option" where
  "topology_find_by_address topo address = find (\<lambda>p. p_virtual_address p = address) (peers topo)"

definition topology_find_by_address_ptr :: "topology option \<Rightarrow> ipv6 \<Rightarrow> peer option" where
  "topology_find_by_address_ptr topo address =
     (case topo of
        None \<Rightarrow> None
      | Some t \<Rightarrow> find (\<lambda>p. p_virtual_address p = address) (peers t))"

text \<open>The write through the pointer that \<open>topology_find_peer\<close> returned.\<close>

definition modify_peer :: "topology \<Rightarrow> node_id \<Rightarrow> (peer \<Rightarrow> peer) \<Rightarrow> topology" where
  "modify_peer topo nid f = topo\<lparr>peers := update_first (\<lambda>p. p_id p = nid) f (peers topo)\<rparr>"

definition topology_add_peer :: "topology option \<Rightarrow> peer \<Rightarrow> topology_error + topology" where
  "topology_add_peer topo p =
     (case topo of
        None \<Rightarrow> Inl TopologyNull
      | Some t \<Rightarrow>
          if topology_find_peer t (p_id p) \<noteq> None then Inl DuplicatePeer
          else if MAX_TOPOLOGY_PEERS \<le> length (peers t) then Inl CapacityReached
          else Inr (t\<lparr>peers := peers t @ [p]\<rparr>))"

text \<open>\<open>None\<close> is the result \<open>false\<close>, which leaves the topology as it was.\<close>

definition topology_remove_peer :: "topology option \<Rightarrow> node_id \<Rightarrow> topology option" where
  "topology_remove_peer topo nid =
     (case topo of
        None \<Rightarrow> None
      | Some t \<Rightarrow>
          case find (\<lambda>p. p_id p = nid) (peers t) of
            None \<Rightarrow> None
          | Some _ \<Rightarrow> Some (t\<lparr>peers := remove_first (\<lambda>p. p_id p = nid) (peers t)\<rparr>))"

definition topology_update_state ::
  "topology option \<Rightarrow> node_id \<Rightarrow> peer_state \<Rightarrow> u64 \<Rightarrow> topology option" where
  "topology_update_state topo nid st timestamp =
     (case topology_find_peer_ptr topo nid of
        None \<Rightarrow> None
      | Some _ \<Rightarrow>
          map_option (\<lambda>t. modify_peer t nid (\<lambda>p. peer_update_state p st timestamp)) topo)"

definition topology_count :: "topology \<Rightarrow> nat" where
  "topology_count topo = length (peers topo)"

definition topology_active_neighbors_count :: "topology \<Rightarrow> u64 \<Rightarrow> u64 \<Rightarrow> nat" where
  "topology_active_neighbors_count topo current_time timeout_ms =
     length (filter (\<lambda>p. peer_is_alive p current_time timeout_ms) (peers topo))"

fun prune_loop :: "u64 \<Rightarrow> u64 \<Rightarrow> peer list \<Rightarrow> nat \<Rightarrow> peer list \<times> nat" where
  "prune_loop now timeout [] pruned = ([], pruned)"
| "prune_loop now timeout (p # ps) pruned =
     (if p_state p = Connected \<and> \<not> peer_is_alive p now timeout
      then (let (ps', n) = prune_loop now timeout ps (Suc pruned)
            in (p\<lparr>p_state := Disconnected\<rparr> # ps', n))
      else (let (ps', n) = prune_loop now timeout ps pruned in (p # ps', n)))"

definition topology_prune_stale ::
  "topology option \<Rightarrow> u64 \<Rightarrow> u64 \<Rightarrow> topology option \<times> nat" where
  "topology_prune_stale topo current_time timeout_ms =
     (case topo of
        None \<Rightarrow> (None, 0)
      | Some t \<Rightarrow>
          let (ps, n) = prune_loop current_time timeout_ms (peers t) 0
          in (Some (t\<lparr>peers := ps\<rparr>), n))"

definition topology_clear :: "topology option \<Rightarrow> topology option" where
  "topology_clear topo = map_option (\<lambda>t. t\<lparr>peers := []\<rparr>) topo"

section \<open>Hello messages and neighbour advertisements\<close>

record hello_message =
  h_sender :: node_id
  h_timestamp :: u64

definition heartbeat_create_hello :: "node_id \<Rightarrow> u64 \<Rightarrow> hello_message" where
  "heartbeat_create_hello sender timestamp = \<lparr>h_sender = sender, h_timestamp = timestamp\<rparr>"

definition heartbeat_process_hello ::
  "topology option \<Rightarrow> hello_message \<Rightarrow> u64 \<Rightarrow> topology option" where
  "heartbeat_process_hello topo hello current_time =
     (case topo of
        None \<Rightarrow> None
      | Some t \<Rightarrow>
          case topology_find_peer_ptr (Some t) (h_sender hello) of
            None \<Rightarrow> None
          | Some _ \<Rightarrow>
              let effective_time = (if 0 < current_time then current_time else h_timestamp hello)
              in Some (modify_peer t (h_sender hello)
                   (\<lambda>p. p\<lparr>p_last_seen := effective_time, p_state := Connected\<rparr>)))"

record neighbor_advertisement =
  na_node_id :: node_id
  na_address :: ipv6
  na_timestamp :: u64
  na_sequence_number :: u64

definition discovery_create_advertisement ::
  "peer \<Rightarrow> u64 \<Rightarrow> u64 \<Rightarrow> neighbor_advertisement" where
  "discovery_create_advertisement p timestamp sequence_number =
     \<lparr>na_node_id = p_id p, na_address = p_virtual_address p,
      na_timestamp = (if timestamp \<noteq> 0 then timestamp else p_last_seen p),
      na_sequence_number = sequence_number\<rparr>"

definition discovery_advertisement_equal ::
  "neighbor_advertisement \<Rightarrow> neighbor_advertisement \<Rightarrow> bool" where
  "discovery_advertisement_equal a b \<longleftrightarrow>
     na_node_id a = na_node_id b \<and> na_address a = na_address b \<and>
     na_timestamp a = na_timestamp b \<and> na_sequence_number a = na_sequence_number b"

text \<open>
  \<open>last_known_seq\<close> is a pointer that may be null: \<open>None\<close> skips the replay check. The result is
  \<open>None\<close> for \<open>false\<close>, else the sequence number and the topology the call leaves behind. A
  topology that has no room for the peer stays as it is, and the call still returns true.
\<close>

definition discovery_process_advertisement ::
  "topology option \<Rightarrow> neighbor_advertisement \<Rightarrow> u64 option \<Rightarrow> u64 \<Rightarrow>
     (u64 option \<times> topology) option" where
  "discovery_process_advertisement topo adv last_known_seq current_time =
     (case topo of
        None \<Rightarrow> None
      | Some t \<Rightarrow>
          if (case last_known_seq of None \<Rightarrow> False | Some l \<Rightarrow> na_sequence_number adv \<le> l) then None
          else
            let seq' = map_option (\<lambda>_. na_sequence_number adv) last_known_seq;
                effective_time = (if 0 < current_time then current_time else na_timestamp adv)
            in case topology_find_peer_ptr (Some t) (na_node_id adv) of
                 Some _ \<Rightarrow>
                   Some (seq', modify_peer t (na_node_id adv)
                     (\<lambda>p. p\<lparr>p_virtual_address := na_address adv, p_last_seen := effective_time,
                            p_state := Connected\<rparr>))
               | None \<Rightarrow>
                   (case topology_add_peer (Some t)
                      (peer_create (na_node_id adv) (na_address adv) '''' Connected effective_time) of
                      Inl _ \<Rightarrow> Some (seq', t)
                    | Inr t' \<Rightarrow> Some (seq', t')))"

section \<open>The table's invariant\<close>

definition topology_inv :: "topology \<Rightarrow> bool" where
  "topology_inv t \<longleftrightarrow> keyed MAX_TOPOLOGY_PEERS p_id (peers t)"

inductive topology_step :: "topology \<Rightarrow> topology \<Rightarrow> bool" where
  step_add: "topology_add_peer (Some t) p = Inr t' \<Longrightarrow> topology_step t t'"
| step_remove: "topology_remove_peer (Some t) nid = Some t' \<Longrightarrow> topology_step t t'"
| step_update: "topology_update_state (Some t) nid st now = Some t' \<Longrightarrow> topology_step t t'"
| step_prune: "topology_prune_stale (Some t) now timeout = (Some t', n) \<Longrightarrow> topology_step t t'"
| step_hello: "heartbeat_process_hello (Some t) hello now = Some t' \<Longrightarrow> topology_step t t'"
| step_advertisement:
    "discovery_process_advertisement (Some t) adv seq now = Some (seq', t') \<Longrightarrow> topology_step t t'"
| step_clear: "topology_clear (Some t) = Some t' \<Longrightarrow> topology_step t t'"

definition topology_start :: "topology \<Rightarrow> bool" where
  "topology_start t \<longleftrightarrow> peers t = []"

inductive_cases topology_stepE: "topology_step t t'"

lemma prune_loop_spec:
  "prune_loop now timeout ps n =
     (map (\<lambda>p. if p_state p = Connected \<and> \<not> peer_is_alive p now timeout
               then p\<lparr>p_state := Disconnected\<rparr> else p) ps,
      n + length (filter (\<lambda>p. p_state p = Connected \<and> \<not> peer_is_alive p now timeout) ps))"
  by (induction ps arbitrary: n) (auto simp: Let_def split: prod.splits)

lemma topology_inv_modify:
  "topology_inv t \<Longrightarrow> (\<And>p. p_id (f p) = p_id p) \<Longrightarrow> topology_inv (modify_peer t nid f)"
  by (simp add: topology_inv_def modify_peer_def keyed_update_first)

lemma topology_inv_add:
  "topology_inv t \<Longrightarrow> topology_add_peer (Some t) p = Inr t' \<Longrightarrow> topology_inv t'"
  by (auto simp: topology_inv_def topology_add_peer_def topology_find_peer_def keyed_append_one
      split: if_splits)

lemma topology_inv_prune:
  "topology_inv t \<Longrightarrow> topology_prune_stale (Some t) now timeout = (Some t', n) \<Longrightarrow> topology_inv t'"
  by (auto simp: topology_inv_def topology_prune_stale_def prune_loop_spec intro!: keyed_mapI)

lemma topology_inv_advertisement:
  assumes "topology_inv t"
    and "discovery_process_advertisement (Some t) adv seq now = Some (seq', t')"
  shows "topology_inv t'"
  using assms
  by (auto simp: discovery_process_advertisement_def Let_def
      split: if_splits option.splits sum.splits
      intro: topology_inv_modify topology_inv_add)

lemma topology_inv_step: "topology_inv t \<Longrightarrow> topology_step t t' \<Longrightarrow> topology_inv t'"
  by (erule topology_stepE)
    (auto simp: topology_remove_peer_def topology_update_state_def heartbeat_process_hello_def
      topology_clear_def Let_def split: option.splits
      intro: topology_inv_modify topology_inv_add topology_inv_prune topology_inv_advertisement,
     auto simp: topology_inv_def keyed_remove_first)

interpretation topo: invariant_system topology_start topology_step topology_inv
  by unfold_locales (auto simp: topology_start_def topology_inv_def intro: topology_inv_step
      [unfolded topology_inv_def])

section \<open>Properties\<close>

text \<open>
  Whatever sequence of additions, removals, state updates, prunings, hellos and
  advertisements a topology goes through from the empty table, it holds at most 16 peers, no two of
  them with the same node id.
\<close>

theorem topology_bounded_distinct:
  assumes "reachable topology_start topology_step t"
  shows "length (peers t) \<le> 16 \<and> distinct (map p_id (peers t))"
  using topo.reachable_inv [OF assms] by (simp add: topology_inv_def keyed_def MAX_TOPOLOGY_PEERS_def)

theorem topology_bounded_distinct_witness:
  "length (peers \<lparr>peers = [peer_create [1] [2] '''' Connected 5]\<rparr>) \<le> 16 \<and>
   distinct (map p_id (peers \<lparr>peers = [peer_create [1] [2] '''' Connected 5]\<rparr>))"
proof (rule topology_bounded_distinct)
  have "topology_add_peer (Some \<lparr>peers = []\<rparr>) (peer_create [1] [2] '''' Connected 5) =
    Inr \<lparr>peers = [peer_create [1] [2] '''' Connected 5]\<rparr>"
    by (simp add: topology_add_peer_def topology_find_peer_def MAX_TOPOLOGY_PEERS_def)
  note step = step_add [OF this]
  have start: "topology_start \<lparr>peers = []\<rparr>" by (simp add: topology_start_def)
  show "reachable topology_start topology_step \<lparr>peers = [peer_create [1] [2] '''' Connected 5]\<rparr>"
    by (rule reachable_step, rule reachable_start, rule start, rule step)
qed

text \<open>
  Pruning disconnects exactly the connected peers that have gone silent: afterwards every
  connected peer is alive, the peers that were alive are untouched and still counted, the returned
  number is the number of peers that lost their connection, and no peer is added, removed or renamed.
\<close>

theorem prune_disconnects_silent_peers:
  assumes "topology_prune_stale (Some t) now timeout = (Some t', n)"
  shows "(\<forall>p\<in>set (peers t'). p_state p = Connected \<longrightarrow> peer_is_alive p now timeout) \<and>
    filter (\<lambda>p. peer_is_alive p now timeout) (peers t') =
      filter (\<lambda>p. peer_is_alive p now timeout) (peers t) \<and>
    topology_active_neighbors_count t' now timeout = topology_active_neighbors_count t now timeout \<and>
    n + length (filter (\<lambda>p. p_state p = Connected) (peers t')) =
      length (filter (\<lambda>p. p_state p = Connected) (peers t)) \<and>
    map p_id (peers t') = map p_id (peers t)"
proof -
  let ?stale = "\<lambda>p. p_state p = Connected \<and> \<not> peer_is_alive p now timeout"
  let ?f = "\<lambda>p. if ?stale p then p\<lparr>p_state := Disconnected\<rparr> else p"
  from assms have t': "peers t' = map ?f (peers t)" and n: "n = length (filter ?stale (peers t))"
    by (auto simp: topology_prune_stale_def prune_loop_spec)
  have alive: "filter (\<lambda>p. peer_is_alive p now timeout) (map ?f ps) =
      filter (\<lambda>p. peer_is_alive p now timeout) ps" for ps
    by (induction ps) (auto simp: peer_is_alive_def)
  have count: "length (filter ?stale ps) + length (filter (\<lambda>p. p_state p = Connected) (map ?f ps)) =
      length (filter (\<lambda>p. p_state p = Connected) ps)" for ps
    by (induction ps) auto
  have "\<forall>p\<in>set (peers t'). p_state p = Connected \<longrightarrow> peer_is_alive p now timeout"
    by (auto simp: t')
  moreover have "map p_id (map ?f ps) = map p_id ps" for ps by simp
  ultimately show ?thesis
    using alive [of "peers t"] count [of "peers t"]
    by (simp only: t' n topology_active_neighbors_count_def)
qed

theorem prune_disconnects_silent_peers_witness:
  "topology_active_neighbors_count
     \<lparr>peers = [peer_create [1] [2] '''' Disconnected 5, peer_create [3] [4] '''' Connected 9000]\<rparr>
     9500 5000 = 1"
proof -
  let ?t = "\<lparr>peers = [peer_create [1] [2] '''' Connected 5, peer_create [3] [4] '''' Connected 9000]\<rparr>"
  let ?t' = "\<lparr>peers = [peer_create [1] [2] '''' Disconnected 5,
    peer_create [3] [4] '''' Connected 9000]\<rparr>"
  have "topology_prune_stale (Some ?t) 9500 5000 = (Some ?t', 1)"
    by (simp add: topology_prune_stale_def peer_is_alive_def peer_create_def)
  from prune_disconnects_silent_peers [OF this]
  have "topology_active_neighbors_count ?t' 9500 5000 = topology_active_neighbors_count ?t 9500 5000"
    by blast
  also have "\<dots> = 1"
    by (simp add: topology_active_neighbors_count_def peer_is_alive_def peer_create_def)
  finally show ?thesis .
qed

text \<open>
  The advertisements of one neighbour, processed in order of arrival against one counter; the run
  yields those that were accepted.
\<close>

fun discovery_run ::
  "topology \<Rightarrow> u64 option \<Rightarrow> (neighbor_advertisement \<times> u64) list \<Rightarrow> neighbor_advertisement list" where
  "discovery_run t seq [] = []"
| "discovery_run t seq ((adv, now) # rest) =
     (case discovery_process_advertisement (Some t) adv seq now of
        None \<Rightarrow> discovery_run t seq rest
      | Some (seq', t') \<Rightarrow> adv # discovery_run t' seq' rest)"

lemma discovery_step:
  "discovery_process_advertisement (Some t) adv (Some l) now = Some (seq', t') \<Longrightarrow>
     seq' = Some (na_sequence_number adv) \<and> l < na_sequence_number adv"
  by (auto simp: discovery_process_advertisement_def Let_def split: if_splits option.splits sum.splits)

lemma discovery_run_increasing:
  "sorted_wrt (<) (l # map na_sequence_number (discovery_run t (Some l) advs))"
proof (induction advs arbitrary: t l)
  case Nil
  then show ?case by simp
next
  case (Cons a rest)
  obtain adv now where a: "a = (adv, now)" by (cases a)
  show ?case
  proof (cases "discovery_process_advertisement (Some t) adv (Some l) now")
    case None
    with Cons.IH [of l t] show ?thesis by (simp add: a)
  next
    case (Some r)
    obtain seq' t' where r: "r = (seq', t')" by (cases r)
    with Some discovery_step
    have "seq' = Some (na_sequence_number adv)" and "l < na_sequence_number adv" by blast+
    then show ?thesis
      using Cons.IH [of "na_sequence_number adv" t'] by (auto simp: a Some r)
  qed
qed

text \<open>
  Replay protection of neighbour discovery: the advertisements that are accepted carry strictly
  increasing sequence numbers, all above the counter's start, whatever arrives and in which order.
\<close>

theorem discovery_accepts_increasing:
  "sorted_wrt (<) (map na_sequence_number (discovery_run t (Some l) advs)) \<and>
   list_all (\<lambda>adv. l < na_sequence_number adv) (discovery_run t (Some l) advs)"
  using discovery_run_increasing [of l t advs] by (simp add: list_all_iff)

text \<open>A hello keeps its sender alive, and never makes a peer of a stranger.\<close>

lemma hello_makes_alive:
  assumes "topology_inv t" "heartbeat_process_hello (Some t) hello now = Some t'" "0 < now"
  shows "\<exists>p. topology_find_peer t' (h_sender hello) = Some p \<and> peer_is_alive p now timeout"
proof -
  from assms(2,3) obtain p where
    "find (\<lambda>p. p_id p = h_sender hello) (peers t) = Some p"
    and "t' = modify_peer t (h_sender hello) (\<lambda>p. p\<lparr>p_last_seen := now, p_state := Connected\<rparr>)"
    by (auto simp: heartbeat_process_hello_def topology_find_peer_ptr_def split: option.splits)
  then have "topology_find_peer t' (h_sender hello) =
      Some (p\<lparr>p_last_seen := now, p_state := Connected\<rparr>)"
    by (simp add: topology_find_peer_def modify_peer_def find_update_first_same)
  moreover have "peer_is_alive (p\<lparr>p_last_seen := now, p_state := Connected\<rparr>) now timeout"
    using assms(3) by (simp add: peer_is_alive_def word_gt_0)
  ultimately show ?thesis by blast
qed

lemma hello_from_stranger:
  "topology_find_peer t (h_sender hello) = None \<Longrightarrow> heartbeat_process_hello (Some t) hello now = None"
  by (simp add: heartbeat_process_hello_def topology_find_peer_ptr_def topology_find_peer_def)

end
