(* ===== verification/Routing.thy ===== *)
theory Routing
  imports Topology "HOL-Library.Product_Lexorder"
begin

text \<open>
  Routes and the routing table: \<open>src/network/route.cpp\<close>, \<open>routing.cpp\<close> and
  \<open>route_advertisement.cpp\<close>. The table is a vector of at most \<open>MAX_ROUTE_TABLE_ENTRIES\<close> routes. Two
  routes are for the same destination when their node ids agree, or, where one of them has none, when
  their addresses agree. Shown: adding routes keeps the best candidate whatever the order of arrival,
  expiry keeps exactly the fresh routes, and what split horizon and poison reverse advertise.
\<close>

section \<open>Routes\<close>

definition ROUTE_METRIC_INFINITY :: u32 where
  "ROUTE_METRIC_INFINITY = 16"

record route =
  r_destination :: ipv6
  r_destination_node :: node_id
  r_next_hop :: node_id
  r_metric :: u32
  r_last_update :: u64

definition route_create :: "ipv6 \<Rightarrow> node_id \<Rightarrow> u32 \<Rightarrow> u64 \<Rightarrow> node_id \<Rightarrow> route" where
  "route_create destination next_hop metric last_update destination_node =
     \<lparr>r_destination = destination, r_destination_node = destination_node, r_next_hop = next_hop,
      r_metric = metric, r_last_update = last_update\<rparr>"

definition route_create_for_node :: "node_id \<Rightarrow> node_id \<Rightarrow> u32 \<Rightarrow> u64 \<Rightarrow> route" where
  "route_create_for_node destination_node next_hop metric last_update =
     \<lparr>r_destination = zero_ipv6, r_destination_node = destination_node, r_next_hop = next_hop,
      r_metric = metric, r_last_update = last_update\<rparr>"

definition route_equal :: "route \<Rightarrow> route \<Rightarrow> bool" where
  "route_equal a b \<longleftrightarrow> a = b"

section \<open>The table\<close>

definition MAX_ROUTE_TABLE_ENTRIES :: nat where
  "MAX_ROUTE_TABLE_ENTRIES = 16"

record route_table =
  routes :: "route list"

record route_entry =
  e_destination :: node_id
  e_next_hop :: node_id
  e_metric :: u32
  e_valid :: bool

definition is_non_empty_node :: "node_id \<Rightarrow> bool" where
  "is_non_empty_node nid \<longleftrightarrow> nid \<noteq> zero_node_id"

definition node_id_less :: "node_id \<Rightarrow> node_id \<Rightarrow> bool" where
  "node_id_less left right \<longleftrightarrow> left < right"

definition routing_init :: route_table where
  "routing_init = \<lparr>routes = []\<rparr>"

definition routing_lookup :: "route_table \<Rightarrow> node_id \<Rightarrow> route_entry option" where
  "routing_lookup table destination =
     map_option
       (\<lambda>r. \<lparr>e_destination = destination, e_next_hop = r_next_hop r, e_metric = r_metric r,
             e_valid = (r_metric r < ROUTE_METRIC_INFINITY)\<rparr>)
       (find (\<lambda>r. r_destination_node r = destination) (routes table))"

definition add_route_match :: "route \<Rightarrow> route \<Rightarrow> bool" where
  "add_route_match r existing \<longleftrightarrow>
     (if is_non_empty_node (r_destination_node r) \<and> is_non_empty_node (r_destination_node existing)
      then r_destination_node existing = r_destination_node r
      else r_destination existing = r_destination r)"

definition routing_add_route :: "route_table \<Rightarrow> route \<Rightarrow> bool \<times> route_table" where
  "routing_add_route table r =
     (case find (add_route_match r) (routes table) of
        Some existing \<Rightarrow>
          let better = r_metric r < r_metric existing;
              equal_but_deterministic =
                r_metric r = r_metric existing \<and> node_id_less (r_next_hop r) (r_next_hop existing)
          in if better \<or> equal_but_deterministic
             then (True, table\<lparr>routes := update_first (add_route_match r)
                    (\<lambda>e. e\<lparr>r_destination := r_destination r, r_next_hop := r_next_hop r,
                          r_metric := r_metric r, r_last_update := r_last_update r,
                          r_destination_node := r_destination_node r\<rparr>) (routes table)\<rparr>)
             else (False, table)
      | None \<Rightarrow>
          if MAX_ROUTE_TABLE_ENTRIES \<le> length (routes table) then (False, table)
          else (True, table\<lparr>routes := routes table @ [r]\<rparr>))"

definition routing_find_route_by_address :: "route_table \<Rightarrow> ipv6 \<Rightarrow> route option" where
  "routing_find_route_by_address table destination =
     find (\<lambda>r. r_destination r = destination) (routes table)"

definition routing_find_route :: "route_table \<Rightarrow> node_id \<Rightarrow> route option" where
  "routing_find_route table destination =
     find (\<lambda>r. r_destination_node r = destination) (routes table)"

definition routing_remove_route_by_address :: "route_table \<Rightarrow> ipv6 \<Rightarrow> bool \<times> route_table" where
  "routing_remove_route_by_address table destination =
     (case find (\<lambda>r. r_destination r = destination) (routes table) of
        Some _ \<Rightarrow>
          (True, table\<lparr>routes := remove_first (\<lambda>r. r_destination r = destination) (routes table)\<rparr>)
      | None \<Rightarrow> (False, table))"

definition routing_remove_route :: "route_table \<Rightarrow> node_id \<Rightarrow> bool \<times> route_table" where
  "routing_remove_route table destination =
     (case find (\<lambda>r. r_destination_node r = destination) (routes table) of
        Some _ \<Rightarrow>
          (True, table\<lparr>routes := remove_first (\<lambda>r. r_destination_node r = destination)
             (routes table)\<rparr>)
      | None \<Rightarrow> (False, table))"

definition routing_clear :: "route_table \<Rightarrow> route_table" where
  "routing_clear table = table\<lparr>routes := []\<rparr>"

definition routing_count :: "route_table \<Rightarrow> nat" where
  "routing_count table = length (routes table)"

definition routing_expire_routes :: "route_table \<Rightarrow> u64 \<Rightarrow> u64 \<Rightarrow> route_table" where
  "routing_expire_routes table current_time timeout =
     table\<lparr>routes := filter (\<lambda>r. \<not> (r_last_update r < current_time \<and>
       timeout < current_time - r_last_update r)) (routes table)\<rparr>"

section \<open>Route advertisements\<close>

datatype split_horizon_mode = Disabled | SplitHorizon | PoisonReverse

record route_advertisement =
  ra_sender :: node_id
  ra_generation :: u64
  ra_sequence_number :: u64
  ra_routes :: "route list"

fun advertised_routes :: "node_id option \<Rightarrow> split_horizon_mode \<Rightarrow> route list \<Rightarrow> route list" where
  "advertised_routes target mode [] = []"
| "advertised_routes target mode (r # rs) =
     (if target = Some (r_next_hop r) \<and> mode = SplitHorizon
      then advertised_routes target mode rs
      else if target = Some (r_next_hop r) \<and> mode = PoisonReverse
      then r\<lparr>r_metric := ROUTE_METRIC_INFINITY\<rparr> # advertised_routes target mode rs
      else r # advertised_routes target mode rs)"

definition route_create_advertisement ::
  "node_id \<Rightarrow> route_table \<Rightarrow> u64 \<Rightarrow> node_id option \<Rightarrow> split_horizon_mode \<Rightarrow> u64 \<Rightarrow> route_advertisement"
  where
  "route_create_advertisement sender table sequence_number target mode generation =
     \<lparr>ra_sender = sender, ra_generation = generation, ra_sequence_number = sequence_number,
      ra_routes = advertised_routes target mode (routes table)\<rparr>"

text \<open>\<open>virtual_address\<close> of \<open>src/core/config.cpp\<close>: the network prefix and eight bytes of the id.\<close>

definition virtual_address :: "ipv6 \<Rightarrow> node_id \<Rightarrow> ipv6" where
  "virtual_address network nid = take 8 network @ take 8 nid @ drop 16 network"

datatype advertisement_error =
    BadSenderOrCount
  | EmptyDestination
  | NodeAddressMismatch
  | MetricTooLarge

fun validate_advertised :: "ipv6 \<Rightarrow> route list \<Rightarrow> advertisement_error + unit" where
  "validate_advertised network [] = Inr ()"
| "validate_advertised network (r # rs) =
     (if r_destination_node r = zero_node_id then Inl EmptyDestination
      else if r_destination r \<noteq> virtual_address network (r_destination_node r)
      then Inl NodeAddressMismatch
      else if ROUTE_METRIC_INFINITY < r_metric r then Inl MetricTooLarge
      else validate_advertised network rs)"

definition validate_route_advertisement ::
  "route_advertisement \<Rightarrow> ipv6 \<Rightarrow> advertisement_error + unit" where
  "validate_route_advertisement adv network =
     (if ra_sender adv = zero_node_id \<or> MAX_ROUTE_TABLE_ENTRIES < length (ra_routes adv)
      then Inl BadSenderOrCount
      else validate_advertised network (ra_routes adv))"

section \<open>Facts\<close>

text \<open>The tables of the program: every route names its destination node, once.\<close>

definition table_inv :: "route_table \<Rightarrow> bool" where
  "table_inv table \<longleftrightarrow>
     keyed MAX_ROUTE_TABLE_ENTRIES r_destination_node (routes table) \<and>
     (\<forall>r\<in>set (routes table). r_destination_node r \<noteq> zero_node_id)"

abbreviation for_node :: "node_id \<Rightarrow> route \<Rightarrow> bool" where
  "for_node d \<equiv> (\<lambda>r. r_destination_node r = d)"

lemma find_cong_set: "(\<And>x. x \<in> set xs \<Longrightarrow> P x = Q x) \<Longrightarrow> find P xs = find Q xs"
  by (induction xs) auto

lemma update_first_cong_set:
  "(\<And>x. x \<in> set xs \<Longrightarrow> P x = Q x) \<Longrightarrow> update_first P f xs = update_first Q f xs"
  by (induction xs) auto

lemma add_route_match_node:
  "r_destination_node r \<noteq> zero_node_id \<Longrightarrow> r_destination_node e \<noteq> zero_node_id \<Longrightarrow>
     add_route_match r e \<longleftrightarrow> r_destination_node e = r_destination_node r"
  by (simp add: add_route_match_def is_non_empty_node_def)

text \<open>What the code prefers: the smaller metric, then the smaller next hop.\<close>

definition rank :: "route \<Rightarrow> u32 \<times> node_id" where
  "rank r = (r_metric r, r_next_hop r)"

lemma routing_add_route_inv:
  assumes inv: "table_inv t" and "r_destination_node r \<noteq> zero_node_id"
  shows "snd (routing_add_route t r) =
    (case routing_find_route t (r_destination_node r) of
       Some e \<Rightarrow>
         if rank r < rank e
         then t\<lparr>routes := update_first (for_node (r_destination_node r)) (\<lambda>_. r) (routes t)\<rparr>
         else t
     | None \<Rightarrow>
         if MAX_ROUTE_TABLE_ENTRIES \<le> length (routes t) then t
         else t\<lparr>routes := routes t @ [r]\<rparr>)"
proof -
  have match: "add_route_match r e = for_node (r_destination_node r) e" if "e \<in> set (routes t)" for e
    using that assms by (simp add: table_inv_def add_route_match_node)
  have overwrite: "(\<lambda>e. e\<lparr>r_destination := r_destination r, r_next_hop := r_next_hop r,
      r_metric := r_metric r, r_last_update := r_last_update r,
      r_destination_node := r_destination_node r\<rparr>) = (\<lambda>_. r)"
    by (rule ext) simp
  have same: "find (add_route_match r) (routes t) = find (for_node (r_destination_node r)) (routes t)"
    by (rule find_cong_set) (rule match)
  have update: "update_first (add_route_match r) f (routes t) =
      update_first (for_node (r_destination_node r)) f (routes t)" for f
    by (rule update_first_cong_set) (rule match)
  show ?thesis
    unfolding routing_add_route_def routing_find_route_def Let_def overwrite same update
    by (auto simp: rank_def node_id_less_def split: option.splits)
qed

lemma table_inv_add:
  assumes "table_inv t" and "r_destination_node r \<noteq> zero_node_id"
  shows "table_inv (snd (routing_add_route t r))"
proof -
  have "keyed c r_destination_node (update_first (for_node (r_destination_node r)) (\<lambda>_. r) rs)"
    if "keyed c r_destination_node rs" for c rs
    using that by (rule keyed_update_first) simp
  then show ?thesis
    using assms set_update_first_subset [of "for_node (r_destination_node r)" "\<lambda>_. r" "routes t"]
    by (auto simp: routing_add_route_inv table_inv_def keyed_append_one routing_find_route_def
        split: option.splits)
qed

lemma routing_find_route_add:
  assumes "table_inv t" and "r_destination_node r \<noteq> zero_node_id"
  shows "routing_find_route (snd (routing_add_route t r)) d =
    (if d = r_destination_node r
     then (case routing_find_route t d of
             Some e \<Rightarrow> Some (if rank r < rank e then r else e)
           | None \<Rightarrow> if length (routes t) < MAX_ROUTE_TABLE_ENTRIES then Some r else None)
     else routing_find_route t d)"
  using assms
  by (auto simp: routing_add_route_inv routing_find_route_def find_append find_update_first_same
      find_update_first_other split: option.splits)

section \<open>Properties\<close>

subsection \<open>The best candidate wins, in any order of arrival\<close>

definition add_routes :: "route list \<Rightarrow> route_table \<Rightarrow> route_table" where
  "add_routes rs t = fold (\<lambda>r t. snd (routing_add_route t r)) rs t"

definition candidates :: "route list \<Rightarrow> node_id \<Rightarrow> (u32 \<times> node_id) set" where
  "candidates rs d = rank ` {r \<in> set rs. r_destination_node r = d}"

lemma finite_candidates [simp]: "finite (candidates rs d)"
  by (simp add: candidates_def)

lemma candidates_simps [simp]:
  "candidates [] d = {}"
  "candidates (r # rs) d =
     (if r_destination_node r = d then insert (rank r) (candidates rs d) else candidates rs d)"
  by (auto simp: candidates_def)

definition best_of :: "(u32 \<times> node_id) option \<Rightarrow> (u32 \<times> node_id) set \<Rightarrow> (u32 \<times> node_id) option"
  where
  "best_of old C =
     (let A = (case old of None \<Rightarrow> C | Some k \<Rightarrow> insert k C) in if A = {} then None else Some (Min A))"

lemma best_of_insert:
  "finite C \<Longrightarrow> best_of (Some (case old of None \<Rightarrow> k | Some x \<Rightarrow> min x k)) C = best_of old (insert k C)"
  by (cases "C = {}") (auto simp: best_of_def min.assoc min.left_commute split: option.splits)

lemma length_add_route: "length (routes (snd (routing_add_route t r))) \<le> Suc (length (routes t))"
  by (auto simp: routing_add_route_def Let_def split: option.splits)

lemma add_routes_best:
  assumes "table_inv t" and "\<forall>r\<in>set rs. r_destination_node r \<noteq> zero_node_id"
    and "length (routes t) + length rs \<le> MAX_ROUTE_TABLE_ENTRIES"
  shows "map_option rank (routing_find_route (add_routes rs t) d) =
    best_of (map_option rank (routing_find_route t d)) (candidates rs d)"
  using assms
proof (induction rs arbitrary: t)
  case Nil
  then show ?case by (simp add: add_routes_def best_of_def split: option.split)
next
  case (Cons r rs)
  let ?t = "snd (routing_add_route t r)"
  have "table_inv ?t" and "length (routes ?t) + length rs \<le> MAX_ROUTE_TABLE_ENTRIES"
    using Cons.prems table_inv_add length_add_route [of t r] by auto
  with Cons have "map_option rank (routing_find_route (add_routes (r # rs) t) d) =
      best_of (map_option rank (routing_find_route ?t d)) (candidates rs d)"
    by (simp add: add_routes_def)
  moreover have "map_option rank (routing_find_route ?t d) =
      (if d = r_destination_node r
       then Some (case map_option rank (routing_find_route t d) of
                    None \<Rightarrow> rank r | Some x \<Rightarrow> min x (rank r))
       else map_option rank (routing_find_route t d))"
    using Cons.prems by (auto simp: routing_find_route_add min_def split: option.split)
  ultimately show ?case
    using best_of_insert [of "candidates rs d" "rank r" "map_option rank (routing_find_route t d)"]
    by auto
qed

text \<open>
  As long as the table has room, the route kept for a destination is the best of all candidates
  ever offered for it, the table's own included: least metric, and among equals the least next hop.
  The choice is a minimum, so it does not depend on the order in which the candidates arrive.
\<close>

theorem best_route_in_any_order:
  assumes "table_inv t" and "list_all (\<lambda>r. r_destination_node r \<noteq> zero_node_id) rs"
    and "length (routes t) + length rs \<le> 16"
  shows "map_option rank (routing_find_route (add_routes rs t) d) =
    (if candidates (routes t @ rs) d = {} then None else Some (Min (candidates (routes t @ rs) d)))"
proof -
  have "candidates (routes t @ rs) d = candidates (routes t) d \<union> candidates rs d"
    by (auto simp: candidates_def)
  moreover have "candidates (routes t) d =
      (case routing_find_route t d of None \<Rightarrow> {} | Some e \<Rightarrow> {rank e})"
  proof (cases "routing_find_route t d")
    case None
    then have "{r \<in> set (routes t). r_destination_node r = d} = {}"
      by (auto simp: routing_find_route_def find_None_iff_all)
    with None show ?thesis by (simp add: candidates_def)
  next
    case (Some e)
    then have "{r \<in> set (routes t). r_destination_node r = d} = {e}"
      using assms(1) by (auto simp: table_inv_def keyed_def routing_find_route_def find_key_eq_Some
          dest: inj_onD [OF distinct_map [THEN iffD1, THEN conjunct2]])
    with Some show ?thesis by (simp add: candidates_def)
  qed
  ultimately show ?thesis
    using add_routes_best [of t rs d] assms
    by (auto simp: list_all_iff MAX_ROUTE_TABLE_ENTRIES_def best_of_def split: option.splits)
qed

subsection \<open>Expiry\<close>

lemma expired_unat:
  "\<not> (l < now \<and> timeout < now - l) \<longleftrightarrow> unat now \<le> unat l + unat (timeout :: u64)"
proof (cases "l < now")
  case True
  then have "unat (now - l) = unat now - unat l"
    by (simp add: unat_sub less_imp_le)
  with True show ?thesis by (simp add: word_less_nat_alt not_less le_diff_conv add.commute)
next
  case False
  then show ?thesis by (simp add: word_less_nat_alt)
qed

text \<open>
  Expiry removes exactly the routes that have not been refreshed within the timeout (the clock
  difference never wraps around: a route from the future stays), changes no other route, and keeps
  the table well formed.
\<close>

theorem expire_keeps_fresh_routes:
  assumes "table_inv t"
  shows "table_inv (routing_expire_routes t now timeout) \<and>
    routing_find_route (routing_expire_routes t now timeout) d =
      (case routing_find_route t d of
         None \<Rightarrow> None
       | Some r \<Rightarrow> if unat now \<le> unat (r_last_update r) + unat timeout then Some r else None)"
proof -
  let ?fresh = "\<lambda>r. unat now \<le> unat (r_last_update r) + unat timeout"
  have "routes (routing_expire_routes t now timeout) = filter ?fresh (routes t)"
    by (simp only: routing_expire_routes_def expired_unat) simp
  moreover have "find (for_node d) (filter ?fresh (routes t)) =
      (case find (for_node d) (routes t) of None \<Rightarrow> None | Some r \<Rightarrow> if ?fresh r then Some r else None)"
    using assms by (intro find_filter_key) (simp add: table_inv_def keyed_def)
  ultimately show ?thesis
    using assms by (auto simp: table_inv_def routing_find_route_def keyed_filter)
qed

subsection \<open>Advertisements\<close>

lemma advertised_routes_poison:
  "advertised_routes (Some n) PoisonReverse rs =
     map (\<lambda>r. if r_next_hop r = n then r\<lparr>r_metric := ROUTE_METRIC_INFINITY\<rparr> else r) rs"
  by (induction rs) auto

lemma advertised_routes_split:
  "advertised_routes (Some n) SplitHorizon rs = filter (\<lambda>r. r_next_hop r \<noteq> n) rs"
  by (induction rs) auto

lemma advertised_routes_plain:
  "advertised_routes None mode rs = rs" "advertised_routes target Disabled rs = rs"
  by (induction rs) auto

lemma find_advertised_poison:
  "find (for_node d) (advertised_routes (Some n) PoisonReverse rs) =
     map_option (\<lambda>r. if r_next_hop r = n then r\<lparr>r_metric := ROUTE_METRIC_INFINITY\<rparr> else r)
       (find (for_node d) rs)"
  by (induction rs) (auto simp: advertised_routes_poison)

lemma validate_advertised_ok:
  "validate_advertised network rs = Inr () \<longleftrightarrow>
     (\<forall>r\<in>set rs. r_destination_node r \<noteq> zero_node_id \<and>
        r_destination r = virtual_address network (r_destination_node r) \<and>
        r_metric r \<le> ROUTE_METRIC_INFINITY)"
  by (induction rs) auto

lemma advertised_routes_subset:
  "r \<in> set (advertised_routes target mode rs) \<Longrightarrow>
     \<exists>q\<in>set rs. r = q \<or> r = q\<lparr>r_metric := ROUTE_METRIC_INFINITY\<rparr>"
  by (induction rs) (auto split: if_splits)

lemma length_advertised_routes: "length (advertised_routes target mode rs) \<le> length rs"
  by (induction rs) auto

text \<open>
  What a node advertises, its neighbours accept: an advertisement made from a well-formed table
  whose routes use the network's addresses and bounded metrics passes the validation of every
  receiver in the same network, in all three split-horizon modes.
\<close>

theorem own_advertisements_validate:
  assumes "table_inv t" and "sender \<noteq> zero_node_id"
    and "list_all (\<lambda>r. r_destination r = virtual_address network (r_destination_node r) \<and>
          r_metric r \<le> ROUTE_METRIC_INFINITY) (routes t)"
  shows "validate_route_advertisement
    (route_create_advertisement sender t seq target mode generation) network = Inr ()"
proof -
  have "length (advertised_routes target mode (routes t)) \<le> MAX_ROUTE_TABLE_ENTRIES"
    using assms(1) length_advertised_routes [of target mode "routes t"]
    by (simp add: table_inv_def keyed_def)
  moreover have "validate_advertised network (advertised_routes target mode (routes t)) = Inr ()"
    using assms(1,3)
    by (auto simp: validate_advertised_ok table_inv_def list_all_iff
        dest!: advertised_routes_subset)
  ultimately show ?thesis
    using assms(2)
    by (simp add: validate_route_advertisement_def route_create_advertisement_def)
qed

section \<open>Witnesses\<close>

text \<open>A node id whose bytes are all the same, and one route per pair of such ids.\<close>

definition sample_node :: "byte \<Rightarrow> node_id" where
  "sample_node b = replicate 32 b"

definition sample_route :: "byte \<Rightarrow> byte \<Rightarrow> u32 \<Rightarrow> u64 \<Rightarrow> route" where
  "sample_route d via metric seen =
     route_create (virtual_address (0xfd # replicate 15 0) (sample_node d)) (sample_node via) metric seen
       (sample_node d)"

lemma replicate_less: "replicate (Suc n) a < replicate (Suc n) b \<longleftrightarrow> (a::'a::linorder) < b"
  by (induction n) auto

lemma sample_node_simps [simp]:
  "length (sample_node b) = 32"
  "sample_node a = sample_node b \<longleftrightarrow> a = b"
  "sample_node b = zero_node_id \<longleftrightarrow> b = 0"
  "sample_node a < sample_node b \<longleftrightarrow> a < b"
  "sample_node a \<le> sample_node b \<longleftrightarrow> a \<le> b"
proof -
  show less: "sample_node a < sample_node b \<longleftrightarrow> a < b" for a b
    using replicate_less [of 31] by (simp add: sample_node_def)
  show "sample_node a \<le> sample_node b \<longleftrightarrow> a \<le> b"
    using less [of b a] by (simp flip: not_less)
qed (auto simp: sample_node_def zero_node_id_def)

lemma sample_route_simps [simp]:
  "r_destination (sample_route d via m s) = virtual_address (0xfd # replicate 15 0) (sample_node d)"
  "r_destination_node (sample_route d via m s) = sample_node d"
  "r_next_hop (sample_route d via m s) = sample_node via"
  "r_metric (sample_route d via m s) = m"
  "r_last_update (sample_route d via m s) = s"
  by (simp_all add: sample_route_def route_create_def)

definition sample_table :: route_table where
  "sample_table = \<lparr>routes = [sample_route 1 1 1 100, sample_route 2 1 3 900]\<rparr>"

lemma table_inv_sample: "table_inv sample_table"
  by (simp add: table_inv_def keyed_def sample_table_def MAX_ROUTE_TABLE_ENTRIES_def)

theorem best_route_in_any_order_witness:
  "map_option rank (routing_find_route
     (add_routes [sample_route 2 4 2 0, sample_route 2 3 2 0] sample_table) (sample_node 2)) =
   Some (2, sample_node 3)"
proof -
  have c: "candidates (routes sample_table @ [sample_route 2 4 2 0, sample_route 2 3 2 0])
      (sample_node 2) = {(3, sample_node 1), (2, sample_node 4), (2, sample_node 3)}"
    by (simp add: sample_table_def rank_def)
  have m: "Min {(3 :: u32, sample_node 1), (2, sample_node 4), (2, sample_node 3)} = (2, sample_node 3)"
    by (simp add: min_def)
  have hyps: "list_all (\<lambda>r. r_destination_node r \<noteq> zero_node_id)
      [sample_route 2 4 2 0, sample_route 2 3 2 0]"
    "length (routes sample_table) + length [sample_route 2 4 2 0, sample_route 2 3 2 0] \<le> 16"
    by (simp_all add: sample_table_def)
  from best_route_in_any_order [OF table_inv_sample hyps, of "sample_node 2"]
  show ?thesis unfolding c m by simp
qed

theorem expire_keeps_fresh_routes_witness:
  "routing_find_route (routing_expire_routes sample_table 1000 500) (sample_node 1) = None \<and>
   routing_find_route (routing_expire_routes sample_table 1000 500) (sample_node 2) =
     Some (sample_route 2 1 3 900)"
  using expire_keeps_fresh_routes [OF table_inv_sample, of 1000 500 "sample_node 1"]
    expire_keeps_fresh_routes [OF table_inv_sample, of 1000 500 "sample_node 2"]
  by (simp add: routing_find_route_def sample_table_def)

theorem own_advertisements_validate_witness:
  "validate_route_advertisement
     (route_create_advertisement (sample_node 9) sample_table 7 (Some (sample_node 1)) PoisonReverse 1)
     (0xfd # replicate 15 0) = Inr ()"
  by (rule own_advertisements_validate [OF table_inv_sample])
    (simp_all add: sample_table_def ROUTE_METRIC_INFINITY_def)

end
