(* ===== verification/Distance_Vector.thy ===== *)
theory Distance_Vector
  imports Routing
begin

text \<open>
  The distance-vector update of \<open>src/network/distance_vector.cpp\<close>: an advertisement of a neighbour
  withdraws the routes it no longer mentions, then each of its entries is compared with the route the
  table has. Shown: the update refines a Bellman-Ford step on the map from destinations to (next hop,
  metric), it keeps the table well formed, stale advertisements change nothing, and with poison
  reverse two neighbours never route through each other.
\<close>

section \<open>The update\<close>

definition same_destination :: "route \<Rightarrow> route \<Rightarrow> bool" where
  "same_destination left right \<longleftrightarrow>
     (if r_destination_node left \<noteq> zero_node_id \<and> r_destination_node right \<noteq> zero_node_id
      then r_destination_node left = r_destination_node right
      else r_destination left = r_destination right)"

definition dv_node_id_less :: "node_id \<Rightarrow> node_id \<Rightarrow> bool" where
  "dv_node_id_less left right \<longleftrightarrow> left < right"

definition withdrawn :: "node_id \<Rightarrow> route list \<Rightarrow> route \<Rightarrow> bool" where
  "withdrawn neighbor advertised r \<longleftrightarrow>
     (if r_next_hop r \<noteq> neighbor \<or> r_destination_node r = neighbor then False
      else \<not> list_ex (\<lambda>a. same_destination r a) advertised)"

definition candidate_metric :: "u32 \<Rightarrow> u32 \<Rightarrow> u32" where
  "candidate_metric link_cost metric =
     (let candidate = (ucast link_cost :: u64) + ucast metric
      in ucast (min (ucast ROUTE_METRIC_INFINITY) candidate))"

text \<open>One round of the loop over the advertised routes: the routes, and whether anything changed.\<close>

definition apply_one ::
  "node_id \<Rightarrow> u64 \<Rightarrow> u32 \<Rightarrow> route list \<times> bool \<Rightarrow> route \<Rightarrow> route list \<times> bool" where
  "apply_one neighbor current_time link_cost rc advertised =
     (let (rs, changed) = rc in
      if r_destination_node advertised = neighbor then (rs, changed)
      else
        let metric = candidate_metric link_cost (r_metric advertised);
            hit = (\<lambda>r. same_destination r advertised);
            existing = find hit rs
        in if ROUTE_METRIC_INFINITY \<le> metric
           then (case existing of
                   Some e \<Rightarrow>
                     if r_next_hop e = neighbor \<and> r_metric e \<noteq> ROUTE_METRIC_INFINITY
                     then (update_first hit
                            (\<lambda>e. e\<lparr>r_metric := ROUTE_METRIC_INFINITY,
                                  r_last_update := current_time\<rparr>) rs, True)
                     else (rs, changed)
                 | None \<Rightarrow> (rs, changed))
           else
             let candidate = route_create (r_destination advertised) neighbor metric current_time
                               (r_destination_node advertised)
             in case existing of
                  None \<Rightarrow>
                    if length rs < MAX_ROUTE_TABLE_ENTRIES then (rs @ [candidate], True)
                    else (rs, changed)
                | Some e \<Rightarrow>
                    let better_metric = metric < r_metric e;
                        deterministic_tie =
                          metric = r_metric e \<and> dv_node_id_less neighbor (r_next_hop e);
                        refresh_same_neighbor = (r_next_hop e = neighbor)
                    in if better_metric \<or> deterministic_tie \<or> refresh_same_neighbor
                       then let route_changed =
                                  r_destination e \<noteq> r_destination candidate \<or>
                                  r_destination_node e \<noteq> r_destination_node candidate \<or>
                                  r_next_hop e \<noteq> r_next_hop candidate \<or>
                                  r_metric e \<noteq> r_metric candidate
                            in if route_changed then (update_first hit (\<lambda>_. candidate) rs, True)
                               else if refresh_same_neighbor
                               then (update_first hit (\<lambda>e. e\<lparr>r_last_update := current_time\<rparr>) rs,
                                     changed)
                               else (rs, changed)
                       else (rs, changed))"

definition apply_routes ::
  "route_table \<Rightarrow> node_id \<Rightarrow> route_advertisement \<Rightarrow> u64 \<Rightarrow> u32 \<Rightarrow> bool \<times> route_table" where
  "apply_routes table neighbor adv current_time link_cost =
     (let old_size = length (routes table);
          kept = filter (\<lambda>r. \<not> withdrawn neighbor (ra_routes adv) r) (routes table);
          changed = (length kept \<noteq> old_size);
          (rs, changed) = foldl (apply_one neighbor current_time link_cost) (kept, changed)
            (ra_routes adv)
      in (changed, table\<lparr>routes := rs\<rparr>))"

text \<open>
  The two overloads of \<open>distance_vector_update\<close>. A null \<open>last_known_seq\<close> or \<open>origin_states\<close> is \<open>None\<close>.
  The result is the return value, the flag \<open>routes_changed\<close>, the table and the replay state.
\<close>

record dv_result =
  dv_accepted :: bool
  dv_changed :: bool
  dv_table :: route_table

definition distance_vector_update_seq ::
  "route_table \<Rightarrow> node_id \<Rightarrow> route_advertisement \<Rightarrow> u64 \<Rightarrow> u32 \<Rightarrow> u64 option \<Rightarrow> dv_result \<times> u64 option"
  where
  "distance_vector_update_seq table neighbor adv current_time link_cost last_known_seq =
     (let refused = \<lparr>dv_accepted = False, dv_changed = False, dv_table = table\<rparr> in
      if ra_sender adv \<noteq> neighbor then (refused, last_known_seq)
      else if (case last_known_seq of None \<Rightarrow> False | Some l \<Rightarrow> ra_sequence_number adv \<le> l)
      then (refused, last_known_seq)
      else
        let (changed, table') = apply_routes table neighbor adv current_time link_cost
        in (\<lparr>dv_accepted = True, dv_changed = changed, dv_table = table'\<rparr>,
            map_option (\<lambda>_. ra_sequence_number adv) last_known_seq))"

record route_origin_state =
  o_generation :: u64
  o_sequence :: u64

type_synonym route_origin_states = "node_id \<rightharpoonup> route_origin_state"

definition distance_vector_update ::
  "route_table \<Rightarrow> node_id \<Rightarrow> route_advertisement \<Rightarrow> u64 \<Rightarrow> u32 \<Rightarrow> route_origin_states option \<Rightarrow>
     dv_result \<times> route_origin_states option"
  where
  "distance_vector_update table neighbor adv current_time link_cost origin_states =
     (let refused = \<lparr>dv_accepted = False, dv_changed = False, dv_table = table\<rparr>;
          accept =
            (let (changed, table') = apply_routes table neighbor adv current_time link_cost
             in \<lparr>dv_accepted = True, dv_changed = changed, dv_table = table'\<rparr>)
      in if ra_sender adv \<noteq> neighbor then (refused, origin_states)
         else case origin_states of
                None \<Rightarrow> (accept, None)
              | Some states \<Rightarrow>
                  if (case states (ra_sender adv) of
                        None \<Rightarrow> False
                      | Some l \<Rightarrow>
                          ra_generation adv < o_generation l \<or>
                          (ra_generation adv = o_generation l \<and> ra_sequence_number adv \<le> o_sequence l))
                  then (refused, Some states)
                  else (accept, Some (states(ra_sender adv \<mapsto>
                          \<lparr>o_generation = ra_generation adv, o_sequence = ra_sequence_number adv\<rparr>))))"

section \<open>The abstract step\<close>

text \<open>
  What one advertised entry does to the (next hop, metric) of its destination, and what the missing
  entry does: the Bellman-Ford relaxation with infinity 16, where a route through the advertising
  neighbour follows that neighbour in both directions.
\<close>

definition relax :: "node_id \<Rightarrow> u32 \<Rightarrow> (node_id \<times> u32) option \<Rightarrow> (node_id \<times> u32) option" where
  "relax neighbor metric old =
     (case old of
        None \<Rightarrow> if metric < ROUTE_METRIC_INFINITY then Some (neighbor, metric) else None
      | Some (next_hop, m) \<Rightarrow>
          if next_hop = neighbor then Some (neighbor, metric)
          else if metric < ROUTE_METRIC_INFINITY \<and> (metric, neighbor) < (m, next_hop)
          then Some (neighbor, metric)
          else old)"

definition withdraw :: "node_id \<Rightarrow> (node_id \<times> u32) option \<Rightarrow> (node_id \<times> u32) option" where
  "withdraw neighbor old =
     (case old of
        Some (next_hop, m) \<Rightarrow> if next_hop = neighbor then None else old
      | None \<Rightarrow> None)"

definition bellman_ford ::
  "node_id \<Rightarrow> u32 \<Rightarrow> (node_id \<rightharpoonup> u32) \<Rightarrow> (node_id \<rightharpoonup> node_id \<times> u32) \<Rightarrow> (node_id \<rightharpoonup> node_id \<times> u32)"
  where
  "bellman_ford neighbor link_cost advertised old d =
     (if d = neighbor then old d
      else case advertised d of
             None \<Rightarrow> withdraw neighbor (old d)
           | Some m \<Rightarrow> relax neighbor (candidate_metric link_cost m) (old d))"

definition hop :: "route \<Rightarrow> node_id \<times> u32" where
  "hop r = (r_next_hop r, r_metric r)"

definition view :: "route list \<Rightarrow> node_id \<rightharpoonup> node_id \<times> u32" where
  "view rs d = map_option hop (find (for_node d) rs)"

definition advertised_metric :: "route_advertisement \<Rightarrow> node_id \<rightharpoonup> u32" where
  "advertised_metric adv d = map_option r_metric (find (for_node d) (ra_routes adv))"

lemma candidate_metric_unat:
  "unat (candidate_metric c m) = min 16 (unat c + unat m)"
proof -
  have c: "unat c < 2 ^ 32" and m: "unat m < 2 ^ 32"
    using unsigned_less [of c, where 'a = nat] unsigned_less [of m, where 'a = nat] by simp_all
  have up: "unat (ucast w :: u64) = unat w" if "unat w < 2 ^ 32" for w :: u32
    using that by (simp add: unsigned_ucast_eq take_bit_nat_eq_self)
  have sum: "unat ((ucast c :: u64) + ucast m) = unat c + unat m"
    using c m by (simp add: unat_word_ariths up)
  show ?thesis
  proof (cases "unat c + unat m \<le> 16")
    case True
    then have "(ucast c :: u64) + ucast m \<le> ucast ROUTE_METRIC_INFINITY"
      by (simp add: ROUTE_METRIC_INFINITY_def word_le_nat_alt sum)
    then have "min (ucast ROUTE_METRIC_INFINITY) ((ucast c :: u64) + ucast m) = ucast c + ucast m"
      by (rule min.absorb2)
    with True show ?thesis
      by (simp add: candidate_metric_def unsigned_ucast_eq take_bit_nat_eq_self sum)
  next
    case False
    then have "min (ucast ROUTE_METRIC_INFINITY) ((ucast c :: u64) + ucast m) = 16"
      by (simp add: ROUTE_METRIC_INFINITY_def min_def word_le_nat_alt sum)
    with False show ?thesis
      by (simp add: candidate_metric_def)
  qed
qed

lemma candidate_metric_le: "candidate_metric c m \<le> ROUTE_METRIC_INFINITY"
  by (simp add: word_le_nat_alt candidate_metric_unat ROUTE_METRIC_INFINITY_def)

section \<open>One entry\<close>

text \<open>A table that is full and has no route for the destination.\<close>

abbreviation no_room :: "route list \<Rightarrow> node_id \<Rightarrow> bool" where
  "no_room rs d \<equiv> length rs = MAX_ROUTE_TABLE_ENTRIES \<and> view rs d = None"

abbreviation routes_inv :: "route list \<Rightarrow> bool" where
  "routes_inv rs \<equiv> table_inv \<lparr>routes = rs\<rparr>"

lemma routes_inv_iff:
  "routes_inv rs \<longleftrightarrow>
     distinct (map r_destination_node rs) \<and> length rs \<le> MAX_ROUTE_TABLE_ENTRIES \<and>
     (\<forall>r\<in>set rs. r_destination_node r \<noteq> zero_node_id)"
  by (simp add: table_inv_def keyed_def)

lemma routes_inv_table: "routes_inv (routes t) \<longleftrightarrow> table_inv t"
  by (simp add: table_inv_def)

lemma same_destination_node:
  "r_destination_node r \<noteq> zero_node_id \<Longrightarrow> r_destination_node a \<noteq> zero_node_id \<Longrightarrow>
     same_destination r a \<longleftrightarrow> r_destination_node r = r_destination_node a"
  by (simp add: same_destination_def)

lemma update_first_same: "find P xs = Some x \<Longrightarrow> update_first P (\<lambda>_. x) xs = xs"
  by (induction xs) (auto split: if_splits)

lemma update_first_found: "find P xs = Some x \<Longrightarrow> update_first P f xs = update_first P (\<lambda>_. f x) xs"
  by (induction xs) (auto split: if_splits)

lemma apply_one_hit:
  assumes inv: "routes_inv rs" and a: "r_destination_node a \<noteq> zero_node_id"
    and "r_destination_node a \<noteq> nb"
    and found: "find (for_node (r_destination_node a)) rs = Some e"
  shows "\<exists>e'. fst (apply_one nb now c (rs, ch) a) =
      update_first (for_node (r_destination_node a)) (\<lambda>_. e') rs \<and>
    r_destination_node e' = r_destination_node a \<and>
    relax nb (candidate_metric c (r_metric a)) (Some (hop e)) = Some (hop e')"
proof -
  let ?P = "for_node (r_destination_node a)"
  let ?m = "candidate_metric c (r_metric a)"
  have hit: "same_destination r a = ?P r" if "r \<in> set rs" for r
    using that inv a by (simp add: routes_inv_iff same_destination_node)
  have find: "find (\<lambda>r. same_destination r a) rs = Some e"
    using found find_cong_set [of rs "\<lambda>r. same_destination r a" ?P] hit by simp
  have update: "update_first (\<lambda>r. same_destination r a) f rs = update_first ?P (\<lambda>_. f e) rs" for f
    using update_first_cong_set [of rs "\<lambda>r. same_destination r a" ?P f] hit
      update_first_found [OF found, of f] by simp
  have e: "r_destination_node e = r_destination_node a" using find_SomeD [OF found] by simp
  note simps = apply_one_def Let_def find update dv_node_id_less_def relax_def hop_def assms(3)
  show ?thesis
  proof (cases "ROUTE_METRIC_INFINITY \<le> ?m")
    case True
    then have m: "?m = ROUTE_METRIC_INFINITY"
      using candidate_metric_le order_antisym by blast
    show ?thesis
    proof (cases "r_next_hop e = nb \<and> r_metric e \<noteq> ROUTE_METRIC_INFINITY")
      case True
      then show ?thesis
        by (intro exI [of _ "e\<lparr>r_metric := ROUTE_METRIC_INFINITY, r_last_update := now\<rparr>"])
          (simp add: simps m e)
    next
      case False
      then show ?thesis
        by (intro exI [of _ e]) (auto simp: simps m e update_first_same [OF found])
    qed
  next
    case False
    let ?new = "route_create (r_destination a) nb ?m now (r_destination_node a)"
    have finite: "?m < ROUTE_METRIC_INFINITY" using False by simp
    let ?better = "?m < r_metric e \<or> (?m = r_metric e \<and> nb < r_next_hop e) \<or> r_next_hop e = nb"
    let ?same = "r_destination e = r_destination a \<and> r_next_hop e = nb \<and> r_metric e = ?m"
    consider (replace) "?better" "\<not> ?same" | (refresh) "?better" "?same" | (keep) "\<not> ?better"
      by blast
    then show ?thesis
    proof cases
      case replace
      then have "fst (apply_one nb now c (rs, ch) a) = update_first ?P (\<lambda>_. ?new) rs"
        using False e by (simp add: simps route_create_def)
      with replace show ?thesis
        using finite by (intro exI [of _ ?new]) (auto simp: relax_def hop_def route_create_def)
    next
      case refresh
      then have "fst (apply_one nb now c (rs, ch) a) =
          update_first ?P (\<lambda>_. e\<lparr>r_last_update := now\<rparr>) rs"
        using False e by (simp add: simps route_create_def)
      with refresh show ?thesis
        by (intro exI [of _ "e\<lparr>r_last_update := now\<rparr>"]) (simp add: relax_def hop_def e)
    next
      case keep
      then have "fst (apply_one nb now c (rs, ch) a) = rs"
        using False e by (auto simp: simps route_create_def)
      with keep show ?thesis
        by (intro exI [of _ e]) (auto simp: relax_def hop_def e update_first_same [OF found])
    qed
  qed
qed

lemma apply_one_miss:
  assumes inv: "routes_inv rs" and a: "r_destination_node a \<noteq> zero_node_id"
    and "r_destination_node a \<noteq> nb"
    and missing: "find (for_node (r_destination_node a)) rs = None"
  shows "fst (apply_one nb now c (rs, ch) a) =
    (if candidate_metric c (r_metric a) < ROUTE_METRIC_INFINITY \<and> length rs < MAX_ROUTE_TABLE_ENTRIES
     then rs @ [route_create (r_destination a) nb (candidate_metric c (r_metric a)) now
       (r_destination_node a)]
     else rs)"
proof -
  have "find (\<lambda>r. same_destination r a) rs = find (for_node (r_destination_node a)) rs"
    by (rule find_cong_set) (use inv a in \<open>simp add: routes_inv_iff same_destination_node\<close>)
  then show ?thesis
    using assms by (auto simp: apply_one_def Let_def not_le)
qed

text \<open>
  One round against the abstract step: the entry's destination is relaxed, unless the table is full
  and has no route for it, and every other destination keeps its route.
\<close>

lemma apply_one_view:
  assumes inv: "routes_inv rs" and a: "r_destination_node a \<noteq> zero_node_id"
    and result: "rs' = fst (apply_one nb now c (rs, ch) a)"
  shows "routes_inv rs' \<and> length rs \<le> length rs' \<and>
    (view rs' d =
       (if r_destination_node a = d \<and> d \<noteq> nb
        then relax nb (candidate_metric c (r_metric a)) (view rs d) else view rs d) \<or>
     no_room rs' d \<and> view rs d = None) \<and>
    (no_room rs d \<longrightarrow> no_room rs' d)"
proof (cases "r_destination_node a = nb")
  case True
  then show ?thesis using inv by (auto simp: result apply_one_def)
next
  case other: False
  show ?thesis
  proof (cases "find (for_node (r_destination_node a)) rs")
    case None
    then have rs': "rs' =
        (if candidate_metric c (r_metric a) < ROUTE_METRIC_INFINITY \<and> length rs < MAX_ROUTE_TABLE_ENTRIES
         then rs @ [route_create (r_destination a) nb (candidate_metric c (r_metric a)) now
           (r_destination_node a)]
         else rs)"
      unfolding result by (intro apply_one_miss inv a other)
    have "length rs \<le> MAX_ROUTE_TABLE_ENTRIES" using inv by (simp add: routes_inv_iff)
    then show ?thesis
      using inv a None other
      by (auto simp: rs' table_inv_def keyed_append_one view_def find_append relax_def hop_def
          route_create_def split: option.splits)
  next
    case (Some e)
    from apply_one_hit [OF inv a other Some] obtain e' where
      rs': "rs' = update_first (for_node (r_destination_node a)) (\<lambda>_. e') rs" and
      e': "r_destination_node e' = r_destination_node a" and
      step: "relax nb (candidate_metric c (r_metric a)) (Some (hop e)) = Some (hop e')"
      unfolding result by blast
    have "keyed MAX_ROUTE_TABLE_ENTRIES r_destination_node rs'"
      using inv unfolding rs' by (intro keyed_update_first) (auto simp: table_inv_def e')
    moreover have "\<forall>r\<in>set rs'. r_destination_node r \<noteq> zero_node_id"
      unfolding rs' by (rule update_first_all) (use inv a e' in \<open>auto simp: routes_inv_iff\<close>)
    moreover have "view rs' d = (if d = r_destination_node a then Some (hop e') else view rs d)"
      using Some e' by (auto simp: rs' view_def find_update_first_same find_update_first_other)
    moreover have "view rs (r_destination_node a) = Some (hop e)"
      by (simp add: view_def Some)
    moreover have "length rs' = length rs" by (simp add: rs')
    ultimately show ?thesis
      using step other by (auto simp: table_inv_def)
  qed
qed

section \<open>The whole update\<close>

definition relax_all ::
  "node_id \<Rightarrow> u32 \<Rightarrow> route list \<Rightarrow> node_id \<Rightarrow> (node_id \<times> u32) option \<Rightarrow> (node_id \<times> u32) option" where
  "relax_all nb c advertised d old =
     foldl (\<lambda>v a. if r_destination_node a = d \<and> d \<noteq> nb
                  then relax nb (candidate_metric c (r_metric a)) v else v) old advertised"


lemma relax_None: "relax nb m v = None \<Longrightarrow> v = None"
  by (auto simp: relax_def split: option.splits if_splits)

lemma apply_all_view:
  assumes "routes_inv rs" and "\<forall>a\<in>set adv. r_destination_node a \<noteq> zero_node_id"
    and "rs' = fst (foldl (apply_one nb now c) (rs, ch) adv)"
  shows "routes_inv rs' \<and> length rs \<le> length rs' \<and>
    (view rs' d = relax_all nb c adv d (view rs d) \<or> no_room rs' d \<and> view rs d = None) \<and>
    (no_room rs d \<longrightarrow> no_room rs' d)"
  using assms
proof (induction adv arbitrary: rs ch)
  case Nil
  then show ?case by (simp add: relax_all_def)
next
  case (Cons a adv)
  obtain rs1 ch1 where one: "apply_one nb now c (rs, ch) a = (rs1, ch1)" by fastforce
  then have rs1: "rs1 = fst (apply_one nb now c (rs, ch) a)" by simp
  have a: "r_destination_node a \<noteq> zero_node_id" using Cons.prems(2) by simp
  from apply_one_view [OF Cons.prems(1) a rs1]
  have inv: "routes_inv rs1" and len: "length rs \<le> length rs1" and
    step: "view rs1 d =
       (if r_destination_node a = d \<and> d \<noteq> nb
        then relax nb (candidate_metric c (r_metric a)) (view rs d) else view rs d) \<or>
      no_room rs1 d \<and> view rs d = None" and
    full: "no_room rs d \<longrightarrow> no_room rs1 d"
    by blast+
  have rest: "rs' = fst (foldl (apply_one nb now c) (rs1, ch1) adv)"
    using Cons.prems(3) one by simp
  from Cons.IH [OF inv _ rest] Cons.prems(2)
  have final: "routes_inv rs'" "length rs1 \<le> length rs'"
    "view rs' d = relax_all nb c adv d (view rs1 d) \<or> no_room rs' d \<and> view rs1 d = None"
    "no_room rs1 d \<longrightarrow> no_room rs' d"
    by simp_all
  have none: "view rs1 d = None \<Longrightarrow> view rs d = None"
    using step relax_None by (metis (lifting))
  from step show ?case
  proof
    assume "view rs1 d =
       (if r_destination_node a = d \<and> d \<noteq> nb
        then relax nb (candidate_metric c (r_metric a)) (view rs d) else view rs d)"
    then have "relax_all nb c adv d (view rs1 d) = relax_all nb c (a # adv) d (view rs d)"
      by (simp add: relax_all_def)
    then show ?thesis
      using final len full none by auto
  next
    assume "no_room rs1 d \<and> view rs d = None"
    then show ?thesis using final len full by auto
  qed
qed

lemma relax_all_distinct:
  "distinct (map r_destination_node adv) \<Longrightarrow> d \<noteq> nb \<Longrightarrow>
     relax_all nb c adv d old =
       (case find (for_node d) adv of
          None \<Rightarrow> old
        | Some a \<Rightarrow> relax nb (candidate_metric c (r_metric a)) old)"
proof (induction adv arbitrary: old)
  case Nil
  then show ?case by (simp add: relax_all_def)
next
  case (Cons a adv)
  have rest: "relax_all nb c (a # adv) d old =
      relax_all nb c adv d (if r_destination_node a = d then relax nb (candidate_metric c (r_metric a)) old
        else old)"
    using Cons.prems by (simp add: relax_all_def)
  show ?case
  proof (cases "r_destination_node a = d")
    case True
    with Cons.prems have "find (for_node d) adv = None"
      by (auto simp: find_None_iff_all rev_image_eqI)
    with Cons True show ?thesis by (simp add: rest)
  next
    case False
    with Cons show ?thesis by (simp add: rest)
  qed
qed

lemma relax_all_neighbor [simp]: "relax_all nb c adv nb old = old"
  by (induction adv arbitrary: old) (auto simp: relax_all_def)

lemma withdrawn_node:
  assumes "r_destination_node r \<noteq> zero_node_id" and "\<forall>a\<in>set adv. r_destination_node a \<noteq> zero_node_id"
  shows "withdrawn nb adv r \<longleftrightarrow>
    r_next_hop r = nb \<and> r_destination_node r \<noteq> nb \<and> find (for_node (r_destination_node r)) adv = None"
  using assms by (auto simp: withdrawn_def list_ex_iff same_destination_node find_None_iff_all)

lemma view_kept:
  assumes "routes_inv rs" and "\<forall>a\<in>set adv. r_destination_node a \<noteq> zero_node_id"
  shows "view (filter (\<lambda>r. \<not> withdrawn nb adv r) rs) d =
    (if d \<noteq> nb \<and> find (for_node d) adv = None then withdraw nb (view rs d) else view rs d)"
proof -
  have "find (for_node d) (filter (\<lambda>r. \<not> withdrawn nb adv r) rs) =
      (case find (for_node d) rs of None \<Rightarrow> None | Some r \<Rightarrow> if \<not> withdrawn nb adv r then Some r else None)"
    using assms(1) by (intro find_filter_key) (simp add: routes_inv_iff)
  moreover have "withdrawn nb adv r \<longleftrightarrow> r_next_hop r = nb \<and> d \<noteq> nb \<and> find (for_node d) adv = None"
    if "find (for_node d) rs = Some r" for r
  proof -
    from find_SomeD [OF that] have "r \<in> set rs" and d: "r_destination_node r = d" by simp_all
    then have "r_destination_node r \<noteq> zero_node_id" using assms(1) by (auto simp: routes_inv_iff)
    from withdrawn_node [OF this assms(2)] show ?thesis by (simp only: d)
  qed
  ultimately show ?thesis
    by (cases "find (for_node d) rs") (simp_all add: view_def withdraw_def hop_def)
qed

lemma routes_inv_filter: "routes_inv rs \<Longrightarrow> routes_inv (filter P rs)"
  by (simp add: table_inv_def keyed_filter)

lemma apply_routes_view:
  assumes "table_inv t" and "\<forall>a\<in>set (ra_routes adv). r_destination_node a \<noteq> zero_node_id"
    and "t' = snd (apply_routes t nb adv now c)"
  shows "table_inv t' \<and>
    (view (routes t') d = relax_all nb c (ra_routes adv) d
       (if d \<noteq> nb \<and> find (for_node d) (ra_routes adv) = None
        then withdraw nb (view (routes t) d) else view (routes t) d) \<or>
     no_room (routes t') d \<and>
       (if d \<noteq> nb \<and> find (for_node d) (ra_routes adv) = None
        then withdraw nb (view (routes t) d) else view (routes t) d) = None)"
proof -
  let ?kept = "filter (\<lambda>r. \<not> withdrawn nb (ra_routes adv) r) (routes t)"
  let ?ch = "length ?kept \<noteq> length (routes t)"
  have t': "routes t' = fst (foldl (apply_one nb now c) (?kept, ?ch) (ra_routes adv))"
    unfolding assms(3) apply_routes_def Let_def case_prod_beta by simp
  have inv: "routes_inv (routes t)" using assms(1) by (simp only: routes_inv_table)
  then have "routes_inv ?kept" by (rule routes_inv_filter)
  note all = apply_all_view [OF this assms(2) t', of d, unfolded view_kept [OF inv assms(2)]]
  show ?thesis
    using all unfolding routes_inv_table by blast
qed

section \<open>Properties\<close>

lemma update_step:
  assumes "table_inv t"
    and "list_all (\<lambda>a. r_destination_node a \<noteq> zero_node_id) (ra_routes adv)"
    and "distinct (map r_destination_node (ra_routes adv))"
  shows "view (routes (snd (apply_routes t nb adv now c))) d =
      bellman_ford nb c (advertised_metric adv) (view (routes t)) d \<or>
    length (routes (snd (apply_routes t nb adv now c))) = 16 \<and>
      view (routes (snd (apply_routes t nb adv now c))) d = None \<and> view (routes t) d = None"
proof -
  have nodes: "\<forall>a\<in>set (ra_routes adv). r_destination_node a \<noteq> zero_node_id"
    using assms(2) by (simp add: list_all_iff)
  note outcome = apply_routes_view [OF assms(1) nodes refl, of nb now c d]
  show ?thesis
  proof (cases "d = nb")
    case True
    with outcome show ?thesis by (auto simp: bellman_ford_def)
  next
    case False
    then show ?thesis
      using outcome assms(3)
      by (cases "find (for_node d) (ra_routes adv)")
        (auto simp: bellman_ford_def advertised_metric_def relax_all_distinct
          MAX_ROUTE_TABLE_ENTRIES_def)
  qed
qed


lemma relax_bounded:
  "relax nb k old = Some (h, m) \<Longrightarrow> k \<le> ROUTE_METRIC_INFINITY \<Longrightarrow>
     (\<And>h m. old = Some (h, m) \<Longrightarrow> m \<le> ROUTE_METRIC_INFINITY) \<Longrightarrow> m \<le> ROUTE_METRIC_INFINITY"
  by (cases old) (auto simp: relax_def split: if_splits prod.splits)

lemma relax_all_bounded:
  assumes "\<And>h m. old = Some (h, m) \<Longrightarrow> m \<le> ROUTE_METRIC_INFINITY"
  shows "relax_all nb c adv d old = Some (h, m) \<Longrightarrow> m \<le> ROUTE_METRIC_INFINITY"
  using assms
proof (induction adv arbitrary: old)
  case Nil
  then show ?case by (auto simp: relax_all_def)
next
  case (Cons a adv)
  let ?old = "if r_destination_node a = d \<and> d \<noteq> nb
    then relax nb (candidate_metric c (r_metric a)) old else old"
  from Cons.prems(1) have "relax_all nb c adv d ?old = Some (h, m)" by (simp add: relax_all_def)
  moreover have "m' \<le> ROUTE_METRIC_INFINITY" if "?old = Some (h', m')" for h' m'
    using that Cons.prems(2) relax_bounded [OF _ candidate_metric_le, of nb c "r_metric a" old h' m']
    by (simp split: if_splits)
  ultimately show ?case by (rule Cons.IH)
qed

definition metrics_bounded :: "route_table \<Rightarrow> bool" where
  "metrics_bounded t \<longleftrightarrow> list_all (\<lambda>r. r_metric r \<le> ROUTE_METRIC_INFINITY) (routes t)"

lemma metrics_bounded_view:
  assumes "table_inv t"
  shows "metrics_bounded t \<longleftrightarrow> (\<forall>d h m. view (routes t) d = Some (h, m) \<longrightarrow> m \<le> ROUTE_METRIC_INFINITY)"
proof -
  have "find (for_node d) (routes t) = Some r \<longleftrightarrow> r \<in> set (routes t) \<and> r_destination_node r = d" for d r
    using assms by (intro find_key_eq_Some) (simp add: table_inv_def keyed_def)
  then have hops: "view (routes t) d = Some (h, m) \<longleftrightarrow>
      (\<exists>r\<in>set (routes t). r_destination_node r = d \<and> r_next_hop r = h \<and> r_metric r = m)" for d h m
    by (auto simp: view_def hop_def)
  then show ?thesis
    unfolding metrics_bounded_def list_all_iff hops by blast
qed


text \<open>
  C24. Poison reverse excludes two-node loops. When \<open>n\<close> processes the advertisement that its
  neighbour \<open>m\<close> made for it, every usable route of \<open>n\<close> through \<open>m\<close> (to anything but \<open>m\<close> itself) is
  backed by a route of \<open>m\<close> that does not lead back to \<open>n\<close>, and costs exactly the link more.
\<close>

theorem poison_reverse_no_two_node_loop:
  assumes "table_inv tn" and "table_inv tm" and "d \<noteq> m"
    and "view (routes (snd (apply_routes tn m
           (route_create_advertisement m tm seq (Some n) PoisonReverse gen) now c))) d = Some (m, k)"
    and "k < ROUTE_METRIC_INFINITY"
  shows "\<exists>r. routing_find_route tm d = Some r \<and> r_next_hop r \<noteq> n \<and> unat k = unat c + unat (r_metric r)"
proof -
  let ?adv = "route_create_advertisement m tm seq (Some n) PoisonReverse gen"
  have adv: "ra_routes ?adv = advertised_routes (Some n) PoisonReverse (routes tm)"
    by (simp add: route_create_advertisement_def)
  have nodes: "list_all (\<lambda>a. r_destination_node a \<noteq> zero_node_id) (ra_routes ?adv)"
    and dist: "distinct (map r_destination_node (ra_routes ?adv))"
    using assms(2) unfolding adv advertised_routes_poison
    by (auto simp: list_all_iff table_inv_def keyed_def comp_def if_distrib cong: if_cong)
  from update_step [OF assms(1) nodes dist, of m now c d]
  have step: "bellman_ford m c (advertised_metric ?adv) (view (routes tn)) d = Some (m, k)"
    using assms(4) by auto
  show ?thesis
  proof (cases "routing_find_route tm d")
    case None
    with step assms(3) show ?thesis
      by (auto simp: bellman_ford_def advertised_metric_def adv find_advertised_poison
          routing_find_route_def withdraw_def split: option.splits if_splits)
  next
    case (Some r)
    let ?metric = "if r_next_hop r = n then ROUTE_METRIC_INFINITY else r_metric r"
    have "advertised_metric ?adv d = Some ?metric"
      using Some by (auto simp: advertised_metric_def adv find_advertised_poison routing_find_route_def)
    with step assms(3) have "k = candidate_metric c ?metric"
      by (auto simp: bellman_ford_def relax_def split: option.splits if_splits)
    then have k: "unat k = min 16 (unat c + unat ?metric)" by (simp add: candidate_metric_unat)
    moreover have "unat k < 16"
      using assms(5) by (simp add: word_less_nat_alt ROUTE_METRIC_INFINITY_def)
    ultimately have "r_next_hop r \<noteq> n" and "unat k = unat c + unat (r_metric r)"
      by (auto simp: ROUTE_METRIC_INFINITY_def split: if_splits)
    with Some show ?thesis by blast
  qed
qed

text \<open>
  An advertisement speaks for its sender only: it never changes the route to the sender itself,
  and it replaces a route through another neighbour only by one that is strictly preferred.
\<close>

theorem update_speaks_for_its_sender:
  assumes "table_inv t"
    and "list_all (\<lambda>a. r_destination_node a \<noteq> zero_node_id) (ra_routes adv)"
    and "distinct (map r_destination_node (ra_routes adv))"
    and "view (routes t) d = Some (h, m)" and "h \<noteq> nb \<or> d = nb"
  shows "view (routes (snd (apply_routes t nb adv now c))) d = Some (h, m) \<or>
    d \<noteq> nb \<and> (\<exists>m' < ROUTE_METRIC_INFINITY. (m', nb) < (m, h) \<and>
      view (routes (snd (apply_routes t nb adv now c))) d = Some (nb, m'))"
proof -
  have "view (routes (snd (apply_routes t nb adv now c))) d =
      bellman_ford nb c (advertised_metric adv) (view (routes t)) d"
    using update_step [OF assms(1-3), of nb now c d] assms(4) by auto
  also have "\<dots> = Some (h, m) \<or> d \<noteq> nb \<and> (\<exists>m' < ROUTE_METRIC_INFINITY. (m', nb) < (m, h) \<and>
      bellman_ford nb c (advertised_metric adv) (view (routes t)) d = Some (nb, m'))"
    using assms(4,5)
    by (cases "advertised_metric adv d") (auto simp: bellman_ford_def withdraw_def relax_def)
  finally show ?thesis by simp
qed

section \<open>Replay protection\<close>

text \<open>The advertisements of all neighbours in order of arrival; the run yields those accepted.\<close>

definition version :: "route_advertisement \<Rightarrow> u64 \<times> u64" where
  "version adv = (ra_generation adv, ra_sequence_number adv)"

definition origin_version :: "route_origin_state \<Rightarrow> u64 \<times> u64" where
  "origin_version s = (o_generation s, o_sequence s)"

fun dv_run ::
  "route_table \<Rightarrow> route_origin_states option \<Rightarrow> (node_id \<times> route_advertisement \<times> u64 \<times> u32) list \<Rightarrow>
     route_advertisement list" where
  "dv_run t states [] = []"
| "dv_run t states ((neighbor, adv, now, cost) # rest) =
     (let (r, states') = distance_vector_update t neighbor adv now cost states
      in if dv_accepted r then adv # dv_run (dv_table r) states' rest
         else dv_run (dv_table r) states' rest)"

lemma distance_vector_update_states:
  "distance_vector_update t nb adv now c (Some states) =
     (if ra_sender adv = nb \<and>
         (case states (ra_sender adv) of None \<Rightarrow> True | Some l \<Rightarrow> origin_version l < version adv)
      then (\<lparr>dv_accepted = True, dv_changed = fst (apply_routes t nb adv now c),
             dv_table = snd (apply_routes t nb adv now c)\<rparr>,
            Some (states(nb \<mapsto> \<lparr>o_generation = ra_generation adv, o_sequence = ra_sequence_number adv\<rparr>)))
      else (\<lparr>dv_accepted = False, dv_changed = False, dv_table = t\<rparr>, Some states))"
proof -
  have "ra_generation adv < o_generation l \<or>
      (ra_generation adv = o_generation l \<and> ra_sequence_number adv \<le> o_sequence l) \<longleftrightarrow>
      \<not> origin_version l < version adv" for l
    by (auto simp: origin_version_def version_def not_less)
  then show ?thesis
    by (auto simp: distance_vector_update_def Let_def split: option.splits prod.splits)
qed

text \<open>The versions accepted from \<open>s\<close> so far end below everything accepted later.\<close>

lemma dv_run_increasing:
  "sorted_wrt (<) (map version (filter (\<lambda>a. ra_sender a = s) (dv_run t (Some states) msgs))) \<and>
   (\<forall>l. states s = Some l \<longrightarrow>
      (\<forall>a\<in>set (dv_run t (Some states) msgs). ra_sender a = s \<longrightarrow> origin_version l < version a))"
proof (induction msgs arbitrary: t states)
  case Nil
  then show ?case by simp
next
  case (Cons msg msgs)
  obtain nb adv now c where msg: "msg = (nb, adv, now, c)" by (cases msg)
  let ?new = "\<lparr>o_generation = ra_generation adv, o_sequence = ra_sequence_number adv\<rparr>"
  have new: "origin_version ?new = version adv" by (simp add: origin_version_def version_def)
  show ?case
  proof (cases "ra_sender adv = nb \<and>
      (case states (ra_sender adv) of None \<Rightarrow> True | Some l \<Rightarrow> origin_version l < version adv)")
    case False
    then have "distance_vector_update t nb adv now c (Some states) =
        (\<lparr>dv_accepted = False, dv_changed = False, dv_table = t\<rparr>, Some states)"
      by (simp only: distance_vector_update_states if_False)
    with Cons.IH [of t states] show ?thesis by (simp add: msg)
  next
    case True
    let ?t' = "snd (apply_routes t nb adv now c)"
    have "distance_vector_update t nb adv now c (Some states) =
        (\<lparr>dv_accepted = True, dv_changed = fst (apply_routes t nb adv now c), dv_table = ?t'\<rparr>,
         Some (states(nb \<mapsto> ?new)))"
      unfolding distance_vector_update_states by (rule if_P) (fact True)
    then have run: "dv_run t (Some states) (msg # msgs) =
        adv # dv_run ?t' (Some (states(nb \<mapsto> ?new))) msgs"
      by (simp add: msg)
    define later where "later = dv_run ?t' (Some (states(nb \<mapsto> ?new))) msgs"
    from Cons.IH [of ?t' "states(nb \<mapsto> ?new)"]
    have sorted: "sorted_wrt (<) (map version (filter (\<lambda>a. ra_sender a = s) later))"
      and above: "(states(nb \<mapsto> ?new)) s = Some l \<Longrightarrow> a \<in> set later \<Longrightarrow> ra_sender a = s \<Longrightarrow>
        origin_version l < version a" for l a
      unfolding later_def by blast+
    have "version adv < version a" if "nb = s" "a \<in> set later" "ra_sender a = s" for a
      using above [of ?new a] that new by simp
    moreover have "origin_version l < version a"
      if "nb \<noteq> s" "states s = Some l" "a \<in> set later" "ra_sender a = s" for l a
      using above [of l a] that by simp
    ultimately show ?thesis
      using sorted True unfolding run later_def [symmetric]
      by (cases "nb = s") (auto intro: order.strict_trans)
  qed
qed

text \<open>
  C27. Route replay protection: over any run of updates, the advertisements accepted from one sender
  carry strictly increasing (generation, sequence number) pairs, in lexicographic order, all above the
  pair recorded before the run. So no advertisement is accepted twice, and a restarted sender, whose
  generation is larger, is accepted whatever its sequence number.
\<close>

theorem accepted_versions_increase:
  "sorted_wrt (<) (map version (filter (\<lambda>a. ra_sender a = s) (dv_run t (Some states) msgs))) \<and>
   list_all (\<lambda>a. case states (ra_sender a) of None \<Rightarrow> True | Some l \<Rightarrow> origin_version l < version a)
     (dv_run t (Some states) msgs)"
proof
  show "sorted_wrt (<) (map version (filter (\<lambda>a. ra_sender a = s) (dv_run t (Some states) msgs)))"
    using dv_run_increasing by blast
  show "list_all (\<lambda>a. case states (ra_sender a) of None \<Rightarrow> True | Some l \<Rightarrow> origin_version l < version a)
     (dv_run t (Some states) msgs)"
    using dv_run_increasing [where t = t and states = states and msgs = msgs]
    by (auto simp: list_all_iff split: option.split)
qed

section \<open>The changed flag\<close>

definition forwarding_data :: "route \<Rightarrow> ipv6 \<times> node_id \<times> node_id \<times> u32" where
  "forwarding_data r = (r_destination r, r_destination_node r, r_next_hop r, r_metric r)"

lemma apply_one_flag:
  "snd (apply_one nb now c (rs, ch) a) = False \<Longrightarrow>
     ch = False \<and> map forwarding_data (fst (apply_one nb now c (rs, ch) a)) = map forwarding_data rs"
proof -
  have "map forwarding_data (update_first P (\<lambda>e. e\<lparr>r_last_update := now\<rparr>) rs) = map forwarding_data rs"
    for P
    by (rule map_update_first_same) (simp add: forwarding_data_def)
  then show "snd (apply_one nb now c (rs, ch) a) = False \<Longrightarrow> ?thesis"
    by (auto simp: apply_one_def Let_def split: if_splits option.splits)
qed

lemma apply_all_flag:
  "snd (foldl (apply_one nb now c) (rs, ch) adv) = False \<Longrightarrow>
     ch = False \<and> map forwarding_data (fst (foldl (apply_one nb now c) (rs, ch) adv)) =
       map forwarding_data rs"
proof (induction adv arbitrary: rs ch)
  case Nil
  then show ?case by simp
next
  case (Cons a adv)
  obtain rs1 ch1 where one: "apply_one nb now c (rs, ch) a = (rs1, ch1)" by fastforce
  with Cons.prems have "snd (foldl (apply_one nb now c) (rs1, ch1) adv) = False" by simp
  from Cons.IH [OF this] have "ch1 = False" and
    "map forwarding_data (fst (foldl (apply_one nb now c) (rs1, ch1) adv)) = map forwarding_data rs1"
    by blast+
  with one apply_one_flag [of nb now c rs ch a] show ?case by simp
qed

text \<open>
  The flag that lets the daemon skip rebuilding its table is sound: when the update reports no
  change, every route has the destination, the next hop and the metric it had; only the time of the
  last refresh can differ.
\<close>

theorem unchanged_flag_is_sound:
  assumes "\<not> dv_changed (fst (distance_vector_update t nb adv now c states))"
  shows "map forwarding_data (routes (dv_table (fst (distance_vector_update t nb adv now c states)))) =
    map forwarding_data (routes t)"
proof -
  let ?kept = "filter (\<lambda>r. \<not> withdrawn nb (ra_routes adv) r) (routes t)"
  have "map forwarding_data (routes (snd (apply_routes t nb adv now c))) = map forwarding_data (routes t)"
    if "fst (apply_routes t nb adv now c) = False"
  proof -
    from that have
      "snd (foldl (apply_one nb now c) (?kept, length ?kept \<noteq> length (routes t)) (ra_routes adv)) = False"
      by (simp only: apply_routes_def Let_def case_prod_beta fst_conv)
    note flag = apply_all_flag [OF this]
    then have kept: "?kept = routes t" by (intro filter_same_length) blast
    have "routes (snd (apply_routes t nb adv now c)) =
        fst (foldl (apply_one nb now c) (?kept, length ?kept \<noteq> length (routes t)) (ra_routes adv))"
      by (simp only: apply_routes_def Let_def case_prod_beta) simp
    then have "map forwarding_data (routes (snd (apply_routes t nb adv now c))) =
        map forwarding_data ?kept"
      by (simp only: conjunct2 [OF flag])
    then show ?thesis by (simp only: kept)
  qed
  with assms show ?thesis
    by (auto simp: distance_vector_update_def Let_def split: if_splits option.splits prod.splits)
qed

section \<open>Witnesses\<close>

definition sample_advertisement :: route_advertisement where
  "sample_advertisement =
     \<lparr>ra_sender = sample_node 3, ra_generation = 1, ra_sequence_number = 7,
      ra_routes = [sample_route 2 5 1 0, sample_route 4 5 15 0]\<rparr>"

lemma sample_advertisement_simps [simp]:
  "ra_sender sample_advertisement = sample_node 3"
  "ra_routes sample_advertisement = [sample_route 2 5 1 0, sample_route 4 5 15 0]"
  "list_all (\<lambda>a. r_destination_node a \<noteq> zero_node_id) (ra_routes sample_advertisement)"
  "distinct (map r_destination_node (ra_routes sample_advertisement))"
  by (simp_all add: sample_advertisement_def)

lemma candidate_metric_sample [simp]:
  "candidate_metric 1 1 = 2" "candidate_metric 1 3 = 4" "candidate_metric 1 15 = 16"
  "candidate_metric 1 16 = 16"
  by (simp_all add: word_unat_eq_iff candidate_metric_unat)

lemma view_sample_table:
  "view (routes sample_table) (sample_node 2) = Some (sample_node 1, 3)"
  "view (routes sample_table) (sample_node 1) = Some (sample_node 1, 1)"
  "view (routes sample_table) (sample_node 4) = None"
  by (simp_all add: view_def sample_table_def hop_def)

lemma metrics_bounded_sample: "metrics_bounded sample_table"
  by (simp add: metrics_bounded_def sample_table_def ROUTE_METRIC_INFINITY_def)

lemma validate_sample:
  "validate_route_advertisement sample_advertisement (0xfd # replicate 15 0) = Inr ()"
  by (simp add: validate_route_advertisement_def ROUTE_METRIC_INFINITY_def
      MAX_ROUTE_TABLE_ENTRIES_def)



theorem update_speaks_for_its_sender_witness:
  "view (routes (snd (apply_routes sample_table (sample_node 3) sample_advertisement 50 1)))
     (sample_node 1) = Some (sample_node 1, 1)"
proof -
  have "advertised_metric sample_advertisement (sample_node 1) = None"
    by (simp add: advertised_metric_def)
  then have "view (routes (snd (apply_routes sample_table (sample_node 3) sample_advertisement 50 1)))
      (sample_node 1) \<noteq> Some (sample_node 3, m)" for m
    using update_step [OF table_inv_sample sample_advertisement_simps(3,4),
        of "sample_node 3" 50 1 "sample_node 1"]
    by (auto simp: bellman_ford_def withdraw_def view_sample_table)
  with update_speaks_for_its_sender [OF table_inv_sample sample_advertisement_simps(3,4)
      view_sample_table(2), of "sample_node 3" 50 1]
  show ?thesis by auto
qed

text \<open>Node 9 processes what node 1 advertises to it from \<open>sample_table\<close>.\<close>

theorem poison_reverse_no_two_node_loop_witness:
  "\<exists>r. routing_find_route sample_table (sample_node 2) = Some r \<and> r_next_hop r \<noteq> sample_node 9 \<and>
     unat (4 :: u32) = unat (1 :: u32) + unat (r_metric r)"
proof (rule poison_reverse_no_two_node_loop
    [where tn = "\<lparr>routes = []\<rparr>" and tm = sample_table and d = "sample_node 2" and m = "sample_node 7"
      and seq = 1 and gen = 1 and now = 0])
  show "table_inv \<lparr>routes = []\<rparr>" by (simp add: table_inv_def)
  show "view (routes (snd (apply_routes \<lparr>routes = []\<rparr> (sample_node 7)
      (route_create_advertisement (sample_node 7) sample_table 1 (Some (sample_node 9)) PoisonReverse 1)
      0 1))) (sample_node 2) = Some (sample_node 7, 4)"
    by (simp add: apply_routes_def apply_one_def route_create_advertisement_def sample_table_def
        same_destination_node Let_def ROUTE_METRIC_INFINITY_def MAX_ROUTE_TABLE_ENTRIES_def view_def
        hop_def route_create_def)
qed (simp_all add: table_inv_sample ROUTE_METRIC_INFINITY_def)

theorem unchanged_flag_is_sound_witness:
  "map forwarding_data (routes (dv_table (fst (distance_vector_update sample_table (sample_node 8)
     \<lparr>ra_sender = sample_node 8, ra_generation = 1, ra_sequence_number = 1, ra_routes = []\<rparr> 50 1 None)))) =
   map forwarding_data (routes sample_table)"
proof (rule unchanged_flag_is_sound)
  show "\<not> dv_changed (fst (distance_vector_update sample_table (sample_node 8)
     \<lparr>ra_sender = sample_node 8, ra_generation = 1, ra_sequence_number = 1, ra_routes = []\<rparr> 50 1 None))"
    by (simp add: distance_vector_update_def apply_routes_def withdrawn_def sample_table_def)
qed

end
