(* ===== verification/Wire.thy ===== *)
theory Wire
  imports Prelude
begin

text \<open>
  Big-endian integers, bounds-checked reads from a span, and the interfaces that the wire formats
  of the program implement. The helpers \<open>write_u16_be\<close> .. \<open>read_u64_be\<close> are those of
  \<open>src/network/serialization.cpp\<close>; they agree with the generic \<open>be_bytes\<close> and \<open>be_value\<close>, on which
  the round trips are proved once for every width. The locales \<open>wire_codec\<close> (a message that fills
  its buffer) and \<open>prefix_codec\<close> (an item that a reader consumes from the front of a longer buffer)
  are the contracts between the message formats and their users.
\<close>

named_theorems wire \<open>lengths, reads and round trips of wire fields\<close>

section \<open>Generic big-endian integers\<close>

definition be_bytes :: "nat \<Rightarrow> 'a::len word \<Rightarrow> byte list" where
  "be_bytes n v = map (\<lambda>i. ucast (drop_bit (i * 8) v AND 0xFF)) (rev [0..<n])"

definition be_value :: "byte list \<Rightarrow> 'a::len word" where
  "be_value p = fold (\<lambda>b v. push_bit 8 v OR ucast b) p 0"

lemma and_ff: "(x::'a::len word) AND 0xFF = take_bit 8 x"
  by (simp add: take_bit_eq_mask mask_eq_exp_minus_1)

lemma ucast_and_ff: "ucast ((x::'a::len word) AND 0xFF) = (ucast x :: byte)"
  by (rule bit_word_eqI) (auto simp: and_ff bit_simps)

lemma length_be_bytes [simp]: "length (be_bytes n v) = n"
  by (simp add: be_bytes_def)

lemma be_bytes_0: "be_bytes 0 v = []"
  by (simp add: be_bytes_def)

lemma be_bytes_Suc: "be_bytes (Suc n) v = be_bytes n (drop_bit 8 v) @ [ucast v]"
proof -
  have "rev [0..<Suc n] = map Suc (rev [0..<n]) @ [0]"
    by (simp add: upt_conv_Cons rev_map map_Suc_upt [symmetric] del: upt_Suc)
  then show ?thesis
    by (simp add: be_bytes_def ucast_and_ff del: upt_Suc) (simp add: add.commute)
qed

lemma be_value_snoc: "be_value (p @ [b]) = push_bit 8 (be_value p) OR ucast b"
  by (simp add: be_value_def)

lemma be_value_bytes: "be_value (be_bytes n v) = take_bit (8 * n) v"
proof (induction n arbitrary: v)
  case 0
  show ?case by (simp add: be_bytes_0 be_value_def)
next
  case (Suc n)
  show ?case
    unfolding be_bytes_Suc be_value_snoc Suc
    by (rule bit_word_eqI) (auto simp: bit_simps)
qed

lemma bit_be_value: "bit (be_value p :: 'a::len word) k \<Longrightarrow> k < 8 * length p"
proof (induction p arbitrary: k rule: rev_induct)
  case Nil
  then show ?case by (simp add: be_value_def)
next
  case (snoc b p)
  then show ?case
    by (fastforce simp: be_value_snoc bit_simps dest: bit_imp_le_length)
qed

lemma be_bytes_value:
  "8 * length p \<le> LENGTH('a) \<Longrightarrow> be_bytes (length p) (be_value p :: 'a::len word) = p"
proof (induction p rule: rev_induct)
  case Nil
  then show ?case by (simp add: be_bytes_0)
next
  case (snoc b p)
  let ?v = "be_value p :: 'a word"
  have "drop_bit 8 (push_bit 8 ?v OR ucast b) = ?v"
    using snoc.prems bit_be_value [of p, where 'a = 'a]
    by (intro bit_word_eqI) (fastforce simp: bit_simps dest: bit_imp_le_length)
  moreover have "(ucast (push_bit 8 ?v OR ucast b) :: byte) = b"
    using snoc.prems by (intro bit_word_eqI) (auto simp: bit_simps dest: bit_imp_le_length)
  ultimately show ?case
    using snoc by (simp add: be_bytes_Suc be_value_snoc)
qed

section \<open>The integer helpers of the serialisers\<close>

definition write_u16_be :: "u16 \<Rightarrow> byte list" where
  "write_u16_be v = [ucast (drop_bit 8 v AND 0xFF), ucast (v AND 0xFF)]"

definition write_u32_be :: "u32 \<Rightarrow> byte list" where
  "write_u32_be v =
     [ucast (drop_bit 24 v AND 0xFF), ucast (drop_bit 16 v AND 0xFF),
      ucast (drop_bit 8 v AND 0xFF), ucast (v AND 0xFF)]"

definition write_u64_be :: "u64 \<Rightarrow> byte list" where
  "write_u64_be v = map (\<lambda>i. ucast (drop_bit (i * 8) v AND 0xFF)) (rev [0..<8])"

definition u16_of :: "byte list \<Rightarrow> u16" where
  "u16_of p = push_bit 8 (ucast (p ! 0)) OR ucast (p ! 1)"

definition u32_of :: "byte list \<Rightarrow> u32" where
  "u32_of p = push_bit 24 (ucast (p ! 0)) OR push_bit 16 (ucast (p ! 1)) OR
     push_bit 8 (ucast (p ! 2)) OR ucast (p ! 3)"

definition u64_of :: "byte list \<Rightarrow> u64" where
  "u64_of p = fold (\<lambda>i v. push_bit 8 v OR ucast (p ! i)) [0..<8] 0"

lemma write_be_generic:
  "write_u16_be v = be_bytes 2 v" "write_u32_be w = be_bytes 4 w" "write_u64_be x = be_bytes 8 x"
  by (simp_all add: write_u16_be_def write_u32_be_def write_u64_be_def be_bytes_def upt_rec
      numeral_eq_Suc)

lemma of_be_generic:
  "length p = 2 \<Longrightarrow> u16_of p = be_value p"
  "length q = 4 \<Longrightarrow> u32_of q = be_value q"
  "length r = 8 \<Longrightarrow> u64_of r = be_value r"
proof -
  show "length p = 2 \<Longrightarrow> u16_of p = be_value p"
    by (auto simp: u16_of_def be_value_def length_Suc_conv numeral_2_eq_2)
  show "u32_of q = be_value q" if "length q = 4"
  proof -
    from that obtain a b c d where "q = [a, b, c, d]"
      by (auto simp: length_Suc_conv numeral_eq_Suc)
    then show ?thesis
      by (simp add: u32_of_def be_value_def push_bit_or or.assoc)
  qed
  show "u64_of r = be_value r" if "length r = 8"
  proof -
    have "(be_value r :: u64) = fold (\<lambda>b v. push_bit 8 v OR ucast b) (map ((!) r) [0..<8]) 0"
      using map_nth [of r] that by (simp add: be_value_def)
    then show ?thesis by (simp add: u64_of_def fold_map comp_def)
  qed
qed

lemma length_write_be [simp, wire]:
  "length (write_u16_be v) = 2" "length (write_u32_be w) = 4" "length (write_u64_be x) = 8"
  by (simp_all add: write_be_generic)

lemma of_write_be [simp, wire]:
  "u16_of (write_u16_be v) = v" "u32_of (write_u32_be w) = w" "u64_of (write_u64_be x) = x"
proof -
  show "u16_of (write_u16_be v) = v"
    by (simp add: of_be_generic) (simp add: write_be_generic be_value_bytes take_bit_word_eq_self)
  show "u32_of (write_u32_be w) = w"
    by (simp add: of_be_generic) (simp add: write_be_generic be_value_bytes take_bit_word_eq_self)
  show "u64_of (write_u64_be x) = x"
    by (simp add: of_be_generic) (simp add: write_be_generic be_value_bytes take_bit_word_eq_self)
qed

lemma write_of_be [wire]:
  "length p = 2 \<Longrightarrow> write_u16_be (u16_of p) = p"
  "length q = 4 \<Longrightarrow> write_u32_be (u32_of q) = q"
  "length r = 8 \<Longrightarrow> write_u64_be (u64_of r) = r"
proof -
  show "length p = 2 \<Longrightarrow> write_u16_be (u16_of p) = p"
    using be_bytes_value [of p, where 'a = 16] by (simp add: of_be_generic write_be_generic)
  show "length q = 4 \<Longrightarrow> write_u32_be (u32_of q) = q"
    using be_bytes_value [of q, where 'a = 32] by (simp add: of_be_generic write_be_generic)
  show "length r = 8 \<Longrightarrow> write_u64_be (u64_of r) = r"
    using be_bytes_value [of r, where 'a = 64] by (simp add: of_be_generic write_be_generic)
qed

section \<open>Bounds-checked reads\<close>

text \<open>\<open>None\<close> is a read past the end of the span.\<close>

definition read_bytes :: "byte list \<Rightarrow> nat \<Rightarrow> nat \<Rightarrow> byte list option" where
  "read_bytes data off n =
     (if off + n \<le> length data then Some (take n (drop off data)) else None)"

definition read_u8 :: "byte list \<Rightarrow> nat \<Rightarrow> u8 option" where
  "read_u8 data off = (if off < length data then Some (data ! off) else None)"

definition read_u16_be :: "byte list \<Rightarrow> nat \<Rightarrow> u16 option" where
  "read_u16_be data off = map_option u16_of (read_bytes data off 2)"

definition read_u32_be :: "byte list \<Rightarrow> nat \<Rightarrow> u32 option" where
  "read_u32_be data off = map_option u32_of (read_bytes data off 4)"

definition read_u64_be :: "byte list \<Rightarrow> nat \<Rightarrow> u64 option" where
  "read_u64_be data off = map_option u64_of (read_bytes data off 8)"

lemmas read_int_defs = read_u16_be_def read_u32_be_def read_u64_be_def

lemma read_bytes_in_range [wire]:
  "off + n \<le> length data \<Longrightarrow> read_bytes data off n = Some (take n (drop off data))"
  by (simp add: read_bytes_def)

lemma read_bytes_eq_Some:
  "read_bytes data off n = Some x \<longleftrightarrow> off + n \<le> length data \<and> x = take n (drop off data)"
  by (auto simp: read_bytes_def)

lemma read_bytes_skip [wire]:
  "length a \<le> off \<Longrightarrow> read_bytes (a @ b) off n = read_bytes b (off - length a) n"
  by (auto simp: read_bytes_def)

lemma read_bytes_skip_Cons [wire]:
  "0 < off \<Longrightarrow> read_bytes (x # b) off n = read_bytes b (off - 1) n"
  by (cases off) (auto simp: read_bytes_def)

lemma read_bytes_here [wire]:
  "length a = n \<Longrightarrow> read_bytes (a @ b) 0 n = Some a"
  "length a = n \<Longrightarrow> read_bytes a 0 n = Some a"
  by (auto simp: read_bytes_def)

lemma read_u8_simps [wire]:
  "read_u8 (x # b) 0 = Some x"
  "0 < off \<Longrightarrow> read_u8 (x # b) off = read_u8 b (off - 1)"
  "length a \<le> off \<Longrightarrow> read_u8 (a @ b) off = read_u8 b (off - length a)"
  by (auto simp: read_u8_def nth_append)

lemma read_u8_in_range [wire]: "off < length data \<Longrightarrow> read_u8 data off = Some (data ! off)"
  by (simp add: read_u8_def)

lemma read_u16_eq_Some:
  "read_u16_be data off = Some v \<longleftrightarrow> off + 2 \<le> length data \<and> v = u16_of (take 2 (drop off data))"
  by (auto simp: read_int_defs read_bytes_def)

lemma read_u32_eq_Some:
  "read_u32_be data off = Some w \<longleftrightarrow> off + 4 \<le> length data \<and> w = u32_of (take 4 (drop off data))"
  by (auto simp: read_int_defs read_bytes_def)

lemma read_u64_eq_Some:
  "read_u64_be data off = Some x \<longleftrightarrow> off + 8 \<le> length data \<and> x = u64_of (take 8 (drop off data))"
  by (auto simp: read_int_defs read_bytes_def)

lemma read_u8_eq_Some: "read_u8 data off = Some v \<longleftrightarrow> off < length data \<and> v = data ! off"
  by (auto simp: read_u8_def)

lemmas read_eq_Some =
  read_bytes_eq_Some read_u8_eq_Some read_u16_eq_Some read_u32_eq_Some read_u64_eq_Some

text \<open>Consecutive segments of a buffer, glued back together.\<close>

lemma segment_glue [wire]: "off' = off + n \<Longrightarrow> take n (drop off xs) @ drop off' xs = drop off xs"
  by (simp add: add.commute flip: drop_drop)

lemma segment_glue_Cons [wire]:
  "off < length xs \<Longrightarrow> off' = Suc off \<Longrightarrow> xs ! off # drop off' xs = drop off xs"
  by (simp add: Cons_nth_drop_Suc)

lemma segment_glue_prefix [wire]: "take n xs @ drop n xs = xs"
  by simp

lemma segment_last [wire]: "length xs = off + n \<Longrightarrow> take n (drop off xs) = drop off xs"
  by simp

section \<open>Text on the wire\<close>

definition byte_of_char :: "char \<Rightarrow> byte" where
  "byte_of_char c = of_nat (of_char c)"

definition char_of_byte :: "byte \<Rightarrow> char" where
  "char_of_byte b = char_of (unat b)"

definition bytes_of_string :: "string \<Rightarrow> byte list" where
  "bytes_of_string s = map byte_of_char s"

definition string_of_bytes :: "byte list \<Rightarrow> string" where
  "string_of_bytes bs = map char_of_byte bs"

lemma of_char_less: "(of_char c :: nat) < 256"
proof -
  have "(of_char c :: nat) = of_char (char_of (of_char c :: nat))"
    by (simp only: char_of_char)
  also have "\<dots> = of_char c mod 256"
    by (simp only: of_char_of)
  finally show ?thesis by (metis mod_less_divisor zero_less_numeral)
qed

lemma char_of_byte_of_char [simp]: "char_of_byte (byte_of_char c) = c"
  by (simp add: char_of_byte_def byte_of_char_def unat_of_nat of_char_less)

lemma byte_of_char_of_byte [simp]: "byte_of_char (char_of_byte b) = b"
proof -
  have "unat b mod 256 = unat b" using unsigned_less [of b, where 'a = nat] by simp
  then show ?thesis by (simp add: char_of_byte_def byte_of_char_def)
qed

lemma length_string_bytes [simp, wire]:
  "length (bytes_of_string s) = length s" "length (string_of_bytes bs) = length bs"
  by (simp_all add: bytes_of_string_def string_of_bytes_def)

lemma string_bytes_inverse [simp, wire]:
  "string_of_bytes (bytes_of_string s) = s" "bytes_of_string (string_of_bytes bs) = bs"
  by (simp_all add: bytes_of_string_def string_of_bytes_def comp_def)

lemma bytes_of_string_eq_iff [simp]: "bytes_of_string s = bytes_of_string t \<longleftrightarrow> s = t"
  by (metis string_bytes_inverse(1))

section \<open>The contract of a message format\<close>

text \<open>
  \<open>enc\<close> and \<open>dec\<close> are the serialiser and the deserialiser of one message, \<open>ok\<close> the values that the
  program may send. The laws: what is sent is what is received, no read leaves the buffer, and only
  sendable values are ever received.
\<close>

locale wire_codec =
  fixes enc :: "'a \<Rightarrow> byte list"
    and dec :: "byte list \<Rightarrow> fault + 'a"
    and ok :: "'a \<Rightarrow> bool"
  assumes dec_enc: "ok x \<Longrightarrow> dec (enc x) = Inr x"
    and in_bounds: "dec data \<noteq> Inl OutOfBounds"
    and dec_ok: "dec data = Inr x \<Longrightarrow> ok x"
begin

lemma enc_inj: "ok x \<Longrightarrow> ok y \<Longrightarrow> enc x = enc y \<Longrightarrow> x = y"
  by (metis dec_enc sum.inject(2))

lemma enc_accepted: "ok x \<Longrightarrow> accepted (dec (enc x))"
  by (simp add: dec_enc)

lemma outcome: "(\<exists>m. dec data = Inl (Reject m)) \<or> (\<exists>x. dec data = Inr x \<and> ok x)"
proof (cases "dec data")
  case (Inl e)
  with in_bounds [of data] show ?thesis by (cases e) auto
next
  case (Inr x)
  then show ?thesis using dec_ok by blast
qed

end

text \<open>A format is canonical when a message has one encoding only: nothing else is accepted.\<close>

locale canonical_codec = wire_codec +
  assumes enc_dec: "dec data = Inr x \<Longrightarrow> enc x = data"
begin

lemma dec_inj: "dec data = Inr x \<Longrightarrow> dec data' = Inr x \<Longrightarrow> data = data'"
  using enc_dec by blast

lemma accepted_iff_encoding: "accepted (dec data) \<longleftrightarrow> (\<exists>x. ok x \<and> data = enc x)"
  by (auto simp: accepted_iff dec_enc intro: dec_ok dest: enc_dec)

lemma dec_eq_iff: "dec data = Inr x \<longleftrightarrow> ok x \<and> data = enc x"
  using dec_enc dec_ok enc_dec by blast

end

text \<open>An item read from the front of a buffer; the reader also tells how many bytes it consumed.\<close>

locale prefix_codec =
  fixes enc :: "'a \<Rightarrow> byte list"
    and dec :: "byte list \<Rightarrow> fault + ('a \<times> nat)"
    and ok :: "'a \<Rightarrow> bool"
  assumes dec_enc: "ok x \<Longrightarrow> dec (enc x @ rest) = Inr (x, length (enc x))"
    and in_bounds: "dec data \<noteq> Inl OutOfBounds"
    and dec_prefix: "dec data = Inr (x, n) \<Longrightarrow>
      ok x \<and> 0 < n \<and> n \<le> length data \<and> enc x = take n data"

text \<open>
  The loop by which the program reads \<open>count\<close> items: each round fails if the buffer is exhausted or
  the item is malformed, else appends the item and advances by the bytes consumed.
\<close>

fun decode_seq ::
  "(byte list \<Rightarrow> fault + ('a \<times> nat)) \<Rightarrow> string \<Rightarrow> nat \<Rightarrow> byte list \<Rightarrow> nat \<Rightarrow> 'a list \<Rightarrow>
     fault + ('a list \<times> nat)" where
  "decode_seq dec msg 0 data off acc = Inr (acc, off)"
| "decode_seq dec msg (Suc count) data off acc =
     (if length data \<le> off then Inl (Reject msg)
      else case dec (drop off data) of
             Inl e \<Rightarrow> Inl e
           | Inr (x, consumed) \<Rightarrow> decode_seq dec msg count data (off + consumed) (acc @ [x]))"

context prefix_codec
begin

lemma enc_pos: "ok x \<Longrightarrow> 0 < length (enc x)"
  using dec_prefix dec_enc by blast

lemma decode_seq_enc:
  "list_all ok xs \<Longrightarrow>
     decode_seq dec msg (length xs) (pre @ concat (map enc xs) @ rest) (length pre) acc =
       Inr (acc @ xs, length pre + length (concat (map enc xs)))"
proof (induction xs arbitrary: pre acc)
  case Nil
  then show ?case by simp
next
  case (Cons x xs)
  then have "ok x" and all: "list_all ok xs" by simp_all
  from Cons.IH [OF all, of "pre @ enc x" "acc @ [x]"] enc_pos [OF \<open>ok x\<close>] show ?case
    by (simp add: dec_enc [OF \<open>ok x\<close>] add.assoc)
qed

lemma decode_seq_in_bounds: "decode_seq dec msg count data off acc \<noteq> Inl OutOfBounds"
  by (induction count arbitrary: off acc) (auto simp: in_bounds split: sum.splits)

lemma decode_seq_result:
  "decode_seq dec msg count data off acc = Inr (ys, off') \<Longrightarrow> off \<le> length data \<Longrightarrow>
     \<exists>xs. ys = acc @ xs \<and> length xs = count \<and> list_all ok xs \<and> off \<le> off' \<and>
       off' \<le> length data \<and> concat (map enc xs) @ drop off' data = drop off data"
proof (induction count arbitrary: off acc)
  case 0
  then show ?case by simp
next
  case (Suc count)
  from Suc.prems(1) obtain x n where
    item: "dec (drop off data) = Inr (x, n)" and
    rest: "decode_seq dec msg count data (off + n) (acc @ [x]) = Inr (ys, off')"
    by (auto split: if_splits sum.splits prod.splits)
  from dec_prefix [OF item] have
    x: "ok x" "0 < n" "n \<le> length data - off" "enc x = take n (drop off data)"
    by auto
  then have "off + n \<le> length data" using Suc.prems(2) by linarith
  from Suc.IH [OF rest this] obtain xs where
    "ys = acc @ x # xs" "length xs = count" "list_all ok xs" "off + n \<le> off'" "off' \<le> length data"
    and glue: "concat (map enc xs) @ drop off' data = drop (off + n) data"
    by auto
  moreover have "concat (map enc (x # xs)) @ drop off' data = drop off data"
    by (simp add: x(4) glue segment_glue)
  ultimately show ?case
    using x by (intro exI [of _ "x # xs"]) auto
qed

end

end
