(* ===== verification/Data_Packet.thy ===== *)
theory Data_Packet
  imports Wire
begin

text \<open>
  Data packets and their wire format: \<open>src/network/data_packet.cpp\<close> and \<open>data_serialization.cpp\<close>.
  A packet is an 83-byte header and a payload of at most 64 KiB. Shown: what is serialised is what
  is deserialised, no buffer makes the deserialiser read outside it, and an accepted buffer is the
  serialisation of its packet but for the acknowledgement byte, which is normalised to 0 or 1.
\<close>

section \<open>Packets\<close>

datatype packet_type = DATA | ACK | InvalidPacket

definition packet_type_to_string :: "packet_type \<Rightarrow> string" where
  "packet_type_to_string t = (case t of DATA \<Rightarrow> ''DATA'' | ACK \<Rightarrow> ''ACK'' | InvalidPacket \<Rightarrow> ''Invalid'')"

definition packet_type_code :: "packet_type \<Rightarrow> u8" where
  "packet_type_code t = (case t of DATA \<Rightarrow> 0 | ACK \<Rightarrow> 1 | InvalidPacket \<Rightarrow> 255)"

record data_packet =
  dp_type :: packet_type
  dp_source :: node_id
  dp_destination :: node_id
  dp_packet_id :: u64
  dp_ttl :: u8
  dp_requires_ack :: bool
  dp_sequence_number :: u32
  dp_payload :: "byte list"

definition data_packet_is_valid :: "data_packet \<Rightarrow> bool" where
  "data_packet_is_valid p \<longleftrightarrow> dp_type p = DATA \<or> dp_type p = ACK"

definition data_packet_create_full ::
  "packet_type \<Rightarrow> node_id \<Rightarrow> node_id \<Rightarrow> u64 \<Rightarrow> u8 \<Rightarrow> bool \<Rightarrow> u32 \<Rightarrow> byte list \<Rightarrow> data_packet" where
  "data_packet_create_full t source destination packet_id ttl requires_ack sequence_number payload =
     \<lparr>dp_type = t, dp_source = source, dp_destination = destination, dp_packet_id = packet_id,
      dp_ttl = ttl, dp_requires_ack = requires_ack, dp_sequence_number = sequence_number,
      dp_payload = payload\<rparr>"

definition data_packet_create ::
  "packet_type \<Rightarrow> node_id \<Rightarrow> node_id \<Rightarrow> u64 \<Rightarrow> u8 \<Rightarrow> byte list \<Rightarrow> data_packet" where
  "data_packet_create t source destination packet_id ttl payload =
     data_packet_create_full t source destination packet_id ttl False 0 payload"

definition data_packet_equal :: "data_packet \<Rightarrow> data_packet \<Rightarrow> bool" where
  "data_packet_equal a b \<longleftrightarrow> a = b"

text \<open>The default-constructed \<open>DataPacket{}\<close>.\<close>

definition empty_data_packet :: data_packet where
  "empty_data_packet =
     \<lparr>dp_type = DATA, dp_source = zero_node_id, dp_destination = zero_node_id, dp_packet_id = 0,
      dp_ttl = 64, dp_requires_ack = False, dp_sequence_number = 0, dp_payload = []\<rparr>"

section \<open>The wire format\<close>

definition DATA_PACKET_HEADER_SIZE :: nat where
  "DATA_PACKET_HEADER_SIZE = 1 + 32 + 32 + 8 + 1 + 1 + 4 + 4"

definition MAX_DATA_PAYLOAD_LIMIT :: nat where
  "MAX_DATA_PAYLOAD_LIMIT = 65536"

definition put_u32_be :: "u32 \<Rightarrow> byte list" where
  "put_u32_be v =
     [ucast (drop_bit 24 v AND 0xFF), ucast (drop_bit 16 v AND 0xFF),
      ucast (drop_bit 8 v AND 0xFF), ucast (v AND 0xFF)]"

definition get_u32_be :: "byte list \<Rightarrow> u32" where
  "get_u32_be p = push_bit 24 (ucast (p ! 0)) OR push_bit 16 (ucast (p ! 1)) OR
     push_bit 8 (ucast (p ! 2)) OR ucast (p ! 3)"

definition put_u64_be :: "u64 \<Rightarrow> byte list" where
  "put_u64_be v =
     [ucast (drop_bit 56 v AND 0xFF), ucast (drop_bit 48 v AND 0xFF),
      ucast (drop_bit 40 v AND 0xFF), ucast (drop_bit 32 v AND 0xFF),
      ucast (drop_bit 24 v AND 0xFF), ucast (drop_bit 16 v AND 0xFF),
      ucast (drop_bit 8 v AND 0xFF), ucast (v AND 0xFF)]"

definition get_u64_be :: "byte list \<Rightarrow> u64" where
  "get_u64_be p = push_bit 56 (ucast (p ! 0)) OR push_bit 48 (ucast (p ! 1)) OR
     push_bit 40 (ucast (p ! 2)) OR push_bit 32 (ucast (p ! 3)) OR
     push_bit 24 (ucast (p ! 4)) OR push_bit 16 (ucast (p ! 5)) OR
     push_bit 8 (ucast (p ! 6)) OR ucast (p ! 7)"

definition serialize_packet :: "data_packet \<Rightarrow> byte list" where
  "serialize_packet p =
     (let payload_len = (of_nat (length (dp_payload p)) :: u32)
      in [packet_type_code (dp_type p)] @ dp_source p @ dp_destination p @
         put_u64_be (dp_packet_id p) @ [dp_ttl p] @ [if dp_requires_ack p then 1 else 0] @
         put_u32_be (dp_sequence_number p) @ put_u32_be payload_len @
         take (unat payload_len) (dp_payload p))"

text \<open>
  \<open>out_packet\<close> is the pointer the caller passes; a null pointer is an error of its own. On success
  every field of the packet is overwritten, so the result does not depend on the old packet.
\<close>

definition deserialize_packet :: "byte list \<Rightarrow> data_packet option \<Rightarrow> fault + data_packet" where
  "deserialize_packet data out_packet =
     (if out_packet = None then Inl (Reject ''Null destination pointer'')
      else if length data < DATA_PACKET_HEADER_SIZE
      then Inl (Reject ''Buffer smaller than DataPacket header size'')
      else checked (read_u8 data 0) (\<lambda>type_raw.
        if type_raw \<noteq> packet_type_code DATA \<and> type_raw \<noteq> packet_type_code ACK
        then Inl (Reject ''Unrecognized PacketType'')
        else checked (map_option get_u32_be (read_bytes data 79 4)) (\<lambda>payload_len.
        if MAX_DATA_PAYLOAD_LIMIT < unat payload_len
        then Inl (Reject ''Payload length exceeds maximum allowed limit'')
        else if length data \<noteq> DATA_PACKET_HEADER_SIZE + unat payload_len
        then Inl (Reject (if length data < DATA_PACKET_HEADER_SIZE + unat payload_len
                          then ''Truncated payload buffer''
                          else ''Trailing bytes after DataPacket payload''))
        else checked (read_bytes data 1 32) (\<lambda>source.
        checked (read_bytes data 33 32) (\<lambda>destination.
        checked (map_option get_u64_be (read_bytes data 65 8)) (\<lambda>packet_id.
        checked (read_u8 data 73) (\<lambda>ttl.
        checked (read_u8 data 74) (\<lambda>ack.
        checked (map_option get_u32_be (read_bytes data 75 4)) (\<lambda>sequence_number.
        checked (read_bytes data DATA_PACKET_HEADER_SIZE (unat payload_len)) (\<lambda>payload.
          Inr \<lparr>dp_type = (if type_raw = packet_type_code DATA then DATA else ACK),
               dp_source = source, dp_destination = destination, dp_packet_id = packet_id,
               dp_ttl = ttl, dp_requires_ack = (ack \<noteq> 0), dp_sequence_number = sequence_number,
               dp_payload = payload\<rparr>))))))))))"

definition deserialize_packet_or_invalid :: "byte list \<Rightarrow> data_packet" where
  "deserialize_packet_or_invalid data =
     (let packet = empty_data_packet\<lparr>dp_type := InvalidPacket\<rparr>
      in case deserialize_packet data (Some packet) of Inl _ \<Rightarrow> packet | Inr p \<Rightarrow> p)"

section \<open>Facts\<close>

lemma put_get_generic:
  "put_u32_be v = write_u32_be v" "get_u32_be p = u32_of p"
  "put_u64_be w = write_u64_be w" "get_u64_be q = u64_of q"
proof -
  show "get_u64_be q = u64_of q"
  proof -
    have "[0..<8] = [0, 1, 2, 3, 4, 5, 6, 7]" by (simp add: upt_rec)
    then show ?thesis
      by (simp add: get_u64_be_def u64_of_def push_bit_or or.assoc)
  qed
qed (simp_all add: put_u32_be_def write_u32_be_def get_u32_be_def u32_of_def put_u64_be_def
    write_u64_be_def upt_rec)

definition packet_ok :: "data_packet \<Rightarrow> bool" where
  "packet_ok p \<longleftrightarrow>
     data_packet_is_valid p \<and> is_node_id (dp_source p) \<and> is_node_id (dp_destination p) \<and>
     length (dp_payload p) \<le> MAX_DATA_PAYLOAD_LIMIT"

abbreviation receive_packet :: "byte list \<Rightarrow> fault + data_packet" where
  "receive_packet data \<equiv> deserialize_packet data (Some empty_data_packet)"

lemma length_serialize_packet:
  "packet_ok p \<Longrightarrow> length (serialize_packet p) = DATA_PACKET_HEADER_SIZE + length (dp_payload p)"
  by (simp add: packet_ok_def serialize_packet_def Let_def put_get_generic DATA_PACKET_HEADER_SIZE_def
      MAX_DATA_PAYLOAD_LIMIT_def unat_of_nat)

lemma receive_serialized:
  assumes "packet_ok p"
  shows "receive_packet (serialize_packet p) = Inr p"
proof -
  have len: "unat (of_nat (length (dp_payload p)) :: u32) = length (dp_payload p)"
    using assms by (simp add: packet_ok_def MAX_DATA_PAYLOAD_LIMIT_def unat_of_nat)
  note size = length_serialize_packet [OF assms]
  obtain t where t: "dp_type p = t" "t = DATA \<or> t = ACK"
    using assms by (auto simp: packet_ok_def data_packet_is_valid_def)
  show ?thesis
    unfolding deserialize_packet_def size
    using assms t
    by (auto simp: serialize_packet_def Let_def put_get_generic len DATA_PACKET_HEADER_SIZE_def
        packet_ok_def packet_type_code_def wire simp del: read_u8_in_range read_bytes_in_range)
qed

text \<open>What an accepted buffer looks like, field by field.\<close>

definition normalise_ack :: "byte list \<Rightarrow> byte list" where
  "normalise_ack data = data[74 := if data ! 74 = 0 then 0 else 1]"

lemma take_74: "74 < length (data :: byte list) \<Longrightarrow>
  take 74 data = [data ! 0] @ take 32 (drop 1 data) @ take 32 (drop 33 data) @
    take 8 (drop 65 data) @ [data ! 73]"
proof -
  assume "74 < length data"
  then have one: "take 1 (drop k data) = [data ! k]" if "k < 74" for k
    using that by (simp add: take_Suc hd_drop_conv_nth)
  have "take (1 + (32 + (32 + (8 + 1)))) data = take 1 (drop 0 data) @ take 32 (drop 1 data) @
      take 32 (drop 33 data) @ take 8 (drop 65 data) @ take 1 (drop 73 data)"
    by (simp only: take_add drop_drop drop_0 append_assoc) simp
  then show ?thesis by (simp only: one) (simp add: one [of 0, simplified])
qed

lemma receive_packet_cases:
  "receive_packet data =
     (if length data < 83 then Inl (Reject ''Buffer smaller than DataPacket header size'')
      else if data ! 0 \<noteq> 0 \<and> data ! 0 \<noteq> 1 then Inl (Reject ''Unrecognized PacketType'')
      else let n = unat (u32_of (take 4 (drop 79 data))) in
        if 65536 < n then Inl (Reject ''Payload length exceeds maximum allowed limit'')
        else if length data \<noteq> 83 + n
        then Inl (Reject (if length data < 83 + n then ''Truncated payload buffer''
                          else ''Trailing bytes after DataPacket payload''))
        else Inr \<lparr>dp_type = (if data ! 0 = 0 then DATA else ACK), dp_source = take 32 (drop 1 data),
          dp_destination = take 32 (drop 33 data), dp_packet_id = u64_of (take 8 (drop 65 data)),
          dp_ttl = data ! 73, dp_requires_ack = (data ! 74 \<noteq> 0),
          dp_sequence_number = u32_of (take 4 (drop 75 data)), dp_payload = take n (drop 83 data)\<rparr>)"
proof (cases "length data < 83")
  case True
  then show ?thesis by (simp add: deserialize_packet_def DATA_PACKET_HEADER_SIZE_def)
next
  case False
  then have fields: "79 + 4 \<le> length data" "1 + 32 \<le> length data" "33 + 32 \<le> length data"
    "65 + 8 \<le> length data" "73 < length data" "74 < length data" "75 + 4 \<le> length data"
    "0 < length data"
    by linarith+
  have size: "DATA_PACKET_HEADER_SIZE = 83"
    by (simp add: DATA_PACKET_HEADER_SIZE_def)
  have payload: "length data = 83 + n \<Longrightarrow> read_bytes data 83 n = Some (take n (drop 83 data))" for n
    by (simp add: read_bytes_def)
  show ?thesis
    by (simp only: deserialize_packet_def size MAX_DATA_PAYLOAD_LIMIT_def option.simps Let_def
        packet_type_code_def packet_type.case False if_False read_u8_in_range read_bytes_in_range
        fields checked_simps put_get_generic)
      (intro if_cong refl, simp_all only: payload simp_thms checked_simps)
qed

lemma accepted_packet_shape:
  assumes "receive_packet data = Inr p"
  shows "packet_ok p \<and> serialize_packet p = normalise_ack data"
proof -
  define len where "len = u32_of (take 4 (drop 79 data))"
  from assms have
    size: "length data = 83 + unat len" "unat len \<le> 65536"
    and code: "data ! 0 = 0 \<or> data ! 0 = 1"
    and p: "p = \<lparr>dp_type = (if data ! 0 = 0 then DATA else ACK), dp_source = take 32 (drop 1 data),
      dp_destination = take 32 (drop 33 data), dp_packet_id = u64_of (take 8 (drop 65 data)),
      dp_ttl = data ! 73, dp_requires_ack = (data ! 74 \<noteq> 0),
      dp_sequence_number = u32_of (take 4 (drop 75 data)), dp_payload = drop 83 data\<rparr>"
    unfolding receive_packet_cases Let_def len_def [symmetric]
    by (simp_all add: not_less split: if_split_asm)
  have "take 74 data @ x # drop 75 data = [data ! 0] @ take 32 (drop 1 data) @
      take 32 (drop 33 data) @ take 8 (drop 65 data) @ [data ! 73] @ [x] @
      take 4 (drop 75 data) @ take 4 (drop 79 data) @ drop 83 data" for x
    using size(1) by (simp add: take_74 segment_glue)
  moreover have "write_u32_be len = take 4 (drop 79 data)"
    unfolding len_def by (rule write_of_be) (simp add: size(1))
  ultimately have "serialize_packet p = take 74 data @ (if data ! 74 = 0 then 0 else 1) # drop 75 data"
    using size code unfolding p
    by (auto simp: serialize_packet_def Let_def put_get_generic packet_type_code_def write_of_be)
  moreover have "packet_ok p"
    using size unfolding p
    by (simp add: packet_ok_def data_packet_is_valid_def MAX_DATA_PAYLOAD_LIMIT_def)
  ultimately show ?thesis
    using size by (simp add: normalise_ack_def upd_conv_take_nth_drop)
qed

lemma receive_in_bounds: "deserialize_packet data out \<noteq> Inl OutOfBounds"
proof -
  have "receive_packet data \<noteq> Inl OutOfBounds"
    by (simp only: receive_packet_cases Let_def rejected_in_bounds sum.distinct not_False_eq_True
        simp_thms)
  moreover have "deserialize_packet data (Some q) = receive_packet data" for q
    by (simp add: deserialize_packet_def)
  ultimately show ?thesis
    by (cases out) (auto simp: deserialize_packet_def)
qed

interpretation data_packet_format: wire_codec serialize_packet receive_packet packet_ok
  by unfold_locales (auto simp: receive_serialized receive_in_bounds dest: accepted_packet_shape)

section \<open>Properties\<close>

text \<open>
  A packet with a valid type and at most 64 KiB of payload survives the wire unchanged, and two
  such packets never share an encoding.
\<close>

theorem data_packet_roundtrip:
  assumes "packet_ok p"
  shows "receive_packet (serialize_packet p) = Inr p \<and>
    deserialize_packet_or_invalid (serialize_packet p) = p \<and>
    (\<forall>q. packet_ok q \<longrightarrow> serialize_packet q = serialize_packet p \<longrightarrow> q = p)"
proof -
  have "deserialize_packet (serialize_packet p) (Some out) = Inr p" for out
    using data_packet_format.dec_enc [OF assms] by (simp add: deserialize_packet_def)
  then show ?thesis
    using assms by (auto simp: deserialize_packet_or_invalid_def dest: data_packet_format.enc_inj)
qed

text \<open>
  The deserialiser is total on hostile input: whatever the buffer, it never reads outside it; it
  either rejects with a message, or yields a packet whose fields have their sizes and whose payload
  is bounded. An accepted buffer is the canonical encoding of its packet, but for the acknowledgement
  flag, which any non-zero byte sets.
\<close>

theorem data_packet_hostile_input:
  "deserialize_packet data out \<noteq> Inl OutOfBounds \<and>
   (receive_packet data = Inr p \<longrightarrow>
      packet_ok p \<and> length data = 83 + length (dp_payload p) \<and>
      serialize_packet p = data[74 := if data ! 74 = 0 then 0 else 1])"
  using accepted_packet_shape [of data p] length_serialize_packet [of p]
  by (auto simp: receive_in_bounds normalise_ack_def DATA_PACKET_HEADER_SIZE_def)

section \<open>Witnesses\<close>

definition sample_packet :: data_packet where
  "sample_packet = data_packet_create_full ACK (replicate 32 1) (replicate 32 2) 77 3 True 9 [1, 2, 3]"

lemma sample_packet_ok: "packet_ok sample_packet"
  by (simp add: sample_packet_def data_packet_create_full_def packet_ok_def data_packet_is_valid_def
      MAX_DATA_PAYLOAD_LIMIT_def)

theorem data_packet_roundtrip_witness:
  "receive_packet (serialize_packet sample_packet) = Inr sample_packet"
  using data_packet_roundtrip [OF sample_packet_ok] by simp

theorem data_packet_hostile_input_witness:
  "length (serialize_packet sample_packet) = 83 + 3 \<and>
   deserialize_packet [1, 2, 3] None \<noteq> Inl OutOfBounds"
  using data_packet_hostile_input [of "serialize_packet sample_packet" "Some empty_data_packet" sample_packet]
    data_packet_hostile_input [of "[1, 2, 3]" None sample_packet]
    receive_serialized [OF sample_packet_ok]
  by (simp add: sample_packet_def data_packet_create_full_def)

end
