(* ===== verification/Forwarding.thy ===== *)
theory Forwarding
  imports Routing Data_Packet
begin

text \<open>
  The forwarding engine: \<open>src/network/forwarding.cpp\<close>. The handlers of the C++ code are callbacks on
  the outside world; here they are transformers of a world of any type, absent when the
  \<open>std::function\<close> is empty. Pointers are options. Shown: what each branch does to the packet, the
  counters, the last action and the world; that the drop counters add up over any sequence of calls;
  that a packet crosses fewer nodes than its time to live even through routing loops; and that tables
  whose metrics fall from hop to hop deliver.
\<close>

section \<open>State\<close>

datatype forward_action = DeliverLocally | ForwardToPeer | DropNoRoute | DropInvalid | DropTtlExpired

record forwarding_metrics =
  forwarded_packets :: u64
  dropped_packets :: u64
  ttl_expired_packets :: u64
  unknown_destination_packets :: u64

type_synonym 'w transmit_handler = "node_id \<Rightarrow> data_packet \<Rightarrow> 'w \<Rightarrow> 'w"
type_synonym 'w delivery_handler = "data_packet \<Rightarrow> 'w \<Rightarrow> 'w"
type_synonym 'w drop_handler = "data_packet \<Rightarrow> string \<Rightarrow> 'w \<Rightarrow> 'w"

record 'w forwarding_state =
  fs_table :: "route_table option"
  fs_local_id :: node_id
  fs_has_local_id :: bool
  fs_metrics :: forwarding_metrics
  fs_last_action :: forward_action
  fs_last_next_hop :: node_id
  fs_transmit_handler :: "'w transmit_handler option"
  fs_local_delivery_handler :: "'w delivery_handler option"
  fs_drop_handler :: "'w drop_handler option"

definition forwarding_init :: "route_table option \<Rightarrow> node_id option \<Rightarrow> 'w forwarding_state" where
  "forwarding_init table local_node_id =
     (let state = \<lparr>fs_table = table, fs_local_id = zero_node_id, fs_has_local_id = False,
        fs_metrics = \<lparr>forwarded_packets = 0, dropped_packets = 0, ttl_expired_packets = 0,
          unknown_destination_packets = 0\<rparr>,
        fs_last_action = DropInvalid, fs_last_next_hop = zero_node_id,
        fs_transmit_handler = None, fs_local_delivery_handler = None, fs_drop_handler = None\<rparr>
      in case local_node_id of
           None \<Rightarrow> state
         | Some nid \<Rightarrow> state\<lparr>fs_local_id := nid, fs_has_local_id := True\<rparr>)"

section \<open>Forwarding\<close>

definition call_transmit :: "'w transmit_handler option \<Rightarrow> node_id \<Rightarrow> data_packet \<Rightarrow> 'w \<Rightarrow> 'w" where
  "call_transmit h next_hop p w = (case h of None \<Rightarrow> w | Some f \<Rightarrow> f next_hop p w)"

definition call_delivery :: "'w delivery_handler option \<Rightarrow> data_packet \<Rightarrow> 'w \<Rightarrow> 'w" where
  "call_delivery h p w = (case h of None \<Rightarrow> w | Some f \<Rightarrow> f p w)"

definition call_drop :: "'w drop_handler option \<Rightarrow> data_packet \<Rightarrow> string \<Rightarrow> 'w \<Rightarrow> 'w" where
  "call_drop h p reason w = (case h of None \<Rightarrow> w | Some f \<Rightarrow> f p reason w)"

definition count_ttl_expired :: "forwarding_metrics \<Rightarrow> forwarding_metrics" where
  "count_ttl_expired m =
     m\<lparr>ttl_expired_packets := ttl_expired_packets m + 1, dropped_packets := dropped_packets m + 1\<rparr>"

definition count_no_route :: "forwarding_metrics \<Rightarrow> forwarding_metrics" where
  "count_no_route m =
     m\<lparr>unknown_destination_packets := unknown_destination_packets m + 1,
       dropped_packets := dropped_packets m + 1\<rparr>"

definition count_forwarded :: "forwarding_metrics \<Rightarrow> forwarding_metrics" where
  "count_forwarded m = m\<lparr>forwarded_packets := forwarded_packets m + 1\<rparr>"

text \<open>The body of \<open>forward_impl\<close> once none of its pointers is null.\<close>

definition forward_packet ::
  "'w forwarding_state \<Rightarrow> route_table \<Rightarrow> data_packet \<Rightarrow> bool \<Rightarrow> 'w \<Rightarrow>
     'w forwarding_state \<times> data_packet \<times> 'w" where
  "forward_packet s table p decrement_ttl w =
     (if fs_has_local_id s \<and> dp_destination p = fs_local_id s
      then (s\<lparr>fs_last_action := DeliverLocally, fs_last_next_hop := zero_node_id\<rparr>, p,
            call_delivery (fs_local_delivery_handler s) p w)
      else if decrement_ttl \<and> dp_ttl p \<le> 1
      then (let p = p\<lparr>dp_ttl := 0\<rparr>
            in (s\<lparr>fs_metrics := count_ttl_expired (fs_metrics s), fs_last_action := DropTtlExpired\<rparr>, p,
                call_drop (fs_drop_handler s) p ''TTL expired'' w))
      else
        let p = (if decrement_ttl then p\<lparr>dp_ttl := dp_ttl p - 1\<rparr> else p);
            no_route =
              (s\<lparr>fs_metrics := count_no_route (fs_metrics s), fs_last_action := DropNoRoute,
                 fs_last_next_hop := zero_node_id\<rparr>, p,
               call_drop (fs_drop_handler s) p ''No route to destination'' w)
        in case routing_lookup table (dp_destination p) of
             None \<Rightarrow> no_route
           | Some route \<Rightarrow>
               if \<not> e_valid route \<or> ROUTE_METRIC_INFINITY \<le> e_metric route then no_route
               else (s\<lparr>fs_last_action := ForwardToPeer, fs_last_next_hop := e_next_hop route,
                       fs_metrics := count_forwarded (fs_metrics s)\<rparr>, p,
                     call_transmit (fs_transmit_handler s) (e_next_hop route) p w))"

definition forward_impl ::
  "'w forwarding_state option \<Rightarrow> data_packet option \<Rightarrow> bool \<Rightarrow> 'w \<Rightarrow>
     'w forwarding_state option \<times> data_packet option \<times> 'w" where
  "forward_impl state packet decrement_ttl w =
     (case (state, packet) of
        (Some s, Some p) \<Rightarrow>
          (case fs_table s of
             None \<Rightarrow> (state, packet, w)
           | Some table \<Rightarrow>
               let (s', p', w') = forward_packet s table p decrement_ttl w in (Some s', Some p', w'))
      | _ \<Rightarrow> (state, packet, w))"

definition forwarding_forward ::
  "'w forwarding_state option \<Rightarrow> data_packet option \<Rightarrow> 'w \<Rightarrow>
     'w forwarding_state option \<times> data_packet option \<times> 'w" where
  "forwarding_forward state packet w = forward_impl state packet True w"

definition forwarding_forward_origin ::
  "'w forwarding_state option \<Rightarrow> data_packet option \<Rightarrow> 'w \<Rightarrow>
     'w forwarding_state option \<times> data_packet option \<times> 'w" where
  "forwarding_forward_origin state packet w = forward_impl state packet False w"

definition forwarding_set_transmit_handler ::
  "'w forwarding_state option \<Rightarrow> 'w transmit_handler option \<Rightarrow> 'w forwarding_state option" where
  "forwarding_set_transmit_handler state h = map_option (\<lambda>s. s\<lparr>fs_transmit_handler := h\<rparr>) state"

definition forwarding_set_local_delivery_handler ::
  "'w forwarding_state option \<Rightarrow> 'w delivery_handler option \<Rightarrow> 'w forwarding_state option" where
  "forwarding_set_local_delivery_handler state h =
     map_option (\<lambda>s. s\<lparr>fs_local_delivery_handler := h\<rparr>) state"

definition forwarding_set_drop_handler ::
  "'w forwarding_state option \<Rightarrow> 'w drop_handler option \<Rightarrow> 'w forwarding_state option" where
  "forwarding_set_drop_handler state h = map_option (\<lambda>s. s\<lparr>fs_drop_handler := h\<rparr>) state"

section \<open>Facts\<close>

text \<open>The decision of the engine, without the state it leaves behind: the specification.\<close>

datatype verdict = Deliver | Expire | NoRoute | Transmit node_id

definition usable_next_hop :: "route_table \<Rightarrow> node_id \<Rightarrow> node_id option" where
  "usable_next_hop table d =
     (case routing_find_route table d of
        None \<Rightarrow> None
      | Some r \<Rightarrow> if r_metric r < ROUTE_METRIC_INFINITY then Some (r_next_hop r) else None)"

definition decide :: "node_id option \<Rightarrow> route_table \<Rightarrow> bool \<Rightarrow> u8 \<Rightarrow> node_id \<Rightarrow> verdict" where
  "decide local table transit ttl d =
     (if local = Some d then Deliver
      else if transit \<and> unat ttl \<le> 1 then Expire
      else case usable_next_hop table d of None \<Rightarrow> NoRoute | Some n \<Rightarrow> Transmit n)"

definition local_node :: "'w forwarding_state \<Rightarrow> node_id option" where
  "local_node s = (if fs_has_local_id s then Some (fs_local_id s) else None)"

definition outcome_of ::
  "'w forwarding_state \<Rightarrow> data_packet \<Rightarrow> bool \<Rightarrow> 'w \<Rightarrow> verdict \<Rightarrow> 'w forwarding_state \<times> data_packet \<times> 'w"
  where
  "outcome_of s p transit w v =
     (let q = (if transit then p\<lparr>dp_ttl := dp_ttl p - 1\<rparr> else p)
      in case v of
           Deliver \<Rightarrow>
             (s\<lparr>fs_last_action := DeliverLocally, fs_last_next_hop := zero_node_id\<rparr>, p,
              call_delivery (fs_local_delivery_handler s) p w)
         | Expire \<Rightarrow>
             (s\<lparr>fs_metrics := count_ttl_expired (fs_metrics s), fs_last_action := DropTtlExpired\<rparr>,
              p\<lparr>dp_ttl := 0\<rparr>, call_drop (fs_drop_handler s) (p\<lparr>dp_ttl := 0\<rparr>) ''TTL expired'' w)
         | NoRoute \<Rightarrow>
             (s\<lparr>fs_metrics := count_no_route (fs_metrics s), fs_last_action := DropNoRoute,
                fs_last_next_hop := zero_node_id\<rparr>, q,
              call_drop (fs_drop_handler s) q ''No route to destination'' w)
         | Transmit n \<Rightarrow>
             (s\<lparr>fs_last_action := ForwardToPeer, fs_last_next_hop := n,
                fs_metrics := count_forwarded (fs_metrics s)\<rparr>, q,
              call_transmit (fs_transmit_handler s) n q w))"

lemma ttl_le_1: "(t :: u8) \<le> 1 \<longleftrightarrow> unat t \<le> 1"
  by (simp add: word_le_nat_alt)

lemma lookup_unusable:
  "usable_next_hop table d = None \<Longrightarrow>
     routing_lookup table d = None \<or>
     (\<exists>r. routing_lookup table d = Some r \<and> (\<not> e_valid r \<or> ROUTE_METRIC_INFINITY \<le> e_metric r))"
  by (auto simp: routing_lookup_def usable_next_hop_def routing_find_route_def
      split: option.splits if_splits)

lemma lookup_usable:
  "usable_next_hop table d = Some n \<Longrightarrow>
     \<exists>r. routing_lookup table d = Some r \<and> e_valid r \<and> \<not> ROUTE_METRIC_INFINITY \<le> e_metric r \<and>
       e_next_hop r = n"
  by (auto simp: routing_lookup_def usable_next_hop_def routing_find_route_def
      split: option.splits if_splits)

lemma forward_packet_decide:
  "forward_packet s table p transit w =
     outcome_of s p transit w (decide (local_node s) table transit (dp_ttl p) (dp_destination p))"
proof (cases "usable_next_hop table (dp_destination p)")
  case None
  with lookup_unusable [OF None] show ?thesis
    by (auto simp: forward_packet_def outcome_of_def decide_def local_node_def ttl_le_1 Let_def)
next
  case (Some n)
  with lookup_usable [OF Some] show ?thesis
    by (auto simp: forward_packet_def outcome_of_def decide_def local_node_def ttl_le_1 Let_def)
qed

lemma forward_impl_decide:
  "fs_table s = Some table \<Longrightarrow>
     forward_impl (Some s) (Some p) transit w =
       (case outcome_of s p transit w (decide (local_node s) table transit (dp_ttl p) (dp_destination p)) of
          (s', p', w') \<Rightarrow> (Some s', Some p', w'))"
  by (simp add: forward_impl_def forward_packet_decide)

lemma decide_eq_simps:
  "decide l t tr ttl d = Deliver \<longleftrightarrow> l = Some d"
  "decide l t tr ttl d = Expire \<longleftrightarrow> l \<noteq> Some d \<and> tr \<and> unat ttl \<le> 1"
  "decide l t tr ttl d = NoRoute \<longleftrightarrow>
     l \<noteq> Some d \<and> \<not> (tr \<and> unat ttl \<le> 1) \<and> usable_next_hop t d = None"
  "decide l t tr ttl d = Transmit n \<longleftrightarrow>
     l \<noteq> Some d \<and> \<not> (tr \<and> unat ttl \<le> 1) \<and> usable_next_hop t d = Some n"
  by (auto simp: decide_def split: option.splits)

lemma ttl_pred: "1 < unat (t :: u8) \<Longrightarrow> unat (t - 1) = unat t - 1"
  by (simp add: unat_sub word_le_nat_alt)

section \<open>Sequences of calls\<close>

text \<open>
  One state forwards a list of packets, each flagged as in transit or as originated here; the result
  also counts the packets delivered locally.
\<close>

fun forward_all ::
  "'w forwarding_state \<Rightarrow> (data_packet \<times> bool) list \<Rightarrow> 'w \<Rightarrow> 'w forwarding_state \<times> nat \<times> 'w" where
  "forward_all s [] w = (s, 0, w)"
| "forward_all s ((p, transit) # rest) w =
     (case forward_impl (Some s) (Some p) transit w of
        (Some s', _, w') \<Rightarrow>
          (case forward_all s' rest w' of
             (s'', n, w'') \<Rightarrow>
               (s'', (if fs_last_action s' = DeliverLocally then Suc n else n), w''))
      | _ \<Rightarrow> (s, 0, w))"

lemma outcome_metrics:
  assumes "outcome_of s p transit w v = (s', p', w')"
  shows "fs_table s' = fs_table s \<and>
    fs_last_action s' =
      (case v of Deliver \<Rightarrow> DeliverLocally | Expire \<Rightarrow> DropTtlExpired | NoRoute \<Rightarrow> DropNoRoute
       | Transmit _ \<Rightarrow> ForwardToPeer) \<and>
    fs_metrics s' =
      (case v of Deliver \<Rightarrow> fs_metrics s | Expire \<Rightarrow> count_ttl_expired (fs_metrics s)
       | NoRoute \<Rightarrow> count_no_route (fs_metrics s) | Transmit _ \<Rightarrow> count_forwarded (fs_metrics s))"
  using assms by (auto simp: outcome_of_def Let_def split: verdict.splits)

definition counters_agree :: "forwarding_metrics \<Rightarrow> bool" where
  "counters_agree m \<longleftrightarrow> dropped_packets m = ttl_expired_packets m + unknown_destination_packets m"

lemma forward_all_counts:
  "fs_table s \<noteq> None \<Longrightarrow> forward_all s ps w = (s', n, w') \<Longrightarrow>
     (counters_agree (fs_metrics s) \<longrightarrow> counters_agree (fs_metrics s')) \<and>
     forwarded_packets (fs_metrics s') + dropped_packets (fs_metrics s') + of_nat n =
       forwarded_packets (fs_metrics s) + dropped_packets (fs_metrics s) + of_nat (length ps)"
proof (induction ps arbitrary: s n w)
  case Nil
  then show ?case by simp
next
  case (Cons pt ps)
  obtain p transit where pt: "pt = (p, transit)" by force
  obtain table where table: "fs_table s = Some table" using Cons.prems(1) by auto
  let ?v = "decide (local_node s) table transit (dp_ttl p) (dp_destination p)"
  obtain s1 p1 w1 where out: "outcome_of s p transit w ?v = (s1, p1, w1)" by (metis prod_cases3)
  obtain n1 where rest: "forward_all s1 ps w1 = (s', n1, w')"
    and n: "n = (if fs_last_action s1 = DeliverLocally then Suc n1 else n1)"
    using Cons.prems(2) out by (auto simp: pt forward_impl_decide [OF table] split: prod.splits)
  have "fs_table s1 \<noteq> None" using outcome_metrics [OF out] table by simp
  from Cons.IH [OF this rest] outcome_metrics [OF out] show ?case
    by (cases ?v) (auto simp: n counters_agree_def count_ttl_expired_def count_no_route_def
        count_forwarded_def algebra_simps)
qed

section \<open>A packet that crosses the network\<close>

text \<open>
  Every node of a network runs the engine on its own table, and the transmit handler hands the packet
  to the peer it names. \<open>relay\<close> is one node's turn: the peer and the packet handed over, if any, and
  the engine's last action. \<open>journey\<close> follows the packet: the nodes it visits, in order, and how it
  ends. The origin does not count down the time to live, every other node does.
\<close>

definition hand_over :: "(node_id \<times> data_packet) option transmit_handler" where
  "hand_over next_hop p w = Some (next_hop, p)"

definition relay ::
  "(node_id \<Rightarrow> route_table) \<Rightarrow> bool \<Rightarrow> node_id \<Rightarrow> data_packet \<Rightarrow>
     forward_action \<times> (node_id \<times> data_packet) option" where
  "relay tables transit n p =
     (case forward_impl
         (forwarding_set_transmit_handler (Some (forwarding_init (Some (tables n)) (Some n)))
            (Some hand_over))
         (Some p) transit None of
        (Some s, _, w) \<Rightarrow> (fs_last_action s, w)
      | (None, _, w) \<Rightarrow> (DropInvalid, w))"

lemma relay_decide:
  "relay tables transit n p =
     (case decide (Some n) (tables n) transit (dp_ttl p) (dp_destination p) of
        Deliver \<Rightarrow> (DeliverLocally, None)
      | Expire \<Rightarrow> (DropTtlExpired, None)
      | NoRoute \<Rightarrow> (DropNoRoute, None)
      | Transmit m \<Rightarrow> (ForwardToPeer, Some (m, if transit then p\<lparr>dp_ttl := dp_ttl p - 1\<rparr> else p)))"
  by (simp add: relay_def forwarding_set_transmit_handler_def forwarding_init_def Let_def
      forward_impl_decide local_node_def outcome_of_def call_delivery_def call_drop_def
      call_transmit_def hand_over_def split: verdict.split)

lemma relay_SomeD:
  assumes "relay tables transit n p = (a, Some (m, q))"
  shows "a = ForwardToPeer \<and> n \<noteq> dp_destination p \<and>
    usable_next_hop (tables n) (dp_destination p) = Some m \<and>
    (if transit then 1 < unat (dp_ttl p) \<and> q = p\<lparr>dp_ttl := dp_ttl p - 1\<rparr> else q = p)"
proof (cases "decide (Some n) (tables n) transit (dp_ttl p) (dp_destination p)")
  case (Transmit k)
  with assms show ?thesis by (auto simp: relay_decide decide_eq_simps not_le)
qed (use assms in \<open>simp_all add: relay_decide\<close>)

function journey ::
  "(node_id \<Rightarrow> route_table) \<Rightarrow> bool \<Rightarrow> node_id \<Rightarrow> data_packet \<Rightarrow>
     node_id list \<times> forward_action" where
  "journey tables transit n p =
     (case relay tables transit n p of
        (a, None) \<Rightarrow> ([n], a)
      | (_, Some (m, q)) \<Rightarrow> (case journey tables True m q of (path, a) \<Rightarrow> (n # path, a)))"
  by pat_completeness auto

termination journey
  by (relation "measures [\<lambda>(_, transit, _, _). if transit then 0 else 1,
      \<lambda>(_, _, _, p). unat (dp_ttl p)]")
    (auto simp: ttl_pred dest!: relay_SomeD [OF sym] split: if_splits)

declare journey.simps [simp del]

section \<open>Properties\<close>

text \<open>
  One call of the engine, on every branch: the packet is unchanged but for its time to live, which
  falls by one in transit and not at the origin; exactly one handler runs, once, on that packet. It is
  delivered locally exactly when it is addressed to this node, whatever its time to live; a transit
  packet with a time to live of at most one expires; any other goes to the next hop of the usable
  route, or is dropped when there is none. So no transit packet leaves with a time to live of zero.
\<close>

theorem forwarding_calls_one_handler:
  assumes "fs_table s = Some table"
    and "forward_impl (Some s) (Some p) transit w = (Some s', Some p', w')"
  shows "(case fs_last_action s' of
      DeliverLocally \<Rightarrow> local_node s = Some (dp_destination p) \<and> p' = p \<and>
        w' = call_delivery (fs_local_delivery_handler s) p w
    | DropTtlExpired \<Rightarrow> local_node s \<noteq> Some (dp_destination p) \<and> transit \<and> unat (dp_ttl p) \<le> 1 \<and>
        p' = p\<lparr>dp_ttl := 0\<rparr> \<and> w' = call_drop (fs_drop_handler s) p' ''TTL expired'' w
    | DropNoRoute \<Rightarrow> local_node s \<noteq> Some (dp_destination p) \<and>
        usable_next_hop table (dp_destination p) = None \<and>
        p' = (if transit then p\<lparr>dp_ttl := dp_ttl p - 1\<rparr> else p) \<and>
        w' = call_drop (fs_drop_handler s) p' ''No route to destination'' w
    | ForwardToPeer \<Rightarrow> local_node s \<noteq> Some (dp_destination p) \<and>
        usable_next_hop table (dp_destination p) = Some (fs_last_next_hop s') \<and>
        (if transit then 0 < unat (dp_ttl p') \<and> unat (dp_ttl p') = unat (dp_ttl p) - 1 \<and>
           p' = p\<lparr>dp_ttl := dp_ttl p - 1\<rparr> else p' = p) \<and>
        w' = call_transmit (fs_transmit_handler s) (fs_last_next_hop s') p' w
    | DropInvalid \<Rightarrow> False)"
proof -
  let ?v = "decide (local_node s) table transit (dp_ttl p) (dp_destination p)"
  have "outcome_of s p transit w ?v = (s', p', w')"
    using assms by (auto simp: forward_impl_decide split: prod.splits)
  then show ?thesis
    by (cases ?v) (auto simp: outcome_of_def Let_def ttl_pred decide_eq_simps not_le)
qed

text \<open>
  The counters account for every packet: over any sequence of calls on a fresh engine, the drop
  counter is the sum of its two causes, and forwarded, dropped and locally delivered packets add up to
  the calls made (all modulo \<open>2 ^ 64\<close>, the width of the counters).
\<close>

theorem forwarding_counters_add_up:
  assumes "forward_all (forwarding_init (Some table) local) ps w = (s, delivered, w')"
  shows "dropped_packets (fs_metrics s) =
      ttl_expired_packets (fs_metrics s) + unknown_destination_packets (fs_metrics s) \<and>
    forwarded_packets (fs_metrics s) + dropped_packets (fs_metrics s) + of_nat delivered =
      of_nat (length ps)"
proof -
  have table: "fs_table (forwarding_init (Some table) local) \<noteq> None"
    and start: "fs_metrics (forwarding_init (Some table) local) =
      \<lparr>forwarded_packets = 0, dropped_packets = 0, ttl_expired_packets = 0,
       unknown_destination_packets = 0\<rparr>"
    by (cases local; simp add: forwarding_init_def Let_def)+
  from forward_all_counts [OF table assms] show ?thesis
    unfolding counters_agree_def start by simp metis
qed

text \<open>
  C22. Whatever the tables, routing loops included, a packet visits no more nodes than its time to live
  (and at least the first), one more when that node originates it.
\<close>

theorem journey_bounded_by_ttl:
  "length (fst (journey tables transit n p)) \<le>
     max 1 (unat (dp_ttl p)) + (if transit then 0 else 1)"
proof (induction tables transit n p rule: journey.induct)
  case (1 tables transit n p)
  show ?case
  proof (cases "relay tables transit n p")
    case (Pair a w)
    show ?thesis
    proof (cases w)
      case None
      then show ?thesis using Pair by (simp add: journey.simps [of tables transit n p])
    next
      case (Some mq)
      obtain m q where w: "w = Some (m, q)" using Some by (cases mq) auto
      have "length (fst (journey tables True m q)) \<le> max 1 (unat (dp_ttl q))"
        using "1.IH" [OF Pair [symmetric] w refl] by simp
      with relay_SomeD [OF Pair [unfolded w]] Pair w show ?thesis
        by (auto simp: journey.simps [of tables transit n p] ttl_pred split: prod.split if_splits)
    qed
  qed
qed

text \<open>
  Routes whose metrics fall along the next hops, which is what a converged distance-vector table has.
\<close>

definition metric_to :: "route_table \<Rightarrow> node_id \<Rightarrow> nat option" where
  "metric_to table d =
     (case routing_find_route table d of
        None \<Rightarrow> None
      | Some r \<Rightarrow> if r_metric r < ROUTE_METRIC_INFINITY then Some (unat (r_metric r)) else None)"

definition descending :: "(node_id \<Rightarrow> route_table) \<Rightarrow> node_id \<Rightarrow> bool" where
  "descending tables d \<longleftrightarrow>
     (\<forall>n m k. n \<noteq> d \<longrightarrow> usable_next_hop (tables n) d = Some m \<longrightarrow> metric_to (tables n) d = Some k \<longrightarrow>
        0 < k \<and> (m = d \<or> (\<exists>j<k. metric_to (tables m) d = Some j)))"

lemma metric_to_next_hop: "metric_to t d = Some k \<Longrightarrow> \<exists>m. usable_next_hop t d = Some m"
  by (auto simp: metric_to_def usable_next_hop_def split: option.splits if_splits)

lemma journey_here: "journey tables transit (dp_destination p) p = ([dp_destination p], DeliverLocally)"
  by (simp add: journey.simps [of tables transit] relay_decide decide_def)

lemma journey_descends:
  "descending tables (dp_destination p) \<Longrightarrow>
     n = dp_destination p \<or>
       metric_to (tables n) (dp_destination p) = Some k \<and>
       k + (if transit then 1 else 0) \<le> unat (dp_ttl p) \<Longrightarrow>
     \<exists>path. journey tables transit n p = (path, DeliverLocally) \<and> last path = dp_destination p \<and>
       path \<noteq> [] \<and> (n \<noteq> dp_destination p \<longrightarrow> length path \<le> Suc k)"
proof (induction k arbitrary: transit n p rule: less_induct)
  case (less k)
  show ?case
  proof (cases "n = dp_destination p")
    case True
    then show ?thesis by (simp add: journey_here)
  next
    case False
    let ?d = "dp_destination p"
    let ?q = "if transit then p\<lparr>dp_ttl := dp_ttl p - 1\<rparr> else p"
    have k: "metric_to (tables n) ?d = Some k" "k + (if transit then 1 else 0) \<le> unat (dp_ttl p)"
      using less.prems(2) False by auto
    obtain m where m: "usable_next_hop (tables n) ?d = Some m"
      using metric_to_next_hop [OF k(1)] by blast
    have pos: "0 < k" and next_node: "m = ?d \<or> (\<exists>j<k. metric_to (tables m) ?d = Some j)"
      using less.prems(1) False m k(1) unfolding descending_def by blast+
    have "relay tables transit n p = (ForwardToPeer, Some (m, ?q))"
      using False m pos k(2) by (auto simp: relay_decide decide_def)
    then have step: "journey tables transit n p =
        (case journey tables True m ?q of (path, a) \<Rightarrow> (n # path, a))"
      by (simp add: journey.simps [of tables transit n])
    have ttl: "k \<le> unat (dp_ttl ?q)" and dest [simp]: "dp_destination ?q = ?d"
      using k(2) pos by (auto simp: ttl_pred)
    show ?thesis
    proof (cases "m = ?d")
      case True
      then show ?thesis
        using journey_here [of tables True ?q] pos by (auto simp: step)
    next
      case False
      then obtain j where "j < k" "metric_to (tables m) ?d = Some j" using next_node by blast
      with less.IH [of j ?q m True] less.prems(1) ttl False obtain path where
        "journey tables True m ?q = (path, DeliverLocally)" "last path = ?d" "path \<noteq> []"
        "length path \<le> Suc j"
        unfolding dest by auto
      with \<open>j < k\<close> show ?thesis by (simp add: step)
    qed
  qed
qed

text \<open>
  C2. Delivery: suppose that towards a destination every usable route leads to the destination itself
  or to a node whose own usable route has a smaller metric. Then a packet that starts at a node with a
  usable route, with a time to live of at least that metric, ends delivered at its destination, over at
  most as many hops as the metric.
\<close>

theorem descending_tables_deliver:
  assumes "descending tables (dp_destination p)"
    and "metric_to (tables n) (dp_destination p) = Some k"
    and "k \<le> unat (dp_ttl p)"
  shows "\<exists>path. journey tables False n p = (path, DeliverLocally) \<and>
    last path = dp_destination p \<and> (n \<noteq> dp_destination p \<longrightarrow> length path \<le> k + 1)"
  using journey_descends [OF assms(1), of n k False] assms by auto

section \<open>Witnesses\<close>

text \<open>Three nodes in a line, 1 - 2 - 3, and a packet from 1 to 3.\<close>

definition line_tables :: "node_id \<Rightarrow> route_table" where
  "line_tables n =
     \<lparr>routes =
        (if n = sample_node 1 then [sample_route 3 2 2 0]
         else if n = sample_node 2 then [sample_route 3 3 1 0] else [])\<rparr>"


definition packet_to_3 :: "u8 \<Rightarrow> data_packet" where
  "packet_to_3 ttl = data_packet_create DATA (sample_node 1) (sample_node 3) 7 ttl [42]"

lemma packet_to_3_simps [simp]:
  "dp_destination (packet_to_3 t) = sample_node 3" "dp_ttl (packet_to_3 t) = t"
  by (simp_all add: packet_to_3_def data_packet_create_def data_packet_create_full_def)

lemma line_metrics:
  "usable_next_hop (line_tables n) (sample_node 3) =
     (if n = sample_node 1 then Some (sample_node 2)
      else if n = sample_node 2 then Some (sample_node 3) else None)"
  "metric_to (line_tables n) (sample_node 3) =
     (if n = sample_node 1 then Some 2 else if n = sample_node 2 then Some 1 else None)"
  by (auto simp: usable_next_hop_def metric_to_def line_tables_def routing_find_route_def
      ROUTE_METRIC_INFINITY_def)

lemma descending_line: "descending line_tables (sample_node 3)"
  by (auto simp: descending_def line_metrics split: if_splits)

theorem descending_tables_deliver_witness:
  "\<exists>path. journey line_tables False (sample_node 1) (packet_to_3 2) = (path, DeliverLocally) \<and>
     last path = sample_node 3 \<and> length path \<le> 3"
  using descending_tables_deliver [of line_tables "packet_to_3 2" "sample_node 1" 2]
  by (simp add: descending_line line_metrics)

theorem forwarding_calls_one_handler_witness:
  "case forward_impl
      (forwarding_set_transmit_handler
        (Some (forwarding_init (Some (line_tables (sample_node 1))) (Some (sample_node 1)))) (Some hand_over))
      (Some (packet_to_3 9)) True None of
    (Some s, Some p, w) \<Rightarrow> fs_last_action s = ForwardToPeer \<and> dp_ttl p = 8 \<and> w = Some (sample_node 2, p)
  | _ \<Rightarrow> False"
proof -
  define s where "s = (forwarding_init (Some (line_tables (sample_node 1))) (Some (sample_node 1)))
    \<lparr>fs_transmit_handler := Some hand_over\<rparr>"
  have s: "fs_table s = Some (line_tables (sample_node 1))" "local_node s = Some (sample_node 1)"
    "fs_transmit_handler s = Some hand_over"
    by (simp_all add: s_def forwarding_init_def local_node_def Let_def)
  obtain s' p' w' where run: "forward_impl (Some s) (Some (packet_to_3 9)) True None = (Some s', Some p', w')"
    unfolding forward_impl_decide [OF s(1)] by (metis (no_types, lifting) case_prod_conv prod_cases3)
  have "fs_last_action s' = ForwardToPeer"
    using run by (auto simp: forward_impl_decide [OF s(1)] s(2) decide_def line_metrics outcome_of_def
        Let_def)
  with forwarding_calls_one_handler [OF s(1) run] run show ?thesis
    by (auto simp: forwarding_set_transmit_handler_def s(3) call_transmit_def hand_over_def line_metrics
        simp flip: s_def)
qed

theorem forwarding_counters_add_up_witness:
  "case forward_all (forwarding_init (Some (line_tables (sample_node 1))) (Some (sample_node 1)))
      [(packet_to_3 9, True), (packet_to_3 1, True)] () of
    (s, n, _) \<Rightarrow> forwarded_packets (fs_metrics s) + dropped_packets (fs_metrics s) + of_nat n = 2"
proof (cases "forward_all (forwarding_init (Some (line_tables (sample_node 1))) (Some (sample_node 1)))
    [(packet_to_3 9, True), (packet_to_3 1, True)] ()")
  case (fields s n w)
  have "of_nat (length [(packet_to_3 9, True), (packet_to_3 1, True)]) = (2 :: u64)" by simp
  with forwarding_counters_add_up [OF fields] show ?thesis unfolding fields by simp metis
qed

end
