(* ===== verification/Codec.thy ===== *)
theory Codec
  imports Wire
begin

text \<open>
  The framing of messages on a connection: \<open>src/protocol/codec.cpp\<close>. A frame is a version byte, a
  type byte, a 16-bit length and a payload of at most 4092 bytes. Shown: what is encoded is what is
  decoded, also with further bytes behind it; peeking at a header agrees with decoding; a decoded
  message is valid and no read leaves the buffer.
\<close>

section \<open>Messages\<close>

text \<open>
  \<open>MessageType\<close> has the underlying type \<open>uint8_t\<close>: a cast can put any byte in it, and the code checks
  for the values it knows.
\<close>

type_synonym message_type = u8

definition MT_Hello :: message_type where "MT_Hello = 1"
definition MT_KeepAlive :: message_type where "MT_KeepAlive = 2"
definition MT_Data :: message_type where "MT_Data = 3"
definition MT_Control :: message_type where "MT_Control = 4"

lemmas message_type_defs = MT_Hello_def MT_KeepAlive_def MT_Data_def MT_Control_def

definition message_type_to_string :: "message_type \<Rightarrow> string" where
  "message_type_to_string t =
     (if t = MT_Hello then ''Hello'' else if t = MT_KeepAlive then ''KeepAlive''
      else if t = MT_Data then ''Data'' else if t = MT_Control then ''Control'' else ''Unknown'')"

definition PROTOCOL_VERSION :: u8 where
  "PROTOCOL_VERSION = 1"

definition HEADER_SIZE :: nat where
  "HEADER_SIZE = 4"

definition MAX_MESSAGE_SIZE :: nat where
  "MAX_MESSAGE_SIZE = 4096"

definition MAX_PAYLOAD_SIZE :: nat where
  "MAX_PAYLOAD_SIZE = MAX_MESSAGE_SIZE - HEADER_SIZE"

lemmas frame_sizes = HEADER_SIZE_def MAX_MESSAGE_SIZE_def MAX_PAYLOAD_SIZE_def

record message =
  m_version :: u8
  m_type :: message_type
  m_payload :: "byte list"

definition known_message_type :: "u8 \<Rightarrow> bool" where
  "known_message_type t \<longleftrightarrow> t = MT_Hello \<or> t = MT_KeepAlive \<or> t = MT_Data \<or> t = MT_Control"

definition message_validate :: "message \<Rightarrow> string + unit" where
  "message_validate msg =
     (if m_version msg \<noteq> PROTOCOL_VERSION
      then Inl (''Unsupported protocol version: '' @ to_string (unat (m_version msg)))
      else if \<not> known_message_type (m_type msg)
      then Inl (''Unrecognized message type: '' @ to_string (unat (m_type msg)))
      else if MAX_PAYLOAD_SIZE < length (m_payload msg)
      then Inl (''Message payload size ('' @ to_string (length (m_payload msg)) @
        '') exceeds limit of '' @ to_string MAX_PAYLOAD_SIZE @ '' bytes'')
      else Inr ())"

text \<open>The empty vector that the code returns on an error is the left result here.\<close>

definition message_encode :: "message \<Rightarrow> string + byte list" where
  "message_encode msg =
     (case message_validate msg of
        Inl e \<Rightarrow> Inl e
      | Inr _ \<Rightarrow>
          let len = (of_nat (length (m_payload msg)) :: u16)
          in Inr ([m_version msg] @ [m_type msg] @ [ucast (drop_bit 8 len AND 0xFF)] @
                  [ucast (len AND 0xFF)] @ m_payload msg))"

text \<open>The message written through \<open>out_msg\<close> is the result; the callers never pass a null pointer.\<close>

definition message_decode :: "byte list \<Rightarrow> fault + message" where
  "message_decode bytes =
     (if length bytes < HEADER_SIZE
      then Inl (Reject (''Buffer too small for message header: '' @ to_string (length bytes) @ '' bytes''))
      else checked (read_u8 bytes 0) (\<lambda>version.
        if version \<noteq> PROTOCOL_VERSION
        then Inl (Reject (''Unsupported protocol version: '' @ to_string (unat version)))
        else checked (read_u8 bytes 1) (\<lambda>type_raw.
        if \<not> known_message_type type_raw
        then Inl (Reject (''Unrecognized message type: '' @ to_string (unat type_raw)))
        else checked (read_u8 bytes 2) (\<lambda>hi. checked (read_u8 bytes 3) (\<lambda>lo.
        let len = push_bit 8 (ucast hi) OR ucast lo :: u16 in
        if MAX_PAYLOAD_SIZE < unat len
        then Inl (Reject (''Declared message payload ('' @ to_string (unat len) @
               '') exceeds maximum allowed payload of '' @ to_string MAX_PAYLOAD_SIZE @ '' bytes''))
        else if length bytes < HEADER_SIZE + unat len
        then Inl (Reject (''Incomplete message buffer: expected '' @ to_string (HEADER_SIZE + unat len) @
               '' bytes, available '' @ to_string (length bytes) @ '' bytes''))
        else checked (read_bytes bytes HEADER_SIZE (unat len)) (\<lambda>payload.
          Inr \<lparr>m_version = version, m_type = type_raw, m_payload = payload\<rparr>))))))"

text \<open>
  \<open>NeedMore\<close> is the empty result that leaves the error string as it was (a header not yet complete);
  \<open>BadHeader\<close> is the empty result with an error.
\<close>

datatype peek_result = NeedMore | BadHeader string | FrameSize nat | PeekOutOfBounds

definition message_peek_size :: "byte list \<Rightarrow> peek_result" where
  "message_peek_size bytes =
     (if length bytes < HEADER_SIZE then NeedMore
      else case (read_u8 bytes 0, read_u8 bytes 1, read_u8 bytes 2, read_u8 bytes 3) of
        (Some version, Some type_raw, Some hi, Some lo) \<Rightarrow>
          if version \<noteq> PROTOCOL_VERSION
          then BadHeader (''Unsupported protocol version in peek: '' @ to_string (unat version))
          else if \<not> known_message_type type_raw
          then BadHeader (''Unrecognized message type in peek: '' @ to_string (unat type_raw))
          else
            let len = push_bit 8 (ucast hi) OR ucast lo :: u16 in
            if MAX_PAYLOAD_SIZE < unat len
            then BadHeader (''Declared message payload ('' @ to_string (unat len) @
               '') exceeds maximum allowed payload of '' @ to_string MAX_PAYLOAD_SIZE @ '' bytes'')
            else FrameSize (HEADER_SIZE + unat len)
      | _ \<Rightarrow> PeekOutOfBounds)"

section \<open>Facts\<close>

definition message_ok :: "message \<Rightarrow> bool" where
  "message_ok msg \<longleftrightarrow>
     m_version msg = PROTOCOL_VERSION \<and> known_message_type (m_type msg) \<and>
     length (m_payload msg) \<le> MAX_PAYLOAD_SIZE"

text \<open>The bytes of a valid frame.\<close>

definition frame :: "message \<Rightarrow> byte list" where
  "frame msg = [m_version msg, m_type msg] @ write_u16_be (of_nat (length (m_payload msg))) @ m_payload msg"

lemma message_validate_iff: "message_validate msg = Inr () \<longleftrightarrow> message_ok msg"
  by (auto simp: message_validate_def message_ok_def)

lemma message_encode_frame: "message_encode msg = Inr bytes \<longleftrightarrow> message_ok msg \<and> bytes = frame msg"
  by (auto simp: message_encode_def message_validate_iff [symmetric] frame_def write_u16_be_def Let_def
      split: sum.splits)

lemma length_frame: "length (frame msg) = HEADER_SIZE + length (m_payload msg)"
  by (simp add: frame_def frame_sizes)

text \<open>A header, as a pattern: both readers are a case analysis on it.\<close>

definition header_len :: "u8 \<Rightarrow> u8 \<Rightarrow> nat" where
  "header_len hi lo = unat (push_bit 8 (ucast hi) OR ucast lo :: u16)"

lemma header_len_u16: "header_len hi lo = unat (u16_of [hi, lo])"
  by (simp add: header_len_def u16_of_def)

lemma header_cases:
  obtains (short) "length bytes < HEADER_SIZE"
  | (header) v t hi lo rest where "bytes = v # t # hi # lo # rest"
proof -
  have "length bytes < HEADER_SIZE \<or> (\<exists>v t hi lo rest. bytes = v # t # hi # lo # rest)"
    by (cases bytes; cases "tl bytes"; cases "tl (tl bytes)"; cases "tl (tl (tl bytes))")
      (auto simp: frame_sizes)
  then show thesis using that by blast
qed

lemma message_decode_header:
  "message_decode (v # t # hi # lo # rest) =
     (if v \<noteq> PROTOCOL_VERSION
      then Inl (Reject (''Unsupported protocol version: '' @ to_string (unat v)))
      else if \<not> known_message_type t
      then Inl (Reject (''Unrecognized message type: '' @ to_string (unat t)))
      else if MAX_PAYLOAD_SIZE < header_len hi lo
      then Inl (Reject (''Declared message payload ('' @ to_string (header_len hi lo) @
             '') exceeds maximum allowed payload of '' @ to_string MAX_PAYLOAD_SIZE @ '' bytes''))
      else if length rest < header_len hi lo
      then Inl (Reject (''Incomplete message buffer: expected '' @
             to_string (HEADER_SIZE + header_len hi lo) @
             '' bytes, available '' @ to_string (HEADER_SIZE + length rest) @ '' bytes''))
      else Inr \<lparr>m_version = v, m_type = t, m_payload = take (header_len hi lo) rest\<rparr>)"
  by (simp add: message_decode_def HEADER_SIZE_def read_u8_def read_bytes_def Let_def
      numeral_eq_Suc header_len_def)

lemma message_peek_header:
  "message_peek_size (v # t # hi # lo # rest) =
     (if v \<noteq> PROTOCOL_VERSION
      then BadHeader (''Unsupported protocol version in peek: '' @ to_string (unat v))
      else if \<not> known_message_type t
      then BadHeader (''Unrecognized message type in peek: '' @ to_string (unat t))
      else if MAX_PAYLOAD_SIZE < header_len hi lo
      then BadHeader (''Declared message payload ('' @ to_string (header_len hi lo) @
             '') exceeds maximum allowed payload of '' @ to_string MAX_PAYLOAD_SIZE @ '' bytes'')
      else FrameSize (HEADER_SIZE + header_len hi lo))"
  by (simp add: message_peek_size_def HEADER_SIZE_def read_u8_def Let_def numeral_eq_Suc
      header_len_def)
lemma message_decode_short: "length bytes < HEADER_SIZE \<Longrightarrow> \<not> accepted (message_decode bytes)"
  by (simp add: message_decode_def)

lemma header_len_frame:
  "length p \<le> MAX_PAYLOAD_SIZE \<Longrightarrow> write_u16_be (of_nat (length p)) = [hi, lo] \<Longrightarrow> header_len hi lo = length p"
  using of_write_be(1) [of "of_nat (length p)"]
  by (simp add: header_len_u16 frame_sizes unat_of_nat)

lemma u16_bytes: obtains hi lo where "write_u16_be v = [hi, lo]"
  by (simp add: write_u16_be_def)

lemma message_decode_frame:
  assumes "message_ok msg"
  shows "message_decode (frame msg @ rest) = Inr msg"
proof -
  obtain hi lo where len: "write_u16_be (of_nat (length (m_payload msg))) = [hi, lo]"
    by (rule u16_bytes)
  moreover have "header_len hi lo = length (m_payload msg)"
    using assms len by (intro header_len_frame) (simp_all add: message_ok_def)
  ultimately show ?thesis
    using assms by (simp add: frame_def message_decode_header message_ok_def)
qed

lemma message_peek_frame:
  assumes "message_ok msg"
  shows "message_peek_size (frame msg @ rest) = FrameSize (length (frame msg))"
proof -
  obtain hi lo where len: "write_u16_be (of_nat (length (m_payload msg))) = [hi, lo]"
    by (rule u16_bytes)
  moreover have "header_len hi lo = length (m_payload msg)"
    using assms len by (intro header_len_frame) (simp_all add: message_ok_def)
  ultimately show ?thesis
    using assms unfolding length_frame by (simp add: frame_def message_peek_header message_ok_def)
qed

lemma frame_of_header:
  assumes "header_len hi lo \<le> length rest"
  shows "frame \<lparr>m_version = v, m_type = t, m_payload = take (header_len hi lo) rest\<rparr> =
    v # t # hi # lo # take (header_len hi lo) rest"
proof -
  have "write_u16_be (u16_of [hi, lo]) = [hi, lo]" by (rule write_of_be) simp
  then show ?thesis using assms by (simp add: frame_def header_len_u16)
qed

lemma message_decode_result:
  assumes "message_decode bytes = Inr msg"
  shows "message_ok msg \<and> length (frame msg) \<le> length bytes \<and> frame msg = take (length (frame msg)) bytes"
proof (cases bytes rule: header_cases)
  case short
  with assms message_decode_short [of bytes] show ?thesis by simp
next
  case (header v t hi lo rest)
  have "v = PROTOCOL_VERSION" "known_message_type t" "header_len hi lo \<le> MAX_PAYLOAD_SIZE"
    "header_len hi lo \<le> length rest"
    "msg = \<lparr>m_version = v, m_type = t, m_payload = take (header_len hi lo) rest\<rparr>"
    using assms by (simp_all add: header message_decode_header split: if_split_asm)
  then show ?thesis
    by (simp add: header frame_of_header message_ok_def)
qed

lemma message_decode_in_bounds: "message_decode bytes \<noteq> Inl OutOfBounds"
  by (cases bytes rule: header_cases) (simp add: message_decode_def, simp add: message_decode_header)

text \<open>A frame at the front of a longer buffer, with the bytes it occupies.\<close>

definition decode_frame :: "byte list \<Rightarrow> fault + (message \<times> nat)" where
  "decode_frame bytes =
     (case message_decode bytes of Inl e \<Rightarrow> Inl e | Inr msg \<Rightarrow> Inr (msg, HEADER_SIZE + length (m_payload msg)))"

interpretation frame_format: prefix_codec frame decode_frame message_ok
proof
  show "message_ok x \<Longrightarrow> decode_frame (frame x @ rest) = Inr (x, length (frame x))" for x rest
    by (simp add: decode_frame_def message_decode_frame length_frame)
  show "decode_frame data \<noteq> Inl OutOfBounds" for data
    using message_decode_in_bounds [of data] by (auto simp: decode_frame_def split: sum.split)
  show "message_ok x \<and> 0 < n \<and> n \<le> length data \<and> frame x = take n data"
    if "decode_frame data = Inr (x, n)" for data x n
    using that message_decode_result [of data x]
    by (auto simp: decode_frame_def length_frame HEADER_SIZE_def split: sum.splits)
qed

section \<open>Properties\<close>

text \<open>
  C32. Encoding succeeds exactly on valid messages; the encoded frame, whatever bytes follow it in the
  buffer, decodes to the message, and peeking at it gives its exact size.
\<close>

theorem message_roundtrip:
  "(accepted (message_encode msg) \<longleftrightarrow> message_validate msg = Inr ()) \<and>
   (\<forall>bytes rest. message_encode msg = Inr bytes \<longrightarrow>
      message_decode (bytes @ rest) = Inr msg \<and>
      message_peek_size (bytes @ rest) = FrameSize (length bytes) \<and>
      length bytes = HEADER_SIZE + length (m_payload msg) \<and> length bytes \<le> MAX_MESSAGE_SIZE)"
  by (auto simp: accepted_iff message_encode_frame message_validate_iff message_decode_frame
      message_peek_frame length_frame message_ok_def frame_sizes)

text \<open>
  On any bytes from the network, decoding never reads outside the buffer, and a decoded message is
  valid and re-encodes to exactly the bytes it was read from.
\<close>

theorem message_decode_hostile_input:
  "message_decode bytes \<noteq> Inl OutOfBounds \<and>
   (message_decode bytes = Inr msg \<longrightarrow>
      message_validate msg = Inr () \<and>
      message_encode msg = Inr (take (HEADER_SIZE + length (m_payload msg)) bytes))"
  using message_decode_result [of bytes msg]
  by (auto simp: message_decode_in_bounds message_validate_iff message_encode_frame length_frame)

text \<open>
  The two readers of a header agree, so a receiver that waits for the peeked size never fails in
  the decoder: peeking gives a size exactly when decoding succeeds on some continuation of the buffer,
  the size is between 4 and 4096, and decoding succeeds as soon as that many bytes are there.
\<close>

theorem peek_agrees_with_decode:
  "(message_peek_size bytes = FrameSize n \<longrightarrow>
      HEADER_SIZE \<le> n \<and> n \<le> MAX_MESSAGE_SIZE \<and>
      (accepted (message_decode bytes) \<longleftrightarrow> n \<le> length bytes)) \<and>
   ((\<exists>e. message_peek_size bytes = BadHeader e) \<longrightarrow> \<not> accepted (message_decode (bytes @ rest))) \<and>
   (message_peek_size bytes = NeedMore \<longleftrightarrow> length bytes < HEADER_SIZE) \<and>
   message_peek_size bytes \<noteq> PeekOutOfBounds"
proof (cases bytes rule: header_cases)
  case short
  then show ?thesis by (simp add: message_peek_size_def)
next
  case (header v t hi lo tl)
  then show ?thesis
    by (auto simp: message_peek_header message_decode_header frame_sizes)
qed

section \<open>Witnesses\<close>

definition sample_message :: message where
  "sample_message = \<lparr>m_version = 1, m_type = 3, m_payload = [10, 20]\<rparr>"

lemma sample_message_frame: "message_encode sample_message = Inr [1, 3, 0, 2, 10, 20]"
  by (simp add: message_encode_frame message_ok_def sample_message_def PROTOCOL_VERSION_def
      known_message_type_def message_type_defs frame_sizes frame_def write_u16_be_def)

theorem message_roundtrip_witness: "message_decode [1, 3, 0, 2, 10, 20, 99] = Inr sample_message"
  using message_roundtrip [of sample_message] sample_message_frame by fastforce

theorem message_decode_hostile_input_witness:
  "message_encode sample_message = Inr (take 6 [1, 3, 0, 2, 10, 20, 99])"
proof -
  have "message_decode [1, 3, 0, 2, 10, 20, 99] = Inr sample_message"
    by (simp add: message_decode_header sample_message_def PROTOCOL_VERSION_def header_len_def
        known_message_type_def message_type_defs frame_sizes)
  with message_decode_hostile_input [of "[1, 3, 0, 2, 10, 20, 99]" sample_message] show ?thesis
    by (simp add: sample_message_def HEADER_SIZE_def)
qed

theorem peek_agrees_with_decode_witness:
  "\<not> accepted (message_decode [1, 3, 0, 2, 10]) \<and> accepted (message_decode [1, 3, 0, 2, 10, 20])"
proof -
  have "message_peek_size [1, 3, 0, 2, 10] = FrameSize 6"
    "message_peek_size [1, 3, 0, 2, 10, 20] = FrameSize 6"
    by (simp_all add: message_peek_header PROTOCOL_VERSION_def header_len_def
        known_message_type_def message_type_defs frame_sizes)
  with peek_agrees_with_decode [of "[1, 3, 0, 2, 10]" 6 "[]"]
    peek_agrees_with_decode [of "[1, 3, 0, 2, 10, 20]" 6 "[]"] show ?thesis
    by simp
qed

end
