(* ===== verification/Control_Message.thy ===== *)
theory Control_Message
  imports Topology Wire
begin

text \<open>
  Control messages and the fixed-size messages they carry: \<open>src/network/control_message.cpp\<close>, and from
  \<open>src/network/serialization.cpp\<close> the formats of the control message, the hello message and the
  neighbour advertisement. Shown: all three are canonical formats (a message has one encoding, and
  nothing but that encoding is accepted), hostile buffers are never read past their end, and only
  valid messages for connected peers reach the sender hook.
\<close>

section \<open>Control messages\<close>

text \<open>\<open>ControlMessageType\<close> has the underlying type \<open>uint8_t\<close>.\<close>

type_synonym control_message_type = u8

definition CT_Invalid :: control_message_type where "CT_Invalid = 0"
definition CT_HELLO :: control_message_type where "CT_HELLO = 1"
definition CT_NEIGHBOR_ADVERTISEMENT :: control_message_type where "CT_NEIGHBOR_ADVERTISEMENT = 2"
definition CT_ROUTE_ADVERTISEMENT :: control_message_type where "CT_ROUTE_ADVERTISEMENT = 3"
definition CT_JOIN_REQUEST :: control_message_type where "CT_JOIN_REQUEST = 4"
definition CT_JOIN_RESPONSE :: control_message_type where "CT_JOIN_RESPONSE = 5"
definition CT_FIND_NODE :: control_message_type where "CT_FIND_NODE = 6"
definition CT_NEIGHBORS :: control_message_type where "CT_NEIGHBORS = 7"
definition CT_NODE_ANNOUNCE :: control_message_type where "CT_NODE_ANNOUNCE = 8"
definition CT_NODE_ANNOUNCE_ACK :: control_message_type where "CT_NODE_ANNOUNCE_ACK = 9"

lemmas control_type_defs =
  CT_Invalid_def CT_HELLO_def CT_NEIGHBOR_ADVERTISEMENT_def CT_ROUTE_ADVERTISEMENT_def
  CT_JOIN_REQUEST_def CT_JOIN_RESPONSE_def CT_FIND_NODE_def CT_NEIGHBORS_def CT_NODE_ANNOUNCE_def
  CT_NODE_ANNOUNCE_ACK_def

definition known_control_type :: "u8 \<Rightarrow> bool" where
  "known_control_type t \<longleftrightarrow>
     t = CT_HELLO \<or> t = CT_NEIGHBOR_ADVERTISEMENT \<or> t = CT_ROUTE_ADVERTISEMENT \<or>
     t = CT_JOIN_REQUEST \<or> t = CT_JOIN_RESPONSE \<or> t = CT_FIND_NODE \<or> t = CT_NEIGHBORS \<or>
     t = CT_NODE_ANNOUNCE \<or> t = CT_NODE_ANNOUNCE_ACK"

definition control_message_type_to_string :: "control_message_type \<Rightarrow> string" where
  "control_message_type_to_string t =
     (if t = CT_HELLO then ''HELLO''
      else if t = CT_NEIGHBOR_ADVERTISEMENT then ''NEIGHBOR_ADVERTISEMENT''
      else if t = CT_ROUTE_ADVERTISEMENT then ''ROUTE_ADVERTISEMENT''
      else if t = CT_JOIN_REQUEST then ''JOIN_REQUEST''
      else if t = CT_JOIN_RESPONSE then ''JOIN_RESPONSE''
      else if t = CT_FIND_NODE then ''FIND_NODE''
      else if t = CT_NEIGHBORS then ''NEIGHBORS''
      else if t = CT_NODE_ANNOUNCE then ''NODE_ANNOUNCE''
      else if t = CT_NODE_ANNOUNCE_ACK then ''NODE_ANNOUNCE_ACK'' else ''Invalid'')"

record control_message =
  cm_type :: control_message_type
  cm_sequence_number :: u64
  cm_sender :: node_id
  cm_payload :: "byte list"

definition empty_control_message :: control_message where
  "empty_control_message =
     \<lparr>cm_type = CT_Invalid, cm_sequence_number = 0, cm_sender = zero_node_id, cm_payload = []\<rparr>"

definition control_message_create ::
  "control_message_type \<Rightarrow> u64 \<Rightarrow> node_id \<Rightarrow> byte list \<Rightarrow> control_message" where
  "control_message_create t sequence_number sender payload =
     \<lparr>cm_type = t, cm_sequence_number = sequence_number, cm_sender = sender, cm_payload = payload\<rparr>"

definition MAX_CONTROL_PAYLOAD :: nat where
  "MAX_CONTROL_PAYLOAD = 65536"

definition control_message_validate :: "control_message \<Rightarrow> string + unit" where
  "control_message_validate m =
     (if \<not> known_control_type (cm_type m)
      then Inl (''Invalid control message type: '' @ to_string (unat (cm_type m)))
      else if MAX_CONTROL_PAYLOAD < length (cm_payload m)
      then Inl (''Control message payload too large: '' @ to_string (length (cm_payload m)) @ '' bytes'')
      else Inr ())"

section \<open>The hooks\<close>

text \<open>The two global \<open>std::function\<close>s; they act on the outside world and may change the peer.\<close>

record 'w control_hooks =
  ch_sender :: "(peer \<Rightarrow> control_message \<Rightarrow> 'w \<Rightarrow> peer \<times> 'w) option"
  ch_handler :: "(control_message \<Rightarrow> 'w \<Rightarrow> 'w) option"

definition set_control_message_sender ::
  "(peer \<Rightarrow> control_message \<Rightarrow> 'w \<Rightarrow> peer \<times> 'w) option \<Rightarrow> 'w control_hooks \<Rightarrow> 'w control_hooks" where
  "set_control_message_sender sender hooks = hooks\<lparr>ch_sender := sender\<rparr>"

definition set_control_message_handler ::
  "(control_message \<Rightarrow> 'w \<Rightarrow> 'w) option \<Rightarrow> 'w control_hooks \<Rightarrow> 'w control_hooks" where
  "set_control_message_handler handler hooks = hooks\<lparr>ch_handler := handler\<rparr>"

definition send_control_message ::
  "'w control_hooks \<Rightarrow> peer \<Rightarrow> control_message \<Rightarrow> 'w \<Rightarrow> peer \<times> 'w" where
  "send_control_message hooks p m w =
     (if p_state p \<noteq> Connected then (p, w)
      else case control_message_validate m of
        Inl _ \<Rightarrow> (p, w)
      | Inr _ \<Rightarrow> (case ch_sender hooks of None \<Rightarrow> (p, w) | Some send \<Rightarrow> send p m w))"

definition handle_control_message ::
  "'w control_hooks \<Rightarrow> control_message \<Rightarrow> 'w \<Rightarrow> 'w" where
  "handle_control_message hooks m w =
     (case control_message_validate m of
        Inl _ \<Rightarrow> w
      | Inr _ \<Rightarrow> (case ch_handler hooks of None \<Rightarrow> w | Some handle \<Rightarrow> handle m w))"

section \<open>The control message format\<close>

definition CONTROL_MESSAGE_HEADER_SIZE :: nat where
  "CONTROL_MESSAGE_HEADER_SIZE = 1 + 8 + 32 + 4"

definition MAX_PAYLOAD_LIMIT :: nat where
  "MAX_PAYLOAD_LIMIT = 65536"

definition serialize_control_message :: "control_message \<Rightarrow> byte list" where
  "serialize_control_message m =
     [cm_type m] @ write_u64_be (cm_sequence_number m) @ cm_sender m @
     write_u32_be (of_nat (length (cm_payload m))) @ cm_payload m"

definition deserialize_control_message :: "byte list \<Rightarrow> fault + control_message" where
  "deserialize_control_message data =
     (if length data < CONTROL_MESSAGE_HEADER_SIZE
      then Inl (Reject ''Buffer smaller than control message header'')
      else checked (read_u8 data 0) (\<lambda>type_raw.
        if \<not> known_control_type type_raw
        then Inl (Reject (''Unrecognized control message type: '' @ to_string (unat type_raw)))
        else checked (read_u64_be data 1) (\<lambda>seq.
        checked (read_bytes data 9 32) (\<lambda>sender.
        checked (read_u32_be data 41) (\<lambda>payload_len.
        if MAX_PAYLOAD_LIMIT < unat payload_len
        then Inl (Reject ''Payload declared length exceeds maximum allowed limit'')
        else if length data \<noteq> CONTROL_MESSAGE_HEADER_SIZE + unat payload_len
        then Inl (Reject ''Buffer size mismatch with declared payload length'')
        else checked (read_bytes data CONTROL_MESSAGE_HEADER_SIZE (unat payload_len)) (\<lambda>payload.
          Inr \<lparr>cm_type = type_raw, cm_sequence_number = seq, cm_sender = sender,
               cm_payload = payload\<rparr>))))))"

definition control_message_of :: "byte list \<Rightarrow> control_message" where
  "control_message_of data =
     (case deserialize_control_message data of Inl _ \<Rightarrow> empty_control_message | Inr m \<Rightarrow> m)"

section \<open>Hello messages and neighbour advertisements\<close>

definition HELLO_MESSAGE_WIRE_SIZE :: nat where
  "HELLO_MESSAGE_WIRE_SIZE = 32 + 8"

definition serialize_hello_message :: "hello_message \<Rightarrow> byte list" where
  "serialize_hello_message msg = h_sender msg @ write_u64_be (h_timestamp msg)"

definition deserialize_hello_message :: "byte list \<Rightarrow> fault + hello_message" where
  "deserialize_hello_message data =
     (if length data \<noteq> HELLO_MESSAGE_WIRE_SIZE then Inl (Reject ''Invalid hello message size'')
      else checked (read_bytes data 0 32) (\<lambda>sender.
        checked (read_u64_be data 32) (\<lambda>timestamp.
          Inr \<lparr>h_sender = sender, h_timestamp = timestamp\<rparr>)))"

definition hello_message_of :: "byte list \<Rightarrow> hello_message" where
  "hello_message_of data =
     (case deserialize_hello_message data of
        Inl _ \<Rightarrow> \<lparr>h_sender = zero_node_id, h_timestamp = 0\<rparr> | Inr m \<Rightarrow> m)"

definition NEIGHBOR_ADV_WIRE_SIZE :: nat where
  "NEIGHBOR_ADV_WIRE_SIZE = 32 + 16 + 8 + 8"

definition serialize_neighbor_advertisement :: "neighbor_advertisement \<Rightarrow> byte list" where
  "serialize_neighbor_advertisement adv =
     na_node_id adv @ na_address adv @ write_u64_be (na_timestamp adv) @
     write_u64_be (na_sequence_number adv)"

definition deserialize_neighbor_advertisement :: "byte list \<Rightarrow> fault + neighbor_advertisement" where
  "deserialize_neighbor_advertisement data =
     (if length data \<noteq> NEIGHBOR_ADV_WIRE_SIZE
      then Inl (Reject ''Invalid neighbor advertisement size'')
      else checked (read_bytes data 0 32) (\<lambda>nid.
        checked (read_bytes data 32 16) (\<lambda>address.
        checked (read_u64_be data 48) (\<lambda>timestamp.
        checked (read_u64_be data 56) (\<lambda>sequence_number.
          Inr \<lparr>na_node_id = nid, na_address = address, na_timestamp = timestamp,
               na_sequence_number = sequence_number\<rparr>)))))"

definition neighbor_advertisement_of :: "byte list \<Rightarrow> neighbor_advertisement" where
  "neighbor_advertisement_of data =
     (case deserialize_neighbor_advertisement data of
        Inl _ \<Rightarrow> \<lparr>na_node_id = zero_node_id, na_address = zero_ipv6, na_timestamp = 0,
                   na_sequence_number = 0\<rparr>
      | Inr m \<Rightarrow> m)"

section \<open>Facts\<close>

definition control_message_ok :: "control_message \<Rightarrow> bool" where
  "control_message_ok m \<longleftrightarrow>
     control_message_validate m = Inr () \<and> is_node_id (cm_sender m)"

lemma control_message_ok_iff:
  "control_message_ok m \<longleftrightarrow>
     known_control_type (cm_type m) \<and> length (cm_payload m) \<le> 65536 \<and> is_node_id (cm_sender m)"
  by (auto simp: control_message_ok_def control_message_validate_def MAX_CONTROL_PAYLOAD_def)

lemma control_roundtrip:
  assumes "control_message_ok m"
  shows "deserialize_control_message (serialize_control_message m) = Inr m"
proof -
  have len: "unat (of_nat (length (cm_payload m)) :: u32) = length (cm_payload m)"
    using assms by (simp add: control_message_ok_iff unat_of_nat)
  have size: "length (serialize_control_message m) = 45 + length (cm_payload m)"
    using assms by (simp add: serialize_control_message_def control_message_ok_iff)
  show ?thesis
    unfolding deserialize_control_message_def size
    using assms
    by (simp add: serialize_control_message_def read_int_defs len CONTROL_MESSAGE_HEADER_SIZE_def
        MAX_PAYLOAD_LIMIT_def control_message_ok_iff wire
        del: read_u8_in_range read_bytes_in_range)
qed

lemma deserialize_control_cases:
  assumes "\<not> length data < 45"
  shows "deserialize_control_message data =
    (if \<not> known_control_type (data ! 0)
     then Inl (Reject (''Unrecognized control message type: '' @ to_string (unat (data ! 0))))
     else if 65536 < unat (u32_of (take 4 (drop 41 data)))
     then Inl (Reject ''Payload declared length exceeds maximum allowed limit'')
     else if length data \<noteq> 45 + unat (u32_of (take 4 (drop 41 data)))
     then Inl (Reject ''Buffer size mismatch with declared payload length'')
     else Inr \<lparr>cm_type = data ! 0, cm_sequence_number = u64_of (take 8 (drop 1 data)),
       cm_sender = take 32 (drop 9 data),
       cm_payload = take (unat (u32_of (take 4 (drop 41 data)))) (drop 45 data)\<rparr>)"
proof -
  have fields: "0 < length data" "1 + 8 \<le> length data" "9 + 32 \<le> length data" "41 + 4 \<le> length data"
    using assms by linarith+
  have size: "CONTROL_MESSAGE_HEADER_SIZE = 45"
    by (simp add: CONTROL_MESSAGE_HEADER_SIZE_def)
  have payload: "length data = 45 + n \<Longrightarrow> read_bytes data 45 n = Some (take n (drop 45 data))" for n
    by (simp add: read_bytes_def)
  show ?thesis
    by (simp only: deserialize_control_message_def size MAX_PAYLOAD_LIMIT_def assms if_False
        read_int_defs read_u8_in_range read_bytes_in_range fields checked_simps option.map)
      (intro if_cong refl, simp_all only: payload simp_thms checked_simps)
qed

lemma control_canonical:
  assumes "deserialize_control_message data = Inr m"
  shows "control_message_ok m \<and> serialize_control_message m = data"
proof (cases "length data < 45")
  case True
  with assms show ?thesis by (simp add: deserialize_control_message_def CONTROL_MESSAGE_HEADER_SIZE_def)
next
  case False
  define len where "len = u32_of (take 4 (drop 41 data))"
  from assms have
    size: "length data = 45 + unat len" "unat len \<le> 65536"
    and code: "known_control_type (data ! 0)"
    and m: "m = \<lparr>cm_type = data ! 0, cm_sequence_number = u64_of (take 8 (drop 1 data)),
       cm_sender = take 32 (drop 9 data), cm_payload = drop 45 data\<rparr>"
    unfolding deserialize_control_cases [OF False] len_def [symmetric]
    by (simp_all add: not_less split: if_split_asm)
  have "write_u32_be len = take 4 (drop 41 data)"
    unfolding len_def by (rule write_of_be) (simp add: size(1))
  moreover have "data ! 0 # take 8 (drop 1 data) @ take 32 (drop 9 data) @ take 4 (drop 41 data) @
      drop 45 data = data"
    using size(1) segment_glue_Cons [of 0 data 1] by (simp add: segment_glue)
  ultimately show ?thesis
    using size code by (simp add: m serialize_control_message_def write_of_be control_message_ok_iff)
qed

lemma control_in_bounds: "deserialize_control_message data \<noteq> Inl OutOfBounds"
proof (cases "length data < 45")
  case True
  then show ?thesis by (simp add: deserialize_control_message_def CONTROL_MESSAGE_HEADER_SIZE_def)
next
  case False
  then show ?thesis
    by (simp only: deserialize_control_cases rejected_in_bounds sum.distinct not_False_eq_True simp_thms)
qed

interpretation control_format:
  canonical_codec serialize_control_message deserialize_control_message control_message_ok
  by unfold_locales (auto simp: control_roundtrip control_in_bounds dest: control_canonical)

definition hello_ok :: "hello_message \<Rightarrow> bool" where
  "hello_ok m \<longleftrightarrow> is_node_id (h_sender m)"

lemma deserialize_hello_cases:
  "deserialize_hello_message data =
     (if length data \<noteq> 40 then Inl (Reject ''Invalid hello message size'')
      else Inr \<lparr>h_sender = take 32 data, h_timestamp = u64_of (drop 32 data)\<rparr>)"
  by (simp add: deserialize_hello_message_def HELLO_MESSAGE_WIRE_SIZE_def read_int_defs wire)

interpretation hello_format:
  canonical_codec serialize_hello_message deserialize_hello_message hello_ok
  by unfold_locales
    (auto simp: deserialize_hello_cases serialize_hello_message_def hello_ok_def write_of_be
      split: if_splits)

definition neighbor_advertisement_ok :: "neighbor_advertisement \<Rightarrow> bool" where
  "neighbor_advertisement_ok m \<longleftrightarrow> is_node_id (na_node_id m) \<and> is_ipv6 (na_address m)"

lemma deserialize_neighbor_cases:
  "deserialize_neighbor_advertisement data =
     (if length data \<noteq> 64 then Inl (Reject ''Invalid neighbor advertisement size'')
      else Inr \<lparr>na_node_id = take 32 data, na_address = take 16 (drop 32 data),
        na_timestamp = u64_of (take 8 (drop 48 data)), na_sequence_number = u64_of (drop 56 data)\<rparr>)"
  by (simp add: deserialize_neighbor_advertisement_def NEIGHBOR_ADV_WIRE_SIZE_def read_int_defs wire)

interpretation neighbor_format:
  canonical_codec serialize_neighbor_advertisement deserialize_neighbor_advertisement
    neighbor_advertisement_ok
  by unfold_locales
    (auto simp: deserialize_neighbor_cases serialize_neighbor_advertisement_def
      neighbor_advertisement_ok_def write_of_be segment_glue split: if_splits)

section \<open>Properties\<close>

text \<open>
  The control message format is canonical: a buffer is accepted, with a message as the result,
  exactly when the message is valid and the buffer is its serialisation, byte for byte. No buffer is
  read past its end, and a rejected one yields the invalid default message, which no message equals.
\<close>

theorem control_message_canonical:
  "(deserialize_control_message data = Inr m \<longleftrightarrow>
      control_message_ok m \<and> data = serialize_control_message m) \<and>
   deserialize_control_message data \<noteq> Inl OutOfBounds \<and>
   (control_message_of data = empty_control_message \<longleftrightarrow>
      \<not> accepted (deserialize_control_message data))"
proof -
  have "\<not> control_message_ok empty_control_message"
    by (simp add: control_message_ok_iff empty_control_message_def known_control_type_def
        control_type_defs)
  then have "deserialize_control_message data \<noteq> Inr empty_control_message"
    using control_format.dec_ok by blast
  then show ?thesis
    using control_format.dec_eq_iff [of data m] control_format.in_bounds [of data]
    by (auto simp: control_message_of_def split: sum.split)
qed

text \<open>
  The same for hello messages and neighbour advertisements: acceptance is equality with the
  serialisation of a well-formed message, of exactly 40 and 64 bytes.
\<close>

theorem fixed_size_messages_canonical:
  "(deserialize_hello_message data = Inr hello \<longleftrightarrow>
      is_node_id (h_sender hello) \<and> data = serialize_hello_message hello) \<and>
   (deserialize_neighbor_advertisement data = Inr adv \<longleftrightarrow>
      is_node_id (na_node_id adv) \<and> is_ipv6 (na_address adv) \<and>
      data = serialize_neighbor_advertisement adv) \<and>
   (accepted (deserialize_hello_message data) \<longleftrightarrow> length data = 40) \<and>
   (accepted (deserialize_neighbor_advertisement data) \<longleftrightarrow> length data = 64)"
  using hello_format.dec_eq_iff [of data hello] neighbor_format.dec_eq_iff [of data adv]
  by (auto simp: hello_ok_def neighbor_advertisement_ok_def deserialize_hello_cases
      deserialize_neighbor_cases)

end
