(* ===== verification/Route_Wire.thy ===== *)
theory Route_Wire
  imports Routing Wire
begin

text \<open>
  The wire format of route advertisements, from \<open>src/network/serialization.cpp\<close>: a 52-byte header and
  at most 16 entries of 52 bytes. The next hop and the time of the last update are not sent; the
  receiver fills them in. Shown: the round trip up to those two fields, and that acceptance is
  canonical.
\<close>

section \<open>The format\<close>

definition ROUTE_ENTRY_WIRE_SIZE :: nat where
  "ROUTE_ENTRY_WIRE_SIZE = 32 + 16 + 4"

definition ROUTE_ADVERTISEMENT_HEADER_SIZE :: nat where
  "ROUTE_ADVERTISEMENT_HEADER_SIZE = 32 + 8 + 8 + 4"

lemmas route_wire_sizes = ROUTE_ENTRY_WIRE_SIZE_def ROUTE_ADVERTISEMENT_HEADER_SIZE_def

definition serialize_route_entry :: "route \<Rightarrow> byte list" where
  "serialize_route_entry r = r_destination_node r @ r_destination r @ write_u32_be (r_metric r)"

definition serialize_route_advertisement :: "route_advertisement \<Rightarrow> byte list" where
  "serialize_route_advertisement adv =
     (if MAX_ROUTE_TABLE_ENTRIES < length (ra_routes adv) then []
      else ra_sender adv @ write_u64_be (ra_generation adv) @ write_u64_be (ra_sequence_number adv) @
        write_u32_be (of_nat (length (ra_routes adv))) @
        concat (map serialize_route_entry (ra_routes adv)))"

text \<open>The loop over the entries; \<open>offset\<close> advances by 32, 16 and 4 bytes in each round.\<close>

fun read_route_entries :: "byte list \<Rightarrow> nat \<Rightarrow> nat \<Rightarrow> route list \<Rightarrow> fault + route list" where
  "read_route_entries data 0 offset acc = Inr acc"
| "read_route_entries data (Suc count) offset acc =
     checked (read_bytes data offset 32) (\<lambda>destination_node.
     checked (read_bytes data (offset + 32) 16) (\<lambda>destination.
     checked (read_u32_be data (offset + 48)) (\<lambda>metric.
       read_route_entries data count (offset + 52)
         (acc @ [route_create destination zero_node_id metric 0 destination_node]))))"

definition deserialize_route_advertisement :: "byte list \<Rightarrow> fault + route_advertisement" where
  "deserialize_route_advertisement data =
     (if length data < ROUTE_ADVERTISEMENT_HEADER_SIZE
      then Inl (Reject ''Buffer smaller than route advertisement header'')
      else checked (read_bytes data 0 32) (\<lambda>sender.
        checked (read_u64_be data 32) (\<lambda>generation.
        checked (read_u64_be data 40) (\<lambda>seq.
        checked (read_u32_be data 48) (\<lambda>count.
        if MAX_ROUTE_TABLE_ENTRIES < unat count
        then Inl (Reject ''Declared route count exceeds limit'')
        else if length data \<noteq> ROUTE_ADVERTISEMENT_HEADER_SIZE + unat count * ROUTE_ENTRY_WIRE_SIZE
        then Inl (Reject ''Buffer size does not match declared route count'')
        else case read_route_entries data (unat count) ROUTE_ADVERTISEMENT_HEADER_SIZE [] of
               Inl e \<Rightarrow> Inl e
             | Inr entries \<Rightarrow>
                 Inr \<lparr>ra_sender = sender, ra_generation = generation, ra_sequence_number = seq,
                      ra_routes = entries\<rparr>)))))"

definition route_advertisement_of :: "byte list \<Rightarrow> route_advertisement" where
  "route_advertisement_of data =
     (case deserialize_route_advertisement data of
        Inl _ \<Rightarrow> \<lparr>ra_sender = zero_node_id, ra_generation = 0, ra_sequence_number = 0, ra_routes = []\<rparr>
      | Inr adv \<Rightarrow> adv)"

section \<open>Facts\<close>

text \<open>What of a route is on the wire.\<close>

definition wire_route :: "route \<Rightarrow> route" where
  "wire_route r = route_create (r_destination r) zero_node_id (r_metric r) 0 (r_destination_node r)"

definition route_ok :: "route \<Rightarrow> bool" where
  "route_ok r \<longleftrightarrow> is_node_id (r_destination_node r) \<and> is_ipv6 (r_destination r) \<and> wire_route r = r"

definition route_advertisement_ok :: "route_advertisement \<Rightarrow> bool" where
  "route_advertisement_ok adv \<longleftrightarrow>
     is_node_id (ra_sender adv) \<and> length (ra_routes adv) \<le> 16 \<and> list_all route_ok (ra_routes adv)"

definition read_route_entry :: "byte list \<Rightarrow> fault + (route \<times> nat)" where
  "read_route_entry data =
     (if length data < 52 then Inl (Reject '''')
      else Inr (route_create (take 16 (drop 32 data)) zero_node_id (u32_of (take 4 (drop 48 data))) 0
             (take 32 data), 52))"

interpretation route_entry: prefix_codec serialize_route_entry read_route_entry route_ok
proof
  show "read_route_entry (serialize_route_entry r @ rest) = Inr (r, length (serialize_route_entry r))"
    if "route_ok r" for r rest
    using that by (cases r)
      (simp add: read_route_entry_def serialize_route_entry_def route_ok_def wire_route_def route_create_def)
  show "read_route_entry data \<noteq> Inl OutOfBounds" for data
    by (simp add: read_route_entry_def)
  show "route_ok r \<and> 0 < n \<and> n \<le> length data \<and> serialize_route_entry r = take n data"
    if "read_route_entry data = Inr (r, n)" for data r n
  proof -
    have "take (32 + (16 + 4)) data = take 32 data @ take 16 (drop 32 data) @ take 4 (drop 48 data)"
      by (simp only: take_add drop_drop) simp
    then show ?thesis
      using that by (auto simp: read_route_entry_def serialize_route_entry_def route_ok_def
          wire_route_def route_create_def write_of_be split: if_splits)
  qed
qed

text \<open>The loop is the generic one of the wire theory, once the size of the buffer is known to fit.\<close>

lemma read_route_entries_seq:
  "offset + count * 52 \<le> length data \<Longrightarrow>
     decode_seq read_route_entry msg count data offset acc =
       (case read_route_entries data count offset acc of
          Inl e \<Rightarrow> Inl e | Inr rs \<Rightarrow> Inr (rs, offset + count * 52))"
proof (induction count arbitrary: offset acc)
  case (Suc count)
  have "read_bytes data offset 32 = Some (take 32 (drop offset data))"
    "read_bytes data (offset + 32) 16 = Some (take 16 (drop 32 (drop offset data)))"
    "read_u32_be data (offset + 48) = Some (u32_of (take 4 (drop 48 (drop offset data))))"
    using Suc.prems by (simp_all add: read_int_defs read_bytes_def add.commute)
  moreover have "read_route_entry (drop offset data) =
      Inr (route_create (take 16 (drop 32 (drop offset data))) zero_node_id
        (u32_of (take 4 (drop 48 (drop offset data)))) 0 (take 32 (drop offset data)), 52)"
    using Suc.prems by (simp add: read_route_entry_def)
  ultimately show ?case
    using Suc.IH [of "offset + 52"] Suc.prems by (simp add: add.assoc split: sum.split)
qed simp

lemma length_route_entries:
  "list_all route_ok rs \<Longrightarrow> length (concat (map serialize_route_entry rs)) = length rs * 52"
  by (induction rs) (auto simp: serialize_route_entry_def route_ok_def)

lemma route_roundtrip:
  assumes "route_advertisement_ok adv"
  shows "deserialize_route_advertisement (serialize_route_advertisement adv) = Inr adv"
proof -
  let ?n = "length (ra_routes adv)" and ?entries = "concat (map serialize_route_entry (ra_routes adv))"
  let ?head = "ra_sender adv @ write_u64_be (ra_generation adv) @ write_u64_be (ra_sequence_number adv) @
    write_u32_be (of_nat ?n)"
  have ok: "is_node_id (ra_sender adv)" "?n \<le> 16" "list_all route_ok (ra_routes adv)"
    using assms by (simp_all add: route_advertisement_ok_def)
  have len: "unat (of_nat ?n :: u32) = ?n" using ok(2) by (simp add: unat_of_nat)
  have enc: "serialize_route_advertisement adv = ?head @ ?entries"
    using ok by (simp add: serialize_route_advertisement_def MAX_ROUTE_TABLE_ENTRIES_def)
  have size: "length (?head @ ?entries) = 52 + ?n * 52"
    using ok by (simp add: length_route_entries)
  have "decode_seq read_route_entry [] ?n (?head @ ?entries @ []) (length ?head) [] =
      Inr ([] @ ra_routes adv, length ?head + length ?entries)"
    by (rule route_entry.decode_seq_enc [OF ok(3)])
  moreover have "length ?head = 52" using ok by simp
  ultimately have loop: "read_route_entries (?head @ ?entries) ?n 52 [] = Inr (ra_routes adv)"
    using read_route_entries_seq [of 52 ?n "?head @ ?entries" "[]" "[]"] size
    by (simp split: sum.splits)
  show ?thesis
    unfolding enc deserialize_route_advertisement_def size
    using ok by (simp add: route_wire_sizes MAX_ROUTE_TABLE_ENTRIES_def read_int_defs len wire
        loop [simplified] del: read_bytes_in_range)
qed

lemma deserialize_route_cases:
  assumes "\<not> length data < 52"
  shows "deserialize_route_advertisement data =
    (if 16 < unat (u32_of (take 4 (drop 48 data)))
     then Inl (Reject ''Declared route count exceeds limit'')
     else if length data \<noteq> 52 + unat (u32_of (take 4 (drop 48 data))) * 52
     then Inl (Reject ''Buffer size does not match declared route count'')
     else case read_route_entries data (unat (u32_of (take 4 (drop 48 data)))) 52 [] of
            Inl e \<Rightarrow> Inl e
          | Inr entries \<Rightarrow> Inr \<lparr>ra_sender = take 32 (drop 0 data),
              ra_generation = u64_of (take 8 (drop 32 data)),
              ra_sequence_number = u64_of (take 8 (drop 40 data)), ra_routes = entries\<rparr>)"
proof -
  have fields: "0 + 32 \<le> length data" "32 + 8 \<le> length data" "40 + 8 \<le> length data"
    "48 + 4 \<le> length data"
    using assms by linarith+
  have size: "ROUTE_ADVERTISEMENT_HEADER_SIZE = 52" "ROUTE_ENTRY_WIRE_SIZE = 52"
    by (simp_all add: route_wire_sizes)
  show ?thesis
    by (simp only: deserialize_route_advertisement_def size MAX_ROUTE_TABLE_ENTRIES_def assms if_False
        read_int_defs read_bytes_in_range fields checked_simps option.map)
qed

lemma read_route_entries_result:
  assumes "length data = 52 + n * 52"
  obtains rs where "read_route_entries data n 52 [] = Inr rs" "length rs = n" "list_all route_ok rs"
    "concat (map serialize_route_entry rs) = drop 52 data"
proof -
  have seq: "decode_seq read_route_entry [] n data 52 [] =
      (case read_route_entries data n 52 [] of Inl e \<Rightarrow> Inl e | Inr rs \<Rightarrow> Inr (rs, 52 + n * 52))"
    using assms by (intro read_route_entries_seq) simp
  have total: "\<exists>rs. read_route_entries data k off acc = Inr rs"
    if "off + k * 52 \<le> length data" for k off acc
    using that by (induction k arbitrary: off acc) (auto simp: read_int_defs read_bytes_def)
  then obtain rs where rs: "read_route_entries data n 52 [] = Inr rs" using assms by fastforce
  with seq route_entry.decode_seq_result [of "[]" n data 52 "[]" rs "52 + n * 52"] assms that
  show thesis by auto
qed

lemma route_canonical:
  assumes "deserialize_route_advertisement data = Inr adv"
  shows "route_advertisement_ok adv \<and> serialize_route_advertisement adv = data"
proof (cases "length data < 52")
  case True
  with assms show ?thesis by (simp add: deserialize_route_advertisement_def route_wire_sizes)
next
  case False
  define count where "count = u32_of (take 4 (drop 48 data))"
  have size: "length data = 52 + unat count * 52" "unat count \<le> 16"
    using assms unfolding deserialize_route_cases [OF False] count_def [symmetric]
    by (simp_all add: not_less split: if_split_asm)
  obtain rs where rs: "read_route_entries data (unat count) 52 [] = Inr rs" "length rs = unat count"
    "list_all route_ok rs" "concat (map serialize_route_entry rs) = drop 52 data"
    by (rule read_route_entries_result [OF size(1)])
  have adv: "adv = \<lparr>ra_sender = take 32 (drop 0 data),
      ra_generation = u64_of (take 8 (drop 32 data)),
      ra_sequence_number = u64_of (take 8 (drop 40 data)), ra_routes = rs\<rparr>"
    using assms size rs(1) unfolding deserialize_route_cases [OF False] count_def [symmetric] by simp
  have "write_u32_be count = take 4 (drop 48 data)"
    unfolding count_def by (rule write_of_be) (simp add: size(1))
  moreover have "take 32 data @ take 8 (drop 32 data) @ take 8 (drop 40 data) @ take 4 (drop 48 data) @
      drop 52 data = data"
    by (simp add: segment_glue)
  ultimately show ?thesis
    using size rs by (simp add: adv serialize_route_advertisement_def write_of_be
        route_advertisement_ok_def MAX_ROUTE_TABLE_ENTRIES_def)
qed

lemma route_in_bounds: "deserialize_route_advertisement data \<noteq> Inl OutOfBounds"
proof (cases "length data < 52")
  case True
  then show ?thesis by (simp add: deserialize_route_advertisement_def route_wire_sizes)
next
  case False
  define n where "n = unat (u32_of (take 4 (drop 48 data)))"
  show ?thesis
  proof (cases "length data = 52 + n * 52")
    case True
    obtain rs where "read_route_entries data n 52 [] = Inr rs"
      by (rule read_route_entries_result [OF True])
    then show ?thesis
      unfolding deserialize_route_cases [OF False] n_def [symmetric] by simp
  next
    case mismatch: False
    then show ?thesis
      unfolding deserialize_route_cases [OF False] n_def [symmetric] by simp
  qed
qed

interpretation route_format:
  canonical_codec serialize_route_advertisement deserialize_route_advertisement route_advertisement_ok
  by unfold_locales (auto simp: route_roundtrip route_in_bounds dest: route_canonical)

section \<open>Properties\<close>

text \<open>
  What a node advertises is what its neighbours read: an advertisement of at most 16 routes arrives
  with every destination, address and metric in order; only the next hop and the update time, which are
  not sent, come out as zero. An advertisement with more routes is not sent at all.
\<close>

theorem route_advertisement_roundtrip:
  assumes "is_node_id (ra_sender adv)"
    and "list_all (\<lambda>r. is_node_id (r_destination_node r) \<and> is_ipv6 (r_destination r)) (ra_routes adv)"
  shows "if length (ra_routes adv) \<le> 16
    then deserialize_route_advertisement (serialize_route_advertisement adv) =
        Inr (adv\<lparr>ra_routes := map wire_route (ra_routes adv)\<rparr>)
    else serialize_route_advertisement adv = []"
proof (cases "length (ra_routes adv) \<le> 16")
  case True
  let ?sent = "adv\<lparr>ra_routes := map wire_route (ra_routes adv)\<rparr>"
  have "serialize_route_entry (wire_route r) = serialize_route_entry r" for r
    by (simp add: serialize_route_entry_def wire_route_def route_create_def)
  then have "serialize_route_advertisement ?sent = serialize_route_advertisement adv"
    by (simp add: serialize_route_advertisement_def comp_def)
  moreover have "route_advertisement_ok ?sent"
    using assms True
    by (auto simp: route_advertisement_ok_def route_ok_def wire_route_def route_create_def list_all_iff)
  ultimately show ?thesis
    using True route_format.dec_enc [of ?sent] by simp
qed (simp add: serialize_route_advertisement_def MAX_ROUTE_TABLE_ENTRIES_def)

text \<open>
  Acceptance is canonical: a buffer is accepted exactly when it is the serialisation of the
  advertisement it yields, of at most 16 well-formed routes, and no read leaves the buffer.
\<close>

theorem route_advertisement_canonical:
  "(deserialize_route_advertisement data = Inr adv \<longleftrightarrow>
      route_advertisement_ok adv \<and> data = serialize_route_advertisement adv) \<and>
   deserialize_route_advertisement data \<noteq> Inl OutOfBounds"
  using route_format.dec_eq_iff [of data adv] route_format.in_bounds [of data] by simp

section \<open>Witnesses\<close>

theorem route_advertisement_roundtrip_witness:
  "deserialize_route_advertisement (serialize_route_advertisement
     (route_create_advertisement (sample_node 9) sample_table 7 None Disabled 1)) =
   Inr ((route_create_advertisement (sample_node 9) sample_table 7 None Disabled 1)
     \<lparr>ra_routes := map wire_route (routes sample_table)\<rparr>)"
proof -
  have "is_ipv6 (virtual_address (0xfd # replicate 15 0) (sample_node d))" for d
    by (simp add: virtual_address_def)
  then show ?thesis
    using route_advertisement_roundtrip
      [of "route_create_advertisement (sample_node 9) sample_table 7 None Disabled 1"]
    by (simp add: route_create_advertisement_def advertised_routes_plain sample_table_def)
qed

end
