(* ===== verification/Kademlia.thy ===== *)
theory Kademlia
  imports Prelude
begin

text \<open>
  The Kademlia routing table: \<open>src/network/kademlia.cpp\<close>. Contacts are kept in 256 buckets of at most
  20, by the length of the prefix their id shares with the local id, the least recently seen first.
  Shown: the invariant over every sequence of operations, that the bucket index is the length of the
  common bit prefix and grows as nodes get closer, what an insertion does to every lookup, and that
  the closest contacts are the closest ones.
\<close>

section \<open>Contacts and distances\<close>

record node_contact =
  nc_id :: node_id
  nc_public_key :: public_key
  nc_virtual_address :: ipv6
  nc_endpoint :: string
  nc_last_seen_ms :: u64
  nc_rtt_ms :: u32
  nc_failed_pings :: u8

definition KADEMLIA_K :: nat where
  "KADEMLIA_K = 20"

definition KADEMLIA_BUCKETS :: nat where
  "KADEMLIA_BUCKETS = 256"

definition kademlia_distance :: "node_id \<Rightarrow> node_id \<Rightarrow> byte list" where
  "kademlia_distance a b = map2 (XOR) a b"

text \<open>The comparison of two distances: the first byte that differs decides (\<open>distance_cmp\<close>).\<close>

fun distance_less :: "byte list \<Rightarrow> byte list \<Rightarrow> bool" where
  "distance_less (da # as) (db # bs) = (if da \<noteq> db then da < db else distance_less as bs)"
| "distance_less [] (db # bs) = True"
| "distance_less as [] = False"

datatype xor_distance = XorDistance (distance_bytes: "byte list")

lemma distance_less_lex: "distance_less a b \<longleftrightarrow> a < b"
  by (induction a b rule: distance_less.induct) auto

instantiation xor_distance :: linorder
begin

definition less_xor_distance :: "xor_distance \<Rightarrow> xor_distance \<Rightarrow> bool" where
  "less_xor_distance x y \<longleftrightarrow> distance_less (distance_bytes x) (distance_bytes y)"

definition less_eq_xor_distance :: "xor_distance \<Rightarrow> xor_distance \<Rightarrow> bool" where
  "less_eq_xor_distance x y \<longleftrightarrow> x = y \<or> distance_less (distance_bytes x) (distance_bytes y)"

instance
  by standard (auto simp: less_xor_distance_def less_eq_xor_distance_def distance_less_lex
      intro: xor_distance.expand dest: less_trans less_asym)

end

definition countl_zero :: "u8 \<Rightarrow> nat" where
  "countl_zero x = length (takeWhile (\<lambda>i. \<not> bit x i) (rev [0..<8]))"

text \<open>The loop over the bytes of both ids; the last result is the one for equal ids.\<close>

fun bucket_index_from :: "nat \<Rightarrow> byte list \<Rightarrow> byte list \<Rightarrow> u16" where
  "bucket_index_from byte_idx (a # as) (b # bs) =
     (let xor_val = a XOR b in
      if xor_val \<noteq> 0 then of_nat (byte_idx * 8 + countl_zero xor_val)
      else bucket_index_from (Suc byte_idx) as bs)"
| "bucket_index_from byte_idx _ _ = 256"

definition kademlia_bucket_index :: "node_id \<Rightarrow> node_id \<Rightarrow> u16" where
  "kademlia_bucket_index local remote = bucket_index_from 0 local remote"

section \<open>The table\<close>

record k_bucket =
  kb_contacts :: "node_contact list"

record kademlia_table =
  kt_local_id :: node_id
  kt_buckets :: "k_bucket list"

definition kademlia_clear :: "kademlia_table \<Rightarrow> kademlia_table" where
  "kademlia_clear table = table\<lparr>kt_buckets := map (\<lambda>b. b\<lparr>kb_contacts := []\<rparr>) (kt_buckets table)\<rparr>"

definition empty_kademlia_table :: kademlia_table where
  "empty_kademlia_table =
     \<lparr>kt_local_id = zero_node_id, kt_buckets = replicate KADEMLIA_BUCKETS \<lparr>kb_contacts = []\<rparr>\<rparr>"

definition kademlia_init :: "kademlia_table option \<Rightarrow> node_id \<Rightarrow> kademlia_table option" where
  "kademlia_init table local_id =
     map_option (\<lambda>t. kademlia_clear (t\<lparr>kt_local_id := local_id\<rparr>)) table"

definition refresh_contact :: "node_contact \<Rightarrow> node_contact \<Rightarrow> node_contact" where
  "refresh_contact known contact =
     known\<lparr>nc_public_key := nc_public_key contact,
       nc_virtual_address := nc_virtual_address contact,
       nc_endpoint := (if nc_endpoint contact \<noteq> [] then nc_endpoint contact else nc_endpoint known),
       nc_last_seen_ms := nc_last_seen_ms contact,
       nc_rtt_ms := nc_rtt_ms contact,
       nc_failed_pings := 0\<rparr>"

text \<open>The body of \<open>kademlia_insert\<close> on the contacts of the bucket; \<open>ping_fn\<close> runs at most once.\<close>

definition bucket_insert ::
  "node_contact list \<Rightarrow> node_contact \<Rightarrow> (node_contact \<Rightarrow> bool) option \<Rightarrow> bool \<times> node_contact list" where
  "bucket_insert contacts contact ping_fn =
     (case find (\<lambda>c. nc_id c = nc_id contact) contacts of
        Some known \<Rightarrow>
          (True, remove_first (\<lambda>c. nc_id c = nc_id contact) contacts @ [refresh_contact known contact])
      | None \<Rightarrow>
          if length contacts < KADEMLIA_K then (True, contacts @ [contact])
          else case ping_fn of
                 None \<Rightarrow> (False, contacts)
               | Some ping \<Rightarrow>
                   let oldest = hd contacts in
                   if ping oldest then (False, tl contacts @ [oldest])
                   else (True, tl contacts @ [contact]))"

definition set_bucket :: "kademlia_table \<Rightarrow> nat \<Rightarrow> node_contact list \<Rightarrow> kademlia_table" where
  "set_bucket table i contacts =
     table\<lparr>kt_buckets := (kt_buckets table)[i := (kt_buckets table ! i)\<lparr>kb_contacts := contacts\<rparr>]\<rparr>"

definition kademlia_insert ::
  "kademlia_table \<Rightarrow> node_contact \<Rightarrow> (node_contact \<Rightarrow> bool) option \<Rightarrow> bool \<times> kademlia_table" where
  "kademlia_insert table contact ping_fn =
     (if nc_id contact = kt_local_id table then (False, table)
      else
        let bucket_idx = unat (kademlia_bucket_index (kt_local_id table) (nc_id contact)) in
        if KADEMLIA_BUCKETS \<le> bucket_idx then (False, table)
        else
          let (inserted, contacts) =
            bucket_insert (kb_contacts (kt_buckets table ! bucket_idx)) contact ping_fn
          in (inserted, set_bucket table bucket_idx contacts))"

text \<open>
  \<open>std::sort\<close> and \<open>std::partial_sort\<close> order by \<open>distance_cmp\<close>, which on the distinct ids of a table is a
  strict total order, so that the sorted sequence and its first \<open>count\<close> elements are determined.
\<close>

definition distance_key :: "node_id \<Rightarrow> node_contact \<Rightarrow> xor_distance" where
  "distance_key target c = XorDistance (kademlia_distance (nc_id c) target)"

definition all_contacts :: "kademlia_table \<Rightarrow> node_contact list" where
  "all_contacts table = concat (map kb_contacts (kt_buckets table))"

definition kademlia_find_closest :: "kademlia_table \<Rightarrow> node_id \<Rightarrow> nat \<Rightarrow> node_contact list" where
  "kademlia_find_closest table target count =
     (let all = all_contacts table in
      if count < length all then take count (sort_key (distance_key target) all)
      else sort_key (distance_key target) all)"

definition kademlia_remove :: "kademlia_table \<Rightarrow> node_id \<Rightarrow> bool \<times> kademlia_table" where
  "kademlia_remove table nid =
     (let bucket_idx = unat (kademlia_bucket_index (kt_local_id table) nid) in
      if KADEMLIA_BUCKETS \<le> bucket_idx then (False, table)
      else
        let contacts = kb_contacts (kt_buckets table ! bucket_idx) in
        case find (\<lambda>c. nc_id c = nid) contacts of
          Some _ \<Rightarrow> (True, set_bucket table bucket_idx (remove_first (\<lambda>c. nc_id c = nid) contacts))
        | None \<Rightarrow> (False, table))"

definition kademlia_find :: "kademlia_table \<Rightarrow> node_id \<Rightarrow> node_contact option" where
  "kademlia_find table nid =
     (let bucket_idx = unat (kademlia_bucket_index (kt_local_id table) nid) in
      if KADEMLIA_BUCKETS \<le> bucket_idx then None
      else find (\<lambda>c. nc_id c = nid) (kb_contacts (kt_buckets table ! bucket_idx)))"

definition kademlia_total_contacts :: "kademlia_table \<Rightarrow> nat" where
  "kademlia_total_contacts table = fold (\<lambda>b total. total + length (kb_contacts b)) (kt_buckets table) 0"

section \<open>The bucket index\<close>

text \<open>Bit \<open>i\<close> of an id, the most significant bit of the first byte first.\<close>

definition id_bit :: "node_id \<Rightarrow> nat \<Rightarrow> bool" where
  "id_bit a i = bit (a ! (i div 8)) (7 - i mod 8)"

lemma countl_zero_cases:
  "countl_zero x =
     (if bit x 7 then 0 else if bit x 6 then 1 else if bit x 5 then 2 else if bit x 4 then 3
      else if bit x 3 then 4 else if bit x 2 then 5 else if bit x 1 then 6 else if bit x 0 then 7 else 8)"
proof -
  have "rev [0..<8] = [7, 6, 5, 4, 3, 2, 1, 0]" by (simp add: upt_rec)
  then show ?thesis by (simp add: countl_zero_def)
qed

lemma less_8_cases: "(j :: nat) < 8 \<longleftrightarrow> j \<in> {0, 1, 2, 3, 4, 5, 6, 7}"
  by auto

lemma countl_zero_spec:
  assumes "x \<noteq> 0"
  shows "countl_zero x < 8 \<and> bit x (7 - countl_zero x) \<and> (\<forall>j<countl_zero x. \<not> bit x (7 - j))"
proof -
  have "\<exists>i<8. bit x i"
    using assms bit_imp_le_length [of x] by (auto simp: bit_eq_iff)
  then have "bit x 0 \<or> bit x 1 \<or> bit x 2 \<or> bit x 3 \<or> bit x 4 \<or> bit x 5 \<or> bit x 6 \<or> bit x 7"
    by (auto simp: less_8_cases)
  then show ?thesis
    unfolding countl_zero_cases by (auto simp: less_Suc_eq numeral_eq_Suc split: if_splits)
qed

lemma id_bit_Cons: "id_bit (x # a) i = (if i < 8 then bit x (7 - i) else id_bit a (i - 8))"
proof (cases "i < 8")
  case False
  then have "i div 8 = Suc ((i - 8) div 8)" "i mod 8 = (i - 8) mod 8"
    by (simp_all add: le_div_geq le_mod_geq)
  then show ?thesis using False by (simp add: id_bit_def)
qed (simp add: id_bit_def)

lemma bucket_index_from_spec:
  "length a = length b \<Longrightarrow> byte_idx * 8 + 8 * length a \<le> 256 \<Longrightarrow> a \<noteq> b \<Longrightarrow>
     \<exists>j<8 * length a. unat (bucket_index_from byte_idx a b) = byte_idx * 8 + j \<and>
       id_bit a j \<noteq> id_bit b j \<and> (\<forall>i<j. id_bit a i = id_bit b i)"
proof (induction byte_idx a b rule: bucket_index_from.induct)
  case (1 byte_idx x as y bs)
  show ?case
  proof (cases "x XOR y = 0")
    case True
    then have [simp]: "y = x" by (metis xor.assoc xor.right_neutral xor_self_eq xor.commute)
    from 1 True obtain j where j: "j < 8 * length as"
      "unat (bucket_index_from (Suc byte_idx) as bs) = Suc byte_idx * 8 + j"
      "id_bit as j \<noteq> id_bit bs j" "\<forall>i<j. id_bit as i = id_bit bs i"
      by auto
    then show ?thesis
      by (intro exI [of _ "j + 8"]) (auto simp: id_bit_Cons)
  next
    case False
    note spec = countl_zero_spec [OF False]
    have "byte_idx * 8 + countl_zero (x XOR y) < 65536"
      using "1.prems"(2) spec by simp
    then have "unat (of_nat (byte_idx * 8 + countl_zero (x XOR y)) :: u16) =
        byte_idx * 8 + countl_zero (x XOR y)"
      by (simp add: unat_of_nat del: of_nat_add of_nat_mult)
    with False spec show ?thesis
      by (intro exI [of _ "countl_zero (x XOR y)"])
        (auto simp: id_bit_Cons bit_simps simp del: of_nat_add of_nat_mult)
  qed
qed auto

lemma bucket_index_from_same: "bucket_index_from n a a = 256"
  by (induction a arbitrary: n) auto

lemma bucket_index_spec:
  assumes "is_node_id a" and "is_node_id b" and "a \<noteq> b"
  obtains k where "unat (kademlia_bucket_index a b) = k" "k < 256" "id_bit a k \<noteq> id_bit b k"
    "\<forall>i<k. id_bit a i = id_bit b i"
  using bucket_index_from_spec [of a b 0] assms by (auto simp: kademlia_bucket_index_def)

lemma bucket_index_self: "kademlia_bucket_index a a = 256"
  by (simp add: kademlia_bucket_index_def bucket_index_from_same)

lemma bucket_index_less:
  "is_node_id a \<Longrightarrow> is_node_id b \<Longrightarrow> a \<noteq> b \<Longrightarrow> unat (kademlia_bucket_index a b) < 256"
  by (metis bucket_index_spec)

text \<open>The index as a bit prefix characterises it: no other number has both properties.\<close>

lemma bucket_index_unique:
  assumes "is_node_id a" "is_node_id b" "id_bit a k \<noteq> id_bit b k" "\<forall>i<k. id_bit a i = id_bit b i"
  shows "unat (kademlia_bucket_index a b) = k"
proof -
  have "a \<noteq> b" using assms(3) by auto
  then obtain k' where k': "unat (kademlia_bucket_index a b) = k'" "id_bit a k' \<noteq> id_bit b k'"
    "\<forall>i<k'. id_bit a i = id_bit b i"
    using bucket_index_spec [OF assms(1,2)] by metis
  then show ?thesis using assms(3,4) by (metis linorder_neqE_nat)
qed

section \<open>Distances\<close>

lemma distance_XOR_nth:
  "i < length a \<Longrightarrow> length b = length a \<Longrightarrow> kademlia_distance a b ! i = a ! i XOR b ! i"
  by (simp add: kademlia_distance_def)

lemma length_distance [simp]: "length (kademlia_distance a b) = min (length a) (length b)"
  by (simp add: kademlia_distance_def)

lemma distance_commute: "kademlia_distance a b = kademlia_distance b a"
  by (simp add: kademlia_distance_def zip_commute [of b a] xor.commute case_prod_unfold comp_def)

lemma distance_inj:
  "length a = length t \<Longrightarrow> length b = length t \<Longrightarrow>
     kademlia_distance a t = kademlia_distance b t \<longleftrightarrow> a = b"
proof (induction t arbitrary: a b)
  case (Cons x t)
  obtain y a' where a: "a = y # a'" using Cons.prems by (cases a) auto
  obtain z b' where b: "b = z # b'" using Cons.prems by (cases b) auto
  have "y XOR x = z XOR x \<longleftrightarrow> y = z"
    by (metis xor.assoc xor.right_neutral xor_self_eq)
  with Cons show ?case by (simp add: a b kademlia_distance_def)
qed simp

text \<open>The triangle equality of the XOR metric.\<close>

lemma distance_triangle:
  "length b = length a \<Longrightarrow> length c = length a \<Longrightarrow>
     kademlia_distance a c = map2 (XOR) (kademlia_distance a b) (kademlia_distance b c)"
proof (rule nth_equalityI)
  have "x XOR z = (x XOR y) XOR (y XOR z)" for x y z :: byte
    by (rule bit_word_eqI) (auto simp: bit_simps)
  then show "kademlia_distance a c ! i = map2 (XOR) (kademlia_distance a b) (kademlia_distance b c) ! i"
    if "i < length (kademlia_distance a c)" "length b = length a" "length c = length a" for i
    using that by (simp add: kademlia_distance_def)
qed simp

lemma xor_bits_less:
  assumes "j < 8" "bit (d :: u8) (7 - j)" "\<forall>i\<le>j. \<not> bit e (7 - i)"
  shows "e < d"
proof -
  have "\<not> bit e n" if "7 - j \<le> n" for n
  proof (cases "n < 8")
    case True
    then have "n = 7 - (7 - n)" "7 - n \<le> j" using that assms(1) by auto
    then show ?thesis using assms(3) by metis
  qed (use bit_imp_le_length [of e n] in auto)
  then have "take_bit (7 - j) e = e"
    by (intro bit_word_eqI) (auto simp: bit_simps not_less [symmetric])
  then have "unat e < 2 ^ (7 - j)"
    by (metis take_bit_nat_less_exp unsigned_take_bit_eq)
  moreover have "2 ^ (7 - j) \<le> unat d"
  proof (rule ccontr)
    assume "\<not> ?thesis"
    then have "take_bit (7 - j) (unat d) = unat d" by (simp add: take_bit_nat_eq_self)
    moreover have "bit (unat d) (7 - j)" using assms(2) by (simp add: bit_simps)
    ultimately show False by (metis bit_take_bit_iff less_irrefl)
  qed
  ultimately show ?thesis by (simp add: word_less_nat_alt)
qed

lemma byte_eq_bits: "(\<forall>i<8. bit x (7 - i) = bit y (7 - i)) \<Longrightarrow> (x :: byte) = y"
proof (rule bit_word_eqI)
  fix n assume eq: "\<forall>i<8. bit x (7 - i) = bit y (7 - i)" and "n < LENGTH(8)"
  then show "bit x n = bit y n" using eq [rule_format, of "7 - n"] by simp
qed

lemma longer_prefix_closer:
  "length a = length t \<Longrightarrow> length b = length t \<Longrightarrow> j < 8 * length t \<Longrightarrow>
     id_bit a j \<noteq> id_bit t j \<Longrightarrow> \<forall>i<j. id_bit a i = id_bit t i \<Longrightarrow> \<forall>i\<le>j. id_bit b i = id_bit t i \<Longrightarrow>
     kademlia_distance b t < kademlia_distance a t"
proof (induction t arbitrary: a b j)
  case (Cons x t)
  obtain y a' where a: "a = y # a'" "length a' = length t" using Cons.prems by (cases a) auto
  obtain z b' where b: "b = z # b'" "length b' = length t" using Cons.prems by (cases b) auto
  show ?case
  proof (cases "j < 8")
    case True
    have "z XOR x < y XOR x"
    proof (rule xor_bits_less [OF True])
      show "bit (y XOR x) (7 - j)"
        using Cons.prems(4) True by (auto simp: a id_bit_Cons bit_simps)
      show "\<forall>i\<le>j. \<not> bit (z XOR x) (7 - i)"
        using Cons.prems(6) True by (auto simp: b id_bit_Cons bit_simps)
    qed
    then show ?thesis by (auto simp: a b kademlia_distance_def)
  next
    case False
    have "y = x"
    proof (intro byte_eq_bits allI impI)
      fix i :: nat assume "i < 8"
      with Cons.prems(5) [rule_format, of i] False show "bit y (7 - i) = bit x (7 - i)"
        by (simp add: a id_bit_Cons)
    qed
    moreover have "z = x"
    proof (intro byte_eq_bits allI impI)
      fix i :: nat assume "i < 8"
      with Cons.prems(6) [rule_format, of i] False show "bit z (7 - i) = bit x (7 - i)"
        by (simp add: b id_bit_Cons)
    qed
    moreover have "kademlia_distance b' t < kademlia_distance a' t"
    proof (rule Cons.IH [of a' b' "j - 8"])
      have low: "id_bit a' i = id_bit t i" if "i < j - 8" for i
        using Cons.prems(5) [rule_format, of "i + 8"] that by (simp add: a id_bit_Cons)
      have low': "id_bit b' i = id_bit t i" if "i \<le> j - 8" for i
        using Cons.prems(6) [rule_format, of "i + 8"] that False by (simp add: b id_bit_Cons)
      show "\<forall>i<j - 8. id_bit a' i = id_bit t i" "\<forall>i\<le>j - 8. id_bit b' i = id_bit t i"
        using low low' by auto
    qed (use Cons.prems False a b in \<open>auto simp: id_bit_Cons\<close>)
    ultimately show ?thesis by (simp add: a b kademlia_distance_def)
  qed
qed simp

section \<open>The invariant of the table\<close>

definition bucket_inv :: "node_id \<Rightarrow> nat \<Rightarrow> node_contact list \<Rightarrow> bool" where
  "bucket_inv local i contacts \<longleftrightarrow>
     keyed KADEMLIA_K nc_id contacts \<and>
     (\<forall>c\<in>set contacts. is_node_id (nc_id c) \<and> unat (kademlia_bucket_index local (nc_id c)) = i)"

definition kademlia_inv :: "kademlia_table \<Rightarrow> bool" where
  "kademlia_inv table \<longleftrightarrow>
     is_node_id (kt_local_id table) \<and> length (kt_buckets table) = KADEMLIA_BUCKETS \<and>
     (\<forall>i<KADEMLIA_BUCKETS. bucket_inv (kt_local_id table) i (kb_contacts (kt_buckets table ! i)))"

lemma bucket_inv_Nil [simp]: "bucket_inv local i []"
  by (simp add: bucket_inv_def)

lemma kademlia_inv_clear:
  "is_node_id (kt_local_id t) \<Longrightarrow> length (kt_buckets t) = KADEMLIA_BUCKETS \<Longrightarrow>
     kademlia_inv (kademlia_clear t)"
  by (simp add: kademlia_inv_def kademlia_clear_def)

lemma kademlia_inv_set_bucket:
  "kademlia_inv t \<Longrightarrow> i < KADEMLIA_BUCKETS \<Longrightarrow> bucket_inv (kt_local_id t) i cs \<Longrightarrow>
     kademlia_inv (set_bucket t i cs)"
  by (auto simp: kademlia_inv_def set_bucket_def nth_list_update)

lemma refresh_contact_id [simp]: "nc_id (refresh_contact known c) = nc_id known"
  by (simp add: refresh_contact_def)

lemma bucket_inv_remove_first: "bucket_inv l i cs \<Longrightarrow> bucket_inv l i (remove_first P cs)"
  using set_remove_first_subset [of P cs] by (auto simp: bucket_inv_def keyed_remove_first)

lemma bucket_inv_tl: "bucket_inv l i (c # cs) \<Longrightarrow> bucket_inv l i cs \<and> length cs < KADEMLIA_K \<and>
    (\<forall>d\<in>set cs. nc_id d \<noteq> nc_id c) \<and> is_node_id (nc_id c) \<and> unat (kademlia_bucket_index l (nc_id c)) = i"
  unfolding bucket_inv_def keyed_def by (simp add: image_iff) metis

lemma bucket_inv_snoc:
  "bucket_inv l i (cs @ [c]) \<longleftrightarrow>
     bucket_inv l i cs \<and> length cs < KADEMLIA_K \<and> (\<forall>d\<in>set cs. nc_id d \<noteq> nc_id c) \<and>
     is_node_id (nc_id c) \<and> unat (kademlia_bucket_index l (nc_id c)) = i"
proof -
  have "distinct (map nc_id (cs @ [c])) \<longleftrightarrow>
      distinct (map nc_id cs) \<and> (\<forall>d\<in>set cs. nc_id d \<noteq> nc_id c)"
    unfolding map_append distinct_append by (simp add: image_iff) metis
  then show ?thesis
    by (auto simp: bucket_inv_def keyed_def)
qed

lemma bucket_insert_inv:
  assumes "bucket_inv l i cs" "is_node_id (nc_id c)" "unat (kademlia_bucket_index l (nc_id c)) = i"
  shows "bucket_inv l i (snd (bucket_insert cs c ping))"
proof (cases "find (\<lambda>d. nc_id d = nc_id c) cs")
  case (Some known)
  then have "nc_id known = nc_id c" and "cs \<noteq> []"
    using find_SomeD [OF Some] by auto
  moreover have "distinct (map nc_id cs)" "length cs \<le> KADEMLIA_K"
    using assms(1) by (simp_all add: bucket_inv_def keyed_def)
  ultimately show ?thesis
    using assms Some
    by (auto simp: bucket_insert_def bucket_inv_snoc bucket_inv_remove_first remove_first_key_absent
        length_remove_first neq_Nil_conv KADEMLIA_K_def)
next
  case None
  then have new: "\<forall>d\<in>set cs. nc_id d \<noteq> nc_id c" by (simp add: find_None_iff_all)
  show ?thesis
  proof (cases cs)
    case Nil
    then show ?thesis using assms by (simp add: bucket_insert_def bucket_inv_def keyed_def KADEMLIA_K_def)
  next
    case (Cons d ds)
    then show ?thesis
      using None new assms bucket_inv_tl [of l i d ds] bucket_inv_snoc [of l i "d # ds" c]
      by (auto simp: bucket_insert_def bucket_inv_snoc Let_def split: option.split)
  qed
qed

lemma kademlia_inv_insert:
  assumes "kademlia_inv t" and "is_node_id (nc_id c)"
  shows "kademlia_inv (snd (kademlia_insert t c ping))"
proof -
  let ?i = "unat (kademlia_bucket_index (kt_local_id t) (nc_id c))"
  have "kademlia_inv (set_bucket t ?i (snd (bucket_insert (kb_contacts (kt_buckets t ! ?i)) c ping)))"
    if "?i < KADEMLIA_BUCKETS"
    using that assms
    by (intro kademlia_inv_set_bucket bucket_insert_inv) (auto simp: kademlia_inv_def)
  then show ?thesis
    using assms(1) by (auto simp: kademlia_insert_def Let_def case_prod_unfold)
qed

lemma kademlia_inv_bucket:
  "kademlia_inv t \<Longrightarrow> i < KADEMLIA_BUCKETS \<Longrightarrow>
     bucket_inv (kt_local_id t) i (kb_contacts (kt_buckets t ! i))"
  by (simp add: kademlia_inv_def)

lemma kademlia_inv_remove: "kademlia_inv t \<Longrightarrow> kademlia_inv (snd (kademlia_remove t nid))"
  by (auto simp: kademlia_remove_def Let_def not_le
      intro: kademlia_inv_set_bucket bucket_inv_remove_first kademlia_inv_bucket split: option.split)

section \<open>Runs of the table\<close>

definition kademlia_start :: "kademlia_table \<Rightarrow> bool" where
  "kademlia_start t \<longleftrightarrow>
     (\<exists>local. is_node_id local \<and> kademlia_init (Some empty_kademlia_table) local = Some t)"

inductive kademlia_step :: "kademlia_table \<Rightarrow> kademlia_table \<Rightarrow> bool" where
  step_insert: "is_node_id (nc_id c) \<Longrightarrow> kademlia_insert t c ping = (ok, t') \<Longrightarrow> kademlia_step t t'"
| step_kademlia_remove: "kademlia_remove t nid = (ok, t') \<Longrightarrow> kademlia_step t t'"
| step_kademlia_clear: "kademlia_step t (kademlia_clear t)"

interpretation kademlia_runs: invariant_system kademlia_start kademlia_step kademlia_inv
proof
  show "kademlia_inv t" if "kademlia_start t" for t
    using that by (auto simp: kademlia_start_def kademlia_init_def empty_kademlia_table_def
        intro!: kademlia_inv_clear)
  show "kademlia_inv t'" if inv: "kademlia_inv t" and step: "kademlia_step t t'" for t t'
    using step
  proof (cases rule: kademlia_step.cases)
    case (step_insert c ping ok)
    then show ?thesis using kademlia_inv_insert [OF inv, of c ping] by simp
  next
    case (step_kademlia_remove nid ok)
    then show ?thesis using kademlia_inv_remove [OF inv, of nid] by simp
  next
    case step_kademlia_clear
    have "is_node_id (kt_local_id t) \<and> length (kt_buckets t) = KADEMLIA_BUCKETS"
      using inv by (simp add: kademlia_inv_def)
    then show ?thesis unfolding step_kademlia_clear by (intro kademlia_inv_clear) auto
  qed
qed

text \<open>All contacts: their ids are distinct over the whole table, and a lookup finds each by its id.\<close>

lemma distinct_concat_indexed:
  "(\<And>i. i < length xss \<Longrightarrow> distinct (map f (xss ! i)) \<and> (\<forall>x\<in>set (xss ! i). g (f x) = n + i)) \<Longrightarrow>
     distinct (map f (concat xss))"
proof (induction xss arbitrary: n)
  case (Cons xs xss)
  have "distinct (map f (concat xss))"
  proof (rule Cons.IH)
    fix i assume "i < length xss"
    then show "distinct (map f (xss ! i)) \<and> (\<forall>x\<in>set (xss ! i). g (f x) = Suc n + i)"
      using Cons.prems [of "Suc i"] by simp
  qed
  moreover have "g (f x) \<noteq> n" if x: "x \<in> set ys" and ys: "ys \<in> set xss" for x ys
  proof -
    obtain i where "i < length xss" "ys = xss ! i" using ys by (auto simp: in_set_conv_nth)
    then show ?thesis using Cons.prems [of "Suc i"] x by auto
  qed
  then have "f ` set xs \<inter> f ` set (concat xss) = {}"
    using Cons.prems [of 0] by fastforce
  ultimately show ?case
    using Cons.prems [of 0] by (simp add: image_UN)
qed simp

lemma distinct_all_contacts:
  assumes "kademlia_inv t"
  shows "distinct (map nc_id (all_contacts t))"
  unfolding all_contacts_def
proof (rule distinct_concat_indexed [where n = 0])
  fix i assume "i < length (map kb_contacts (kt_buckets t))"
  with assms have "bucket_inv (kt_local_id t) i (map kb_contacts (kt_buckets t) ! i)"
    by (simp add: kademlia_inv_def)
  then show "distinct (map nc_id (map kb_contacts (kt_buckets t) ! i)) \<and>
      (\<forall>c\<in>set (map kb_contacts (kt_buckets t) ! i).
        unat (kademlia_bucket_index (kt_local_id t) (nc_id c)) = 0 + i)"
    by (simp add: bucket_inv_def keyed_def)
qed

lemma all_contacts_bucket:
  assumes "kademlia_inv t"
  shows "c \<in> set (all_contacts t) \<longleftrightarrow>
    unat (kademlia_bucket_index (kt_local_id t) (nc_id c)) < KADEMLIA_BUCKETS \<and>
    c \<in> set (kb_contacts (kt_buckets t ! unat (kademlia_bucket_index (kt_local_id t) (nc_id c))))"
    (is "?lhs \<longleftrightarrow> ?rhs")
proof
  assume ?lhs
  then obtain b where b: "b \<in> set (kt_buckets t)" "c \<in> set (kb_contacts b)"
    by (auto simp: all_contacts_def)
  then obtain i where "i < length (kt_buckets t)" "b = kt_buckets t ! i"
    by (metis in_set_conv_nth)
  with b have "i < KADEMLIA_BUCKETS" "c \<in> set (kb_contacts (kt_buckets t ! i))"
    using assms by (simp_all add: kademlia_inv_def)
  moreover from this have "unat (kademlia_bucket_index (kt_local_id t) (nc_id c)) = i"
    using kademlia_inv_bucket [OF assms] by (auto simp: bucket_inv_def)
  ultimately show ?rhs by simp
next
  assume ?rhs
  then show ?lhs using assms by (auto simp: all_contacts_def kademlia_inv_def)
qed

lemma find_iff_contact:
  assumes "kademlia_inv t"
  shows "kademlia_find t nid = Some c \<longleftrightarrow> c \<in> set (all_contacts t) \<and> nc_id c = nid"
proof -
  let ?i = "unat (kademlia_bucket_index (kt_local_id t) nid)"
  have "distinct (map nc_id (kb_contacts (kt_buckets t ! ?i)))" if "?i < KADEMLIA_BUCKETS"
    using kademlia_inv_bucket [OF assms that] by (simp add: bucket_inv_def keyed_def)
  then show ?thesis
    using all_contacts_bucket [OF assms, of c]
    by (auto simp: kademlia_find_def Let_def find_key_eq_Some not_le)
qed

lemma total_contacts_length: "kademlia_total_contacts t = length (all_contacts t)"
proof -
  have "fold (\<lambda>b total. total + length (kb_contacts b)) bs n = n + length (concat (map kb_contacts bs))"
    for bs n
    by (induction bs arbitrary: n) auto
  from this [of "kt_buckets t" 0] show ?thesis
    unfolding kademlia_total_contacts_def all_contacts_def by linarith
qed

lemma local_not_contact:
  assumes "kademlia_inv t" "c \<in> set (all_contacts t)"
  shows "is_node_id (nc_id c) \<and> nc_id c \<noteq> kt_local_id t"
proof -
  let ?i = "unat (kademlia_bucket_index (kt_local_id t) (nc_id c))"
  have i: "?i < KADEMLIA_BUCKETS" "c \<in> set (kb_contacts (kt_buckets t ! ?i))"
    using all_contacts_bucket [OF assms(1)] assms(2) by auto
  then have "is_node_id (nc_id c)"
    using kademlia_inv_bucket [OF assms(1) i(1)] unfolding bucket_inv_def by blast
  moreover have "nc_id c \<noteq> kt_local_id t"
  proof
    assume "nc_id c = kt_local_id t"
    with i(1) show False by (simp only: bucket_index_self KADEMLIA_BUCKETS_def) simp
  qed
  ultimately show ?thesis by simp
qed

lemma total_le_capacity:
  assumes "kademlia_inv t"
  shows "length (all_contacts t) \<le> KADEMLIA_BUCKETS * KADEMLIA_K"
proof -
  have "length (kb_contacts b) \<le> KADEMLIA_K" if "b \<in> set (kt_buckets t)" for b
  proof -
    from that obtain i where "i < length (kt_buckets t)" "b = kt_buckets t ! i"
      by (metis in_set_conv_nth)
    then show ?thesis using assms by (simp add: kademlia_inv_def bucket_inv_def keyed_def)
  qed
  moreover have "\<forall>b\<in>set bs. length (kb_contacts b) \<le> k \<Longrightarrow>
      length (concat (map kb_contacts bs)) \<le> length bs * k" for bs :: "k_bucket list" and k
    by (induction bs) (auto simp: add_mono)
  ultimately have "length (all_contacts t) \<le> length (kt_buckets t) * KADEMLIA_K"
    unfolding all_contacts_def by blast
  then show ?thesis using assms by (simp add: kademlia_inv_def)
qed

section \<open>Lookups after an insertion\<close>

definition bucket_of :: "kademlia_table \<Rightarrow> node_id \<Rightarrow> node_contact list" where
  "bucket_of t nid = kb_contacts (kt_buckets t ! unat (kademlia_bucket_index (kt_local_id t) nid))"

lemma find_set_bucket:
  assumes "kademlia_inv t" "i < KADEMLIA_BUCKETS"
  shows "kademlia_find (set_bucket t i cs) nid =
    (if unat (kademlia_bucket_index (kt_local_id t) nid) = i then find (\<lambda>c. nc_id c = nid) cs
     else kademlia_find t nid)"
  using assms by (auto simp: kademlia_find_def set_bucket_def kademlia_inv_def Let_def)

lemma find_tl:
  "find (\<lambda>c. nc_id c = nid) (tl cs) =
     (if cs \<noteq> [] \<and> nc_id (hd cs) = nid then find (\<lambda>c. nc_id c = nid) (tl cs)
      else find (\<lambda>c. nc_id c = nid) cs)"
  by (cases cs) auto

lemma find_tl_hd: "distinct (map nc_id cs) \<Longrightarrow> cs \<noteq> [] \<Longrightarrow>
    find (\<lambda>c. nc_id c = nc_id (hd cs)) (tl cs) = None"
  by (cases cs) (auto simp: find_None_iff_all rev_image_eqI dest: imageI)

lemma find_hd: "cs \<noteq> [] \<Longrightarrow> find (\<lambda>c. nc_id c = nc_id (hd cs)) cs = Some (hd cs)"
  by (cases cs) auto

abbreviation with_id :: "node_id \<Rightarrow> node_contact \<Rightarrow> bool" where
  "with_id nid \<equiv> (\<lambda>c. nc_id c = nid)"

lemma bucket_insert_ok:
  "fst (bucket_insert cs c ping) \<longleftrightarrow>
     find (with_id (nc_id c)) cs \<noteq> None \<or> length cs < KADEMLIA_K \<or> (\<exists>p. ping = Some p \<and> \<not> p (hd cs))"
  by (auto simp: bucket_insert_def Let_def split: option.split)

lemma bucket_insert_find:
  assumes "keyed KADEMLIA_K nc_id cs" and "bucket_insert cs c ping = (ok, cs')"
  shows "find (with_id nid) cs' =
    (if ok \<and> nid = nc_id c
     then Some (case find (with_id (nc_id c)) cs of None \<Rightarrow> c | Some known \<Rightarrow> refresh_contact known c)
     else if ok \<and> find (with_id (nc_id c)) cs = None \<and> length cs = KADEMLIA_K \<and> nid = nc_id (hd cs)
     then None
     else find (with_id nid) cs)"
proof -
  have dist: "distinct (map nc_id cs)" and len: "length cs \<le> KADEMLIA_K"
    using assms(1) by (simp_all add: keyed_def)
  note defs = bucket_insert_def Let_def
  show ?thesis
  proof (cases "find (with_id (nc_id c)) cs")
    case (Some known)
    have "nc_id known = nc_id c" using find_SomeD [OF Some] by simp
    moreover have "find (with_id (nc_id c)) (remove_first (with_id (nc_id c)) cs) = None"
      by (rule find_remove_first_same [OF dist])
    ultimately show ?thesis
      using Some assms(2) by (auto simp: defs find_append find_remove_first_other split: option.split)
  next
    case None
    show ?thesis
    proof (cases "length cs < KADEMLIA_K")
      case True
      then show ?thesis using None assms(2) by (auto simp: defs find_append split: option.split)
    next
      case False
      then obtain d ds where cs: "cs = d # ds" using len by (cases cs) (auto simp: KADEMLIA_K_def)
      have "find (with_id (nc_id d)) ds = None"
        using dist by (auto simp: cs find_None_iff_all image_iff)
      then show ?thesis
        using None assms(2) False len
        by (auto simp: defs cs find_append split: option.splits if_splits)
    qed
  qed
qed

lemma kademlia_find_bucket:
  "unat (kademlia_bucket_index (kt_local_id t) nid) < KADEMLIA_BUCKETS \<Longrightarrow>
     kademlia_find t nid = find (with_id nid) (bucket_of t nid)"
  by (simp add: kademlia_find_def bucket_of_def Let_def)

lemma insert_lookup_step:
  assumes "kademlia_inv t" and "is_node_id (nc_id c)" and "kademlia_insert t c ping = (ok, t')"
  shows "(ok \<longleftrightarrow> nc_id c \<noteq> kt_local_id t \<and>
      (kademlia_find t (nc_id c) \<noteq> None \<or> length (bucket_of t (nc_id c)) < 20 \<or>
       (\<exists>p. ping = Some p \<and> \<not> p (hd (bucket_of t (nc_id c)))))) \<and>
    kademlia_find t' nid =
      (if ok \<and> nid = nc_id c
       then Some (case kademlia_find t (nc_id c) of None \<Rightarrow> c | Some known \<Rightarrow> refresh_contact known c)
       else if ok \<and> kademlia_find t (nc_id c) = None \<and> length (bucket_of t (nc_id c)) = 20 \<and>
         nid = nc_id (hd (bucket_of t (nc_id c)))
       then None
       else kademlia_find t nid)"
proof (cases "nc_id c = kt_local_id t")
  case True
  then show ?thesis using assms(3) by (auto simp: kademlia_insert_def)
next
  case False
  define i where "i = unat (kademlia_bucket_index (kt_local_id t) (nc_id c))"
  have "is_node_id (kt_local_id t)" using assms(1) by (simp add: kademlia_inv_def)
  then have i: "i < KADEMLIA_BUCKETS"
    using bucket_index_less [of "kt_local_id t" "nc_id c"] assms(2) False
    by (simp add: i_def KADEMLIA_BUCKETS_def)
  define cs where "cs = bucket_of t (nc_id c)"
  obtain cs' where ins: "bucket_insert cs c ping = (ok, cs')" and t': "t' = set_bucket t i cs'"
    using assms(3) False i
    by (auto simp: kademlia_insert_def Let_def i_def cs_def bucket_of_def split: prod.splits)
  have binv: "bucket_inv (kt_local_id t) i cs"
    using kademlia_inv_bucket [OF assms(1) i] by (simp add: cs_def bucket_of_def i_def)
  have keyed: "keyed KADEMLIA_K nc_id cs" using binv by (simp add: bucket_inv_def)
  have here: "kademlia_find t n = find (with_id n) cs"
    if "unat (kademlia_bucket_index (kt_local_id t) n) = i" for n
    using that i by (simp add: kademlia_find_bucket cs_def bucket_of_def i_def)
  have oldest: "unat (kademlia_bucket_index (kt_local_id t) (nc_id (hd cs))) = i"
    if "length cs = KADEMLIA_K"
  proof -
    have "hd cs \<in> set cs" using that by (cases cs) (auto simp: KADEMLIA_K_def)
    then show ?thesis using binv by (simp add: bucket_inv_def)
  qed

  have same: "kademlia_find t (nc_id c) = find (with_id (nc_id c)) cs"
    by (rule here) (rule i_def [symmetric])
  have ok: "ok \<longleftrightarrow> find (with_id (nc_id c)) cs \<noteq> None \<or> length cs < KADEMLIA_K \<or>
      (\<exists>p. ping = Some p \<and> \<not> p (hd cs))"
    using bucket_insert_ok [of cs c ping] ins by simp
  have after: "kademlia_find t' nid = (if unat (kademlia_bucket_index (kt_local_id t) nid) = i
      then find (with_id nid) cs' else kademlia_find t nid)"
    unfolding t' by (rule find_set_bucket [OF assms(1) i])
  show ?thesis
  proof (cases "unat (kademlia_bucket_index (kt_local_id t) nid) = i")
    case True
    show ?thesis
      unfolding cs_def [symmetric] same here [OF True] after if_P [OF True]
        bucket_insert_find [OF keyed ins, of nid] KADEMLIA_K_def
      by (intro conjI refl) (use ok False in \<open>simp add: KADEMLIA_K_def\<close>)
  next
    case elsewhere: False
    then have "nid \<noteq> nc_id c" "\<not> (length cs = 20 \<and> nid = nc_id (hd cs))"
      using oldest by (auto simp: i_def KADEMLIA_K_def)
    then show ?thesis
      unfolding cs_def [symmetric] same after if_not_P [OF elsewhere]
      using ok False by (auto simp: KADEMLIA_K_def)
  qed
qed

section \<open>Properties\<close>

text \<open>
  C29. Whatever contacts are inserted, with whatever answers to pings, removed or cleared: every
  contact sits in the bucket of its prefix length, no bucket exceeds 20 contacts, no id occurs twice
  in the whole table, the local id never occurs, and a lookup finds exactly the contacts held.
\<close>

theorem kademlia_table_invariant:
  assumes "reachable kademlia_start kademlia_step t"
  shows "(\<forall>b\<in>set (kt_buckets t). length (kb_contacts b) \<le> 20) \<and>
    kademlia_total_contacts t \<le> 5120 \<and> distinct (map nc_id (all_contacts t)) \<and>
    (\<forall>c\<in>set (all_contacts t). nc_id c \<noteq> kt_local_id t) \<and>
    (\<forall>nid c. kademlia_find t nid = Some c \<longleftrightarrow> c \<in> set (all_contacts t) \<and> nc_id c = nid)"
proof -
  note inv = kademlia_runs.reachable_inv [OF assms]
  have "length (kb_contacts b) \<le> 20" if "b \<in> set (kt_buckets t)" for b
    using that inv
    by (auto simp: in_set_conv_nth kademlia_inv_def bucket_inv_def keyed_def KADEMLIA_K_def)
  then show ?thesis
    using total_le_capacity [OF inv] distinct_all_contacts [OF inv] local_not_contact [OF inv]
      find_iff_contact [OF inv]
    by (simp add: total_contacts_length KADEMLIA_BUCKETS_def KADEMLIA_K_def)
qed

text \<open>
  The bucket index of two different ids is the number of leading bits they share, for equal ids it
  is 256; and a longer shared prefix means a smaller XOR distance, so buckets order nodes by distance.
\<close>

theorem bucket_index_orders_by_distance:
  assumes "is_node_id a" and "is_node_id b" and "is_node_id t" and "a \<noteq> t"
  shows "kademlia_bucket_index t t = 256 \<and>
    (unat (kademlia_bucket_index t a) = k \<longleftrightarrow>
       k < 256 \<and> id_bit t k \<noteq> id_bit a k \<and> (\<forall>i<k. id_bit t i = id_bit a i)) \<and>
    (kademlia_bucket_index t a < kademlia_bucket_index t b \<longrightarrow>
       distance_less (kademlia_distance b t) (kademlia_distance a t))"
proof -
  obtain n where n: "unat (kademlia_bucket_index t a) = n" "n < 256" "id_bit t n \<noteq> id_bit a n"
    "\<forall>i<n. id_bit t i = id_bit a i"
    using bucket_index_spec [OF assms(3,1)] assms(4) by metis
  have "distance_less (kademlia_distance b t) (kademlia_distance a t)"
    if less: "kademlia_bucket_index t a < kademlia_bucket_index t b"
  proof -
    have "\<forall>i\<le>n. id_bit b i = id_bit t i"
    proof (cases "b = t")
      case False
      then obtain m where m: "unat (kademlia_bucket_index t b) = m" "\<forall>i<m. id_bit t i = id_bit b i"
        using bucket_index_spec [OF assms(3,2)] by metis
      then show ?thesis using less n(1) by (auto simp: word_less_nat_alt)
    qed simp
    then show ?thesis
      using longer_prefix_closer [of a t b n] n assms by (simp add: distance_less_lex eq_commute)
  qed
  moreover have "unat (kademlia_bucket_index t a) = k \<longleftrightarrow>
      k < 256 \<and> id_bit t k \<noteq> id_bit a k \<and> (\<forall>i<k. id_bit t i = id_bit a i)"
    using n bucket_index_unique [OF assms(3,1)] by blast
  ultimately show ?thesis by (simp add: bucket_index_self)
qed

text \<open>
  C31. What an insertion does to every lookup, on every path: a known contact is refreshed, a new one
  is added while its bucket has room, and replaces the oldest of a full bucket exactly when a ping
  function is given and the oldest does not answer; every other lookup is unchanged, and a rejected
  insertion changes no lookup at all.
\<close>

theorem insert_lookup:
  assumes "kademlia_inv t" and "is_node_id (nc_id c)" and "kademlia_insert t c ping = (ok, t')"
  shows "(ok \<longleftrightarrow> nc_id c \<noteq> kt_local_id t \<and>
      (kademlia_find t (nc_id c) \<noteq> None \<or> length (bucket_of t (nc_id c)) < 20 \<or>
       (\<exists>p. ping = Some p \<and> \<not> p (hd (bucket_of t (nc_id c)))))) \<and>
    kademlia_find t' nid =
      (if ok \<and> nid = nc_id c
       then Some (case kademlia_find t (nc_id c) of None \<Rightarrow> c | Some known \<Rightarrow> refresh_contact known c)
       else if ok \<and> kademlia_find t (nc_id c) = None \<and> length (bucket_of t (nc_id c)) = 20 \<and>
         nid = nc_id (hd (bucket_of t (nc_id c)))
       then None
       else kademlia_find t nid)"
  by (rule insert_lookup_step [OF assms])

text \<open>
  C30. The closest contacts: at most as many as asked for and all of them when there are fewer, sorted
  by increasing XOR distance without repetitions, each held by the table, and no contact left out is
  closer to the target than one returned.
\<close>

theorem find_closest_minimal:
  assumes "kademlia_inv t" and "is_node_id target" and "kademlia_find_closest t target count = found"
  shows "length found = min count (kademlia_total_contacts t) \<and>
    sorted_wrt (\<lambda>a b. distance_less (kademlia_distance (nc_id a) target)
      (kademlia_distance (nc_id b) target)) found \<and>
    set found \<subseteq> set (all_contacts t) \<and>
    (\<forall>a\<in>set found. \<forall>b\<in>set (all_contacts t) - set found.
       distance_less (kademlia_distance (nc_id a) target) (kademlia_distance (nc_id b) target))"
proof -
  let ?key = "distance_key target" and ?all = "all_contacts t"
  let ?sorted = "sort_key ?key ?all"
  have found: "found = take count ?sorted"
    using assms(3) by (auto simp: kademlia_find_closest_def Let_def)
  have ids: "is_node_id (nc_id c)" if "c \<in> set ?all" for c
    using local_not_contact [OF assms(1) that] by simp
  have inj: "inj_on ?key (set ?all)"
  proof (rule inj_onI)
    fix a b assume "a \<in> set ?all" "b \<in> set ?all" "?key a = ?key b"
    then have "nc_id a = nc_id b"
      using distance_inj [of "nc_id a" target "nc_id b"] ids assms(2) by (simp add: distance_key_def)
    then show "a = b"
      using distinct_all_contacts [OF assms(1)] \<open>a \<in> set ?all\<close> \<open>b \<in> set ?all\<close>
      unfolding distinct_map by (meson inj_onD)
  qed
  have "distinct ?sorted" using distinct_all_contacts [OF assms(1)] by (simp add: distinct_map)
  then have "distinct (map ?key ?sorted)" using inj by (simp add: distinct_map)
  then have strict: "sorted_wrt (\<lambda>a b. ?key a < ?key b) ?sorted"
    using sorted_sort_key [of ?key ?all] by (simp add: strict_sorted_iff flip: sorted_wrt_map)
  then have parts: "sorted_wrt (\<lambda>a b. ?key a < ?key b) (take count ?sorted @ drop count ?sorted)"
    by simp
  have less: "?key a < ?key b \<longleftrightarrow>
      distance_less (kademlia_distance (nc_id a) target) (kademlia_distance (nc_id b) target)" for a b
    by (simp add: distance_key_def less_xor_distance_def)
  have rest: "set ?all - set found \<subseteq> set (drop count ?sorted)"
    using set_append [of "take count ?sorted" "drop count ?sorted"] by (auto simp: found)
  from parts rest show ?thesis
    unfolding sorted_wrt_append less
    by (auto simp: found total_contacts_length dest: in_set_takeD)
qed

section \<open>Witnesses\<close>

definition sample_contact :: "byte \<Rightarrow> node_contact" where
  "sample_contact b = \<lparr>nc_id = replicate 32 b, nc_public_key = replicate 32 b,
     nc_virtual_address = replicate 16 b, nc_endpoint = ''e'', nc_last_seen_ms = 1, nc_rtt_ms = 2,
     nc_failed_pings = 0\<rparr>"

lemma sample_contact_id [simp]: "nc_id (sample_contact b) = replicate 32 b"
  by (simp add: sample_contact_def)

definition sample_kademlia :: kademlia_table where
  "sample_kademlia = kademlia_clear (empty_kademlia_table\<lparr>kt_local_id := replicate 32 0\<rparr>)"

lemma sample_kademlia_start: "kademlia_start sample_kademlia"
  by (auto simp: kademlia_start_def kademlia_init_def sample_kademlia_def
      intro!: exI [of _ "replicate 32 0"])

lemma sample_kademlia_inv: "kademlia_inv sample_kademlia"
  by (rule kademlia_runs.inv_start) (rule sample_kademlia_start)

lemma sample_kademlia_empty: "all_contacts sample_kademlia = []"
  by (simp add: all_contacts_def sample_kademlia_def kademlia_clear_def empty_kademlia_table_def
      concat_eq_Nil_conv)

definition filled_kademlia :: kademlia_table where
  "filled_kademlia = snd (kademlia_insert sample_kademlia (sample_contact 5) None)"

lemma filled_reachable: "reachable kademlia_start kademlia_step filled_kademlia"
proof (rule reachable_step)
  show "reachable kademlia_start kademlia_step sample_kademlia"
    by (rule reachable_start) (rule sample_kademlia_start)
  show "kademlia_step sample_kademlia filled_kademlia"
    unfolding filled_kademlia_def
    by (rule step_insert [of "sample_contact 5" _ None, OF _ prod.collapse [symmetric]]) simp
qed

theorem kademlia_table_invariant_witness: "kademlia_total_contacts filled_kademlia \<le> 5120"
  using kademlia_table_invariant [OF filled_reachable] by simp

lemma sample_lookup_none: "kademlia_find sample_kademlia nid = None"
  using find_iff_contact [OF sample_kademlia_inv, of nid] sample_kademlia_empty
  by (cases "kademlia_find sample_kademlia nid") auto

theorem insert_lookup_witness:
  "kademlia_find filled_kademlia (replicate 32 5) = Some (sample_contact 5) \<and>
   kademlia_find filled_kademlia (replicate 32 6) = None"
proof -
  have local: "kt_local_id sample_kademlia = replicate 32 0"
    by (simp add: sample_kademlia_def kademlia_clear_def)
  obtain ok where ins: "kademlia_insert sample_kademlia (sample_contact 5) None = (ok, filled_kademlia)"
    by (metis filled_kademlia_def prod.collapse)
  have len: "length (bucket_of sample_kademlia (replicate 32 5)) < 20"
  proof -
    have "unat (kademlia_bucket_index (replicate 32 0) (replicate 32 5)) < 256"
      by (rule bucket_index_less) simp_all
    then have "bucket_of sample_kademlia (replicate 32 5) = []"
      unfolding bucket_of_def local
      by (simp add: sample_kademlia_def kademlia_clear_def empty_kademlia_table_def KADEMLIA_BUCKETS_def)
    then show ?thesis by simp
  qed
  have "is_node_id (nc_id (sample_contact 5))" by simp
  note result = insert_lookup [OF sample_kademlia_inv this ins]
  from result [of "replicate 32 5"] len have ok: ok by (simp add: local)
  from result [of "replicate 32 5"] result [of "replicate 32 6"] len ok show ?thesis
    by (simp add: sample_lookup_none)
qed

theorem bucket_index_orders_by_distance_witness:
  "distance_less (kademlia_distance (replicate 31 0 @ [1]) (replicate 32 0))
     (kademlia_distance (128 # replicate 31 0) (replicate 32 0))"
proof -
  have "kademlia_bucket_index (replicate 32 0) (128 # replicate 31 0) = 0"
    "kademlia_bucket_index (replicate 32 0) (replicate 31 0 @ [1]) = 255"
    by code_simp+
  moreover have "128 # replicate 31 0 \<noteq> (replicate 32 0 :: byte list)"
    by code_simp
  ultimately show ?thesis using bucket_index_orders_by_distance
    [of "128 # replicate 31 0" "replicate 31 0 @ [1]" "replicate 32 0" 0]
    by simp
qed

theorem find_closest_minimal_witness:
  "length (kademlia_find_closest filled_kademlia (replicate 32 9) 3) =
     min 3 (kademlia_total_contacts filled_kademlia)"
  using find_closest_minimal [OF kademlia_runs.reachable_inv [OF filled_reachable], of "replicate 32 9" 3]
  by simp

end
