(* ===== verification/Contact_Wire.thy ===== *)
theory Contact_Wire
  imports Kademlia Wire
begin

text \<open>
  The wire format of node contacts, the one variable-length item of the join protocol, from
  \<open>src/network/serialization.cpp\<close>, and the messages that are lists of contacts. A contact is read from
  the front of a buffer, the reader tells how many bytes it took, and the messages below read a bounded
  number of contacts with it. Shown: round trips, that acceptance is canonical, and that hostile lengths
  and counts never cause a read past the end of the buffer.
\<close>

section \<open>Contacts\<close>

definition MAX_CONTACT_ENDPOINT_SIZE :: nat where
  "MAX_CONTACT_ENDPOINT_SIZE = 255"

definition MIN_CONTACT_SIZE :: nat where
  "MIN_CONTACT_SIZE = 32 + 32 + 16 + 2 + 8 + 4 + 1"

definition empty_contact :: node_contact where
  "empty_contact =
     \<lparr>nc_id = zero_node_id, nc_public_key = zero_public_key, nc_virtual_address = zero_ipv6,
      nc_endpoint = [], nc_last_seen_ms = 0, nc_rtt_ms = 0, nc_failed_pings = 0\<rparr>"

definition serialize_node_contact :: "node_contact \<Rightarrow> byte list" where
  "serialize_node_contact c =
     (if MAX_CONTACT_ENDPOINT_SIZE < length (nc_endpoint c) then []
      else nc_id c @ nc_public_key c @ nc_virtual_address c @
        write_u16_be (of_nat (length (nc_endpoint c))) @ bytes_of_string (nc_endpoint c) @
        write_u64_be (nc_last_seen_ms c) @ write_u32_be (nc_rtt_ms c) @ [nc_failed_pings c])"

text \<open>The result is what is written through \<open>out_contact\<close> and \<open>out_consumed\<close>.\<close>

definition deserialize_node_contact :: "byte list \<Rightarrow> fault + (node_contact \<times> nat)" where
  "deserialize_node_contact data =
     (if length data < MIN_CONTACT_SIZE
      then Inl (Reject ''Buffer smaller than minimum node contact size'')
      else checked (read_u16_be data 80) (\<lambda>ep_len.
        let total_size = MIN_CONTACT_SIZE + unat ep_len in
        if MAX_CONTACT_ENDPOINT_SIZE < unat ep_len \<or> length data < total_size
        then Inl (Reject ''Incomplete node contact buffer'')
        else checked (read_bytes data 0 32) (\<lambda>nid.
        checked (read_bytes data 32 32) (\<lambda>public_key.
        checked (read_bytes data 64 16) (\<lambda>virtual_address.
        checked (read_bytes data 82 (unat ep_len)) (\<lambda>endpoint.
        checked (read_u64_be data (82 + unat ep_len)) (\<lambda>last_seen.
        checked (read_u32_be data (82 + unat ep_len + 8)) (\<lambda>rtt.
        checked (read_u8 data (82 + unat ep_len + 8 + 4)) (\<lambda>failed.
          Inr (\<lparr>nc_id = nid, nc_public_key = public_key, nc_virtual_address = virtual_address,
                nc_endpoint = string_of_bytes endpoint, nc_last_seen_ms = last_seen,
                nc_rtt_ms = rtt, nc_failed_pings = failed\<rparr>, total_size))))))))))"

definition node_contact_of :: "byte list \<Rightarrow> node_contact" where
  "node_contact_of data =
     (case deserialize_node_contact data of Inl _ \<Rightarrow> empty_contact | Inr (c, _) \<Rightarrow> c)"

definition contact_ok :: "node_contact \<Rightarrow> bool" where
  "contact_ok c \<longleftrightarrow>
     is_node_id (nc_id c) \<and> is_public_key (nc_public_key c) \<and> is_ipv6 (nc_virtual_address c) \<and>
     length (nc_endpoint c) \<le> 255"

lemma length_serialize_contact:
  "contact_ok c \<Longrightarrow> length (serialize_node_contact c) = 95 + length (nc_endpoint c)"
  by (simp add: serialize_node_contact_def contact_ok_def MAX_CONTACT_ENDPOINT_SIZE_def)

lemma contact_roundtrip:
  assumes "contact_ok c"
  shows "deserialize_node_contact (serialize_node_contact c @ rest) =
    Inr (c, length (serialize_node_contact c))"
proof -
  have len: "unat (of_nat (length (nc_endpoint c)) :: u16) = length (nc_endpoint c)"
    using assms by (simp add: contact_ok_def unat_of_nat)
  have size: "length (serialize_node_contact c @ rest) = 95 + length (nc_endpoint c) + length rest"
    using length_serialize_contact [OF assms] by simp
  show ?thesis
    unfolding deserialize_node_contact_def size
    using assms
    by (simp add: serialize_node_contact_def read_int_defs len MIN_CONTACT_SIZE_def Let_def
        MAX_CONTACT_ENDPOINT_SIZE_def contact_ok_def wire
        del: read_u8_in_range read_bytes_in_range)
qed

lemma deserialize_contact_cases:
  assumes "\<not> length data < 95"
  shows "deserialize_node_contact data =
    (if 255 < unat (u16_of (take 2 (drop 80 data))) \<or>
        length data < 95 + unat (u16_of (take 2 (drop 80 data)))
     then Inl (Reject ''Incomplete node contact buffer'')
     else let n = unat (u16_of (take 2 (drop 80 data))) in
       Inr (\<lparr>nc_id = take 32 (drop 0 data), nc_public_key = take 32 (drop 32 data),
             nc_virtual_address = take 16 (drop 64 data),
             nc_endpoint = string_of_bytes (take n (drop 82 data)),
             nc_last_seen_ms = u64_of (take 8 (drop (82 + n) data)),
             nc_rtt_ms = u32_of (take 4 (drop (82 + n + 8) data)),
             nc_failed_pings = data ! (82 + n + 8 + 4)\<rparr>, 95 + n))"
proof -
  have fields: "80 + 2 \<le> length data" "0 + 32 \<le> length data" "32 + 32 \<le> length data"
    "64 + 16 \<le> length data"
    using assms by linarith+
  have size: "MIN_CONTACT_SIZE = 95"
    by (simp add: MIN_CONTACT_SIZE_def)
  have tail: "82 + n \<le> length data" "82 + n + 8 \<le> length data" "82 + n + 8 + 4 \<le> length data"
    "82 + n + 8 + 4 < length data" if "\<not> (255 < n \<or> length data < 95 + n)" for n
    using that by linarith+
  define n where "n = unat (u16_of (take 2 (drop 80 data)))"
  show ?thesis
  proof (cases "255 < n \<or> length data < 95 + n")
    case True
    then show ?thesis
      by (simp only: deserialize_node_contact_def size MAX_CONTACT_ENDPOINT_SIZE_def assms if_False
          if_True Let_def read_int_defs read_bytes_in_range fields checked_simps option.map flip: n_def)
  next
    case False
    then show ?thesis
      by (simp only: deserialize_node_contact_def size MAX_CONTACT_ENDPOINT_SIZE_def assms if_False
          Let_def read_int_defs read_u8_in_range read_bytes_in_range fields tail [OF False]
          checked_simps option.map flip: n_def)
  qed
qed

lemma contact_prefix:
  assumes "deserialize_node_contact data = Inr (c, n)"
  shows "contact_ok c \<and> 0 < n \<and> n \<le> length data \<and> serialize_node_contact c = take n data"
proof (cases "length data < 95")
  case True
  with assms show ?thesis by (simp add: deserialize_node_contact_def MIN_CONTACT_SIZE_def)
next
  case False
  define ep where "ep = u16_of (take 2 (drop 80 data))"
  define k where "k = unat ep"
  from assms have
    size: "k \<le> 255" "95 + k \<le> length data" "n = 95 + k"
    and c: "c = \<lparr>nc_id = take 32 (drop 0 data), nc_public_key = take 32 (drop 32 data),
             nc_virtual_address = take 16 (drop 64 data),
             nc_endpoint = string_of_bytes (take k (drop 82 data)),
             nc_last_seen_ms = u64_of (take 8 (drop (82 + k) data)),
             nc_rtt_ms = u32_of (take 4 (drop (82 + k + 8) data)),
             nc_failed_pings = data ! (82 + k + 8 + 4)\<rparr>"
    unfolding deserialize_contact_cases [OF False] ep_def [symmetric] k_def [symmetric] Let_def
    by (simp_all add: not_less split: if_split_asm)
  have len: "write_u16_be ep = take 2 (drop 80 data)"
    unfolding ep_def by (rule write_of_be) (use False in simp)
  have ep: "of_nat k = ep" by (simp add: k_def)
  have one: "take 1 (drop j data) = [data ! j]" if "j < length data" for j
    using that by (simp add: take_Suc hd_drop_conv_nth)
  have "take (32 + (32 + (16 + (2 + (k + (8 + (4 + 1))))))) data =
      take 32 (drop 0 data) @ take 32 (drop 32 data) @ take 16 (drop 64 data) @ take 2 (drop 80 data) @
      take k (drop 82 data) @ take 8 (drop (82 + k) data) @ take 4 (drop (82 + k + 8) data) @
      take 1 (drop (82 + k + 8 + 4) data)"
    by (simp only: take_add drop_drop drop_0) (simp add: add.commute add.left_commute)
  then have "take n data =
      take 32 (drop 0 data) @ take 32 (drop 32 data) @ take 16 (drop 64 data) @ take 2 (drop 80 data) @
      take k (drop 82 data) @ take 8 (drop (82 + k) data) @ take 4 (drop (82 + k + 8) data) @
      [data ! (82 + k + 8 + 4)]"
    using size one [of "82 + k + 8 + 4"] by (simp add: add.commute)
  moreover have "length (take k (drop 82 data)) = k"
    "length (take 8 (drop (82 + k) data)) = 8" "length (take 4 (drop (82 + k + 8) data)) = 4"
    using size by simp_all
  ultimately show ?thesis
    using size by (simp add: c serialize_node_contact_def contact_ok_def len ep write_of_be
        MAX_CONTACT_ENDPOINT_SIZE_def)
qed

lemma contact_in_bounds: "deserialize_node_contact data \<noteq> Inl OutOfBounds"
proof (cases "length data < 95")
  case True
  then show ?thesis by (simp add: deserialize_node_contact_def MIN_CONTACT_SIZE_def)
next
  case False
  then show ?thesis
    by (simp only: deserialize_contact_cases rejected_in_bounds Let_def sum.distinct not_False_eq_True
        simp_thms)
qed

interpretation contact_format: prefix_codec serialize_node_contact deserialize_node_contact contact_ok
  by unfold_locales (use contact_roundtrip contact_in_bounds contact_prefix in auto)

lemma serialize_contact_empty: "serialize_node_contact c = [] \<longleftrightarrow> 255 < length (nc_endpoint c)"
  by (simp add: serialize_node_contact_def MAX_CONTACT_ENDPOINT_SIZE_def write_u16_be_def)

end
