(* ===== verification/Join_Wire.thy ===== *)
theory Join_Wire
  imports Contact_Wire
begin

text \<open>
  The messages of the join protocol (\<open>src/include/network/join.hpp\<close>) and their wire formats
  (\<open>src/network/serialization.cpp\<close>): join request and response, find-node, neighbours, node announcement
  and its acknowledgement. Shown: round trips within the size limits, that an accepted buffer is the
  encoding of what it yields (up to the normalised boolean byte), and that no buffer is read past its end.
\<close>

section \<open>Messages\<close>

record join_request =
  jr_node_id :: node_id
  jr_public_key :: public_key
  jr_virtual_address :: ipv6
  jr_endpoint :: string
  jr_timestamp :: u64
  jr_nonce :: u64
  jr_invite_token :: string

record join_response =
  js_accepted :: bool
  js_bootstrap_contact :: node_contact
  js_bootstrap_id :: node_id
  js_peers :: "node_contact list"

text \<open>\<open>JoinResponse::operator==\<close>: a missing id of the contact is the one of \<open>bootstrap_id\<close>.\<close>

definition boot_contact :: "join_response \<Rightarrow> node_contact" where
  "boot_contact r =
     (let c = js_bootstrap_contact r
      in if nc_id c = zero_node_id then c\<lparr>nc_id := js_bootstrap_id r\<rparr> else c)"

definition join_response_equal :: "join_response \<Rightarrow> join_response \<Rightarrow> bool" where
  "join_response_equal a b \<longleftrightarrow>
     js_accepted a = js_accepted b \<and> boot_contact a = boot_contact b \<and> js_peers a = js_peers b"

definition empty_join_response :: join_response where
  "empty_join_response =
     \<lparr>js_accepted = False, js_bootstrap_contact = empty_contact, js_bootstrap_id = zero_node_id,
      js_peers = []\<rparr>"

record find_node_message =
  fn_target :: node_id

record neighbors_message =
  nm_peers :: "node_contact list"

record node_announce_message =
  an_contact :: node_contact
  an_nonce :: u64

record node_announce_ack =
  ack_accepted :: bool
  ack_responder :: node_id

section \<open>Lists of contacts\<close>

fun append_contacts :: "byte list \<Rightarrow> node_contact list \<Rightarrow> byte list option" where
  "append_contacts buf [] = Some buf"
| "append_contacts buf (c # cs) =
     (let contact_bytes = serialize_node_contact c
      in if contact_bytes = [] then None else append_contacts (buf @ contact_bytes) cs)"

definition or_empty :: "byte list option \<Rightarrow> byte list" where
  "or_empty r = (case r of None \<Rightarrow> [] | Some b \<Rightarrow> b)"

definition serialize_neighbors :: "neighbors_message \<Rightarrow> byte list" where
  "serialize_neighbors msg =
     (if KADEMLIA_K < length (nm_peers msg) then []
      else or_empty (append_contacts (write_u16_be (of_nat (length (nm_peers msg)))) (nm_peers msg)))"

definition deserialize_neighbors :: "byte list \<Rightarrow> fault + neighbors_message" where
  "deserialize_neighbors data =
     (if length data < 2 then Inl (Reject ''Buffer smaller than neighbors header'')
      else checked (read_u16_be data 0) (\<lambda>count.
        if KADEMLIA_K < unat count then Inl (Reject ''Neighbors peer count exceeds limit'')
        else case decode_seq deserialize_node_contact ''Truncated neighbors peer data''
               (unat count) data 2 [] of
               Inl e \<Rightarrow> Inl e
             | Inr (peers, off) \<Rightarrow>
                 if off \<noteq> length data then Inl (Reject ''Extraneous bytes in neighbors message'')
                 else Inr \<lparr>nm_peers = peers\<rparr>))"

definition neighbors_of :: "byte list \<Rightarrow> neighbors_message" where
  "neighbors_of data = (case deserialize_neighbors data of Inl _ \<Rightarrow> \<lparr>nm_peers = []\<rparr> | Inr m \<Rightarrow> m)"

section \<open>Join responses\<close>

definition serialize_join_response :: "join_response \<Rightarrow> byte list" where
  "serialize_join_response resp =
     (if KADEMLIA_K < length (js_peers resp) then []
      else
        let boot_bytes = serialize_node_contact (boot_contact resp)
        in if boot_bytes = [] then []
           else or_empty (append_contacts
             ([if js_accepted resp then 1 else 0] @ boot_bytes @
              write_u16_be (of_nat (length (js_peers resp)))) (js_peers resp)))"

definition deserialize_join_response :: "byte list \<Rightarrow> fault + join_response" where
  "deserialize_join_response data =
     (if data = [] then Inl (Reject ''Empty buffer for join response'')
      else checked (read_u8 data 0) (\<lambda>acc.
        case deserialize_node_contact (drop 1 data) of
          Inl e \<Rightarrow> Inl e
        | Inr (boot, consumed) \<Rightarrow>
            let off = 1 + consumed in
            if length data < off + 2
            then Inl (Reject ''Buffer smaller than join response peer count'')
            else checked (read_u16_be data off) (\<lambda>count.
              if KADEMLIA_K < unat count
              then Inl (Reject ''Join response peer count exceeds limit'')
              else case decode_seq deserialize_node_contact ''Truncated join response peers''
                     (unat count) data (off + 2) [] of
                     Inl e \<Rightarrow> Inl e
                   | Inr (peers, end_off) \<Rightarrow>
                       if end_off \<noteq> length data
                       then Inl (Reject ''Extraneous data in join response'')
                       else Inr \<lparr>js_accepted = (acc \<noteq> 0), js_bootstrap_contact = boot,
                              js_bootstrap_id = nc_id boot, js_peers = peers\<rparr>)))"

definition join_response_of :: "byte list \<Rightarrow> join_response" where
  "join_response_of data =
     (case deserialize_join_response data of Inl _ \<Rightarrow> empty_join_response | Inr r \<Rightarrow> r)"

section \<open>Announcements, acknowledgements and lookups\<close>

definition serialize_node_announce :: "node_announce_message \<Rightarrow> byte list" where
  "serialize_node_announce msg = serialize_node_contact (an_contact msg) @ write_u64_be (an_nonce msg)"

definition deserialize_node_announce :: "byte list \<Rightarrow> fault + node_announce_message" where
  "deserialize_node_announce data =
     (if length data < 8 then Inl (Reject ''Buffer too small for node announce'')
      else
        let contact_slice = take (length data - 8) data in
        case deserialize_node_contact contact_slice of
          Inl e \<Rightarrow> Inl e
        | Inr (contact, consumed) \<Rightarrow>
            if consumed \<noteq> length contact_slice
            then Inl (Reject ''Node announce contact size mismatch'')
            else checked (read_u64_be data (length data - 8)) (\<lambda>nonce.
              Inr \<lparr>an_contact = contact, an_nonce = nonce\<rparr>))"

definition node_announce_of :: "byte list \<Rightarrow> node_announce_message" where
  "node_announce_of data =
     (case deserialize_node_announce data of
        Inl _ \<Rightarrow> \<lparr>an_contact = empty_contact, an_nonce = 0\<rparr> | Inr m \<Rightarrow> m)"

definition NODE_ANNOUNCE_ACK_WIRE_SIZE :: nat where
  "NODE_ANNOUNCE_ACK_WIRE_SIZE = 1 + 32"

definition serialize_node_announce_ack :: "node_announce_ack \<Rightarrow> byte list" where
  "serialize_node_announce_ack msg = [if ack_accepted msg then 1 else 0] @ ack_responder msg"

definition deserialize_node_announce_ack :: "byte list \<Rightarrow> fault + node_announce_ack" where
  "deserialize_node_announce_ack data =
     (if length data \<noteq> NODE_ANNOUNCE_ACK_WIRE_SIZE
      then Inl (Reject ''Invalid node announce ack size'')
      else checked (read_u8 data 0) (\<lambda>acc. checked (read_bytes data 1 32) (\<lambda>responder.
        Inr \<lparr>ack_accepted = (acc \<noteq> 0), ack_responder = responder\<rparr>)))"

definition node_announce_ack_of :: "byte list \<Rightarrow> node_announce_ack" where
  "node_announce_ack_of data =
     (case deserialize_node_announce_ack data of
        Inl _ \<Rightarrow> \<lparr>ack_accepted = False, ack_responder = zero_node_id\<rparr> | Inr m \<Rightarrow> m)"

definition FIND_NODE_WIRE_SIZE :: nat where
  "FIND_NODE_WIRE_SIZE = 32"

definition serialize_find_node :: "find_node_message \<Rightarrow> byte list" where
  "serialize_find_node msg = fn_target msg"

definition deserialize_find_node :: "byte list \<Rightarrow> fault + find_node_message" where
  "deserialize_find_node data =
     (if length data \<noteq> FIND_NODE_WIRE_SIZE then Inl (Reject ''Invalid find node message size'')
      else checked (read_bytes data 0 32) (\<lambda>target. Inr \<lparr>fn_target = target\<rparr>))"

definition find_node_of :: "byte list \<Rightarrow> find_node_message" where
  "find_node_of data =
     (case deserialize_find_node data of Inl _ \<Rightarrow> \<lparr>fn_target = zero_node_id\<rparr> | Inr m \<Rightarrow> m)"

section \<open>Join requests\<close>

definition MIN_JOIN_REQUEST_SIZE :: nat where
  "MIN_JOIN_REQUEST_SIZE = 32 + 32 + 16 + 2 + 8 + 8 + 2"

definition serialize_join_request :: "join_request \<Rightarrow> byte list" where
  "serialize_join_request req =
     (if 255 < length (jr_endpoint req) \<or> 512 < length (jr_invite_token req) then []
      else jr_node_id req @ jr_public_key req @ jr_virtual_address req @
        write_u16_be (of_nat (length (jr_endpoint req))) @ bytes_of_string (jr_endpoint req) @
        write_u64_be (jr_timestamp req) @ write_u64_be (jr_nonce req) @
        write_u16_be (of_nat (length (jr_invite_token req))) @ bytes_of_string (jr_invite_token req))"

definition deserialize_join_request :: "byte list \<Rightarrow> fault + join_request" where
  "deserialize_join_request data =
     (if length data < MIN_JOIN_REQUEST_SIZE
      then Inl (Reject ''Buffer smaller than minimum join request size'')
      else checked (read_u16_be data 80) (\<lambda>ep_len.
        if 255 < unat ep_len \<or> length data < MIN_JOIN_REQUEST_SIZE + unat ep_len
        then Inl (Reject ''Invalid join endpoint length'')
        else checked (read_u16_be data (82 + unat ep_len + 8 + 8)) (\<lambda>token_len.
        if 512 < unat token_len \<or>
           length data \<noteq> MIN_JOIN_REQUEST_SIZE + unat ep_len + unat token_len
        then Inl (Reject ''Join request buffer size mismatch'')
        else checked (read_bytes data 0 32) (\<lambda>nid.
        checked (read_bytes data 32 32) (\<lambda>public_key.
        checked (read_bytes data 64 16) (\<lambda>virtual_address.
        checked (read_bytes data 82 (unat ep_len)) (\<lambda>endpoint.
        checked (read_u64_be data (82 + unat ep_len)) (\<lambda>timestamp.
        checked (read_u64_be data (82 + unat ep_len + 8)) (\<lambda>nonce.
        checked (read_bytes data (82 + unat ep_len + 8 + 8 + 2) (unat token_len)) (\<lambda>token.
          Inr \<lparr>jr_node_id = nid, jr_public_key = public_key, jr_virtual_address = virtual_address,
               jr_endpoint = string_of_bytes endpoint, jr_timestamp = timestamp, jr_nonce = nonce,
               jr_invite_token = string_of_bytes token\<rparr>))))))))))"

definition join_request_of :: "byte list \<Rightarrow> join_request" where
  "join_request_of data =
     (case deserialize_join_request data of
        Inl _ \<Rightarrow> \<lparr>jr_node_id = zero_node_id, jr_public_key = zero_public_key,
          jr_virtual_address = zero_ipv6, jr_endpoint = [], jr_timestamp = 0, jr_nonce = 0,
          jr_invite_token = []\<rparr>
      | Inr r \<Rightarrow> r)"

section \<open>Facts: lists of contacts\<close>

abbreviation encode_contacts :: "node_contact list \<Rightarrow> byte list" where
  "encode_contacts cs \<equiv> concat (map serialize_node_contact cs)"

lemma append_contacts_eq:
  "append_contacts buf cs =
     (if \<exists>c\<in>set cs. 255 < length (nc_endpoint c) then None else Some (buf @ encode_contacts cs))"
  by (induction cs arbitrary: buf) (auto simp: serialize_contact_empty Let_def)

lemma append_contacts_ok:
  "list_all contact_ok cs \<Longrightarrow> append_contacts buf cs = Some (buf @ encode_contacts cs)"
  by (auto simp: append_contacts_eq list_all_iff contact_ok_def)

definition peers_ok :: "node_contact list \<Rightarrow> bool" where
  "peers_ok cs \<longleftrightarrow> list_all contact_ok cs \<and> length cs \<le> 20"

lemma peers_count: "peers_ok cs \<Longrightarrow> unat (of_nat (length cs) :: u16) = length cs"
  by (simp add: peers_ok_def unat_of_nat)

text \<open>A counted list of contacts at the end of a buffer, written and read.\<close>

definition encode_counted :: "node_contact list \<Rightarrow> byte list" where
  "encode_counted cs = write_u16_be (of_nat (length cs)) @ encode_contacts cs"

lemma read_count:
  "off = length pre \<Longrightarrow> read_u16_be (pre @ encode_counted cs) off = Some (of_nat (length cs))"
  by (simp add: read_int_defs encode_counted_def wire del: read_bytes_in_range)

lemma read_counted:
  assumes "peers_ok cs" and "off = length pre + 2"
  shows "decode_seq deserialize_node_contact msg (length cs) (pre @ encode_counted cs) off [] =
      Inr (cs, length pre + length (encode_counted cs))"
proof -
  let ?pre = "pre @ write_u16_be (of_nat (length cs))"
  from assms have "list_all contact_ok cs" by (simp add: peers_ok_def)
  from contact_format.decode_seq_enc [OF this, of msg ?pre "[]" "[]"]
  show ?thesis by (simp add: encode_counted_def assms(2))
qed

lemma decoded_counted:
  assumes "start \<le> length data" and "start = off + 2"
    and "decode_seq deserialize_node_contact msg (unat count) data start [] = Inr (cs, length data)"
    and "count = u16_of (take 2 (drop off data))" and "unat count \<le> KADEMLIA_K"
  shows "peers_ok cs \<and> encode_counted cs = drop off data"
proof -
  have cs: "length cs = unat count" "list_all contact_ok cs"
    "encode_contacts cs @ drop (length data) data = drop start data"
    using contact_format.decode_seq_result [OF assms(3,1)] by auto
  have "write_u16_be count = take 2 (drop off data)"
    unfolding assms(4) by (rule write_of_be) (use assms(1,2) in simp)
  with cs assms(2,5) show ?thesis
    by (simp add: peers_ok_def encode_counted_def KADEMLIA_K_def segment_glue)
qed

section \<open>Facts: neighbours\<close>

lemma serialize_neighbors_ok:
  "peers_ok (nm_peers m) \<Longrightarrow> serialize_neighbors m = encode_counted (nm_peers m)"
  by (simp add: serialize_neighbors_def peers_ok_def KADEMLIA_K_def append_contacts_ok or_empty_def
      encode_counted_def)

lemma neighbors_roundtrip:
  assumes "peers_ok (nm_peers m)"
  shows "deserialize_neighbors (serialize_neighbors m) = Inr m"
proof -
  have "\<not> length (encode_counted (nm_peers m)) < 2" by (simp add: encode_counted_def)
  moreover have "length (nm_peers m) \<le> KADEMLIA_K"
    using assms by (simp add: peers_ok_def KADEMLIA_K_def)
  ultimately show ?thesis
    using read_counted [OF assms, of 2 "[]"] read_count [of 0 "[]"]
    by (simp add: serialize_neighbors_ok [OF assms] deserialize_neighbors_def peers_count [OF assms]
        not_less)
qed

lemma neighbors_canonical:
  assumes "deserialize_neighbors data = Inr m"
  shows "peers_ok (nm_peers m) \<and> serialize_neighbors m = data"
proof -
  define count where "count = u16_of (take 2 (drop 0 data))"
  have size: "2 \<le> length data"
    using assms by (simp add: deserialize_neighbors_def not_less split: if_split_asm)
  then have "read_u16_be data 0 = Some count"
    by (simp add: read_u16_eq_Some count_def)
  with assms size have "unat count \<le> KADEMLIA_K"
    "decode_seq deserialize_node_contact ''Truncated neighbors peer data'' (unat count) data 2 [] =
      Inr (nm_peers m, length data)"
    by (auto simp: deserialize_neighbors_def not_less split: if_split_asm sum.splits)
  from decoded_counted [OF size _ this(2) count_def this(1)] show ?thesis
    by (simp add: serialize_neighbors_ok)
qed

lemma decode_contacts_in_bounds: "decode_seq deserialize_node_contact msg n data off acc \<noteq> Inl OutOfBounds"
  by (rule contact_format.decode_seq_in_bounds)

lemma neighbors_in_bounds: "deserialize_neighbors data \<noteq> Inl OutOfBounds"
proof (cases "length data < 2")
  case False
  then obtain count where "read_u16_be data 0 = Some count"
    by (auto simp: read_int_defs read_bytes_def)
  then show ?thesis
    using decode_contacts_in_bounds [of "''Truncated neighbors peer data''" "unat count" data 2 "[]"]
    by (auto simp: deserialize_neighbors_def split: sum.split)
qed (simp add: deserialize_neighbors_def)

interpretation neighbors_format:
  canonical_codec serialize_neighbors deserialize_neighbors "\<lambda>m. peers_ok (nm_peers m)"
  by unfold_locales (auto simp: neighbors_roundtrip neighbors_in_bounds dest: neighbors_canonical)

section \<open>Facts: join responses\<close>

definition join_response_ok :: "join_response \<Rightarrow> bool" where
  "join_response_ok r \<longleftrightarrow>
     contact_ok (js_bootstrap_contact r) \<and> js_bootstrap_id r = nc_id (js_bootstrap_contact r) \<and>
     peers_ok (js_peers r)"

lemma serialize_join_response_ok:
  assumes "contact_ok (boot_contact r)" and "peers_ok (js_peers r)"
  shows "serialize_join_response r =
    (if js_accepted r then 1 else 0) # serialize_node_contact (boot_contact r) @ encode_counted (js_peers r)"
  using assms
  by (auto simp: serialize_join_response_def peers_ok_def KADEMLIA_K_def append_contacts_ok or_empty_def
      encode_counted_def Let_def serialize_contact_empty contact_ok_def)

lemma join_response_received:
  assumes "contact_ok (boot_contact r)" and "peers_ok (js_peers r)"
  shows "deserialize_join_response (serialize_join_response r) =
    Inr (r\<lparr>js_bootstrap_contact := boot_contact r, js_bootstrap_id := nc_id (boot_contact r)\<rparr>)"
proof -
  let ?pre = "(if js_accepted r then 1 else 0) # serialize_node_contact (boot_contact r)"
  have "serialize_join_response r = ?pre @ encode_counted (js_peers r)"
    by (simp add: serialize_join_response_ok [OF assms])
  moreover have "length (js_peers r) \<le> KADEMLIA_K"
    using assms(2) by (simp add: peers_ok_def KADEMLIA_K_def)
  moreover have "2 \<le> length (encode_counted (js_peers r))" by (simp add: encode_counted_def)
  ultimately show ?thesis
    using read_counted [OF assms(2), of _ ?pre] read_count [of _ ?pre "js_peers r"]
    by (simp add: deserialize_join_response_def contact_format.dec_enc [OF assms(1)] Let_def
        peers_count [OF assms(2)] read_u8_simps not_less)
qed

lemma boot_contact_ok: "join_response_ok r \<Longrightarrow> boot_contact r = js_bootstrap_contact r"
  by (simp add: join_response_ok_def boot_contact_def Let_def)

lemma join_response_decoded:
  assumes "deserialize_join_response data = Inr r"
  shows "join_response_ok r \<and> serialize_join_response r = (if hd data = 0 then 0 else 1) # tl data"
proof -
  obtain b rest where data: "data = b # rest"
    using assms by (cases data) (simp_all add: deserialize_join_response_def)
  obtain boot n where boot: "deserialize_node_contact rest = Inr (boot, n)"
    using assms by (auto simp: data deserialize_join_response_def read_u8_def split: sum.splits)
  note prefix = contact_prefix [OF boot]
  define off where "off = 1 + n"
  define count where "count = u16_of (take 2 (drop off data))"
  have size: "off + 2 \<le> length data"
    using assms boot by (auto simp: data deserialize_join_response_def read_u8_def off_def not_less
        Let_def split: if_split_asm)
  then have "read_u16_be data off = Some count"
    by (simp add: read_u16_eq_Some count_def)
  with assms size boot have r: "unat count \<le> KADEMLIA_K"
    "decode_seq deserialize_node_contact ''Truncated join response peers'' (unat count) data (off + 2) [] =
      Inr (js_peers r, length data)"
    "js_accepted r = (b \<noteq> 0)" "js_bootstrap_contact r = boot" "js_bootstrap_id r = nc_id boot"
    by (auto simp: data deserialize_join_response_def read_u8_def off_def not_less Let_def
        split: if_split_asm sum.splits)
  from decoded_counted [OF size refl r(2) count_def r(1)] have peers: "peers_ok (js_peers r)"
    "encode_counted (js_peers r) = drop n rest"
    by (simp_all add: data off_def)
  have ok: "join_response_ok r"
    using r prefix peers by (simp add: join_response_ok_def)
  then have "serialize_join_response r = (if js_accepted r then 1 else 0) #
      serialize_node_contact boot @ encode_counted (js_peers r)"
    using boot_contact_ok [OF ok] peers(1) prefix r(4) by (simp add: serialize_join_response_ok)
  then show ?thesis
    using ok prefix peers(2) r(3) by (simp add: data)
qed

lemma join_response_in_bounds: "deserialize_join_response data \<noteq> Inl OutOfBounds"
proof (cases data)
  case (Cons b rest)
  show ?thesis
  proof (cases "deserialize_node_contact rest")
    case (Inl e)
    then show ?thesis
      using contact_in_bounds [of rest] by (simp add: Cons deserialize_join_response_def read_u8_def)
  next
    case (Inr cn)
    then show ?thesis
      using decode_contacts_in_bounds
      by (auto simp: Cons deserialize_join_response_def read_u8_def read_int_defs read_bytes_def Let_def
          split: prod.split sum.split)
  qed
qed (simp add: deserialize_join_response_def)

interpretation join_response_format:
  wire_codec serialize_join_response deserialize_join_response join_response_ok
proof
  show "deserialize_join_response (serialize_join_response r) = Inr r" if "join_response_ok r" for r
    using that join_response_received [of r]
    by (simp add: boot_contact_ok) (simp add: join_response_ok_def)
qed (use join_response_in_bounds join_response_decoded in blast)+

section \<open>Facts: announcements, acknowledgements, lookups\<close>

lemma announce_roundtrip:
  assumes "contact_ok (an_contact m)"
  shows "deserialize_node_announce (serialize_node_announce m) = Inr m"
  using contact_roundtrip [OF assms, of "[]"]
  by (simp add: deserialize_node_announce_def serialize_node_announce_def read_int_defs wire Let_def
      del: read_bytes_in_range)

lemma announce_canonical:
  assumes "deserialize_node_announce data = Inr m"
  shows "contact_ok (an_contact m) \<and> serialize_node_announce m = data"
proof -
  have size: "8 \<le> length data"
    using assms by (simp add: deserialize_node_announce_def not_less split: if_split_asm)
  define slice where "slice = take (length data - 8) data"
  have "read_u64_be data (length data - 8) = Some (u64_of (drop (length data - 8) data))"
    using size by (simp add: read_int_defs read_bytes_def)
  with assms size obtain n where dec: "deserialize_node_contact slice = Inr (an_contact m, n)"
    and n: "n = length slice" and nonce: "an_nonce m = u64_of (drop (length data - 8) data)"
    by (auto simp: deserialize_node_announce_def Let_def slice_def split: if_split_asm sum.splits)
  have "write_u64_be (an_nonce m) = drop (length data - 8) data"
    unfolding nonce by (rule write_of_be) (use size in simp)
  with contact_prefix [OF dec] n show ?thesis
    by (simp add: serialize_node_announce_def slice_def)
qed

lemma announce_in_bounds: "deserialize_node_announce data \<noteq> Inl OutOfBounds"
proof (cases "length data < 8")
  case False
  then have "read_u64_be data (length data - 8) = Some (u64_of (drop (length data - 8) data))"
    by (simp add: read_int_defs read_bytes_def)
  then show ?thesis
    using contact_in_bounds [of "take (length data - 8) data"]
    by (auto simp: deserialize_node_announce_def Let_def split: sum.split)
qed (simp add: deserialize_node_announce_def)

interpretation announce_format:
  canonical_codec serialize_node_announce deserialize_node_announce "\<lambda>m. contact_ok (an_contact m)"
  by unfold_locales (auto simp: announce_roundtrip announce_in_bounds dest: announce_canonical)

lemma deserialize_ack_cases:
  "deserialize_node_announce_ack data =
     (if length data \<noteq> 33 then Inl (Reject ''Invalid node announce ack size'')
      else Inr \<lparr>ack_accepted = (data ! 0 \<noteq> 0), ack_responder = drop 1 data\<rparr>)"
  by (auto simp: deserialize_node_announce_ack_def NODE_ANNOUNCE_ACK_WIRE_SIZE_def read_bytes_def
      read_u8_def)

interpretation ack_format:
  wire_codec serialize_node_announce_ack deserialize_node_announce_ack "\<lambda>m. is_node_id (ack_responder m)"
  by unfold_locales (auto simp: deserialize_ack_cases serialize_node_announce_ack_def split: if_splits)

lemma deserialize_find_node_cases:
  "deserialize_find_node data =
     (if length data \<noteq> 32 then Inl (Reject ''Invalid find node message size'')
      else Inr \<lparr>fn_target = data\<rparr>)"
  by (simp add: deserialize_find_node_def FIND_NODE_WIRE_SIZE_def wire)

interpretation find_node_format:
  canonical_codec serialize_find_node deserialize_find_node "\<lambda>m. is_node_id (fn_target m)"
  by unfold_locales (auto simp: deserialize_find_node_cases serialize_find_node_def split: if_splits)

section \<open>Facts: join requests\<close>

definition join_request_ok :: "join_request \<Rightarrow> bool" where
  "join_request_ok r \<longleftrightarrow>
     is_node_id (jr_node_id r) \<and> is_public_key (jr_public_key r) \<and> is_ipv6 (jr_virtual_address r) \<and>
     length (jr_endpoint r) \<le> 255 \<and> length (jr_invite_token r) \<le> 512"

lemma join_request_roundtrip:
  assumes "join_request_ok r"
  shows "deserialize_join_request (serialize_join_request r) = Inr r"
proof -
  have len: "unat (of_nat (length (jr_endpoint r)) :: u16) = length (jr_endpoint r)"
    "unat (of_nat (length (jr_invite_token r)) :: u16) = length (jr_invite_token r)"
    using assms by (simp_all add: join_request_ok_def unat_of_nat)
  have size: "length (serialize_join_request r) =
      100 + length (jr_endpoint r) + length (jr_invite_token r)"
    using assms by (simp add: serialize_join_request_def join_request_ok_def)
  show ?thesis
    unfolding deserialize_join_request_def size
    using assms
    by (simp add: serialize_join_request_def read_int_defs len MIN_JOIN_REQUEST_SIZE_def
        join_request_ok_def wire del: read_u8_in_range read_bytes_in_range)
qed

lemma deserialize_join_request_cases:
  fixes data :: "byte list"
  assumes "\<not> length data < 100"
  defines "n \<equiv> unat (u16_of (take 2 (drop 80 data)))"
  defines "k \<equiv> unat (u16_of (take 2 (drop (82 + n + 8 + 8) data)))"
  shows "deserialize_join_request data =
    (if 255 < n \<or> length data < 100 + n then Inl (Reject ''Invalid join endpoint length'')
     else if 512 < k \<or> length data \<noteq> 100 + n + k
     then Inl (Reject ''Join request buffer size mismatch'')
     else Inr \<lparr>jr_node_id = take 32 (drop 0 data), jr_public_key = take 32 (drop 32 data),
       jr_virtual_address = take 16 (drop 64 data), jr_endpoint = string_of_bytes (take n (drop 82 data)),
       jr_timestamp = u64_of (take 8 (drop (82 + n) data)),
       jr_nonce = u64_of (take 8 (drop (82 + n + 8) data)),
       jr_invite_token = string_of_bytes (take k (drop (82 + n + 8 + 8 + 2) data))\<rparr>)"
proof -
  have fields: "80 + 2 \<le> length data" "0 + 32 \<le> length data" "32 + 32 \<le> length data"
    "64 + 16 \<le> length data"
    using assms(1) by linarith+
  have size: "MIN_JOIN_REQUEST_SIZE = 100"
    by (simp add: MIN_JOIN_REQUEST_SIZE_def)
  note head = deserialize_join_request_def size assms(1) if_False read_int_defs read_bytes_in_range
    fields checked_simps option.map
  show ?thesis
  proof (cases "255 < n \<or> length data < 100 + n")
    case True
    then show ?thesis by (simp only: head n_def [symmetric] if_True)
  next
    case False
    then have ep: "82 + n + 8 + 8 + 2 \<le> length data" "82 + n \<le> length data" "82 + n + 8 \<le> length data"
      "82 + n + 8 + 8 \<le> length data"
      by linarith+
    show ?thesis
    proof (cases "512 < k \<or> length data \<noteq> 100 + n + k")
      case True
      then show ?thesis
        by (simp only: head n_def [symmetric] False ep k_def [symmetric] if_True)
    next
      case ok: False
      then have "82 + n + 8 + 8 + 2 + k \<le> length data" by linarith
      then show ?thesis
        by (simp only: head n_def [symmetric] False ep k_def [symmetric] ok)
    qed
  qed
qed

lemma join_request_canonical:
  assumes "deserialize_join_request data = Inr r"
  shows "join_request_ok r \<and> serialize_join_request r = data"
proof (cases "length data < 100")
  case True
  with assms show ?thesis by (simp add: deserialize_join_request_def MIN_JOIN_REQUEST_SIZE_def)
next
  case False
  define ep where "ep = u16_of (take 2 (drop 80 data))"
  define n where "n = unat ep"
  define tok where "tok = u16_of (take 2 (drop (82 + n + 8 + 8) data))"
  define k where "k = unat tok"
  from assms have size: "n \<le> 255" "k \<le> 512" "length data = 100 + n + k"
    and r: "r = \<lparr>jr_node_id = take 32 (drop 0 data), jr_public_key = take 32 (drop 32 data),
       jr_virtual_address = take 16 (drop 64 data), jr_endpoint = string_of_bytes (take n (drop 82 data)),
       jr_timestamp = u64_of (take 8 (drop (82 + n) data)),
       jr_nonce = u64_of (take 8 (drop (82 + n + 8) data)),
       jr_invite_token = string_of_bytes (take k (drop (82 + n + 8 + 8 + 2) data))\<rparr>"
    unfolding deserialize_join_request_cases [OF False] ep_def [symmetric] n_def [symmetric]
      tok_def [symmetric] k_def [symmetric]
    by (simp_all only: not_less de_Morgan_disj split: if_split_asm) auto
  have len: "write_u16_be ep = take 2 (drop 80 data)"
    unfolding ep_def by (rule write_of_be) (use False in simp)
  have tlen: "write_u16_be tok = take 2 (drop (82 + n + 8 + 8) data)"
    unfolding tok_def by (rule write_of_be) (use size(3) in simp)
  have words: "of_nat n = ep" "of_nat k = tok" by (simp_all add: n_def k_def)
  have "take (32 + (32 + (16 + (2 + (n + (8 + (8 + (2 + k)))))))) data =
      take 32 (drop 0 data) @ take 32 (drop 32 data) @ take 16 (drop 64 data) @ take 2 (drop 80 data) @
      take n (drop 82 data) @ take 8 (drop (82 + n) data) @ take 8 (drop (82 + n + 8) data) @
      take 2 (drop (82 + n + 8 + 8) data) @ take k (drop (82 + n + 8 + 8 + 2) data)"
    by (simp only: take_add drop_drop drop_0) (simp add: add.commute add.left_commute)
  then have whole: "data =
      take 32 (drop 0 data) @ take 32 (drop 32 data) @ take 16 (drop 64 data) @ take 2 (drop 80 data) @
      take n (drop 82 data) @ take 8 (drop (82 + n) data) @ take 8 (drop (82 + n + 8) data) @
      take 2 (drop (82 + n + 8 + 8) data) @ take k (drop (82 + n + 8 + 8 + 2) data)"
    using size(3) by simp
  have lens: "length (take n (drop 82 data)) = n" "length (take 8 (drop (82 + n) data)) = 8"
    "length (take 8 (drop (82 + n + 8) data)) = 8"
    "length (take k (drop (82 + n + 8 + 8 + 2) data)) = k"
    using size by simp_all
  have "serialize_join_request r =
      take 32 (drop 0 data) @ take 32 (drop 32 data) @ take 16 (drop 64 data) @ take 2 (drop 80 data) @
      take n (drop 82 data) @ take 8 (drop (82 + n) data) @ take 8 (drop (82 + n + 8) data) @
      take 2 (drop (82 + n + 8 + 8) data) @ take k (drop (82 + n + 8 + 8 + 2) data)"
    using size(1,2) unfolding r serialize_join_request_def
    by (simp only: join_request.simps length_string_bytes lens words len tlen string_bytes_inverse
        write_of_be not_less [symmetric] simp_thms if_False)
  moreover have "join_request_ok r"
    using size unfolding r by (simp add: join_request_ok_def)
  ultimately show ?thesis using whole by metis
qed

lemma join_request_in_bounds: "deserialize_join_request data \<noteq> Inl OutOfBounds"
proof (cases "length data < 100")
  case True
  then show ?thesis by (simp add: deserialize_join_request_def MIN_JOIN_REQUEST_SIZE_def)
next
  case False
  then show ?thesis
    by (simp only: deserialize_join_request_cases rejected_in_bounds sum.distinct not_False_eq_True
        simp_thms)
qed

interpretation join_request_format:
  canonical_codec serialize_join_request deserialize_join_request join_request_ok
  by unfold_locales (auto simp: join_request_roundtrip join_request_in_bounds dest: join_request_canonical)

section \<open>Properties\<close>

text \<open>
  A join response is what the joining node receives: with contacts of legal size and at most 20
  peers the deserialised response equals the one sent, in the sense of the code's own equality, which
  fills a missing bootstrap id in; a response that is over a limit is serialised to nothing.
\<close>

theorem join_response_roundtrip:
  assumes "contact_ok (boot_contact r)" and "list_all contact_ok (js_peers r)"
  shows "if length (js_peers r) \<le> 20
    then \<exists>r'. deserialize_join_response (serialize_join_response r) = Inr r' \<and> join_response_equal r r' \<and>
           js_bootstrap_id r' = nc_id (boot_contact r)
    else serialize_join_response r = []"
proof (cases "length (js_peers r) \<le> 20")
  case True
  then have "peers_ok (js_peers r)" using assms(2) by (simp add: peers_ok_def)
  from join_response_received [OF assms(1) this] True show ?thesis
    by (auto simp: join_response_equal_def boot_contact_def Let_def)
qed (simp add: serialize_join_response_def KADEMLIA_K_def)

text \<open>
  The requests of the join protocol and their answers that carry contacts are canonical: a buffer
  is accepted exactly when it is the serialisation of a message within the limits (endpoint at most 255
  bytes, token at most 512, at most 20 contacts).
\<close>

theorem join_messages_canonical:
  "(deserialize_join_request data = Inr req \<longleftrightarrow>
      join_request_ok req \<and> data = serialize_join_request req) \<and>
   (deserialize_neighbors data = Inr nbs \<longleftrightarrow>
      peers_ok (nm_peers nbs) \<and> data = serialize_neighbors nbs) \<and>
   (deserialize_node_announce data = Inr ann \<longleftrightarrow>
      contact_ok (an_contact ann) \<and> data = serialize_node_announce ann) \<and>
   (deserialize_find_node data = Inr fnm \<longleftrightarrow>
      is_node_id (fn_target fnm) \<and> data = serialize_find_node fnm)"
  using join_request_format.dec_eq_iff [of data req] neighbors_format.dec_eq_iff [of data nbs]
    announce_format.dec_eq_iff [of data ann] find_node_format.dec_eq_iff [of data fnm]
  by blast

text \<open>
  No message of the join protocol, however its lengths and counts are chosen, makes a deserialiser
  read outside the buffer; an accepted join response or acknowledgement is the encoding of its value
  with the boolean byte normalised.
\<close>

theorem join_messages_in_bounds:
  "deserialize_join_request data \<noteq> Inl OutOfBounds \<and> deserialize_join_response data \<noteq> Inl OutOfBounds \<and>
   deserialize_neighbors data \<noteq> Inl OutOfBounds \<and> deserialize_node_announce data \<noteq> Inl OutOfBounds \<and>
   deserialize_node_announce_ack data \<noteq> Inl OutOfBounds \<and> deserialize_find_node data \<noteq> Inl OutOfBounds \<and>
   (deserialize_join_response data = Inr r \<longrightarrow>
      join_response_ok r \<and> serialize_join_response r = (if hd data = 0 then 0 else 1) # tl data) \<and>
   (deserialize_node_announce_ack data = Inr a \<longrightarrow>
      is_node_id (ack_responder a) \<and>
      serialize_node_announce_ack a = (if hd data = 0 then 0 else 1) # tl data)"
proof -
  have "is_node_id (ack_responder a) \<and>
      serialize_node_announce_ack a = (if hd data = 0 then 0 else 1) # tl data"
    if "deserialize_node_announce_ack data = Inr a"
    using that by (cases data) (auto simp: deserialize_ack_cases serialize_node_announce_ack_def
        split: if_splits)
  then show ?thesis
    using join_request_in_bounds [of data] join_response_in_bounds [of data] neighbors_in_bounds [of data]
      announce_in_bounds [of data] ack_format.in_bounds [of data] find_node_format.in_bounds [of data]
      join_response_decoded [of data r]
    by blast
qed

section \<open>Witnesses\<close>

lemma sample_contact_ok: "contact_ok (sample_contact b)"
  by (simp add: contact_ok_def sample_contact_def)

definition sample_response :: join_response where
  "sample_response = \<lparr>js_accepted = True, js_bootstrap_contact = sample_contact 1,
     js_bootstrap_id = replicate 32 1, js_peers = [sample_contact 2, sample_contact 3]\<rparr>"

lemma sample_response_simps:
  "boot_contact sample_response = sample_contact 1"
  "js_peers sample_response = [sample_contact 2, sample_contact 3]"
  by (simp_all add: sample_response_def boot_contact_def Let_def sample_contact_def zero_node_id_def)

theorem join_response_roundtrip_witness:
  "\<exists>r. deserialize_join_response (serialize_join_response sample_response) = Inr r \<and>
     join_response_equal sample_response r"
  using join_response_roundtrip [of sample_response]
  by (auto simp: sample_response_simps sample_contact_ok)

theorem join_messages_in_bounds_witness:
  "serialize_node_announce_ack \<lparr>ack_accepted = True, ack_responder = replicate 32 7\<rparr> = 1 # replicate 32 7"
proof -
  let ?a = "\<lparr>ack_accepted = True, ack_responder = replicate 32 7\<rparr>"
  have "deserialize_node_announce_ack (9 # replicate 32 7) = Inr ?a"
    by (simp add: deserialize_ack_cases)
  with join_messages_in_bounds [of "9 # replicate 32 7" sample_response ?a] show ?thesis by simp
qed

end
