(* ===== verification/Join.thy ===== *)
theory Join
  imports Join_Wire Control_Message Codec
begin

text \<open>
  The join protocol on top of the Kademlia table: \<open>src/network/join.cpp\<close>. The SHA-256 digest of OpenSSL
  (\<open>EVP_Q_digest\<close>) is a parameter: the digest of some bytes, or nothing when the library fails. Shown:
  requests and announcements only ever bring in contacts whose id is the digest of their key, the
  replies are readable by the peer, every handler keeps the table well formed, and the self lookup asks
  no node twice, never itself, and ends.
\<close>

section \<open>Handlers\<close>

type_synonym digest = "byte list \<Rightarrow> byte list option"

text \<open>The condition under which the code refuses: no digest, a wrong length, or another id.\<close>

definition identity_mismatch :: "digest \<Rightarrow> public_key \<Rightarrow> node_id \<Rightarrow> bool" where
  "identity_mismatch sha256 key nid =
     (case sha256 key of
        None \<Rightarrow> True
      | Some derived_id \<Rightarrow> length derived_id \<noteq> 32 \<or> derived_id \<noteq> nid)"

definition bare_contact :: "node_id \<Rightarrow> node_contact" where
  "bare_contact nid = empty_contact\<lparr>nc_id := nid\<rparr>"

definition local_or_bare :: "node_contact option \<Rightarrow> kademlia_table \<Rightarrow> node_contact" where
  "local_or_bare local_contact table =
     (case local_contact of None \<Rightarrow> bare_contact (kt_local_id table) | Some c \<Rightarrow> c)"

definition process_join_request ::
  "digest \<Rightarrow> kademlia_table \<Rightarrow> join_request \<Rightarrow> join_response \<Rightarrow> node_contact option \<Rightarrow>
     bool \<times> kademlia_table \<times> join_response" where
  "process_join_request sha256 table request response local_contact =
     (if identity_mismatch sha256 (jr_public_key request) (jr_node_id request)
      then (False, table,
        response\<lparr>js_accepted := False,
          js_bootstrap_contact := local_or_bare local_contact table,
          js_bootstrap_id := nc_id (local_or_bare local_contact table),
          js_peers := []\<rparr>)
      else
        let contact = \<lparr>nc_id = jr_node_id request, nc_public_key = jr_public_key request,
              nc_virtual_address = jr_virtual_address request, nc_endpoint = jr_endpoint request,
              nc_last_seen_ms = jr_timestamp request, nc_rtt_ms = 0, nc_failed_pings = 0\<rparr>;
            table = snd (kademlia_insert table contact None)
        in (True, table,
          response\<lparr>js_accepted := True,
            js_bootstrap_contact := local_or_bare local_contact table,
            js_bootstrap_id := nc_id (local_or_bare local_contact table),
            js_peers := kademlia_find_closest table (jr_node_id request) KADEMLIA_K\<rparr>))"

text \<open>The loop that the handlers share: every contact but the local node is inserted.\<close>

fun insert_contacts :: "kademlia_table \<Rightarrow> node_contact list \<Rightarrow> kademlia_table" where
  "insert_contacts table [] = table"
| "insert_contacts table (c # cs) =
     insert_contacts
       (if nc_id c \<noteq> kt_local_id table then snd (kademlia_insert table c None) else table) cs"

definition actual_boot :: "join_response \<Rightarrow> node_contact \<Rightarrow> node_contact" where
  "actual_boot response fallback =
     (let b = js_bootstrap_contact response;
          b = (if nc_id b = zero_node_id then b\<lparr>nc_id := js_bootstrap_id response\<rparr> else b);
          b = (if nc_endpoint b = [] \<and> nc_endpoint fallback \<noteq> []
               then b\<lparr>nc_endpoint := nc_endpoint fallback\<rparr> else b);
          b = (if nc_public_key b = zero_public_key \<and> nc_public_key fallback \<noteq> zero_public_key
               then b\<lparr>nc_public_key := nc_public_key fallback\<rparr> else b);
          b = (if nc_virtual_address b = zero_ipv6 \<and> nc_virtual_address fallback \<noteq> zero_ipv6
               then b\<lparr>nc_virtual_address := nc_virtual_address fallback\<rparr> else b)
      in b)"

definition handle_join_response ::
  "kademlia_table \<Rightarrow> join_response \<Rightarrow> node_contact \<Rightarrow> bool \<times> kademlia_table" where
  "handle_join_response table response fallback =
     (if \<not> js_accepted response then (False, table)
      else
        let boot = actual_boot response fallback;
            table = (if nc_id boot \<noteq> zero_node_id \<and> nc_id boot \<noteq> kt_local_id table
                     then snd (kademlia_insert table boot None) else table)
        in (True, insert_contacts table (js_peers response)))"

definition handle_find_node :: "kademlia_table \<Rightarrow> find_node_message \<Rightarrow> neighbors_message" where
  "handle_find_node table request =
     \<lparr>nm_peers = kademlia_find_closest table (fn_target request) KADEMLIA_K\<rparr>"

definition handle_neighbors :: "kademlia_table \<Rightarrow> neighbors_message \<Rightarrow> kademlia_table" where
  "handle_neighbors table message = insert_contacts table (nm_peers message)"

definition handle_node_announce ::
  "digest \<Rightarrow> kademlia_table \<Rightarrow> node_announce_message \<Rightarrow> bool \<times> kademlia_table \<times> node_announce_ack" where
  "handle_node_announce sha256 table announce =
     (let contact = an_contact announce in
      if identity_mismatch sha256 (nc_public_key contact) (nc_id contact)
      then (False, table, \<lparr>ack_accepted = False, ack_responder = kt_local_id table\<rparr>)
      else (True,
        (if nc_id contact \<noteq> kt_local_id table then snd (kademlia_insert table contact None) else table),
        \<lparr>ack_accepted = True, ack_responder = kt_local_id table\<rparr>))"

text \<open>
  \<open>out_reply\<close> is the pointer to the reply, absent when null; the result is the return value, the table
  and what the pointer refers to afterwards.
\<close>

definition dispatch_join_protocol_message ::
  "digest \<Rightarrow> kademlia_table \<Rightarrow> control_message \<Rightarrow> control_message option \<Rightarrow> node_contact option \<Rightarrow> bool \<Rightarrow>
     bool \<times> kademlia_table \<times> control_message option" where
  "dispatch_join_protocol_message sha256 table incoming out_reply local_contact join_admitted =
     (let refuse = (False, table, out_reply) in
      if out_reply = None then refuse
      else if cm_type incoming = CT_JOIN_REQUEST
      then (if \<not> join_admitted then refuse
            else case deserialize_join_request (cm_payload incoming) of
              Inl _ \<Rightarrow> refuse
            | Inr req \<Rightarrow>
                (case process_join_request sha256 table req empty_join_response local_contact of
                   (_, table', resp) \<Rightarrow>
                     (True, table', Some (control_message_create CT_JOIN_RESPONSE
                        (cm_sequence_number incoming) (kt_local_id table')
                        (serialize_join_response resp)))))
      else if cm_type incoming = CT_FIND_NODE
      then (case deserialize_find_node (cm_payload incoming) of
              Inl _ \<Rightarrow> refuse
            | Inr req \<Rightarrow>
                (True, table, Some (control_message_create CT_NEIGHBORS
                   (cm_sequence_number incoming) (kt_local_id table)
                   (serialize_neighbors (handle_find_node table req)))))
      else if cm_type incoming = CT_NODE_ANNOUNCE
      then (case deserialize_node_announce (cm_payload incoming) of
              Inl _ \<Rightarrow> refuse
            | Inr req \<Rightarrow>
                (case handle_node_announce sha256 table req of
                   (_, table', resp) \<Rightarrow>
                     (True, table', Some (control_message_create CT_NODE_ANNOUNCE_ACK
                        (cm_sequence_number incoming) (kt_local_id table')
                        (serialize_node_announce_ack resp)))))
      else refuse)"

section \<open>The self lookup\<close>

text \<open>
  \<open>query_fn\<close> asks a peer over the network: it acts on the outside world, and what it returns is up to
  the peer. \<open>queried\<close> is the set of ids already asked.
\<close>

type_synonym 'w query = "node_id \<Rightarrow> node_id \<Rightarrow> 'w \<Rightarrow> node_contact list \<times> 'w"

fun choose_queries :: "nat \<Rightarrow> node_id list \<Rightarrow> node_contact list \<Rightarrow> node_contact list \<Rightarrow> node_contact list"
  where
  "choose_queries alpha queried [] to_query = to_query"
| "choose_queries alpha queried (c # cs) to_query =
     (if nc_id c \<notin> set queried
      then (let to_query = to_query @ [c]
            in if alpha \<le> length to_query then to_query
               else choose_queries alpha queried cs to_query)
      else choose_queries alpha queried cs to_query)"

fun ask_peers ::
  "'w query \<Rightarrow> node_contact list \<Rightarrow> kademlia_table \<Rightarrow> node_id list \<Rightarrow> 'w \<Rightarrow>
     kademlia_table \<times> node_id list \<times> 'w" where
  "ask_peers query_fn [] table queried w = (table, queried, w)"
| "ask_peers query_fn (p # ps) table queried w =
     (case query_fn (nc_id p) (kt_local_id table) w of
        (returned_nodes, w') \<Rightarrow>
          ask_peers query_fn ps (insert_contacts table returned_nodes)
            (List.insert (nc_id p) queried) w')"

fun lookup_rounds ::
  "nat \<Rightarrow> 'w query \<Rightarrow> nat \<Rightarrow> kademlia_table \<Rightarrow> node_id list \<Rightarrow> 'w \<Rightarrow> kademlia_table \<times> node_id list \<times> 'w"
  where
  "lookup_rounds 0 query_fn alpha table queried w = (table, queried, w)"
| "lookup_rounds (Suc rounds) query_fn alpha table queried w =
     (let candidates = kademlia_find_closest table (kt_local_id table) KADEMLIA_K;
          to_query = choose_queries alpha queried candidates []
      in if to_query = [] then (table, queried, w)
         else case ask_peers query_fn to_query table queried w of
                (table', queried', w') \<Rightarrow> lookup_rounds rounds query_fn alpha table' queried' w')"

definition kademlia_self_lookup ::
  "kademlia_table \<Rightarrow> 'w query option \<Rightarrow> nat \<Rightarrow> 'w \<Rightarrow> kademlia_table \<times> 'w" where
  "kademlia_self_lookup table query_fn alpha w =
     (case query_fn of
        None \<Rightarrow> (table, w)
      | Some ask \<Rightarrow>
          if alpha = 0 then (table, w)
          else (case lookup_rounds 10 ask alpha table [] w of (table', _, w') \<Rightarrow> (table', w')))"

section \<open>Facts: what the table holds\<close>

lemma local_id_insert [simp]: "kt_local_id (snd (kademlia_insert t c ping)) = kt_local_id t"
  by (simp add: kademlia_insert_def set_bucket_def Let_def case_prod_unfold)

lemma local_id_insert_contacts [simp]: "kt_local_id (insert_contacts t cs) = kt_local_id t"
  by (induction t cs rule: insert_contacts.induct) auto

lemma kademlia_inv_insert_contacts:
  "kademlia_inv t \<Longrightarrow> list_all (\<lambda>c. is_node_id (nc_id c)) cs \<Longrightarrow> kademlia_inv (insert_contacts t cs)"
  by (induction t cs rule: insert_contacts.induct) (auto simp: kademlia_inv_insert)

text \<open>Where a contact of the table comes from after an insertion without a ping.\<close>

lemma insert_sources:
  assumes "kademlia_inv t" "is_node_id (nc_id c)" "d \<in> set (all_contacts (snd (kademlia_insert t c None)))"
  shows "d \<in> set (all_contacts t) \<or>
    (nc_id d = nc_id c \<and> nc_public_key d = nc_public_key c \<and>
     (nc_endpoint d = nc_endpoint c \<or> (\<exists>known\<in>set (all_contacts t). nc_endpoint d = nc_endpoint known)) \<and>
     nc_virtual_address d = nc_virtual_address c)"
proof -
  obtain ok t' where ins: "kademlia_insert t c None = (ok, t')" by force
  have inv': "kademlia_inv t'" using kademlia_inv_insert [OF assms(1,2), of None] ins by simp
  have found: "kademlia_find t' (nc_id d) = Some d"
    using assms(3) ins find_iff_contact [OF inv'] by simp
  have old: "known \<in> set (all_contacts t)" if "kademlia_find t n = Some known" for n known
    using that find_iff_contact [OF assms(1)] by blast
  note after = insert_lookup_step [OF assms(1,2) ins, of "nc_id d", THEN conjunct2]
  show ?thesis
  proof (cases "ok \<and> nc_id d = nc_id c")
    case True
    with after found have d: "d = (case kademlia_find t (nc_id c) of
        None \<Rightarrow> c | Some known \<Rightarrow> refresh_contact known c)"
      by simp
    show ?thesis
    proof (cases "kademlia_find t (nc_id c)")
      case None
      then show ?thesis using d by simp
    next
      case (Some known)
      have "nc_id known = nc_id c" "known \<in> set (all_contacts t)"
        using Some find_iff_contact [OF assms(1)] by blast+
      then show ?thesis using d Some by (auto simp: refresh_contact_def)
    qed
  next
    case False
    then have "kademlia_find t (nc_id d) = Some d"
      using after found by (metis option.distinct(1))
    then show ?thesis using old by blast
  qed
qed

definition known_table :: "kademlia_table \<Rightarrow> bool" where
  "known_table t \<longleftrightarrow> kademlia_inv t \<and> (\<forall>c\<in>set (all_contacts t). contact_ok c)"

lemma known_table_insert:
  assumes "known_table t" and "contact_ok c"
  shows "known_table (snd (kademlia_insert t c None))"
proof -
  have inv: "kademlia_inv t" and ok: "\<forall>d\<in>set (all_contacts t). contact_ok d"
    using assms(1) by (simp_all add: known_table_def)
  have c: "is_node_id (nc_id c)" using assms(2) by (simp add: contact_ok_def)
  have "contact_ok d" if "d \<in> set (all_contacts (snd (kademlia_insert t c None)))" for d
    using insert_sources [OF inv c that] ok assms(2) by (auto simp: contact_ok_def)
  then show ?thesis using kademlia_inv_insert [OF inv c] by (simp add: known_table_def)
qed

lemma find_closest_facts:
  assumes "known_table t"
  shows "length (kademlia_find_closest t x n) \<le> n"
    and "set (kademlia_find_closest t x n) \<subseteq> set (all_contacts t)"
    and "list_all contact_ok (kademlia_find_closest t x n)"
    and "distinct (map nc_id (kademlia_find_closest t x n))"
proof -
  have closest: "kademlia_find_closest t x n = take n (sort_key (distance_key x) (all_contacts t))"
    by (simp add: kademlia_find_closest_def Let_def)
  show "length (kademlia_find_closest t x n) \<le> n"
    by (simp add: closest)
  show sub: "set (kademlia_find_closest t x n) \<subseteq> set (all_contacts t)"
    by (auto simp: closest dest: in_set_takeD)
  show "list_all contact_ok (kademlia_find_closest t x n)"
    using sub assms by (auto simp: list_all_iff known_table_def)
  have "distinct (map nc_id (all_contacts t))"
    using assms distinct_all_contacts by (simp add: known_table_def)
  then have "distinct (map nc_id (sort_key (distance_key x) (all_contacts t)))"
    by (simp add: distinct_map)
  then show "distinct (map nc_id (kademlia_find_closest t x n))"
    by (simp add: closest take_map [symmetric] distinct_take)
qed

lemma closest_peers_ok: "known_table t \<Longrightarrow> peers_ok (kademlia_find_closest t x KADEMLIA_K)"
  using find_closest_facts(1,3) [of t x KADEMLIA_K] by (simp add: peers_ok_def KADEMLIA_K_def)

lemma local_or_bare_ok:
  "known_table t \<Longrightarrow> (\<forall>c. l = Some c \<longrightarrow> contact_ok c) \<Longrightarrow> contact_ok (local_or_bare l t)"
  by (auto simp: local_or_bare_def bare_contact_def empty_contact_def contact_ok_def known_table_def
      kademlia_inv_def split: option.split)

definition bound_identity :: "digest \<Rightarrow> node_contact \<Rightarrow> bool" where
  "bound_identity sha256 c \<longleftrightarrow> sha256 (nc_public_key c) = Some (nc_id c)"

lemma identity_mismatch_iff:
  "is_node_id nid \<Longrightarrow> identity_mismatch sha256 key nid \<longleftrightarrow> sha256 key \<noteq> Some nid"
  by (auto simp: identity_mismatch_def split: option.split)

lemma insert_bound:
  assumes "kademlia_inv t" "is_node_id (nc_id c)" "bound_identity sha256 c"
    "d \<in> set (all_contacts (snd (kademlia_insert t c None)))"
  shows "d \<in> set (all_contacts t) \<or> bound_identity sha256 d"
  using insert_sources [OF assms(1,2,4)] assms(3) by (auto simp: bound_identity_def)

lemma process_join_request_table:
  assumes "known_table t" "join_request_ok req"
    "process_join_request sha256 t req resp l = (acc, t', resp')"
  shows "known_table t' \<and> kt_local_id t' = kt_local_id t \<and>
    (\<forall>d\<in>set (all_contacts t'). d \<in> set (all_contacts t) \<or> bound_identity sha256 d) \<and>
    acc = (sha256 (jr_public_key req) = Some (jr_node_id req)) \<and> js_accepted resp' = acc \<and>
    js_bootstrap_contact resp' = local_or_bare l t \<and> js_bootstrap_id resp' = nc_id (local_or_bare l t) \<and>
    js_peers resp' = (if acc then kademlia_find_closest t' (jr_node_id req) KADEMLIA_K else [])"
proof -
  let ?c = "\<lparr>nc_id = jr_node_id req, nc_public_key = jr_public_key req,
    nc_virtual_address = jr_virtual_address req, nc_endpoint = jr_endpoint req,
    nc_last_seen_ms = jr_timestamp req, nc_rtt_ms = 0, nc_failed_pings = 0\<rparr>"
  have ok: "contact_ok ?c" "is_node_id (nc_id ?c)" and inv: "kademlia_inv t"
    using assms(1,2) by (simp_all add: join_request_ok_def contact_ok_def known_table_def)
  note mismatch = identity_mismatch_iff [OF ok(2), of sha256 "jr_public_key req"]
  have same: "local_or_bare l (snd (kademlia_insert t ?c None)) = local_or_bare l t"
    by (simp add: local_or_bare_def split: option.split)
  show ?thesis
  proof (cases "sha256 (jr_public_key req) = Some (jr_node_id req)")
    case True
    then have "t' = snd (kademlia_insert t ?c None)" "acc"
      "resp' = resp\<lparr>js_accepted := True, js_bootstrap_contact := local_or_bare l t,
        js_bootstrap_id := nc_id (local_or_bare l t),
        js_peers := kademlia_find_closest t' (jr_node_id req) KADEMLIA_K\<rparr>"
      using assms(3) mismatch same by (auto simp: process_join_request_def Let_def)
    moreover have "bound_identity sha256 ?c" using True by (simp add: bound_identity_def)
    ultimately show ?thesis
      using True known_table_insert [OF assms(1) ok(1)] insert_bound [OF inv ok(2)] by auto
  next
    case False
    then show ?thesis
      using assms(1,3) mismatch by (auto simp: process_join_request_def)
  qed
qed

lemma handle_node_announce_table:
  assumes "known_table t" "contact_ok (an_contact ann)"
    "handle_node_announce sha256 t ann = (acc, t', ack)"
  shows "known_table t' \<and> kt_local_id t' = kt_local_id t \<and>
    (\<forall>d\<in>set (all_contacts t'). d \<in> set (all_contacts t) \<or> bound_identity sha256 d) \<and>
    acc = bound_identity sha256 (an_contact ann) \<and>
    ack = \<lparr>ack_accepted = acc, ack_responder = kt_local_id t\<rparr>"
proof -
  have c: "is_node_id (nc_id (an_contact ann))" and inv: "kademlia_inv t"
    using assms(1,2) by (simp_all add: contact_ok_def known_table_def)
  show ?thesis
    using assms(1,3) identity_mismatch_iff [OF c, of sha256 "nc_public_key (an_contact ann)"]
      known_table_insert [OF assms(1,2)] insert_bound [OF inv c, of sha256]
    by (auto simp: handle_node_announce_def Let_def bound_identity_def split: if_splits)
qed

text \<open>What a dispatched message leads to, for each type.\<close>

lemma dispatch_cases:
  assumes "dispatch_join_protocol_message sha256 t m out l admitted = (True, t', reply)"
  obtains (join) req acc resp where "cm_type m = CT_JOIN_REQUEST" "admitted"
      "deserialize_join_request (cm_payload m) = Inr req"
      "process_join_request sha256 t req empty_join_response l = (acc, t', resp)"
      "reply = Some (control_message_create CT_JOIN_RESPONSE (cm_sequence_number m) (kt_local_id t')
        (serialize_join_response resp))"
  | (find_node) req where "cm_type m = CT_FIND_NODE" "t' = t"
      "deserialize_find_node (cm_payload m) = Inr req"
      "reply = Some (control_message_create CT_NEIGHBORS (cm_sequence_number m) (kt_local_id t)
        (serialize_neighbors (handle_find_node t req)))"
  | (announce) req acc ack where "cm_type m = CT_NODE_ANNOUNCE"
      "deserialize_node_announce (cm_payload m) = Inr req"
      "handle_node_announce sha256 t req = (acc, t', ack)"
      "reply = Some (control_message_create CT_NODE_ANNOUNCE_ACK (cm_sequence_number m) (kt_local_id t')
        (serialize_node_announce_ack ack))"
  using assms
  by (auto simp: dispatch_join_protocol_message_def Let_def split: if_splits sum.splits prod.splits)

lemma dispatch_refused:
  "dispatch_join_protocol_message sha256 t m out l admitted = (False, t', reply) \<Longrightarrow> t' = t \<and> reply = out"
  by (auto simp: dispatch_join_protocol_message_def Let_def split: if_splits sum.splits prod.splits)

lemma length_peers_encoding:
  assumes "list_all contact_ok cs"
  shows "length (encode_contacts cs) \<le> 350 * length cs"
  using assms by (induction cs) (auto simp: length_serialize_contact contact_ok_def)

lemma reply_ok:
  assumes "known_control_type ty" "is_node_id sender" "length payload \<le> 65536"
  shows "control_message_ok (control_message_create ty seq sender payload)"
  using assms by (simp add: control_message_ok_iff control_message_create_def)

lemma length_encode_counted: "peers_ok cs \<Longrightarrow> length (encode_counted cs) \<le> 7002"
  using length_peers_encoding [of cs] by (simp add: peers_ok_def encode_counted_def)

section \<open>Facts: the self lookup\<close>

lemma known_table_insert_contacts:
  "known_table t \<Longrightarrow> list_all contact_ok cs \<Longrightarrow> known_table (insert_contacts t cs)"
  by (induction t cs rule: insert_contacts.induct) (auto simp: known_table_insert)

text \<open>The contacts chosen are a prefix of those not yet queried.\<close>

lemma choose_queries_take:
  "length q < alpha \<Longrightarrow>
     choose_queries alpha queried cs q =
       q @ take (alpha - length q) (filter (\<lambda>c. nc_id c \<notin> set queried) cs)"
proof (induction cs arbitrary: q)
  case (Cons c cs)
  show ?case
  proof (cases "nc_id c \<in> set queried")
    case True
    then show ?thesis using Cons by simp
  next
    case False
    have "alpha - length q = Suc (alpha - Suc (length q))" using Cons.prems by simp
    then show ?thesis
      using False Cons.IH [of "q @ [c]"] by (auto simp: Let_def)
  qed
qed simp

lemma choose_queries_spec:
  assumes "distinct (map nc_id cs)" "0 < alpha"
  shows "distinct (map nc_id (choose_queries alpha queried cs []))"
    and "set (choose_queries alpha queried cs []) \<subseteq> set cs"
    and "length (choose_queries alpha queried cs []) \<le> alpha"
    and "\<forall>c\<in>set (choose_queries alpha queried cs []). nc_id c \<notin> set queried"
    and "choose_queries alpha queried cs [] = [] \<longleftrightarrow> (\<forall>c\<in>set cs. nc_id c \<in> set queried)"
proof -
  have eq: "choose_queries alpha queried cs [] =
      take alpha (filter (\<lambda>c. nc_id c \<notin> set queried) cs)"
    using choose_queries_take [of "[]" alpha queried cs] assms(2) by simp
  have "distinct (map nc_id (filter (\<lambda>c. nc_id c \<notin> set queried) cs))"
    by (rule distinct_map_filter [OF assms(1)])
  then show "distinct (map nc_id (choose_queries alpha queried cs []))"
    by (simp add: eq take_map [symmetric] distinct_take)
  show "set (choose_queries alpha queried cs []) \<subseteq> set cs"
    and "\<forall>c\<in>set (choose_queries alpha queried cs []). nc_id c \<notin> set queried"
    by (auto simp: eq dest: in_set_takeD)
  show "length (choose_queries alpha queried cs []) \<le> alpha"
    by (simp add: eq)
  show "choose_queries alpha queried cs [] = [] \<longleftrightarrow> (\<forall>c\<in>set cs. nc_id c \<in> set queried)"
    using assms(2) by (auto simp: eq filter_empty_conv)
qed

definition logged :: "(node_id list \<Rightarrow> node_id \<Rightarrow> node_contact list) \<Rightarrow> node_id list query" where
  "logged answers p target log = (answers log p, log @ [p])"

lemma ask_peers_logged:
  assumes "known_table t" "\<forall>l p. list_all contact_ok (answers l p)"
    "ask_peers (logged answers) ps t queried log = (t', queried', log')"
  shows "known_table t' \<and> kt_local_id t' = kt_local_id t \<and> log' = log @ map nc_id ps \<and>
    set queried' = set queried \<union> nc_id ` set ps"
  using assms
proof (induction ps arbitrary: t queried log)
  case (Cons p ps)
  then show ?case
    using Cons.IH [of "insert_contacts t (answers log (nc_id p))" "List.insert (nc_id p) queried"
        "log @ [nc_id p]"]
    by (auto simp: logged_def known_table_insert_contacts)
qed simp

lemma lookup_rounds_logged:
  assumes "known_table t" "\<forall>l p. list_all contact_ok (answers l p)" "0 < alpha"
    "set queried = set log" "distinct log" "kt_local_id t \<notin> set log"
    "lookup_rounds rounds (logged answers) alpha t queried log = (t', queried', log')"
  shows "known_table t' \<and> kt_local_id t' = kt_local_id t \<and> distinct log' \<and> kt_local_id t \<notin> set log' \<and>
    length log' \<le> length log + rounds * alpha \<and>
    (length log' < length log + rounds \<longrightarrow>
       (\<forall>c\<in>set (kademlia_find_closest t' (kt_local_id t) KADEMLIA_K). nc_id c \<in> set log'))"
  using assms
proof (induction rounds arbitrary: t queried log)
  case (Suc rounds)
  let ?near = "kademlia_find_closest t (kt_local_id t) KADEMLIA_K"
  let ?ask = "choose_queries alpha queried ?near []"
  note near = find_closest_facts [OF Suc.prems(1), of "kt_local_id t" KADEMLIA_K]
  have ask: "distinct (map nc_id ?ask)" "set ?ask \<subseteq> set ?near" "length ?ask \<le> alpha"
    "\<forall>c\<in>set ?ask. nc_id c \<notin> set queried"
    "?ask = [] \<longleftrightarrow> (\<forall>c\<in>set ?near. nc_id c \<in> set queried)"
    by (rule choose_queries_spec [OF near(4) Suc.prems(3)])+
  show ?case
  proof (cases "?ask = []")
    case True
    then show ?thesis using Suc.prems ask(5) by auto
  next
    case False
    obtain t1 q1 log1 where step: "ask_peers (logged answers) ?ask t queried log = (t1, q1, log1)"
      by (metis prod_cases3)
    note asked = ask_peers_logged [OF Suc.prems(1,2) step]
    have "nc_id c \<noteq> kt_local_id t" if "c \<in> set ?ask" for c
      using that ask(2) near(2) local_not_contact [of t c] Suc.prems(1) by (auto simp: known_table_def)
    then have log1: "distinct log1" "kt_local_id t1 \<notin> set log1" "set q1 = set log1"
      using asked ask(1,4) Suc.prems(4,5,6) by auto
    have rest: "lookup_rounds rounds (logged answers) alpha t1 q1 log1 = (t', queried', log')"
      using Suc.prems(7) False step by (simp add: Let_def)
    have "1 \<le> length ?ask" using False by (cases ?ask) auto
    with Suc.IH [OF _ Suc.prems(2,3) log1(3,1,2) rest] asked ask(3) show ?thesis
      by auto
  qed
qed simp

section \<open>Properties\<close>

text \<open>
  C23. Identities are bound to keys: whatever control message a peer sends to the join protocol, every
  contact that it adds to the table or changes there has the SHA-256 digest of its public key as its
  id. The table stays well formed, the local id is untouched, and a refused message changes nothing.
\<close>

theorem dispatch_binds_identities:
  assumes "known_table t"
    and "dispatch_join_protocol_message sha256 t m out local admitted = (handled, t', reply)"
  shows "known_table t' \<and> kt_local_id t' = kt_local_id t \<and>
    (\<forall>d\<in>set (all_contacts t'). d \<in> set (all_contacts t) \<or> sha256 (nc_public_key d) = Some (nc_id d)) \<and>
    (\<not> handled \<longrightarrow> t' = t \<and> reply = out)"
proof (cases handled)
  case False
  then show ?thesis using dispatch_refused assms by metis
next
  case True
  with assms(2) have "dispatch_join_protocol_message sha256 t m out local admitted = (True, t', reply)"
    by simp
  then show ?thesis
  proof (cases rule: dispatch_cases)
    case (join req acc resp)
    then have "join_request_ok req" by (blast dest: join_request_format.dec_ok)
    from process_join_request_table [OF assms(1) this join(4)] True show ?thesis
      by (auto simp: bound_identity_def)
  next
    case (find_node req)
    then show ?thesis using assms(1) True by simp
  next
    case (announce req acc ack)
    then have "contact_ok (an_contact req)" by (blast dest: announce_format.dec_ok)
    from handle_node_announce_table [OF assms(1) this announce(3)] True show ?thesis
      by (auto simp: bound_identity_def)
  qed
qed

text \<open>
  Every reply is readable: the reply to a handled message is a valid control message from the local
  node with the request's sequence number, and its payload deserialises to the answer. A join request
  gets an accepted response, with the closest contacts the table now holds, exactly when its id is the
  digest of its key, and a refusal without contacts otherwise.
\<close>

theorem dispatch_replies_readable:
  assumes "known_table t" and "contact_ok local"
    and "dispatch_join_protocol_message sha256 t m out (Some local) admitted = (True, t', reply)"
  shows "\<exists>r. reply = Some r \<and> control_message_ok r \<and> cm_sender r = kt_local_id t \<and>
    cm_sequence_number r = cm_sequence_number m \<and>
    (cm_type m = CT_JOIN_REQUEST \<and> admitted \<and> cm_type r = CT_JOIN_RESPONSE \<and>
       (\<exists>req resp. deserialize_join_request (cm_payload m) = Inr req \<and>
          deserialize_join_response (cm_payload r) = Inr resp \<and>
          js_bootstrap_contact resp = local \<and>
          js_accepted resp = (sha256 (jr_public_key req) = Some (jr_node_id req)) \<and>
          js_peers resp = (if js_accepted resp
            then kademlia_find_closest t' (jr_node_id req) KADEMLIA_K else [])) \<or>
     cm_type m = CT_FIND_NODE \<and> cm_type r = CT_NEIGHBORS \<and> t' = t \<and>
       (\<exists>req. deserialize_find_node (cm_payload m) = Inr req \<and>
          deserialize_neighbors (cm_payload r) =
            Inr \<lparr>nm_peers = kademlia_find_closest t (fn_target req) KADEMLIA_K\<rparr>) \<or>
     cm_type m = CT_NODE_ANNOUNCE \<and> cm_type r = CT_NODE_ANNOUNCE_ACK \<and>
       (\<exists>req. deserialize_node_announce (cm_payload m) = Inr req \<and>
          deserialize_node_announce_ack (cm_payload r) =
            Inr \<lparr>ack_accepted = (sha256 (nc_public_key (an_contact req)) = Some (nc_id (an_contact req))),
                 ack_responder = kt_local_id t\<rparr>))"
  using assms(3)
proof (cases rule: dispatch_cases)
  have id: "is_node_id (kt_local_id t)" using assms(1) by (simp add: known_table_def kademlia_inv_def)
  {
    case (join req acc resp)
    then have "join_request_ok req" by (blast dest: join_request_format.dec_ok)
    note result = process_join_request_table [OF assms(1) this join(4)]
    have peers: "peers_ok (js_peers resp)"
      using result closest_peers_ok [of t'] by (auto simp: peers_ok_def)
    have ok: "join_response_ok resp"
      using result peers assms(2) by (simp add: join_response_ok_def local_or_bare_def)
    have "length (serialize_join_response resp) \<le> 65536"
      using serialize_join_response_ok [of resp] boot_contact_ok [OF ok] peers result assms(2)
        length_serialize_contact [OF assms(2)] length_encode_counted [OF peers]
      by (simp add: local_or_bare_def contact_ok_def)
    then have "control_message_ok (control_message_create CT_JOIN_RESPONSE (cm_sequence_number m)
        (kt_local_id t') (serialize_join_response resp))"
      using id result by (intro reply_ok) (simp_all add: known_control_type_def)
    then show ?thesis
      using join result join_response_format.dec_enc [OF ok]
      by (auto simp: control_message_create_def local_or_bare_def)
  next
    case (find_node req)
    have peers: "peers_ok (nm_peers (handle_find_node t req))"
      using closest_peers_ok [OF assms(1)] by (simp add: handle_find_node_def)
    have "control_message_ok (control_message_create CT_NEIGHBORS (cm_sequence_number m)
        (kt_local_id t) (serialize_neighbors (handle_find_node t req)))"
      using id length_encode_counted [OF peers]
      by (intro reply_ok) (simp_all add: known_control_type_def serialize_neighbors_ok [OF peers])
    then show ?thesis
      using find_node neighbors_format.dec_enc [OF peers]
      by (auto simp: control_message_create_def handle_find_node_def)
  next
    case (announce req acc ack)
    then have "contact_ok (an_contact req)" by (blast dest: announce_format.dec_ok)
    note result = handle_node_announce_table [OF assms(1) this announce(3)]
    have "control_message_ok (control_message_create CT_NODE_ANNOUNCE_ACK (cm_sequence_number m)
        (kt_local_id t') (serialize_node_announce_ack ack))"
      using id result
      by (intro reply_ok) (simp_all add: known_control_type_def serialize_node_announce_ack_def)
    then show ?thesis
      using announce result ack_format.dec_enc [of ack] id
      by (auto simp: control_message_create_def bound_identity_def)
  }
qed

text \<open>
  C39. The self lookup ends and is bounded: whatever the peers answer, it asks at most
  \<open>10 * alpha\<close> peers, none of them twice, never the local node, and keeps the table well formed; and if it asked
  fewer than ten, then it has asked every one of the contacts it now knows to be closest.
\<close>

theorem self_lookup_bounded:
  assumes "known_table t" and "\<forall>asked p. list_all contact_ok (answers asked p)"
    and "kademlia_self_lookup t (Some (logged answers)) alpha [] = (t', asked)"
  shows "known_table t' \<and> distinct asked \<and> kt_local_id t \<notin> set asked \<and> length asked \<le> 10 * alpha \<and>
    (0 < alpha \<and> length asked < 10 \<longrightarrow>
       (\<forall>c\<in>set (kademlia_find_closest t' (kt_local_id t) KADEMLIA_K). nc_id c \<in> set asked))"
proof (cases "alpha = 0")
  case True
  then show ?thesis using assms by (auto simp: kademlia_self_lookup_def)
next
  case False
  obtain q where rounds: "lookup_rounds 10 (logged answers) alpha t [] [] = (t', q, asked)"
    using assms(3) False by (auto simp: kademlia_self_lookup_def split: prod.splits)
  from False have "0 < alpha" by simp
  from lookup_rounds_logged [OF assms(1,2) this _ _ _ rounds] show ?thesis by simp
qed

text \<open>A response at the limits of its own format.\<close>

definition full_response :: join_response where
  "full_response =
     (let c = (sample_contact 1)\<lparr>nc_endpoint := replicate 255 CHR ''x''\<rparr>
      in \<lparr>js_accepted = True, js_bootstrap_contact = c, js_bootstrap_id = nc_id c,
          js_peers = replicate 20 c\<rparr>)"

text \<open>
  The limits of the layers do not agree: a join response within all limits of its own format (20
  contacts, endpoints of at most 255 bytes) can be a valid control message that no frame can carry, so
  that the answer to a join request cannot be encoded.
\<close>

theorem full_response_fits_no_frame:
  "join_response_ok full_response \<and>
   (let m = control_message_create CT_JOIN_RESPONSE 1 (replicate 32 7) (serialize_join_response full_response)
    in control_message_ok m \<and>
       message_encode \<lparr>m_version = PROTOCOL_VERSION, m_type = MT_Control,
         m_payload = serialize_control_message m\<rparr> \<noteq> Inr bytes)"
proof -
  let ?c = "(sample_contact 1)\<lparr>nc_endpoint := replicate 255 CHR ''x''\<rparr>"
  let ?m = "control_message_create CT_JOIN_RESPONSE 1 (replicate 32 7) (serialize_join_response full_response)"
  have c: "contact_ok ?c" by (simp add: contact_ok_def sample_contact_def)
  then have peers: "peers_ok (replicate 20 ?c)" by (simp add: peers_ok_def list_all_length)
  have ok: "join_response_ok full_response"
    using c peers by (simp add: join_response_ok_def full_response_def Let_def)
  have "length (concat (map serialize_node_contact (replicate n ?c))) = n * 350" for n
    using length_serialize_contact [OF c] by (induction n) simp_all
  then have "length (encode_counted (replicate 20 ?c)) = 7002"
    by (simp add: encode_counted_def)
  then have len: "length (serialize_join_response full_response) = 7353"
    using serialize_join_response_ok [of full_response] boot_contact_ok [OF ok] c peers
      length_serialize_contact [OF c]
    by (simp add: full_response_def Let_def)
  then have "control_message_ok ?m"
    by (intro reply_ok) (simp_all add: known_control_type_def)
  moreover have "length (serialize_control_message ?m) = 7398"
    by (simp add: serialize_control_message_def control_message_create_def len)
  ultimately show ?thesis
    using ok by (simp add: message_encode_frame message_ok_def frame_sizes Let_def)
qed

section \<open>Witnesses\<close>

lemma known_sample: "known_table sample_kademlia" "known_table filled_kademlia"
proof -
  show "known_table sample_kademlia"
    by (simp add: known_table_def sample_kademlia_inv sample_kademlia_empty)
  then show "known_table filled_kademlia"
    unfolding filled_kademlia_def by (rule known_table_insert) (rule sample_contact_ok)
qed

definition sample_lookup_request :: control_message where
  "sample_lookup_request = control_message_create CT_FIND_NODE 3 (replicate 32 7) (replicate 32 9)"

theorem dispatch_binds_identities_witness:
  "list_all (\<lambda>d. nc_id d = replicate 32 5) (all_contacts (fst (snd (dispatch_join_protocol_message
      (\<lambda>_. Some (replicate 32 5)) sample_kademlia (control_message_create CT_NODE_ANNOUNCE 1 (replicate 32 5)
        (serialize_node_announce \<lparr>an_contact = sample_contact 5, an_nonce = 4\<rparr>))
      (Some empty_control_message) None False))))"
proof -
  obtain h t' r where run: "dispatch_join_protocol_message (\<lambda>_. Some (replicate 32 5))
      sample_kademlia (control_message_create CT_NODE_ANNOUNCE 1 (replicate 32 5)
        (serialize_node_announce \<lparr>an_contact = sample_contact 5, an_nonce = 4\<rparr>))
      (Some empty_control_message) None False = (h, t', r)"
    by (metis prod_cases3)
  from dispatch_binds_identities [OF known_sample(1) run] run show ?thesis
    by (auto simp: sample_kademlia_empty list_all_iff)
qed

theorem dispatch_replies_readable_witness:
  "\<exists>r. snd (snd (dispatch_join_protocol_message (\<lambda>_. None) sample_kademlia sample_lookup_request
      (Some empty_control_message) (Some (sample_contact 1)) False)) = Some r \<and>
     control_message_ok r \<and> cm_type r = CT_NEIGHBORS"
proof -
  have type: "cm_type sample_lookup_request = CT_FIND_NODE" "cm_payload sample_lookup_request = replicate 32 9"
    by (simp_all add: sample_lookup_request_def control_message_create_def)
  then obtain r where run: "dispatch_join_protocol_message (\<lambda>_. None) sample_kademlia sample_lookup_request
      (Some empty_control_message) (Some (sample_contact 1)) False = (True, sample_kademlia, Some r)"
    by (simp add: dispatch_join_protocol_message_def deserialize_find_node_cases Let_def control_type_defs)
  from dispatch_replies_readable [OF known_sample(1) sample_contact_ok run] run type show ?thesis
    by (auto simp: control_type_defs)
qed

theorem self_lookup_bounded_witness:
  "length (snd (kademlia_self_lookup filled_kademlia
     (Some (logged (\<lambda>asked p. [sample_contact 6]))) 3 [])) \<le> 30"
proof -
  obtain t' asked where run: "kademlia_self_lookup filled_kademlia
      (Some (logged (\<lambda>asked p. [sample_contact 6]))) 3 [] = (t', asked)"
    by force
  have "\<forall>asked p. list_all contact_ok ((\<lambda>asked p. [sample_contact 6]) (asked :: node_id list) (p :: node_id))"
    by (simp add: sample_contact_ok)
  from self_lookup_bounded [OF known_sample(2) this run] run show ?thesis by simp
qed

end
