(* ===== verification/Config.thy ===== *)
theory Config
  imports Routing Wire
begin

text \<open>
  Configuration and textual addresses: \<open>src/core/config.cpp\<close>. The conversions of the operating system
  (\<open>inet_pton\<close>) and the resolution of file names (\<open>std::filesystem\<close>) are parameters. Shown: endpoints and
  node ids round-trip through their text, a port list parses to a sorted set without port 0 on which the
  binary search decides membership, and an accepted configuration file yields values within the limits
  that the rest of the program relies on.
\<close>

section \<open>Strings\<close>

definition is_blank :: "char \<Rightarrow> bool" where
  "is_blank c \<longleftrightarrow> c = CHR '' '' \<or> c = CHR 0x09 \<or> c = CHR 0x0D \<or> c = CHR 0x0A"

definition trim :: "string \<Rightarrow> string" where
  "trim value = rev (dropWhile is_blank (rev (dropWhile is_blank value)))"

text \<open>\<open>find\<close>, \<open>rfind\<close> and \<open>c_str\<close> of \<open>std::string\<close>; \<open>npos\<close> is \<open>None\<close>.\<close>

definition find_char :: "char \<Rightarrow> string \<Rightarrow> nat option" where
  "find_char c s =
     (let n = length (takeWhile (\<lambda>x. x \<noteq> c) s) in if n = length s then None else Some n)"

definition rfind_char :: "char \<Rightarrow> string \<Rightarrow> nat option" where
  "rfind_char c s = map_option (\<lambda>i. length s - 1 - i) (find_char c (rev s))"

definition c_str :: "string \<Rightarrow> string" where
  "c_str s = takeWhile (\<lambda>x. x \<noteq> CHR 0x00) s"

definition is_digit :: "char \<Rightarrow> bool" where
  "is_digit c \<longleftrightarrow> 48 \<le> (of_char c :: nat) \<and> (of_char c :: nat) \<le> 57"

definition digits_value :: "string \<Rightarrow> nat" where
  "digits_value ds = foldl (\<lambda>n c. 10 * n + (of_char c - 48)) 0 ds"

text \<open>
  \<open>std::from_chars\<close> for an \<open>unsigned int\<close> of 32 bits: the number and the rest of the text; an error when
  there is no digit or the number does not fit.
\<close>

definition from_chars :: "string \<Rightarrow> (nat \<times> string) option" where
  "from_chars s =
     (let ds = takeWhile is_digit s in
      if ds = [] \<or> 2 ^ 32 \<le> digits_value ds then None
      else Some (digits_value ds, dropWhile is_digit s))"

definition parse_port :: "string \<Rightarrow> u16 option" where
  "parse_port value =
     (case from_chars value of
        None \<Rightarrow> None
      | Some (parsed, rest) \<Rightarrow> if rest \<noteq> [] \<or> 65535 < parsed then None else Some (of_nat parsed))"

section \<open>Endpoints\<close>

text \<open>
  The two results written through \<open>address\<close> and \<open>port\<close>, or \<open>None\<close> for \<open>false\<close>. \<open>pton4\<close> and \<open>pton6\<close> tell
  what \<open>inet_pton\<close> makes of a text.
\<close>

definition parse_endpoint ::
  "(string \<Rightarrow> byte list option) \<Rightarrow> (string \<Rightarrow> ipv6 option) \<Rightarrow> string \<Rightarrow> (string \<times> u16) option" where
  "parse_endpoint pton4 pton6 value =
     (if value = [] then None
      else if hd value = CHR ''[''
      then (case find_char (CHR '']'') value of
              None \<Rightarrow> None
            | Some close_bracket \<Rightarrow>
                if close_bracket \<le> 1 then None
                else if length value \<le> close_bracket + 1 \<or> value ! (close_bracket + 1) \<noteq> CHR '':''
                then None
                else
                  let parsed_address = take (close_bracket - 1) (drop 1 value) in
                  if pton6 (c_str parsed_address) = None then None
                  else map_option (\<lambda>port. (parsed_address, port))
                         (parse_port (drop (close_bracket + 2) value)))
      else (case rfind_char (CHR '':'') value of
              None \<Rightarrow> None
            | Some last_colon \<Rightarrow>
                if last_colon = 0 then None
                else
                  let parsed_address = take last_colon value in
                  if pton4 (c_str parsed_address) = None then None
                  else map_option (\<lambda>port. (parsed_address, port))
                         (parse_port (drop (last_colon + 1) value))))"

definition format_endpoint :: "string \<Rightarrow> u16 \<Rightarrow> string" where
  "format_endpoint address port =
     (if find_char (CHR '':'') address = None then address @ '':'' @ to_string (unat port)
      else ''['' @ address @ '']:'' @ to_string (unat port))"

section \<open>Shared ports\<close>

text \<open>
  One round per comma: \<open>s\<close> is the part of the text from \<open>start\<close> on. \<open>None\<close> is the result \<open>false\<close>.
\<close>

definition parse_port_token :: "string \<Rightarrow> u16 list option" where
  "parse_port_token token =
     (if token = [] then None
      else case find_char (CHR ''-'') token of
        Some dash \<Rightarrow>
          if dash = 0 \<or> dash = length token - 1 then None
          else
            (case (parse_port (take dash token), parse_port (drop (dash + 1) token)) of
               (Some low, Some high) \<Rightarrow>
                 if low = 0 \<or> high = 0 \<or> high < low then None
                 else Some (map of_nat [unat low..<unat high + 1])
             | _ \<Rightarrow> None)
      | None \<Rightarrow>
          (case parse_port token of
             None \<Rightarrow> None
           | Some port \<Rightarrow> if port = 0 then None else Some [port]))"

function parse_port_tokens :: "string \<Rightarrow> u16 list \<Rightarrow> u16 list option" where
  "parse_port_tokens s parsed_ports =
     (case find_char (CHR '','') s of
        None \<Rightarrow> map_option (\<lambda>ps. parsed_ports @ ps) (parse_port_token (trim s))
      | Some sep \<Rightarrow>
          (case parse_port_token (trim (take sep s)) of
             None \<Rightarrow> None
           | Some ps \<Rightarrow> parse_port_tokens (drop (sep + 1) s) (parsed_ports @ ps)))"
  by pat_completeness auto

termination parse_port_tokens
  by (relation "measure (length \<circ> fst)") (auto simp: find_char_def Let_def split: if_splits
      intro: diff_less dest!: takeWhile_eq_all_conv [THEN iffD2] simp: not_le)

declare parse_port_tokens.simps [simp del]

text \<open>\<open>out_ports\<close> and \<open>out_share_all\<close>, or \<open>None\<close> for \<open>false\<close>.\<close>

definition parse_port_list :: "string \<Rightarrow> (u16 list \<times> bool) option" where
  "parse_port_list value =
     (let trimmed = trim value in
      if trimmed = [] then None
      else if trimmed = ''all'' \<or> trimmed = ''*'' then Some ([], True)
      else if trimmed = ''none'' then Some ([], False)
      else case parse_port_tokens trimmed [] of
        None \<Rightarrow> None
      | Some parsed_ports \<Rightarrow>
          if parsed_ports = [] then None
          else Some (remdups_adj (sort parsed_ports), False))"

record config =
  cfg_network :: ipv6
  cfg_identity_file :: string
  cfg_interface_name :: string
  cfg_mtu :: nat
  cfg_wintun_dll :: string
  cfg_listen_address :: string
  cfg_listen_port :: u16
  cfg_shared_ports :: "u16 list"
  cfg_share_all_ports :: bool

text \<open>\<open>std::binary_search\<close>: \<open>std::lower_bound\<close> by halving the range, then one comparison.\<close>

function lower_bound :: "'a :: linorder list \<Rightarrow> 'a \<Rightarrow> nat \<Rightarrow> nat \<Rightarrow> nat" where
  "lower_bound xs v first count =
     (if count = 0 then first
      else
        let half = count div 2 in
        if xs ! (first + half) < v then lower_bound xs v (first + half + 1) (count - half - 1)
        else lower_bound xs v first half)"
  by pat_completeness auto

termination lower_bound
  by (relation "measure (\<lambda>(xs, v, first, count). count)") auto

declare lower_bound.simps [simp del]

definition binary_search :: "'a :: linorder list \<Rightarrow> 'a \<Rightarrow> bool" where
  "binary_search xs v =
     (let i = lower_bound xs v 0 (length xs) in i < length xs \<and> \<not> v < xs ! i)"

definition is_port_shared :: "config \<Rightarrow> u16 \<Rightarrow> bool" where
  "is_port_shared config port =
     (if cfg_share_all_ports config then True else binary_search (cfg_shared_ports config) port)"

section \<open>Identifiers and addresses\<close>

definition hex_digit :: "nat \<Rightarrow> char" where
  "hex_digit n = ''0123456789abcdef'' ! n"

definition hex :: "byte list \<Rightarrow> string" where
  "hex bytes =
     concat (map (\<lambda>b. [hex_digit (unat (drop_bit 4 b)), hex_digit (unat (b AND 15))]) bytes)"

definition hex_value :: "char \<Rightarrow> nat" where
  "hex_value c =
     (if is_digit c then of_char c - 48 else of_char c - 87)"

definition is_hex_digit :: "char \<Rightarrow> bool" where
  "is_hex_digit c \<longleftrightarrow> c \<in> set ''0123456789abcdef''"

fun hex_bytes :: "string \<Rightarrow> byte list" where
  "hex_bytes (a # b # s) = of_nat (16 * hex_value a + hex_value b) # hex_bytes s"
| "hex_bytes _ = []"

text \<open>\<open>None\<close> is the exception on a malformed id.\<close>

definition parse_node_id :: "string \<Rightarrow> node_id option" where
  "parse_node_id value =
     (if length value \<noteq> 64 \<or> \<not> list_all is_hex_digit value then None else Some (hex_bytes value))"

definition format_group :: "byte \<Rightarrow> byte \<Rightarrow> string" where
  "format_group hi lo =
     (let n = unat hi * 256 + unat lo in
      [hex_digit (n div 4096), hex_digit (n div 256 mod 16), hex_digit (n div 16 mod 16),
       hex_digit (n mod 16)])"

fun format_ipv6 :: "ipv6 \<Rightarrow> string" where
  "format_ipv6 [a, b] = format_group a b"
| "format_ipv6 (a # b # rest) = format_group a b @ '':'' @ format_ipv6 rest"
| "format_ipv6 _ = []"

text \<open>\<open>True\<close> where the code returns, \<open>False\<close> where it throws.\<close>

definition validate_identity_address :: "node_id \<Rightarrow> bool" where
  "validate_identity_address local \<longleftrightarrow> \<not> list_all (\<lambda>b. b = 0) (take 8 local)"

section \<open>The configuration file\<close>

record load_state =
  ld_config :: config
  ld_network :: bool
  ld_identity :: bool
  ld_interface :: bool
  ld_mtu :: bool
  ld_wintun_dll :: bool
  ld_listen :: bool
  ld_shared_ports :: bool

definition default_config :: config where
  "default_config =
     \<lparr>cfg_network = zero_ipv6, cfg_identity_file = [], cfg_interface_name = ''madoka0'', cfg_mtu = 1280,
      cfg_wintun_dll = [], cfg_listen_address = ''::1'', cfg_listen_port = 0, cfg_shared_ports = [],
      cfg_share_all_ports = True\<rparr>"

definition start_load :: load_state where
  "start_load =
     \<lparr>ld_config = default_config, ld_network = False, ld_identity = False, ld_interface = False,
      ld_mtu = False, ld_wintun_dll = False, ld_listen = False, ld_shared_ports = False\<rparr>"

definition starts_with :: "string \<Rightarrow> string \<Rightarrow> bool" where
  "starts_with s prefix \<longleftrightarrow> take (length prefix) s = prefix"

definition ends_with :: "string \<Rightarrow> string \<Rightarrow> bool" where
  "ends_with s suffix \<longleftrightarrow> length suffix \<le> length s \<and> drop (length s - length suffix) s = suffix"

definition is_interface_char :: "char \<Rightarrow> bool" where
  "is_interface_char c \<longleftrightarrow>
     c \<in> set ''abcdefghijklmnopqrstuvwxyzABCDEFGHIJKLMNOPQRSTUVWXYZ0123456789_''"

definition parse_mtu :: "string \<Rightarrow> nat option" where
  "parse_mtu value =
     (case from_chars value of
        None \<Rightarrow> None
      | Some (v, rest) \<Rightarrow> if rest \<noteq> [] \<or> v < 1280 \<or> 65535 < v then None else Some v)"

text \<open>
  One \<open>key=value\<close> pair. \<open>resolve\<close> gives the normalised path of a file named in the configuration.
  The left result is the exception.
\<close>

definition config_field ::
  "(string \<Rightarrow> byte list option) \<Rightarrow> (string \<Rightarrow> ipv6 option) \<Rightarrow> (string \<Rightarrow> string) \<Rightarrow> load_state \<Rightarrow>
     string \<Rightarrow> string \<Rightarrow> string + load_state" where
  "config_field pton4 pton6 resolve s name value =
     (let config = ld_config s in
      if name = ''network'' \<and> \<not> ld_network s
      then (if \<not> ends_with value ''/64'' then Inl ''network must specify /64''
            else case pton6 (c_str (take (length value - 3) value)) of
              Some network \<Rightarrow>
                if network ! 0 \<noteq> 0xfd \<or> \<not> list_all (\<lambda>b. b = 0) (drop 8 network)
                then Inl ''network must be a locally assigned ULA /64 with zero host bits''
                else Inr (s\<lparr>ld_config := config\<lparr>cfg_network := network\<rparr>, ld_network := True\<rparr>)
            | None \<Rightarrow> Inl ''network must be a locally assigned ULA /64 with zero host bits'')
      else if name = ''identity'' \<and> \<not> ld_identity s
      then Inr (s\<lparr>ld_config := config\<lparr>cfg_identity_file := resolve value\<rparr>, ld_identity := True\<rparr>)
      else if name = ''interface'' \<and> \<not> ld_interface s
      then (if value = [] \<or> 15 < length value \<or> \<not> list_all is_interface_char value
            then Inl ''Invalid interface name; must be 1-15 alphanumeric or underscore characters''
            else Inr (s\<lparr>ld_config := config\<lparr>cfg_interface_name := value\<rparr>, ld_interface := True\<rparr>))
      else if name = ''mtu'' \<and> \<not> ld_mtu s
      then (case parse_mtu value of
              None \<Rightarrow> Inl ''Invalid MTU; must be an integer between 1280 and 65535''
            | Some v \<Rightarrow> Inr (s\<lparr>ld_config := config\<lparr>cfg_mtu := v\<rparr>, ld_mtu := True\<rparr>))
      else if name = ''wintun_dll'' \<and> \<not> ld_wintun_dll s
      then Inr (s\<lparr>ld_config := config\<lparr>cfg_wintun_dll := resolve value\<rparr>, ld_wintun_dll := True\<rparr>)
      else if name = ''listen'' \<and> \<not> ld_listen s
      then (case parse_endpoint pton4 pton6 value of
              None \<Rightarrow> Inl ''Invalid listen endpoint; expected [IPv6]:port or IPv4:port''
            | Some (address, port) \<Rightarrow>
                Inr (s\<lparr>ld_config := config\<lparr>cfg_listen_address := address, cfg_listen_port := port\<rparr>,
                       ld_listen := True\<rparr>))
      else if name = ''shared_ports'' \<and> \<not> ld_shared_ports s
      then (case parse_port_list value of
              None \<Rightarrow> Inl (''Invalid shared_ports configuration: '' @ value)
            | Some (ports, all) \<Rightarrow>
                Inr (s\<lparr>ld_config := config\<lparr>cfg_shared_ports := ports, cfg_share_all_ports := all\<rparr>,
                       ld_shared_ports := True\<rparr>))
      else Inl (''Unknown or duplicate configuration field: '' @ name))"

definition config_line ::
  "(string \<Rightarrow> byte list option) \<Rightarrow> (string \<Rightarrow> ipv6 option) \<Rightarrow> (string \<Rightarrow> string) \<Rightarrow> load_state \<Rightarrow>
     string \<Rightarrow> string + load_state" where
  "config_line pton4 pton6 resolve s raw =
     (let line = trim raw in
      if line = [] \<or> hd line = CHR ''#'' then Inr s
      else case find_char (CHR ''='') line of
        None \<Rightarrow> Inl ''Expected key=value in configuration''
      | Some separator \<Rightarrow>
          let name = trim (take separator line);
              value = trim (drop (separator + 1) line)
          in if value = [] then Inl ''Configuration values cannot be empty''
             else config_field pton4 pton6 resolve s name value)"

function config_lines ::
  "(string \<Rightarrow> byte list option) \<Rightarrow> (string \<Rightarrow> ipv6 option) \<Rightarrow> (string \<Rightarrow> string) \<Rightarrow> load_state \<Rightarrow>
     string \<Rightarrow> string + load_state" where
  "config_lines pton4 pton6 resolve s text =
     (if text = [] then Inr s
      else case find_char (CHR 0x0A) text of
        None \<Rightarrow> config_line pton4 pton6 resolve s text
      | Some i \<Rightarrow>
          (case config_line pton4 pton6 resolve s (take i text) of
             Inl e \<Rightarrow> Inl e
           | Inr s' \<Rightarrow> config_lines pton4 pton6 resolve s' (drop (i + 1) text)))"
  by pat_completeness auto

termination config_lines
  by (relation "measure (\<lambda>(_, _, _, _, text). length text)") auto

declare config_lines.simps [simp del]

text \<open>
  \<open>file\<close> is the content of the file, absent when it cannot be opened; \<open>is_config\<close> tells whether a path
  denotes the configuration file itself. A failing read is not modelled.
\<close>

definition load_config ::
  "(string \<Rightarrow> byte list option) \<Rightarrow> (string \<Rightarrow> ipv6 option) \<Rightarrow> (string \<Rightarrow> string) \<Rightarrow> (string \<Rightarrow> bool) \<Rightarrow>
     string option \<Rightarrow> string + config" where
  "load_config pton4 pton6 resolve is_config file =
     (case file of
        None \<Rightarrow> Inl ''Cannot open configuration file''
      | Some bytes \<Rightarrow>
          let contents = take 65537 bytes in
          if 65536 < length contents \<or> CHR 0x00 \<in> set contents
          then Inl ''Invalid configuration file or size exceeds 64 KiB''
          else case config_lines pton4 pton6 resolve start_load contents of
            Inl e \<Rightarrow> Inl e
          | Inr s \<Rightarrow>
              if \<not> ld_network s then Inl ''Configuration requires network''
              else
                let config = (if ld_identity s then ld_config s
                              else (ld_config s)\<lparr>cfg_identity_file := resolve ''identity.pem''\<rparr>)
                in if is_config (cfg_identity_file config)
                   then Inl ''Identity and configuration must use different files''
                   else Inr config)"

section \<open>Facts: numbers and characters\<close>

lemma char_of_digit: "d < 10 \<Longrightarrow> (of_char (char_of (48 + d :: nat)) :: nat) = 48 + d"
  by (simp add: of_char_of)

lemma is_digit_digit [simp]: "d < 10 \<Longrightarrow> is_digit (char_of (48 + d :: nat))"
  by (simp add: is_digit_def char_of_digit)

lemma digits_value_snoc: "digits_value (s @ [c]) = 10 * digits_value s + (of_char c - 48)"
  by (simp add: digits_value_def)

lemma to_string_digits: "list_all is_digit (to_string n) \<and> digits_value (to_string n) = n"
proof (induction n rule: to_string.induct)
  case (1 n)
  show ?case
  proof (cases "n < 10")
    case True
    then show ?thesis
      by (subst (1 2) to_string.simps) (simp add: digits_value_def char_of_digit)
  next
    case False
    with 1 have "list_all is_digit (to_string (n div 10))" "digits_value (to_string (n div 10)) = n div 10"
      by auto
    then show ?thesis
      using False char_of_digit [of "n mod 10"]
      by (subst (1 2) to_string.simps) (simp add: digits_value_snoc)
  qed
qed

lemma from_chars_to_string: "n < 2 ^ 32 \<Longrightarrow> from_chars (to_string n) = Some (n, [])"
  using to_string_digits [of n]
  by (simp add: from_chars_def Let_def list_all_iff takeWhile_eq_all_conv [THEN iffD2]
      dropWhile_eq_Nil_conv [THEN iffD2])

lemma parse_port_to_string: "parse_port (to_string (unat p)) = Some p"
proof -
  have "unat p < 65536" using unsigned_less [of p, where 'a = nat] by simp
  then show ?thesis by (simp add: parse_port_def from_chars_to_string)
qed

lemma is_digit_not_punctuation [simp]:
  "\<not> is_digit (CHR '':'')" "\<not> is_digit (CHR '']'')" "\<not> is_digit (CHR ''['')"
  by (simp_all add: is_digit_def)

lemma to_string_no_char: "\<not> is_digit c \<Longrightarrow> c \<notin> set (to_string n)"
  using to_string_digits [of n] by (auto simp: list_all_iff)

lemma takeWhile_without: "c \<notin> set a \<Longrightarrow> takeWhile (\<lambda>x. x \<noteq> c) a = a"
  by (auto simp: takeWhile_eq_all_conv)

lemma takeWhile_short: "c \<in> set a \<Longrightarrow> length (takeWhile (\<lambda>x. x \<noteq> c) a) < length a"
  by (induction a) auto

lemma find_char_None: "find_char c s = None \<longleftrightarrow> c \<notin> set s"
  using takeWhile_short [of c s] by (cases "c \<in> set s") (auto simp: find_char_def Let_def takeWhile_without)

lemma find_char_append: "c \<notin> set a \<Longrightarrow> find_char c (a @ c # b) = Some (length a)"
proof -
  assume "c \<notin> set a"
  then have "takeWhile (\<lambda>x. x \<noteq> c) (a @ c # b) = a"
    by (subst takeWhile_append2) auto
  then show ?thesis by (simp add: find_char_def Let_def)
qed

lemma rfind_char_append: "c \<notin> set b \<Longrightarrow> rfind_char c (a @ c # b) = Some (length a)"
  by (simp add: rfind_char_def find_char_append)

lemma find_char_Some:
  assumes "find_char c s = Some i"
  shows "i < length s \<and> s = take i s @ c # drop (i + 1) s \<and> c \<notin> set (take i s)"
proof -
  have i: "i = length (takeWhile (\<lambda>x. x \<noteq> c) s)" "i \<noteq> length s"
    using assms by (auto simp: find_char_def Let_def split: if_splits)
  then have less: "i < length s" using length_takeWhile_le [of "\<lambda>x. x \<noteq> c" s] by simp
  then have "s ! i = c" using nth_length_takeWhile [of "\<lambda>x. x \<noteq> c" s] i(1) by simp
  moreover have "take i s = takeWhile (\<lambda>x. x \<noteq> c) s" using i(1) by (simp add: takeWhile_eq_take [symmetric])
  ultimately show ?thesis
    using less id_take_nth_drop [OF less] by (auto dest: set_takeWhileD)
qed

lemma rfind_char_Some:
  assumes "rfind_char c s = Some i"
  shows "i < length s \<and> s = take i s @ c # drop (i + 1) s \<and> c \<notin> set (drop (i + 1) s)"
proof -
  obtain j where j: "find_char c (rev s) = Some j" "i = length s - 1 - j"
    using assms by (auto simp: rfind_char_def)
  note found = find_char_Some [OF j(1)]
  define a b where "a = take j (rev s)" and "b = drop (j + 1) (rev s)"
  have "rev s = a @ c # b" "c \<notin> set a" "length a = j"
    using found by (simp_all add: a_def b_def)
  then have "s = rev b @ c # rev a" by (metis append.assoc append_Cons append_Nil rev.simps(2) rev_append rev_rev_ident)
  moreover have "i = length (rev b)"
    using \<open>rev s = a @ c # b\<close> \<open>length a = j\<close> j(2) by (simp flip: length_rev [of s])
  ultimately show ?thesis using \<open>c \<notin> set a\<close> by simp
qed

section \<open>Facts: endpoints\<close>

lemma starts_with_iff: "starts_with s prefix \<longleftrightarrow> (\<exists>rest. s = prefix @ rest)"
  unfolding starts_with_def by (metis append_eq_conv_conj append_take_drop_id)

lemma ends_with_char: "ends_with s [c] \<longleftrightarrow> (\<exists>front. s = front @ [c])"
proof
  assume "ends_with s [c]"
  then show "\<exists>front. s = front @ [c]"
    unfolding ends_with_def by (metis append_take_drop_id)
qed (auto simp: ends_with_def)

lemma c_str_id: "CHR 0x00 \<notin> set s \<Longrightarrow> c_str s = s"
  by (simp add: c_str_def takeWhile_without)

lemma endpoint_roundtrip6:
  assumes "CHR '':'' \<in> set a" "CHR '']'' \<notin> set a" "pton6 (c_str a) \<noteq> None"
  shows "parse_endpoint pton4 pton6 (format_endpoint a p) = Some (a, p)"
proof -
  have f: "format_endpoint a p = (CHR ''['' # a) @ CHR '']'' # CHR '':'' # to_string (unat p)"
    using assms(1) find_char_None [of "CHR '':''" a] by (simp add: format_endpoint_def)
  have "find_char (CHR '']'') (format_endpoint a p) = Some (Suc (length a))"
    unfolding f using assms(2) by (subst find_char_append) auto
  moreover have "a \<noteq> []" using assms(1) by auto
  moreover have "format_endpoint a p ! Suc (Suc (length a)) = CHR '':''"
    "drop (Suc (Suc (Suc (length a)))) (format_endpoint a p) = to_string (unat p)"
    "take (length a) (drop 1 (format_endpoint a p)) = a"
    "Suc (Suc (length a)) < length (format_endpoint a p)"
    "format_endpoint a p \<noteq> []" "hd (format_endpoint a p) = CHR ''[''"
    unfolding f by (simp_all add: nth_append)
  ultimately show ?thesis
    using assms(3) parse_port_to_string [of p] by (auto simp: parse_endpoint_def Let_def)
qed

lemma endpoint_roundtrip4:
  assumes "CHR '':'' \<notin> set a" "a \<noteq> []" "hd a \<noteq> CHR ''[''" "pton4 (c_str a) \<noteq> None"
  shows "parse_endpoint pton4 pton6 (format_endpoint a p) = Some (a, p)"
proof -
  have f: "format_endpoint a p = a @ CHR '':'' # to_string (unat p)"
    using assms(1) find_char_None [of "CHR '':''" a] by (simp add: format_endpoint_def)
  have "rfind_char (CHR '':'') (format_endpoint a p) = Some (length a)"
    unfolding f by (rule rfind_char_append) (rule to_string_no_char, simp)
  moreover have "hd (format_endpoint a p) \<noteq> CHR ''[''" "format_endpoint a p \<noteq> []"
    "take (length a) (format_endpoint a p) = a"
    "drop (Suc (length a)) (format_endpoint a p) = to_string (unat p)"
    unfolding f using assms(2,3) by simp_all
  ultimately show ?thesis
    using assms(2,4) parse_port_to_string [of p] by (auto simp: parse_endpoint_def Let_def)
qed

lemma parse_endpoint_cases:
  assumes "parse_endpoint pton4 pton6 v = Some (a, p)"
  shows "(CHR '']'' \<notin> set a \<and> pton6 (c_str a) \<noteq> None \<and> set a \<subseteq> set v) \<or>
    (a \<noteq> [] \<and> hd a \<noteq> CHR ''['' \<and> pton4 (c_str a) \<noteq> None \<and> set a \<subseteq> set v)"
proof (cases "hd v = CHR ''[''")
  case True
  with assms obtain cb where cb: "find_char (CHR '']'') v = Some cb" "a = take (cb - 1) (drop 1 v)"
    "pton6 (c_str a) \<noteq> None"
    by (auto simp: parse_endpoint_def Let_def split: if_splits option.splits)
  have "set a \<subseteq> set (take cb v)"
    unfolding cb(2) by (cases v; cases cb) (auto dest: in_set_takeD)
  then show ?thesis using find_char_Some [OF cb(1)] cb(3) by (auto dest: in_set_takeD)
next
  case False
  with assms obtain lc where lc: "rfind_char (CHR '':'') v = Some lc" "a = take lc v" "lc \<noteq> 0"
    "pton4 (c_str a) \<noteq> None" "v \<noteq> []"
    by (auto simp: parse_endpoint_def Let_def split: if_splits option.splits)
  then have "a \<noteq> []" "hd a = hd v" by (auto simp: hd_take)
  then show ?thesis using False lc by (auto dest: in_set_takeD)
qed

section \<open>Facts: hexadecimal\<close>

lemma less_16_cases: "(n :: nat) < 16 \<longleftrightarrow> n \<in> {0, 1, 2, 3, 4, 5, 6, 7, 8, 9, 10, 11, 12, 13, 14, 15}"
  by (simp, presburger)

lemma hex_digit_facts:
  assumes "n < 16"
  shows "hex_value (hex_digit n) = n" and "is_hex_digit (hex_digit n)"
  using assms unfolding less_16_cases
  by (auto simp: hex_digit_def hex_value_def is_digit_def is_hex_digit_def)

lemma hex_digit_value: "is_hex_digit c \<Longrightarrow> hex_digit (hex_value c) = c \<and> hex_value c < 16"
  by (auto simp: hex_digit_def hex_value_def is_digit_def is_hex_digit_def)

lemma nibbles: "unat (drop_bit 4 (b :: byte)) = unat b div 16" "unat (b AND 15) = unat b mod 16"
proof -
  have "b AND 15 = take_bit 4 b" by (simp add: take_bit_eq_mask mask_eq_exp_minus_1)
  then show "unat (b AND 15) = unat b mod 16" by (simp add: take_bit_eq_mod unat_mod)
  show "unat (drop_bit 4 b) = unat b div 16" by (simp add: drop_bit_eq_div unat_div)
qed

lemma nibbles_less: "unat (b :: byte) div 16 < 16" "unat b mod 16 < 16"
  using unsigned_less [of b, where 'a = nat] by simp_all

lemma hex_Cons: "hex (b # bs) = hex_digit (unat b div 16) # hex_digit (unat b mod 16) # hex bs"
  by (simp add: hex_def nibbles)

lemma hex_facts: "hex_bytes (hex bs) = bs \<and> length (hex bs) = 2 * length bs \<and> list_all is_hex_digit (hex bs)"
proof (induction bs)
  case (Cons b bs)
  then show ?case
    by (simp add: hex_Cons hex_digit_facts nibbles_less del: of_nat_add of_nat_mult)
qed (simp add: hex_def)

lemma hex_of_bytes:
  "list_all is_hex_digit s \<Longrightarrow> even (length s) \<Longrightarrow> hex (hex_bytes s) = s \<and> length (hex_bytes s) = length s div 2"
proof (induction s rule: hex_bytes.induct)
  case (1 a b s)
  note digits = hex_digit_value [of a] hex_digit_value [of b]
  have "unat (of_nat (16 * hex_value a + hex_value b) :: byte) = 16 * hex_value a + hex_value b"
    using digits 1(2) by (simp add: unat_of_nat del: of_nat_add of_nat_mult)
  with 1 digits show ?case by (simp add: hex_Cons del: of_nat_add of_nat_mult)
qed (auto simp: hex_def)

section \<open>Facts: ports\<close>

lemma lower_bound_spec:
  "sorted xs \<Longrightarrow> first + count \<le> length xs \<Longrightarrow> \<forall>i<first. xs ! i < v \<Longrightarrow>
     \<forall>i<length xs. first + count \<le> i \<longrightarrow> \<not> xs ! i < v \<Longrightarrow>
     (\<forall>i<lower_bound xs v first count. xs ! i < v) \<and>
     (\<forall>i<length xs. lower_bound xs v first count \<le> i \<longrightarrow> \<not> xs ! i < v)"
proof (induction xs v first count rule: lower_bound.induct)
  case (1 xs v first count)
  show ?case
  proof (cases "count = 0")
    case True
    then show ?thesis using "1.prems" by (simp add: lower_bound.simps [of xs v first 0])
  next
    case False
    let ?mid = "first + count div 2"
    have mid: "?mid < length xs" using False "1.prems"(2) by linarith
    show ?thesis
    proof (cases "xs ! ?mid < v")
      case True
      have "xs ! i < v" if "i < ?mid + 1" for i
        using sorted_nth_mono [OF "1.prems"(1), of i ?mid] mid that True by (simp add: le_less_trans)
      then have below: "\<forall>i<?mid + 1. xs ! i < v" by blast
      have size: "?mid + 1 + (count - count div 2 - 1) = first + count"
        using False by linarith
      have step: "lower_bound xs v first count = lower_bound xs v (?mid + 1) (count - count div 2 - 1)"
        by (subst lower_bound.simps) (simp only: Let_def True False if_True if_False)
      show ?thesis
        unfolding step
        by (rule "1.IH"(1) [OF False refl True "1.prems"(1) _ below])
          (use size "1.prems"(2,4) in \<open>simp_all only:\<close>)
    next
      case greater: False
      have above: "\<forall>i<length xs. ?mid \<le> i \<longrightarrow> \<not> xs ! i < v"
        using sorted_nth_mono [OF "1.prems"(1), of ?mid] greater by (meson le_less_trans)
      have step: "lower_bound xs v first count = lower_bound xs v first (count div 2)"
        by (subst lower_bound.simps) (simp only: Let_def greater False if_False)
      show ?thesis
        unfolding step
        by (rule "1.IH"(2) [OF False refl greater "1.prems"(1) _ "1.prems"(3) above])
          (use mid in linarith)
    qed
  qed
qed

lemma lower_bound_bounded: "lower_bound xs v first count \<le> first + count"
proof (induction xs v first count rule: lower_bound.induct)
  case (1 xs v first count)
  then show ?case by (subst lower_bound.simps) (fastforce simp: Let_def)
qed

lemma binary_search_mem:
  assumes "sorted xs"
  shows "binary_search xs v \<longleftrightarrow> v \<in> set xs"
proof -
  let ?r = "lower_bound xs v 0 (length xs)"
  have spec: "\<forall>i<?r. xs ! i < v" "\<forall>i<length xs. ?r \<le> i \<longrightarrow> \<not> xs ! i < v"
    using lower_bound_spec [OF assms, of 0 "length xs" v] by auto
  show ?thesis
  proof
    assume "binary_search xs v"
    then have "?r < length xs" "xs ! ?r = v"
      using spec(2) by (auto simp: binary_search_def Let_def not_less antisym)
    then show "v \<in> set xs" by (metis nth_mem)
  next
    assume "v \<in> set xs"
    then obtain i where i: "i < length xs" "xs ! i = v" by (metis in_set_conv_nth)
    then have "?r \<le> i" using spec(1) by (metis less_irrefl not_le)
    moreover from this i have "\<not> v < xs ! ?r"
      using sorted_nth_mono [OF assms, of ?r i] by (simp add: not_less)
    ultimately show "binary_search xs v" using i(1) by (simp add: binary_search_def Let_def)
  qed
qed

text \<open>The parts of a port list, and the ports that they name.\<close>

function split_commas :: "string \<Rightarrow> string list" where
  "split_commas s =
     (case find_char (CHR '','') s of None \<Rightarrow> [s] | Some i \<Rightarrow> take i s # split_commas (drop (i + 1) s))"
  by pat_completeness auto

termination split_commas
  by (relation "measure length") (auto dest: find_char_Some)

declare split_commas.simps [simp del]

lemma parse_port_tokens_split:
  "parse_port_tokens s acc = Some ports \<Longrightarrow>
     (\<forall>part\<in>set (split_commas s). parse_port_token (trim part) \<noteq> None) \<and>
     set ports = set acc \<union> (\<Union>part\<in>set (split_commas s). set (the (parse_port_token (trim part)))) \<and>
     length acc < length ports"
proof (induction s acc rule: parse_port_tokens.induct)
  case (1 s acc)
  have token: "length ps > 0" if "parse_port_token tok = Some ps" for tok ps
    using that by (auto simp: parse_port_token_def word_less_nat_alt not_less split: if_splits option.splits)
  show ?case
  proof (cases "find_char (CHR '','') s")
    case None
    with "1.prems" obtain ps where ps: "parse_port_token (trim s) = Some ps" "ports = acc @ ps"
      by (auto simp: parse_port_tokens.simps [of s acc])
    moreover have "split_commas s = [s]" using None by (simp add: split_commas.simps [of s])
    ultimately show ?thesis using token by auto
  next
    case (Some sep)
    with "1.prems" obtain ps where ps: "parse_port_token (trim (take sep s)) = Some ps"
      "parse_port_tokens (drop (sep + 1) s) (acc @ ps) = Some ports"
      by (auto simp: parse_port_tokens.simps [of s acc] split: option.splits)
    moreover have "split_commas s = take sep s # split_commas (drop (sep + 1) s)"
      using Some by (simp add: split_commas.simps [of s])
    ultimately show ?thesis using "1.IH" [OF Some ps(1,2)] by auto
  qed
qed

lemma parse_port_token_nonzero:
  assumes "parse_port_token tok = Some ps" "p \<in> set ps"
  shows "p \<noteq> 0"
proof (cases "find_char (CHR ''-'') tok")
  case None
  then show ?thesis using assms by (auto simp: parse_port_token_def split: if_splits option.splits)
next
  case (Some dash)
  note dash = this
  obtain low high where texts: "parse_port (take dash tok) = Some low" "parse_port (drop (dash + 1) tok) = Some high"
    using assms(1) dash unfolding parse_port_token_def
    by (cases "parse_port (take dash tok)"; cases "parse_port (drop (dash + 1) tok)") (simp_all split: if_splits)
  have "low \<noteq> 0" "ps = map of_nat [unat low..<unat (high :: u16) + 1]"
    using assms(1) dash texts unfolding parse_port_token_def
    by (simp_all del: upt_Suc split: if_splits)
  with assms(2) have range: "low \<noteq> 0" "p \<in> set (map of_nat [unat low..<unat high + 1])"
    by simp_all
  then obtain n where n: "p = of_nat n" "unat low \<le> n" "n \<le> unat (high :: u16)" by auto
  have "unat high < 65536" using unsigned_less [of high, where 'a = nat] by simp
  then have "unat p = n" using n by (simp add: unat_of_nat)
  moreover have "0 < unat low" using range(1) by (simp add: unat_gt_0)
  ultimately show ?thesis using n by auto
qed

section \<open>Facts: the configuration file\<close>

definition config_ok :: "config \<Rightarrow> bool" where
  "config_ok c \<longleftrightarrow>
     1280 \<le> cfg_mtu c \<and> cfg_mtu c \<le> 65535 \<and>
     1 \<le> length (cfg_interface_name c) \<and> length (cfg_interface_name c) \<le> 15 \<and>
     list_all is_interface_char (cfg_interface_name c) \<and>
     sorted (cfg_shared_ports c) \<and> distinct (cfg_shared_ports c) \<and> 0 \<notin> set (cfg_shared_ports c)"

definition network_ok :: "ipv6 \<Rightarrow> bool" where
  "network_ok network \<longleftrightarrow> is_ipv6 network \<and> network ! 0 = 0xfd \<and> list_all (\<lambda>b. b = 0) (drop 8 network)"

lemma distinct_remdups_adj_if_sorted: "sorted (xs :: 'a :: linorder list) \<Longrightarrow> distinct (remdups_adj xs)"
proof (induction xs rule: remdups_adj.induct)
  case (3 x y xs)
  then show ?case by (auto simp: order.antisym)
qed simp_all

lemma parse_port_list_facts:
  assumes "parse_port_list v = Some (ports, all)"
  shows "sorted ports \<and> distinct ports \<and> 0 \<notin> set ports \<and>
    (ports \<noteq> [] \<longrightarrow> \<not> all \<and>
      set ports = (\<Union>part\<in>set (split_commas (trim v)). set (the (parse_port_token (trim part))))) \<and>
    (ports = [] \<longrightarrow> all = (trim v \<noteq> ''none''))"
proof -
  consider "ports = []" "all = (trim v \<noteq> ''none'')"
    | ps where "parse_port_tokens (trim v) [] = Some ps" "ports = remdups_adj (sort ps)" "\<not> all" "ps \<noteq> []"
    using assms unfolding parse_port_list_def Let_def
    by (cases "trim v = []"; cases "trim v = ''all'' \<or> trim v = ''*''"; cases "trim v = ''none''";
        cases "parse_port_tokens (trim v) []") (auto split: if_split_asm)
  then show ?thesis
  proof cases
    case 1
    then show ?thesis by simp
  next
    case (2 ps)
    note parts = parse_port_tokens_split [OF 2(1)]
    have "p \<noteq> 0" if "p \<in> set ps" for p
    proof -
      obtain part where part: "part \<in> set (split_commas (trim v))"
        "p \<in> set (the (parse_port_token (trim part)))"
        using parts \<open>p \<in> set ps\<close> by auto
      then obtain qs where "parse_port_token (trim part) = Some qs" using parts by blast
      with part show ?thesis using parse_port_token_nonzero by simp
    qed
    moreover have "set ports = set ps" "ports \<noteq> []"
      using 2 by (simp_all add: remdups_adj_Nil_iff flip: set_empty)
    ultimately show ?thesis
      using 2 parts by (auto simp: sorted_remdups_adj distinct_remdups_adj_if_sorted)
  qed
qed

lemma config_field_valid:
  assumes "config_field pton4 pton6 resolve s name value = Inr s'"
    and "config_ok (ld_config s)" "ld_network s \<longrightarrow> network_ok (cfg_network (ld_config s))"
    and pton6: "\<forall>t n. pton6 t = Some n \<longrightarrow> length n = 16"
  shows "config_ok (ld_config s') \<and> (ld_network s' \<longrightarrow> network_ok (cfg_network (ld_config s')))"
proof -
  consider "name = ''network''" | "name = ''identity''" | "name = ''interface''" | "name = ''mtu''"
    | "name = ''wintun_dll''" | "name = ''listen''" | "name = ''shared_ports''"
    using assms(1) by (simp add: config_field_def Let_def split: if_splits)
  then show ?thesis
  proof cases
    case 1
    with assms show ?thesis
      by (auto simp: config_field_def Let_def config_ok_def network_ok_def
          split: if_splits option.splits)
  next
    case 4
    with assms show ?thesis
      by (auto simp: config_field_def Let_def config_ok_def parse_mtu_def split: if_splits option.splits)
  next
    case 7
    with assms obtain ports all where parsed: "parse_port_list value = Some (ports, all)"
      "s' = s\<lparr>ld_config := (ld_config s)\<lparr>cfg_shared_ports := ports, cfg_share_all_ports := all\<rparr>,
              ld_shared_ports := True\<rparr>"
      by (auto simp: config_field_def Let_def split: if_splits option.splits)
    then show ?thesis
      using parse_port_list_facts [OF parsed(1)] assms(2,3) by (simp add: config_ok_def)
  next
    case 3
    with assms show ?thesis
      by (auto simp: config_field_def Let_def config_ok_def Suc_le_eq split: if_splits)
  qed (use assms in \<open>auto simp: config_field_def Let_def config_ok_def split: if_splits option.splits\<close>)
qed

lemma config_line_valid:
  assumes "config_line pton4 pton6 resolve s raw = Inr s'"
    and "config_ok (ld_config s)" "ld_network s \<longrightarrow> network_ok (cfg_network (ld_config s))"
    and pton6: "\<forall>t n. pton6 t = Some n \<longrightarrow> length n = 16"
  shows "config_ok (ld_config s') \<and> (ld_network s' \<longrightarrow> network_ok (cfg_network (ld_config s')))"
  using assms(1,2,3) config_field_valid [OF _ assms(2,3) pton6]
  by (auto simp: config_line_def Let_def split: if_splits option.splits)

lemma config_lines_valid:
  assumes pton6: "\<forall>t n. pton6 t = Some n \<longrightarrow> length n = 16"
  shows "config_lines pton4 pton6 resolve s bytes = Inr s' \<Longrightarrow> config_ok (ld_config s) \<Longrightarrow>
    ld_network s \<longrightarrow> network_ok (cfg_network (ld_config s)) \<Longrightarrow>
    config_ok (ld_config s') \<and> (ld_network s' \<longrightarrow> network_ok (cfg_network (ld_config s')))"
proof (induction "length bytes" arbitrary: s bytes rule: less_induct)
  case less
  show ?case
  proof (cases "bytes = []")
    case True
    then show ?thesis using less.prems by (simp add: config_lines.simps [of _ _ _ s "[]"])
  next
    case False
    show ?thesis
    proof (cases "find_char (CHR 0x0A) bytes")
      case None
      then have "config_line pton4 pton6 resolve s bytes = Inr s'"
        using less.prems(1) False by (simp add: config_lines.simps [of _ _ _ s bytes])
      then show ?thesis using config_line_valid less.prems(2,3) pton6 by metis
    next
      case (Some i)
      then obtain t where t: "config_line pton4 pton6 resolve s (take i bytes) = Inr t"
        "config_lines pton4 pton6 resolve t (drop (i + 1) bytes) = Inr s'"
        using less.prems(1) False by (auto simp: config_lines.simps [of _ _ _ s bytes] split: sum.splits)
      moreover have "length (drop (i + 1) bytes) < length bytes" using False by simp
      ultimately show ?thesis
        using less.hyps [OF _ t(2)] config_line_valid [OF t(1) less.prems(2,3) pton6] by blast
    qed
  qed
qed

lemma default_config_ok: "config_ok default_config"
  by (simp add: config_ok_def default_config_def is_interface_char_def)

section \<open>Properties\<close>

text \<open>
  C40. A configuration file that is accepted gives values within the limits of the program, whatever its
  text: an MTU that IPv6 allows, an interface name of 1 to 15 letters, digits and underscores, a sorted list
  of shared ports without repetition and without port 0, a network that is a /64 in the locally assigned
  unique local range, and an identity file different from the configuration file. A file without a network
  line, over 64 KiB or with a NUL byte is never accepted.
\<close>

theorem load_config_valid:
  assumes "load_config pton4 pton6 resolve is_config content = Inr c"
    and "\<forall>t n. pton6 t = Some n \<longrightarrow> length n = 16"
  shows "config_ok c \<and> network_ok (cfg_network c) \<and> \<not> is_config (cfg_identity_file c) \<and>
    (\<exists>bytes. content = Some bytes \<and> length bytes \<le> 65536 \<and> CHR 0x00 \<notin> set bytes)"
proof -
  obtain body where body: "content = Some body" using assms(1) by (auto simp: load_config_def split: option.splits)
  let ?read = "take 65537 body"
  have size: "length ?read \<le> 65536 \<and> CHR 0x00 \<notin> set ?read"
    using assms(1) unfolding load_config_def Let_def body option.case not_less [symmetric]
    by (rule contrapos_pp) simp
  obtain s where s: "config_lines pton4 pton6 resolve start_load ?read = Inr s"
    using assms(1) unfolding load_config_def Let_def body option.case
    by (auto split: if_split_asm sum.splits)
  have "ld_network s" "\<not> is_config (cfg_identity_file c)"
    and c: "c = (if ld_identity s then ld_config s
                 else (ld_config s)\<lparr>cfg_identity_file := resolve ''identity.pem''\<rparr>)"
    using assms(1) unfolding load_config_def Let_def body option.case s sum.case
    by (simp_all split: if_split_asm)
  moreover have "config_ok (ld_config s) \<and> network_ok (cfg_network (ld_config s))"
    using config_lines_valid [OF assms(2) s] \<open>ld_network s\<close> default_config_ok by (simp add: start_load_def)
  ultimately show ?thesis using body size by (auto simp: config_ok_def min_def split: if_splits)
qed

definition sample_pton6 :: "string \<Rightarrow> ipv6 option" where
  "sample_pton6 t = (if t = ''fd00::'' then Some (0xfd # replicate 15 0) else None)"

text \<open>The configuration file of an example.\<close>

definition sample_config_text :: string where
  "sample_config_text = ''network = fd00::/64'' @ CHR 0x0A # ''shared_ports=443,80-81,80''"

definition sample_config :: config where
  "sample_config = default_config\<lparr>cfg_network := 0xfd # replicate 15 0,
     cfg_identity_file := ''/etc/identity.pem'', cfg_shared_ports := [80, 81, 443],
     cfg_share_all_ports := False\<rparr>"

lemma sample_ports: "parse_port_list ''443,80-81,80'' = Some ([80, 81, 443], False)"
  by (simp add: parse_port_list_def parse_port_tokens.simps parse_port_token_def parse_port_def
      from_chars_def is_digit_def digits_value_def find_char_def trim_def is_blank_def
      insort_insert_key_def upt_rec_numeral)

lemma sample_config_loads:
  "load_config (\<lambda>_. None) sample_pton6 (\<lambda>v. ''/etc/'' @ v) (\<lambda>p. p = ''/etc/madoka.conf'')
     (Some sample_config_text) = Inr sample_config"
  by (simp add: load_config_def sample_config_text_def config_lines.simps config_line_def config_field_def
      sample_ports trim_def is_blank_def find_char_def ends_with_def c_str_def sample_pton6_def
      start_load_def sample_config_def list_all_iff)

lemma load_config_valid_witness: "config_ok sample_config \<and> network_ok (cfg_network sample_config)"
  using load_config_valid [OF sample_config_loads] by (simp add: sample_pton6_def)

text \<open>
  Whatever \<open>parse_endpoint\<close> accepts is printed by \<open>format_endpoint\<close> to a text that
  \<open>parse_endpoint\<close> reads back as the same address and port, for IPv4 and for bracketed IPv6 endpoints. The
  hypotheses are what \<open>inet_pton\<close> guarantees: the IPv6 texts have a colon and the IPv4 texts have none.
\<close>

theorem endpoint_reparse:
  assumes "parse_endpoint pton4 pton6 v = Some (a, p)" "CHR 0x00 \<notin> set v"
    and "\<forall>t. pton6 t \<noteq> None \<longrightarrow> CHR '':'' \<in> set t" "\<forall>t. pton4 t \<noteq> None \<longrightarrow> CHR '':'' \<notin> set t"
  shows "parse_endpoint pton4 pton6 (format_endpoint a p) = Some (a, p)"
proof -
  have c: "c_str a = a"
    using parse_endpoint_cases [OF assms(1)] assms(2) by (intro c_str_id) auto
  from parse_endpoint_cases [OF assms(1)] show ?thesis
  proof (elim disjE conjE)
    assume "CHR '']'' \<notin> set a" "pton6 (c_str a) \<noteq> None"
    then show ?thesis using assms(3) c by (intro endpoint_roundtrip6) metis+
  next
    assume "a \<noteq> []" "hd a \<noteq> CHR ''[''" "pton4 (c_str a) \<noteq> None"
    then show ?thesis using assms(4) c by (intro endpoint_roundtrip4) metis+
  qed
qed

lemma endpoint_reparse_witness:
  "parse_endpoint (\<lambda>_. None) (\<lambda>t. if t = ''::1'' then Some zero_ipv6 else None) (format_endpoint ''::1'' 80) =
     Some (''::1'', 80)"
  by (rule endpoint_reparse [where v = "''[::1]:80''"])
    (simp_all add: parse_endpoint_def find_char_def c_str_def parse_port_def from_chars_def is_digit_def
      digits_value_def)

text \<open>
  A node id is accepted as text exactly when the text is its own canonical lower-case form: parsing and
  printing are inverse to each other, and no other spelling of an id is accepted.
\<close>

theorem node_id_text:
  "parse_node_id v = Some nid \<longleftrightarrow> is_node_id nid \<and> v = hex nid"
proof
  assume "parse_node_id v = Some nid"
  then have "length v = 64" "list_all is_hex_digit v" "nid = hex_bytes v"
    by (auto simp: parse_node_id_def split: if_splits)
  then show "is_node_id nid \<and> v = hex nid" using hex_of_bytes [of v] by simp
next
  assume "is_node_id nid \<and> v = hex nid"
  then show "parse_node_id v = Some nid" using hex_facts [of nid] by (simp add: parse_node_id_def)
qed

text \<open>
  An accepted port list is sorted, without repetition and without port 0, and the binary search of
  \<open>is_port_shared\<close> allows a port exactly when every port is shared or one of the comma-separated parts
  of the list names it, alone or inside a range.
\<close>

theorem port_list_decides_sharing:
  assumes "parse_port_list v = Some (ports, all)"
    and "c = default_config\<lparr>cfg_shared_ports := ports, cfg_share_all_ports := all\<rparr>"
  shows "sorted ports \<and> distinct ports \<and> 0 \<notin> set ports \<and> \<not> (all \<and> ports \<noteq> []) \<and>
    (is_port_shared c port \<longleftrightarrow>
       all \<or> (ports \<noteq> [] \<and>
         (\<exists>part\<in>set (split_commas (trim v)). port \<in> set (the (parse_port_token (trim part))))))"
proof -
  note facts = parse_port_list_facts [OF assms(1)]
  have "is_port_shared c port \<longleftrightarrow> all \<or> port \<in> set ports"
    using facts by (simp add: is_port_shared_def assms(2) binary_search_mem)
  then show ?thesis using facts by (cases "ports = []") auto
qed

lemma port_list_decides_sharing_witness:
  "is_port_shared (default_config\<lparr>cfg_shared_ports := [80, 81, 443], cfg_share_all_ports := False\<rparr>) 81"
  using port_list_decides_sharing [OF sample_ports refl, of 81] by (simp add: is_port_shared_def
      binary_search_mem)

end
