(* ===== verification/Node_State.thy ===== *)
theory Node_State
  imports Prelude
begin

text \<open>
  The life cycle of a node: \<open>include/network/node_state.hpp\<close> and \<open>src/network/node_state.cpp\<close>. A
  transition is attempted from the current state and either happens or leaves the state as it was with an
  error. The runs of a node are the sequences of attempts; what they visit is an invariant.
\<close>

datatype node_state = CREATED | DISCOVERING | JOINING_NETWORK | ACTIVE | LEAVING

fun node_state_to_string :: "node_state \<Rightarrow> string" where
  "node_state_to_string CREATED = ''CREATED''"
| "node_state_to_string DISCOVERING = ''DISCOVERING''"
| "node_state_to_string JOINING_NETWORK = ''JOINING_NETWORK''"
| "node_state_to_string ACTIVE = ''ACTIVE''"
| "node_state_to_string LEAVING = ''LEAVING''"

fun node_state_can_transition :: "node_state \<Rightarrow> node_state \<Rightarrow> bool" where
  "node_state_can_transition CREATED target = (target = DISCOVERING)"
| "node_state_can_transition DISCOVERING target =
     (target = JOINING_NETWORK \<or> target = ACTIVE \<or> target = DISCOVERING \<or> target = LEAVING)"
| "node_state_can_transition JOINING_NETWORK target =
     (target = ACTIVE \<or> target = DISCOVERING \<or> target = LEAVING)"
| "node_state_can_transition ACTIVE target = (target = LEAVING \<or> target = DISCOVERING)"
| "node_state_can_transition LEAVING target = (target = CREATED)"

text \<open>The new value of \<open>current\<close>, or the error, which leaves \<open>current\<close> as it is.\<close>

definition node_state_transition :: "node_state \<Rightarrow> node_state \<Rightarrow> string + node_state" where
  "node_state_transition current target =
     (if \<not> node_state_can_transition current target
      then Inl (''Invalid state transition from '' @ node_state_to_string current @ '' to '' @
                node_state_to_string target)
      else Inr target)"

section \<open>Runs\<close>

text \<open>The current state and the states left before it, the latest first.\<close>

type_synonym node_log = "node_state \<times> node_state list"

fun attempt :: "node_log \<Rightarrow> node_state \<Rightarrow> node_log" where
  "attempt (current, past) target =
     (case node_state_transition current target of
        Inl _ \<Rightarrow> (current, past)
      | Inr s \<Rightarrow> (s, current # past))"

inductive node_step :: "node_log \<Rightarrow> node_log \<Rightarrow> bool" where
  node_attempt: "node_step l (attempt l target)"

inductive_cases node_stepE: "node_step l l'"

text \<open>
  Every state was entered legally: \<open>CREATED\<close> only at the start or from \<open>LEAVING\<close>, and each other state
  only after \<open>DISCOVERING\<close> in the same life, the states since the last \<open>CREATED\<close>.
\<close>

definition entered_legally :: "node_state \<Rightarrow> node_state list \<Rightarrow> bool" where
  "entered_legally s past \<longleftrightarrow>
     (s = CREATED \<longrightarrow> past = [] \<or> hd past = LEAVING) \<and>
     (s \<noteq> CREATED \<longrightarrow> s = DISCOVERING \<or> DISCOVERING \<in> set (takeWhile (\<lambda>x. x \<noteq> CREATED) past)) \<and>
     (past \<noteq> [] \<and> hd past = CREATED \<longrightarrow> s = DISCOVERING)"

fun legal_history :: "node_state list \<Rightarrow> bool" where
  "legal_history [] = True"
| "legal_history (s # past) = (entered_legally s past \<and> legal_history past)"

definition node_log_ok :: "node_log \<Rightarrow> bool" where
  "node_log_ok l \<longleftrightarrow> legal_history (fst l # snd l)"

lemma attempt_ok: "node_log_ok l \<Longrightarrow> node_log_ok (attempt l target)"
  by (cases l, cases "fst l"; cases target)
    (auto simp: node_log_ok_def node_state_transition_def entered_legally_def)

lemma node_step_ok: "node_step l l' \<Longrightarrow> node_log_ok l \<Longrightarrow> node_log_ok l'"
  by (erule node_stepE) (simp only: attempt_ok)

lemma fresh_ok: "node_log_ok (CREATED, [])"
  by (simp add: node_log_ok_def entered_legally_def)

interpretation node_life: invariant_system "\<lambda>l. l = (CREATED, [])" node_step node_log_ok
  by unfold_locales (simp_all add: fresh_ok node_step_ok)

lemma attempts_reach: "node_step\<^sup>*\<^sup>* l (foldl attempt l targets)"
proof (induction targets arbitrary: l)
  case (Cons target targets)
  have "node_step l (attempt l target)" by (rule node_attempt)
  with Cons [of "attempt l target"] show ?case by (simp add: converse_rtranclp_into_rtranclp)
qed simp

lemma legal_history_nth:
  "legal_history ss \<Longrightarrow> ss = later @ s # past \<Longrightarrow> entered_legally s past"
  by (induction later arbitrary: ss) auto

section \<open>Property\<close>

text \<open>
  Whatever transitions are attempted on a fresh node and in whatever order, each state it ever
  visits is entered legally: it is \<open>ACTIVE\<close>, \<open>JOINING_NETWORK\<close> or \<open>LEAVING\<close> only when it has been
  \<open>DISCOVERING\<close> in the same life, leaves \<open>CREATED\<close> only to \<open>DISCOVERING\<close>, and comes back to
  \<open>CREATED\<close> only from \<open>LEAVING\<close>.
\<close>

theorem node_life_cycle:
  assumes "foldl attempt (CREATED, []) targets = (current, past)"
    and "current # past = later @ s # earlier"
  shows "entered_legally s earlier"
proof -
  have "node_log_ok (current, past)"
    using node_life.run_inv [OF fresh_ok attempts_reach [of _ targets]] assms(1) by simp
  then show ?thesis using legal_history_nth [OF _ assms(2)] by (simp add: node_log_ok_def)
qed

lemma node_life_cycle_witness:
  "foldl attempt (CREATED, []) [ACTIVE, DISCOVERING, JOINING_NETWORK, ACTIVE, CREATED, LEAVING] =
     (LEAVING, [ACTIVE, JOINING_NETWORK, DISCOVERING, CREATED]) \<and>
   entered_legally ACTIVE [JOINING_NETWORK, DISCOVERING, CREATED]"
proof -
  have run: "foldl attempt (CREATED, []) [ACTIVE, DISCOVERING, JOINING_NETWORK, ACTIVE, CREATED, LEAVING] =
     (LEAVING, [ACTIVE, JOINING_NETWORK, DISCOVERING, CREATED])"
    by (simp add: node_state_transition_def)
  with node_life_cycle [OF run, of "[LEAVING]"] show ?thesis by simp
qed

end
