(* ===== verification/Socket.thy ===== *)
theory Socket
  imports Config
begin

text \<open>
  The socket layer, \<open>include/platform/socket.hpp\<close> and the POSIX branch of \<open>src/platform/socket.cpp\<close>.
  The operating system is a parameter: a record of the calls that the code makes, each a function of the
  state \<open>'w\<close> of the world. A handle is the descriptor in it, \<open>INVALID_SOCKET_HANDLE\<close> when there is none.
  An operation with an \<open>error\<close> text gives it on the left. Shown: a connection attempt over all addresses
  keeps exactly the descriptor that it returns.
\<close>

section \<open>The operating system\<close>

type_synonym fd = int

datatype family = AF_INET | AF_INET6

datatype socket_option = REUSEADDR | V6ONLY bool | RCVTIMEO nat | SNDTIMEO nat

type_synonym sockaddr = "family \<times> byte list \<times> u16"

text \<open>
  \<open>os_bind\<close>, \<open>os_listen\<close>, \<open>os_connect\<close> and \<open>os_setsockopt\<close> tell whether the result is 0;
  \<open>os_select\<close> whether the descriptor gets readable in the given milliseconds; \<open>os_recv\<close> gives the bytes,
  none for the end of the stream, or \<open>None\<close> for a negative result. \<open>os_getaddrinfo\<close> gives the text of its
  error on the left.
\<close>

record 'w os =
  os_socket :: "family \<Rightarrow> 'w \<Rightarrow> fd \<times> 'w"
  os_setsockopt :: "fd \<Rightarrow> socket_option \<Rightarrow> 'w \<Rightarrow> bool \<times> 'w"
  os_bind :: "fd \<Rightarrow> sockaddr \<Rightarrow> 'w \<Rightarrow> bool \<times> 'w"
  os_listen :: "fd \<Rightarrow> nat \<Rightarrow> 'w \<Rightarrow> bool \<times> 'w"
  os_select :: "fd \<Rightarrow> nat \<Rightarrow> 'w \<Rightarrow> bool \<times> 'w"
  os_accept :: "fd \<Rightarrow> 'w \<Rightarrow> (fd \<times> sockaddr) \<times> 'w"
  os_getaddrinfo :: "string \<Rightarrow> string \<Rightarrow> 'w \<Rightarrow> (string + sockaddr list) \<times> 'w"
  os_connect :: "fd \<Rightarrow> sockaddr \<Rightarrow> 'w \<Rightarrow> bool \<times> 'w"
  os_send :: "fd \<Rightarrow> byte list \<Rightarrow> 'w \<Rightarrow> int \<times> 'w"
  os_recv :: "fd \<Rightarrow> nat \<Rightarrow> 'w \<Rightarrow> byte list option \<times> 'w"
  os_close :: "fd \<Rightarrow> 'w \<Rightarrow> 'w"
  os_getsockname :: "fd \<Rightarrow> 'w \<Rightarrow> sockaddr option"
  os_errno :: "'w \<Rightarrow> int"
  os_strerror :: "int \<Rightarrow> string"
  os_pton :: "family \<Rightarrow> string \<Rightarrow> byte list option"
  os_ntop :: "family \<Rightarrow> byte list \<Rightarrow> string"

definition EAGAIN :: int where "EAGAIN = 11"
definition EWOULDBLOCK :: int where "EWOULDBLOCK = 11"
definition ETIMEDOUT :: int where "ETIMEDOUT = 110"

section \<open>Operations\<close>

definition INVALID_SOCKET_HANDLE :: fd where
  "INVALID_SOCKET_HANDLE = -1"

definition socket_is_valid :: "fd \<Rightarrow> bool" where
  "socket_is_valid sock \<longleftrightarrow> sock \<noteq> INVALID_SOCKET_HANDLE"

definition socket_is_timeout_error :: "'w os \<Rightarrow> 'w \<Rightarrow> bool" where
  "socket_is_timeout_error os w \<longleftrightarrow>
     (let error_code = os_errno os w in
      error_code = EAGAIN \<or> error_code = EWOULDBLOCK \<or> error_code = ETIMEDOUT)"

definition socket_last_error_text :: "'w os \<Rightarrow> 'w \<Rightarrow> string" where
  "socket_last_error_text os w = os_strerror os (os_errno os w)"

definition socket_create_tcp :: "'w os \<Rightarrow> family \<Rightarrow> 'w \<Rightarrow> fd \<times> 'w" where
  "socket_create_tcp os family w = os_socket os family w"

definition socket_is_ipv4_address :: "'w os \<Rightarrow> string \<Rightarrow> bool" where
  "socket_is_ipv4_address os address \<longleftrightarrow> os_pton os AF_INET (c_str address) \<noteq> None"

definition socket_set_reuse_addr :: "'w os \<Rightarrow> fd \<Rightarrow> 'w \<Rightarrow> bool \<times> 'w" where
  "socket_set_reuse_addr os sock w =
     (if \<not> socket_is_valid sock then (False, w) else os_setsockopt os sock REUSEADDR w)"

definition socket_set_ipv6_only :: "'w os \<Rightarrow> fd \<Rightarrow> bool \<Rightarrow> 'w \<Rightarrow> bool \<times> 'w" where
  "socket_set_ipv6_only os sock v6only w =
     (if \<not> socket_is_valid sock then (False, w) else os_setsockopt os sock (V6ONLY v6only) w)"

definition socket_bind :: "'w os \<Rightarrow> fd \<Rightarrow> string \<Rightarrow> u16 \<Rightarrow> 'w \<Rightarrow> (string + unit) \<times> 'w" where
  "socket_bind os sock address port w =
     (if \<not> socket_is_valid sock then (Inl ''Invalid socket handle'', w)
      else if socket_is_ipv4_address os address
      then (case os_pton os AF_INET (c_str address) of
              None \<Rightarrow> (Inl (''Invalid IPv4 address: '' @ address), w)
            | Some bytes \<Rightarrow>
                (case os_bind os sock (AF_INET, bytes, port) w of
                   (False, w') \<Rightarrow> (Inl (''Bind failed: '' @ socket_last_error_text os w'), w')
                 | (True, w') \<Rightarrow> (Inr (), w')))
      else (case os_pton os AF_INET6 (c_str address) of
              None \<Rightarrow> (Inl (''Invalid IPv6 address: '' @ address), w)
            | Some bytes \<Rightarrow>
                (case os_bind os sock (AF_INET6, bytes, port) w of
                   (False, w') \<Rightarrow> (Inl (''Bind failed: '' @ socket_last_error_text os w'), w')
                 | (True, w') \<Rightarrow> (Inr (), w'))))"

definition socket_listen :: "'w os \<Rightarrow> fd \<Rightarrow> nat \<Rightarrow> 'w \<Rightarrow> (string + unit) \<times> 'w" where
  "socket_listen os sock backlog w =
     (if \<not> socket_is_valid sock then (Inl ''Invalid socket handle'', w)
      else case os_listen os sock backlog w of
        (False, w') \<Rightarrow> (Inl (''Listen failed: '' @ socket_last_error_text os w'), w')
      | (True, w') \<Rightarrow> (Inr (), w'))"

definition remote_text :: "'w os \<Rightarrow> sockaddr \<Rightarrow> string" where
  "remote_text os addr =
     (case addr of (family, bytes, port) \<Rightarrow>
        if family = AF_INET then os_ntop os AF_INET bytes @ '':'' @ to_string (unat port)
        else ''['' @ os_ntop os AF_INET6 bytes @ '']:'' @ to_string (unat port))"

text \<open>
  The accepted handle and the remote endpoint. A failure may have no error text: the time ran out.
\<close>

definition socket_accept :: "'w os \<Rightarrow> fd \<Rightarrow> nat \<Rightarrow> 'w \<Rightarrow> (string option + fd \<times> string) \<times> 'w" where
  "socket_accept os listen_sock timeout w =
     (if \<not> socket_is_valid listen_sock then (Inl (Some ''Invalid listening socket handle''), w)
      else case (if 0 < timeout then os_select os listen_sock timeout w else (True, w)) of
        (False, w1) \<Rightarrow> (Inl None, w1)
      | (True, w1) \<Rightarrow>
          (case os_accept os listen_sock w1 of ((client_fd, addr), w2) \<Rightarrow>
             if client_fd = INVALID_SOCKET_HANDLE then (Inl (Some (socket_last_error_text os w2)), w2)
             else (Inr (client_fd, remote_text os addr), w2)))"

text \<open>The handle after the call and the world.\<close>

definition socket_close :: "'w os \<Rightarrow> fd \<Rightarrow> 'w \<Rightarrow> fd \<times> 'w" where
  "socket_close os sock w =
     (if socket_is_valid sock then (INVALID_SOCKET_HANDLE, os_close os sock w) else (sock, w))"

definition socket_set_timeout :: "'w os \<Rightarrow> fd \<Rightarrow> nat \<Rightarrow> bool \<Rightarrow> bool \<Rightarrow> 'w \<Rightarrow> bool \<times> 'w" where
  "socket_set_timeout os sock timeout recv send w =
     (if \<not> socket_is_valid sock then (False, w)
      else
        let w1 = (if recv then snd (os_setsockopt os sock (RCVTIMEO timeout) w) else w);
            w2 = (if send then snd (os_setsockopt os sock (SNDTIMEO timeout) w1) else w1)
        in (True, w2))"

text \<open>The loop over the addresses of the host; \<open>last_err_text\<close> is the error of the last attempt.\<close>

fun connect_addresses ::
  "'w os \<Rightarrow> nat \<Rightarrow> sockaddr list \<Rightarrow> string \<Rightarrow> 'w \<Rightarrow> (string + fd) \<times> 'w" where
  "connect_addresses os timeout [] last_err_text w = (Inl last_err_text, w)"
| "connect_addresses os timeout (addr # addrs) last_err_text w =
     (case os_socket os (fst addr) w of (fd, w1) \<Rightarrow>
        if fd = INVALID_SOCKET_HANDLE then connect_addresses os timeout addrs last_err_text w1
        else
          let w2 = (if 0 < timeout then snd (socket_set_timeout os fd timeout True True w1) else w1) in
          (case os_connect os fd addr w2 of
             (True, w3) \<Rightarrow> (Inr fd, w3)
           | (False, w3) \<Rightarrow>
               connect_addresses os timeout addrs (socket_last_error_text os w3)
                 (snd (socket_close os fd w3))))"

definition socket_connect ::
  "'w os \<Rightarrow> string \<Rightarrow> u16 \<Rightarrow> nat \<Rightarrow> 'w \<Rightarrow> (string + fd) \<times> 'w" where
  "socket_connect os host port timeout w =
     (case os_getaddrinfo os (c_str host) (to_string (unat port)) w of
        (Inl text, w1) \<Rightarrow> (Inl (''getaddrinfo failed: '' @ text), w1)
      | (Inr addrs, w1) \<Rightarrow>
          (case connect_addresses os timeout addrs [] w1 of
             (Inr fd, w2) \<Rightarrow> (Inr fd, w2)
           | (Inl last_err_text, w2) \<Rightarrow>
               (Inl (''Connection to '' @ host @ '':'' @ to_string (unat port) @ '' failed: '' @
                     last_err_text), w2)))"

text \<open>The result of \<open>send\<close>, with the error text when it is negative.\<close>

definition socket_send :: "'w os \<Rightarrow> fd \<Rightarrow> byte list \<Rightarrow> 'w \<Rightarrow> (string + nat) \<times> 'w" where
  "socket_send os sock data w =
     (if \<not> socket_is_valid sock then (Inl ''Invalid socket handle'', w)
      else case os_send os sock data w of (sent, w') \<Rightarrow>
        if sent < 0 then (Inl (socket_last_error_text os w'), w') else (Inr (nat sent), w'))"

definition socket_recv :: "'w os \<Rightarrow> fd \<Rightarrow> nat \<Rightarrow> 'w \<Rightarrow> (string + byte list) \<times> 'w" where
  "socket_recv os sock len w =
     (if \<not> socket_is_valid sock then (Inl ''Invalid socket handle'', w)
      else case os_recv os sock len w of
        (None, w') \<Rightarrow> (Inl (socket_last_error_text os w'), w')
      | (Some bytes, w') \<Rightarrow> (Inr bytes, w'))"

definition socket_get_local_port :: "'w os \<Rightarrow> fd \<Rightarrow> 'w \<Rightarrow> u16" where
  "socket_get_local_port os sock w =
     (if \<not> socket_is_valid sock then 0
      else case os_getsockname os sock w of Some (_, _, port) \<Rightarrow> port | None \<Rightarrow> 0)"

definition socket_is_port_available :: "'w os \<Rightarrow> string \<Rightarrow> u16 \<Rightarrow> 'w \<Rightarrow> bool \<times> 'w" where
  "socket_is_port_available os address port w =
     (case socket_create_tcp os (if find_char (CHR '':'') address \<noteq> None then AF_INET6 else AF_INET) w of
        (s, w1) \<Rightarrow>
          if \<not> socket_is_valid s then (False, w1)
          else
            let w2 = snd (socket_set_reuse_addr os s w1) in
            (case socket_bind os s address port w2 of
               (r, w3) \<Rightarrow> (r = Inr (), snd (socket_close os s w3))))"

section \<open>Facts: descriptors\<close>

text \<open>
  What POSIX promises of the descriptors: \<open>held w\<close> are those that the process holds. A new one is not
  among them, \<open>close\<close> gives one back, and no other call changes them.
\<close>

definition descriptors :: "'w os \<Rightarrow> ('w \<Rightarrow> fd set) \<Rightarrow> bool" where
  "descriptors os held \<longleftrightarrow>
     (\<forall>w. INVALID_SOCKET_HANDLE \<notin> held w) \<and>
     (\<forall>family w. case os_socket os family w of (fd, w') \<Rightarrow>
        if fd = INVALID_SOCKET_HANDLE then held w' = held w else fd \<notin> held w \<and> held w' = insert fd (held w)) \<and>
     (\<forall>fd w. case os_accept os fd w of ((client, _), w') \<Rightarrow>
        if client = INVALID_SOCKET_HANDLE then held w' = held w
        else client \<notin> held w \<and> held w' = insert client (held w)) \<and>
     (\<forall>fd w. held (os_close os fd w) = held w - {fd}) \<and>
     (\<forall>fd x w. held (snd (os_setsockopt os fd x w)) = held w) \<and>
     (\<forall>fd x w. held (snd (os_bind os fd x w)) = held w) \<and>
     (\<forall>fd x w. held (snd (os_listen os fd x w)) = held w) \<and>
     (\<forall>fd x w. held (snd (os_select os fd x w)) = held w) \<and>
     (\<forall>h p w. held (snd (os_getaddrinfo os h p w)) = held w) \<and>
     (\<forall>fd x w. held (snd (os_connect os fd x w)) = held w) \<and>
     (\<forall>fd x w. held (snd (os_send os fd x w)) = held w) \<and>
     (\<forall>fd x w. held (snd (os_recv os fd x w)) = held w)"

lemma descriptors_close:
  "descriptors os held \<Longrightarrow> held (os_close os fd w) = held w - {fd}"
  by (simp add: descriptors_def)

lemma descriptors_socket:
  "descriptors os held \<Longrightarrow> os_socket os family w = (fd, w') \<Longrightarrow>
     if fd = INVALID_SOCKET_HANDLE then held w' = held w else fd \<notin> held w \<and> held w' = insert fd (held w)"
  unfolding descriptors_def by (elim conjE allE [where x = family]) (drule spec [where x = w], simp)

lemma descriptors_accept:
  "descriptors os held \<Longrightarrow> os_accept os l w = ((fd, a), w') \<Longrightarrow>
     if fd = INVALID_SOCKET_HANDLE then held w' = held w else fd \<notin> held w \<and> held w' = insert fd (held w)"
  unfolding descriptors_def by (elim conjE allE [where x = l]) (drule spec [where x = w], simp)+

lemma descriptors_same:
  assumes "descriptors os held"
  shows "held (snd (os_setsockopt os fd opt w)) = held w"
    and "held (snd (os_bind os fd addr w)) = held w"
    and "held (snd (os_listen os fd n w)) = held w"
    and "held (snd (os_select os fd n w)) = held w"
    and "held (snd (os_getaddrinfo os h p w)) = held w"
    and "held (snd (os_connect os fd addr w)) = held w"
    and "held (snd (os_send os fd data w)) = held w"
    and "held (snd (os_recv os fd n w)) = held w"
  using assms by (simp_all add: descriptors_def del: split_paired_All)

lemma held_set_timeout:
  "descriptors os held \<Longrightarrow> held (snd (socket_set_timeout os fd t r s w)) = held w"
  by (simp add: socket_set_timeout_def Let_def descriptors_same)

lemma held_close:
  "descriptors os held \<Longrightarrow> held (snd (socket_close os fd w)) = held w - {fd}"
  by (auto simp: socket_close_def descriptors_close socket_is_valid_def) (simp add: descriptors_def)

lemma held_connect_addresses:
  assumes os: "descriptors os held"
  shows "connect_addresses os t addrs e w = (r, w') \<Longrightarrow>
    (case r of Inl _ \<Rightarrow> held w' = held w | Inr fd \<Rightarrow> fd \<noteq> INVALID_SOCKET_HANDLE \<and> fd \<notin> held w \<and> held w' = insert fd (held w))"
proof (induction addrs arbitrary: e w)
  case Nil
  then show ?case by auto
next
  case (Cons addr addrs)
  obtain fd w1 where w1: "os_socket os (fst addr) w = (fd, w1)" by (cases "os_socket os (fst addr) w")
  note new = descriptors_socket [OF os w1]
  show ?case
  proof (cases "fd = INVALID_SOCKET_HANDLE")
    case True
    then show ?thesis using Cons.IH [of e w1] Cons.prems new
      by (simp add: w1 split: sum.splits)
  next
    case False
    define w2 where "w2 = (if 0 < t then snd (socket_set_timeout os fd t True True w1) else w1)"
    obtain ok w3 where w3: "os_connect os fd addr w2 = (ok, w3)" by (cases "os_connect os fd addr w2")
    have w2_held: "held w2 = insert fd (held w)" and "fd \<notin> held w"
      using new False by (auto simp: w2_def held_set_timeout [OF os])
    moreover have "held w3 = held w2" using descriptors_same(6) [OF os, of fd addr w2] w3 by simp
    ultimately have held: "held w3 = insert fd (held w)" "fd \<notin> held w" by simp_all
    show ?thesis
    proof (cases ok)
      case True
      then have "r = Inr fd" "w' = w3" using Cons.prems False w3 by (simp_all add: w1 flip: w2_def)
      then show ?thesis using held False by simp
    next
      case fail: False
      have "connect_addresses os t addrs (socket_last_error_text os w3) (snd (socket_close os fd w3)) = (r, w')"
        using Cons.prems False w3 fail by (simp add: w1 flip: w2_def)
      moreover have "held (snd (socket_close os fd w3)) = held w"
        using held by (simp add: held_close [OF os])
      ultimately show ?thesis
        using Cons.IH [of "socket_last_error_text os w3" "snd (socket_close os fd w3)"]
        by (simp split: sum.splits)
    qed
  qed
qed

lemma held_connect:
  assumes "descriptors os held" "socket_connect os host port timeout w = (r, w')"
  shows "case r of Inl _ \<Rightarrow> held w' = held w
    | Inr fd \<Rightarrow> fd \<noteq> INVALID_SOCKET_HANDLE \<and> fd \<notin> held w \<and> held w' = insert fd (held w)"
proof -
  obtain found w1 where w1: "os_getaddrinfo os (c_str host) (to_string (unat port)) w = (found, w1)"
    by (cases "os_getaddrinfo os (c_str host) (to_string (unat port)) w")
  have same: "held w1 = held w"
    using descriptors_same(5) [OF assms(1), of "c_str host" "to_string (unat port)" w] w1 by simp
  show ?thesis
  proof (cases found)
    case (Inl e)
    then show ?thesis using assms(2) same by (auto simp: socket_connect_def w1)
  next
    case (Inr addrs)
    obtain r2 w2 where w2: "connect_addresses os timeout addrs [] w1 = (r2, w2)"
      by (cases "connect_addresses os timeout addrs [] w1")
    show ?thesis
      using held_connect_addresses [OF assms(1) w2] assms(2) same
      by (auto simp: socket_connect_def w1 Inr w2 split: sum.splits)
  qed
qed

lemma held_accept:
  assumes "descriptors os held" "socket_accept os l timeout w = (r, w')"
  shows "case r of Inl _ \<Rightarrow> held w' = held w
    | Inr (fd, _) \<Rightarrow> fd \<noteq> INVALID_SOCKET_HANDLE \<and> fd \<notin> held w \<and> held w' = insert fd (held w)"
proof (cases "socket_is_valid l")
  case False
  then show ?thesis using assms(2) by (auto simp: socket_accept_def)
next
  case True
  define wait where "wait = (if 0 < timeout then os_select os l timeout w else (True, w))"
  have wait: "held (snd wait) = held w" using descriptors_same(4) [OF assms(1)] by (simp add: wait_def)
  obtain ready w1 where w1: "wait = (ready, w1)" by (cases wait)
  obtain fd addr w2 where w2: "os_accept os l w1 = ((fd, addr), w2)"
    by (metis prod.exhaust)
  show ?thesis
    using assms(2) True descriptors_accept [OF assms(1) w2] wait
    unfolding socket_accept_def wait_def [symmetric] w1
    by (cases ready) (auto simp: w2 split: if_split_asm)
qed

text \<open>A small system for the examples: its world is the list of the descriptors that are held.\<close>

definition sample_os :: "fd list os" where
  "sample_os =
     \<lparr>os_socket = (\<lambda>_ w. let fd = (if w = [] then 3 else Max (set w) + 1) in (fd, fd # w)),
      os_setsockopt = (\<lambda>_ _ w. (True, w)), os_bind = (\<lambda>_ _ w. (True, w)), os_listen = (\<lambda>_ _ w. (True, w)),
      os_select = (\<lambda>_ _ w. (True, w)),
      os_accept = (\<lambda>_ w. let fd = (if w = [] then 3 else Max (set w) + 1)
                         in ((fd, AF_INET, [127, 0, 0, 1], 4242), fd # w)),
      os_getaddrinfo = (\<lambda>_ _ w. (Inr [(AF_INET6, [], 1), (AF_INET, [127, 0, 0, 1], 1)], w)),
      os_connect = (\<lambda>_ addr w. (fst addr = AF_INET, w)),
      os_send = (\<lambda>_ data w. (int (length data), w)), os_recv = (\<lambda>_ _ w. (Some [], w)),
      os_close = (\<lambda>fd w. filter (\<lambda>x. x \<noteq> fd) w), os_getsockname = (\<lambda>_ _. None), os_errno = (\<lambda>_. 111),
      os_strerror = (\<lambda>_. ''Connection refused''), os_pton = (\<lambda>_ _. None), os_ntop = (\<lambda>_ _. [])\<rparr>"

definition sample_held :: "fd list \<Rightarrow> fd set" where
  "sample_held w = {fd \<in> set w. fd \<noteq> INVALID_SOCKET_HANDLE}"

lemma Max_Suc_fresh: "(if w = [] then 3 else Max (set w) + 1) \<notin> set (w :: int list)"
proof (cases "w = []")
  case False
  then have "\<forall>x\<in>set w. x \<le> Max (set w)" by simp
  then show ?thesis using False by (metis add.commute less_add_one not_less)
qed simp

lemma sample_descriptors: "descriptors sample_os sample_held"
  using Max_Suc_fresh
  by (auto simp: descriptors_def sample_os_def sample_held_def Let_def INVALID_SOCKET_HANDLE_def
      split: if_splits)

section \<open>Property\<close>

text \<open>
  Connecting to a host tries its addresses one after the other and keeps no descriptor of a failed
  attempt: on success the process holds exactly one descriptor more, the one of the returned handle; on
  failure it holds those it had.
\<close>

theorem connect_keeps_no_descriptor:
  assumes "descriptors os held" "socket_connect os host port timeout w = (r, w')"
  shows "case r of Inl _ \<Rightarrow> held w' = held w
    | Inr fd \<Rightarrow> fd \<noteq> INVALID_SOCKET_HANDLE \<and> fd \<notin> held w \<and> held w' = insert fd (held w)"
  by (rule held_connect [OF assms])

lemma connect_keeps_no_descriptor_witness:
  "socket_connect sample_os ''host'' 1 0 [5] = (Inr 6, [6, 5]) \<and> sample_held [6, 5] = insert 6 (sample_held [5])"
proof -
  have run: "socket_connect sample_os ''host'' 1 0 [5] = (Inr 6, [6, 5])"
    by (simp add: socket_connect_def sample_os_def INVALID_SOCKET_HANDLE_def socket_close_def
        socket_is_valid_def)
  from connect_keeps_no_descriptor [OF sample_descriptors run] run show ?thesis by simp
qed

end
