(* ===== verification/Tls.thy ===== *)
theory Tls
  imports Socket
begin

text \<open>
  Mutual TLS between nodes: \<open>include/crypto/tls.hpp\<close> and \<open>src/crypto/tls.cpp\<close>. A node has an Ed25519
  key, presents a self-signed certificate of it and is known by the SHA-256 digest of its public key.
  OpenSSL is a parameter: a record of the calls that the code makes. Objects that OpenSSL allocates are
  numbers, a null pointer is \<open>None\<close>. The pointers that the code tests (\<open>ctx\<close>, \<open>session\<close>) are never null
  here. Shown: a handshake succeeds only with the peer that the digest names and otherwise frees the
  connection, certificates that nodes make pass the check that peers do, and \<open>tls_send\<close> writes everything
  or fails.
\<close>

section \<open>The library\<close>

text \<open>
  A certificate: what is signed, and the signature. Names have a common name only; the times are absolute
  seconds.
\<close>

record 'k x509_body =
  xb_version :: nat
  xb_serial :: u64
  xb_not_before :: int
  xb_not_after :: int
  xb_public_key :: 'k
  xb_subject :: string
  xb_issuer :: string

record ('k, 's) x509 =
  x_body :: "'k x509_body"
  x_signature :: 's

datatype tls_role = Server | Client

text \<open>
  \<open>x509_alloc\<close> tells whether the library can allocate a certificate and its fields. \<open>ssl_read\<close> gives the
  bytes read, or a result that is not positive on the left.
\<close>

record ('w, 'k, 's) ssl_lib =
  key_is_ed25519 :: "'k \<Rightarrow> bool"
  key_raw_public :: "'k \<Rightarrow> byte list option"
  digest_sha256 :: "byte list \<Rightarrow> byte list option"
  x509_alloc :: "'w \<Rightarrow> bool"
  x509_sign :: "'k x509_body \<Rightarrow> 'k \<Rightarrow> 's option"
  x509_verify :: "('k, 's) x509 \<Rightarrow> 'k \<Rightarrow> bool"
  current_time :: "'w \<Rightarrow> int"
  ctx_new :: "tls_role \<Rightarrow> 'w \<Rightarrow> nat option \<times> 'w"
  ctx_set_min_tls13 :: "nat \<Rightarrow> 'w \<Rightarrow> bool \<times> 'w"
  ctx_set_max_tls13 :: "nat \<Rightarrow> 'w \<Rightarrow> bool \<times> 'w"
  ctx_use_certificate :: "nat \<Rightarrow> ('k, 's) x509 \<Rightarrow> 'w \<Rightarrow> bool \<times> 'w"
  ctx_use_key :: "nat \<Rightarrow> 'k option \<Rightarrow> 'w \<Rightarrow> bool \<times> 'w"
  ctx_check_key :: "nat \<Rightarrow> 'w \<Rightarrow> bool"
  ctx_set_verify :: "nat \<Rightarrow> 'w \<Rightarrow> 'w"
  ctx_certificate :: "nat \<Rightarrow> 'w \<Rightarrow> ('k, 's) x509 option"
  ctx_free :: "nat \<Rightarrow> 'w \<Rightarrow> 'w"
  ssl_new :: "nat \<Rightarrow> 'w \<Rightarrow> nat option \<times> 'w"
  ssl_set_fd :: "nat \<Rightarrow> fd \<Rightarrow> 'w \<Rightarrow> bool \<times> 'w"
  ssl_free :: "nat \<Rightarrow> 'w \<Rightarrow> 'w"
  ssl_shutdown :: "nat \<Rightarrow> 'w \<Rightarrow> 'w"
  ssl_is_server :: "nat \<Rightarrow> 'w \<Rightarrow> bool"
  ssl_accept :: "nat \<Rightarrow> 'w \<Rightarrow> int \<times> 'w"
  ssl_connect :: "nat \<Rightarrow> 'w \<Rightarrow> int \<times> 'w"
  ssl_get_error :: "nat \<Rightarrow> int \<Rightarrow> 'w \<Rightarrow> int"
  ssl_error_queue :: "'w \<Rightarrow> string list \<times> 'w"
  ssl_peer_certificate :: "nat \<Rightarrow> 'w \<Rightarrow> ('k, 's) x509 option"
  ssl_verify_result :: "nat \<Rightarrow> 'w \<Rightarrow> int"
  ssl_verify_text :: "int \<Rightarrow> string"
  ssl_write :: "nat \<Rightarrow> byte list \<Rightarrow> 'w \<Rightarrow> int \<times> 'w"
  ssl_read :: "nat \<Rightarrow> nat \<Rightarrow> 'w \<Rightarrow> (int + byte list) \<times> 'w"

definition X509_V_OK :: int where "X509_V_OK = 0"
definition SSL_ERROR_SYSCALL :: int where "SSL_ERROR_SYSCALL = 5"
definition SSL_ERROR_ZERO_RETURN :: int where "SSL_ERROR_ZERO_RETURN = 6"

section \<open>Data\<close>

record 'k tls_config =
  tc_identity_key :: "'k option"
  tc_identity_id :: node_id
  tc_generation :: u64

record 'k tls_context =
  cx_native :: "nat option"
  cx_role :: tls_role
  cx_config :: "'k tls_config"

record tls_session =
  ts_ssl :: "nat option"
  ts_socket :: fd
  ts_peer_id :: node_id
  ts_peer_pubkey :: public_key
  ts_established :: bool

definition empty_tls_session :: tls_session where
  "empty_tls_session =
     \<lparr>ts_ssl = None, ts_socket = INVALID_SOCKET_HANDLE, ts_peer_id = zero_node_id,
      ts_peer_pubkey = zero_public_key, ts_established = False\<rparr>"

definition empty_tls_context :: "'k tls_context" where
  "empty_tls_context =
     \<lparr>cx_native = None, cx_role = Client,
      cx_config = \<lparr>tc_identity_key = None, tc_identity_id = zero_node_id, tc_generation = 1\<rparr>\<rparr>"

text \<open>An \<open>error\<close> pointer is \<open>None\<close> when null; writing through it needs a pointer.\<close>

abbreviation set_error :: "string option \<Rightarrow> string \<Rightarrow> string option" where
  "set_error err message \<equiv> map_option (\<lambda>_. message) err"

section \<open>Certificates\<close>

fun join_errors :: "string list \<Rightarrow> string" where
  "join_errors [] = []"
| "join_errors [e] = e"
| "join_errors (e # es) = e @ '' | '' @ join_errors es"

definition get_openssl_errors :: "('w, 'k, 's) ssl_lib \<Rightarrow> 'w \<Rightarrow> string \<times> 'w" where
  "get_openssl_errors lib w =
     (case ssl_error_queue lib w of (errors, w') \<Rightarrow>
        let result = join_errors errors in
        (if result = [] then ''No OpenSSL error details available'' else result, w'))"

text \<open>The details are only asked for when there is an \<open>error\<close> to write them to.\<close>

definition error_details :: "('w, 'k, 's) ssl_lib \<Rightarrow> string option \<Rightarrow> 'w \<Rightarrow> string \<times> 'w" where
  "error_details lib err w = (if err = None then ([], w) else get_openssl_errors lib w)"

text \<open>The verdict on a peer's certificate at a depth of its chain; \<open>None\<close> is a missing certificate.\<close>

definition verify_self_signed_peer ::
  "('w, 'k, 's) ssl_lib \<Rightarrow> 'w \<Rightarrow> ('k, 's) x509 option \<Rightarrow> nat \<Rightarrow> bool" where
  "verify_self_signed_peer lib w certificate depth =
     (case certificate of
        None \<Rightarrow> False
      | Some cert \<Rightarrow>
          let body = x_body cert;
              before_ok = xb_not_before body \<le> current_time lib w;
              after_ok = current_time lib w < xb_not_after body
          in if depth \<noteq> 0 \<or> \<not> before_ok \<or> \<not> after_ok \<or> xb_subject body \<noteq> xb_issuer body
             then False
             else
               let key = xb_public_key body in
               if \<not> key_is_ed25519 lib key \<or> \<not> x509_verify lib cert key then False else True)"

definition make_self_signed_certificate ::
  "('w, 'k, 's) ssl_lib \<Rightarrow> 'k tls_config \<Rightarrow> string option \<Rightarrow> 'w \<Rightarrow>
     ('k, 's) x509 option \<times> string option \<times> 'w" where
  "make_self_signed_certificate lib config err w =
     (case tc_identity_key config of
        None \<Rightarrow>
          (case error_details lib err w of (details, w1) \<Rightarrow>
             (None, set_error err (''Cannot create in-memory Ed25519 certificate: '' @ details), w1))
      | Some key \<Rightarrow>
          if \<not> key_is_ed25519 lib key \<or> \<not> x509_alloc lib w
          then (case error_details lib err w of (details, w1) \<Rightarrow>
             (None, set_error err (''Cannot create in-memory Ed25519 certificate: '' @ details), w1))
          else
            let common_name = hex (tc_identity_id config);
                body = \<lparr>xb_version = 2, xb_serial = tc_generation config,
                        xb_not_before = current_time lib w - 60,
                        xb_not_after = current_time lib w + 3650 * 24 * 60 * 60,
                        xb_public_key = key, xb_subject = common_name, xb_issuer = common_name\<rparr>
            in (case x509_sign lib body key of
                  None \<Rightarrow>
                    (case error_details lib err w of (details, w1) \<Rightarrow>
                       (None, set_error err (''Cannot sign in-memory Ed25519 certificate: '' @ details), w1))
                | Some sig \<Rightarrow> (Some \<lparr>x_body = body, x_signature = sig\<rparr>, err, w)))"

section \<open>Contexts\<close>

definition tls_context_destroy ::
  "('w, 'k, 's) ssl_lib \<Rightarrow> 'k tls_context \<Rightarrow> 'w \<Rightarrow> 'k tls_context \<times> 'w" where
  "tls_context_destroy lib ctx w =
     (case cx_native ctx of
        None \<Rightarrow> (ctx, w)
      | Some native \<Rightarrow> (ctx\<lparr>cx_native := None\<rparr>, ctx_free lib native w))"

text \<open>The two protocol versions; the second is not set when the first fails.\<close>

definition enforce_tls13 :: "('w, 'k, 's) ssl_lib \<Rightarrow> nat \<Rightarrow> 'w \<Rightarrow> bool \<times> 'w" where
  "enforce_tls13 lib native w =
     (case ctx_set_min_tls13 lib native w of
        (False, w1) \<Rightarrow> (False, w1)
      | (True, w1) \<Rightarrow> ctx_set_max_tls13 lib native w1)"

definition configure_certificate ::
  "('w, 'k, 's) ssl_lib \<Rightarrow> nat \<Rightarrow> ('k, 's) x509 option \<Rightarrow> 'k option \<Rightarrow> 'w \<Rightarrow> bool \<times> 'w" where
  "configure_certificate lib native certificate key w =
     (case certificate of
        None \<Rightarrow> (False, w)
      | Some cert \<Rightarrow>
          (case ctx_use_certificate lib native cert w of
             (False, w1) \<Rightarrow> (False, w1)
           | (True, w1) \<Rightarrow>
               (case ctx_use_key lib native key w1 of
                  (False, w2) \<Rightarrow> (False, w2)
                | (True, w2) \<Rightarrow> (ctx_check_key lib native w2, w2))))"

text \<open>The result, the context, the content of \<open>error\<close> and the world.\<close>

definition tls_context_init ::
  "('w, 'k, 's) ssl_lib \<Rightarrow> 'k tls_context \<Rightarrow> tls_role \<Rightarrow> 'k tls_config \<Rightarrow> string option \<Rightarrow> 'w \<Rightarrow>
     bool \<times> 'k tls_context \<times> string option \<times> 'w" where
  "tls_context_init lib ctx0 role config err w =
     (case tls_context_destroy lib ctx0 w of (ctx, w1) \<Rightarrow>
      case ctx_new lib role w1 of
        (None, w2) \<Rightarrow>
          (case error_details lib err w2 of (details, w3) \<Rightarrow>
             (False, ctx, set_error err (''Failed to allocate SSL_CTX: '' @ details), w3))
      | (Some native, w2) \<Rightarrow>
          (case enforce_tls13 lib native w2 of
             (False, w3) \<Rightarrow>
               (case error_details lib err w3 of (details, w4) \<Rightarrow>
                  (False, ctx, set_error err (''Failed to enforce TLS 1.3: '' @ details),
                   ctx_free lib native w4))
           | (True, w3) \<Rightarrow>
               (case make_self_signed_certificate lib config err w3 of (certificate, err1, w4) \<Rightarrow>
                case configure_certificate lib native certificate (tc_identity_key config) w4 of
                  (False, w5) \<Rightarrow>
                    if err1 = Some []
                    then (case get_openssl_errors lib w5 of (details, w6) \<Rightarrow>
                       (False, ctx,
                        Some (''Cannot configure in-memory Ed25519 certificate: '' @ details),
                        ctx_free lib native w6))
                    else (False, ctx, err1, ctx_free lib native w5)
                | (True, w5) \<Rightarrow>
                    (True, ctx\<lparr>cx_native := Some native, cx_role := role, cx_config := config\<rparr>, err1,
                     ctx_set_verify lib native w5))))"

definition tls_context_matches_identity ::
  "('w, 'k, 's) ssl_lib \<Rightarrow> 'k tls_context \<Rightarrow> node_id \<Rightarrow> 'w \<Rightarrow> string + unit" where
  "tls_context_matches_identity lib ctx identity_id w =
     (case cx_native ctx of
        None \<Rightarrow> Inl ''TLS context is not initialized''
      | Some native \<Rightarrow>
          (case map_option (xb_public_key \<circ> x_body) (ctx_certificate lib native w) of
             None \<Rightarrow> Inl ''Local TLS certificate must contain an Ed25519 key''
           | Some public_key \<Rightarrow>
               if \<not> key_is_ed25519 lib public_key
               then Inl ''Local TLS certificate must contain an Ed25519 key''
               else
                 (case key_raw_public lib public_key of
                    None \<Rightarrow> Inl ''Failed to export local TLS Ed25519 public key''
                  | Some raw \<Rightarrow>
                      if length raw \<noteq> 32 then Inl ''Failed to export local TLS Ed25519 public key''
                      else
                        (case digest_sha256 lib raw of
                           None \<Rightarrow> Inl ''Failed to derive Node ID from local TLS certificate''
                         | Some derived_id \<Rightarrow>
                             if length derived_id \<noteq> 32
                             then Inl ''Failed to derive Node ID from local TLS certificate''
                             else if derived_id \<noteq> identity_id
                             then Inl ''Local TLS certificate public key does not match identity''
                             else Inr ()))))"

section \<open>Sessions\<close>

definition tls_close :: "('w, 'k, 's) ssl_lib \<Rightarrow> tls_session \<Rightarrow> 'w \<Rightarrow> tls_session \<times> 'w" where
  "tls_close lib session w =
     (case ts_ssl session of
        None \<Rightarrow> (session\<lparr>ts_established := False\<rparr>, w)
      | Some ssl \<Rightarrow>
          (session\<lparr>ts_ssl := None, ts_established := False\<rparr>, ssl_free lib ssl (ssl_shutdown lib ssl w)))"

definition tls_destroy ::
  "'w os \<Rightarrow> ('w, 'k, 's) ssl_lib \<Rightarrow> tls_session \<Rightarrow> 'w \<Rightarrow> tls_session \<times> 'w" where
  "tls_destroy os lib session w =
     (case tls_close lib session w of (session1, w1) \<Rightarrow>
      case socket_close os (ts_socket session1) w1 of (sock, w2) \<Rightarrow>
        (session1\<lparr>ts_socket := sock\<rparr>, w2))"

definition tls_session_init ::
  "'w os \<Rightarrow> ('w, 'k, 's) ssl_lib \<Rightarrow> tls_session \<Rightarrow> 'k tls_context \<Rightarrow> fd \<Rightarrow> string option \<Rightarrow> 'w \<Rightarrow>
     bool \<times> tls_session \<times> string option \<times> 'w" where
  "tls_session_init os lib session0 ctx socket err w =
     (case tls_destroy os lib session0 w of (session, w1) \<Rightarrow>
      case cx_native ctx of
        None \<Rightarrow> (False, session, set_error err ''Invalid or uninitialized TlsContext'', w1)
      | Some native \<Rightarrow>
          (case ssl_new lib native w1 of
             (None, w2) \<Rightarrow>
               (case error_details lib err w2 of (details, w3) \<Rightarrow>
                  (False, session, set_error err (''Failed to instantiate SSL: '' @ details), w3))
           | (Some ssl, w2) \<Rightarrow>
               (case ssl_set_fd lib ssl socket w2 of
                  (False, w3) \<Rightarrow>
                    (case error_details lib err w3 of (details, w4) \<Rightarrow>
                       (False, session, set_error err (''Failed to associate socket with SSL: '' @ details),
                        ssl_free lib ssl w4))
                | (True, w3) \<Rightarrow>
                    (True,
                     session\<lparr>ts_ssl := Some ssl, ts_socket := socket, ts_peer_id := zero_node_id,
                             ts_peer_pubkey := zero_public_key, ts_established := False\<rparr>, err, w3))))"

text \<open>
  What the handshake learns of the peer after the exchange: its certificate must be there and verified,
  with an Ed25519 key of 32 bytes.
\<close>

definition peer_identity ::
  "('w, 'k, 's) ssl_lib \<Rightarrow> nat \<Rightarrow> 'w \<Rightarrow> string + (node_id \<times> public_key)" where
  "peer_identity lib ssl w =
     (case ssl_peer_certificate lib ssl w of
        None \<Rightarrow> Inl ''Mutual TLS required: peer failed to present an X.509 certificate''
      | Some peer_cert \<Rightarrow>
          if ssl_verify_result lib ssl w \<noteq> X509_V_OK
          then Inl (''Peer certificate verification failed: '' @
                    ssl_verify_text lib (ssl_verify_result lib ssl w))
          else
            let pubkey = xb_public_key (x_body peer_cert) in
            if \<not> key_is_ed25519 lib pubkey
            then Inl ''Peer certificate public key algorithm is not Ed25519''
            else
              (case key_raw_public lib pubkey of
                 None \<Rightarrow> Inl ''Failed to extract 32-byte raw Ed25519 public key from peer certificate''
               | Some raw_pub \<Rightarrow>
                   if length raw_pub \<noteq> 32
                   then Inl ''Failed to extract 32-byte raw Ed25519 public key from peer certificate''
                   else
                     (case digest_sha256 lib raw_pub of
                        None \<Rightarrow> Inl ''Failed to calculate SHA-256 Node ID from peer public key''
                      | Some derived_id \<Rightarrow>
                          if length derived_id \<noteq> 32
                          then Inl ''Failed to calculate SHA-256 Node ID from peer public key''
                          else Inr (derived_id, raw_pub))))"

definition tls_handshake ::
  "'w os \<Rightarrow> ('w, 'k, 's) ssl_lib \<Rightarrow> tls_session \<Rightarrow> nat option \<Rightarrow> string option \<Rightarrow> 'w \<Rightarrow>
     bool \<times> tls_session \<times> string option \<times> 'w" where
  "tls_handshake os lib session timeout err w =
     (case ts_ssl session of
        None \<Rightarrow> (False, session, set_error err ''TLS session is not initialized'', w)
      | Some ssl \<Rightarrow>
          let w1 = (case timeout of
                      None \<Rightarrow> w
                    | Some t \<Rightarrow> snd (socket_set_timeout os (ts_socket session) t True True w))
          in (case (if ssl_is_server lib ssl w1 then ssl_accept lib ssl w1 else ssl_connect lib ssl w1) of
               (res, w2) \<Rightarrow>
                 if res \<le> 0
                 then (case get_openssl_errors lib w2 of (details, w3) \<Rightarrow>
                       case tls_close lib session w3 of (session', w4) \<Rightarrow>
                         (False, session', set_error err (''TLS handshake failed: '' @ details), w4))
                 else
                   (case peer_identity lib ssl w2 of
                      Inl message \<Rightarrow>
                        (case tls_close lib session w2 of (session', w3) \<Rightarrow>
                           (False, session', set_error err message, w3))
                    | Inr (derived_id, raw_pub) \<Rightarrow>
                        (True,
                         session\<lparr>ts_peer_id := derived_id, ts_peer_pubkey := raw_pub, ts_established := True\<rparr>,
                         err, w2))))"

section \<open>Input and output\<close>

function tls_write_loop ::
  "('w, 'k, 's) ssl_lib \<Rightarrow> nat \<Rightarrow> byte list \<Rightarrow> 'w \<Rightarrow> (int + unit) \<times> 'w" where
  "tls_write_loop lib ssl data w =
     (if data = [] then (Inr (), w)
      else case ssl_write lib ssl data w of (written, w1) \<Rightarrow>
        if written \<le> 0 then (Inl written, w1)
        else tls_write_loop lib ssl (drop (nat written) data) w1)"
  by pat_completeness auto

termination tls_write_loop
  by (relation "measure (\<lambda>(lib, ssl, data, w). length data)") (auto simp: not_le)

declare tls_write_loop.simps [simp del]

text \<open>\<open>True\<close> when everything was written, \<open>False\<close> for the result -1.\<close>

definition tls_send ::
  "('w, 'k, 's) ssl_lib \<Rightarrow> tls_session \<Rightarrow> byte list \<Rightarrow> string option \<Rightarrow> 'w \<Rightarrow>
     bool \<times> tls_session \<times> string option \<times> 'w" where
  "tls_send lib session data err w =
     (case (ts_ssl session, ts_established session) of
        (Some ssl, True) \<Rightarrow>
          (case tls_write_loop lib ssl data w of
             (Inr _, w1) \<Rightarrow> (True, session, err, w1)
           | (Inl written, w1) \<Rightarrow>
               let code = ssl_get_error lib ssl written w1 in
               (case error_details lib err w1 of (details, w2) \<Rightarrow>
                case tls_close lib session w2 of (session', w3) \<Rightarrow>
                  (False, session',
                   set_error err (''SSL_write failed (code '' @ to_string (nat code) @ ''): '' @ details), w3)))
      | _ \<Rightarrow> (False, session, set_error err ''Cannot send data: TLS session not established'', w))"

text \<open>The bytes read; the peer closed the connection (result 0 with \<open>connection_closed\<close>); or -1.\<close>

datatype tls_read = TlsBytes "byte list" | TlsPeerClosed | TlsFailed

definition tls_receive ::
  "'w os \<Rightarrow> ('w, 'k, 's) ssl_lib \<Rightarrow> tls_session \<Rightarrow> nat \<Rightarrow> string option \<Rightarrow> 'w \<Rightarrow>
     tls_read \<times> tls_session \<times> string option \<times> 'w" where
  "tls_receive os lib session len err w =
     (case (ts_ssl session, ts_established session) of
        (Some ssl, True) \<Rightarrow>
          if len = 0 then (TlsBytes [], session, err, w)
          else
            (case ssl_read lib ssl len w of
               (Inr bytes, w1) \<Rightarrow> (TlsBytes bytes, session, err, w1)
             | (Inl bytes_read, w1) \<Rightarrow>
                 let code = ssl_get_error lib ssl bytes_read w1 in
                 if code = SSL_ERROR_ZERO_RETURN
                 then (case tls_close lib session w1 of (session', w2) \<Rightarrow>
                         (TlsPeerClosed, session', err, w2))
                 else if code = SSL_ERROR_SYSCALL
                 then
                   if socket_is_timeout_error os w1
                   then (TlsFailed, session, set_error err ''TLS read timed out via socket timeout'', w1)
                   else (case tls_close lib session w1 of (session', w2) \<Rightarrow>
                           (TlsFailed, session',
                            set_error err (''TLS socket read error: '' @ socket_last_error_text os w1), w2))
                 else
                   (case error_details lib err w1 of (details, w2) \<Rightarrow>
                    case tls_close lib session w2 of (session', w3) \<Rightarrow>
                      (TlsFailed, session',
                       set_error err (''SSL_read failed (code '' @ to_string (nat code) @ ''): '' @ details),
                       w3)))
      | _ \<Rightarrow> (TlsFailed, session, set_error err ''Cannot receive data: TLS session not established'', w))"

definition tls_is_open :: "tls_session \<Rightarrow> bool" where
  "tls_is_open session \<longleftrightarrow>
     ts_ssl session \<noteq> None \<and> ts_established session \<and> socket_is_valid (ts_socket session)"

section \<open>Facts\<close>

lemma peer_identity_facts:
  assumes "peer_identity lib ssl w = Inr (nid, raw)"
  shows "\<exists>cert. ssl_peer_certificate lib ssl w = Some cert \<and> ssl_verify_result lib ssl w = X509_V_OK \<and>
    key_is_ed25519 lib (xb_public_key (x_body cert)) \<and>
    key_raw_public lib (xb_public_key (x_body cert)) = Some raw \<and> is_public_key raw \<and>
    digest_sha256 lib raw = Some nid \<and> is_node_id nid"
  using assms by (auto simp: peer_identity_def Let_def split: option.splits if_splits)

lemma tls_close_facts:
  "tls_close lib s w = (s', w') \<Longrightarrow> ts_ssl s' = None \<and> \<not> ts_established s' \<and> ts_socket s' = ts_socket s"
  by (auto simp: tls_close_def split: option.splits)

text \<open>The proven key stays with the session.\<close>

lemma tls_close_key: "tls_close lib s w = (s', w') \<Longrightarrow> ts_peer_pubkey s' = ts_peer_pubkey s"
  by (auto simp: tls_close_def split: option.splits)

lemma tls_destroy_key: "tls_destroy os lib s w = (s', w') \<Longrightarrow> ts_peer_pubkey s' = ts_peer_pubkey s"
  by (auto simp: tls_destroy_def dest!: tls_close_key split: prod.splits)

lemma tls_send_key: "tls_send lib s data err w = (ok, s', err', w') \<Longrightarrow> ts_peer_pubkey s' = ts_peer_pubkey s"
  by (auto simp: tls_send_def Let_def dest!: tls_close_key split: prod.splits option.splits bool.splits sum.splits)

lemma tls_receive_key: "tls_receive os lib s n err w = (r, s', err', w') \<Longrightarrow> ts_peer_pubkey s' = ts_peer_pubkey s"
  by (auto simp: tls_receive_def Let_def dest!: tls_close_key
      split: prod.splits option.splits bool.splits sum.splits if_splits)

lemma tls_destroy_facts:
  "ts_ssl (fst (tls_destroy os lib s w)) = None \<and> \<not> ts_established (fst (tls_destroy os lib s w)) \<and>
   ts_socket (fst (tls_destroy os lib s w)) = INVALID_SOCKET_HANDLE"
  using tls_close_facts [of lib s w "fst (tls_close lib s w)" "snd (tls_close lib s w)"]
  by (auto simp: tls_destroy_def socket_close_def socket_is_valid_def split: prod.splits)

text \<open>The outcome of a handshake on an initialised session.\<close>

lemma tls_handshake_cases:
  assumes "tls_handshake os lib s timeout err w = (ok, s', err', w')" "ts_ssl s = Some ssl"
  shows "if ok
    then (\<exists>nid raw. peer_identity lib ssl w' = Inr (nid, raw) \<and> err' = err \<and>
            s' = s\<lparr>ts_peer_id := nid, ts_peer_pubkey := raw, ts_established := True\<rparr>)
    else ts_ssl s' = None \<and> \<not> ts_established s' \<and> ts_socket s' = ts_socket s"
proof -
  define w1 where "w1 = (case timeout of None \<Rightarrow> w
    | Some t \<Rightarrow> snd (socket_set_timeout os (ts_socket s) t True True w))"
  obtain res w2 where w2: "(if ssl_is_server lib ssl w1 then ssl_accept lib ssl w1 else ssl_connect lib ssl w1)
      = (res, w2)" by fastforce
  have unfolded: "tls_handshake os lib s timeout err w =
      (if res \<le> 0
       then (case get_openssl_errors lib w2 of (details, w3) \<Rightarrow>
             case tls_close lib s w3 of (session', w4) \<Rightarrow>
               (False, session', set_error err (''TLS handshake failed: '' @ details), w4))
       else (case peer_identity lib ssl w2 of
               Inl message \<Rightarrow> (case tls_close lib s w2 of (session', w3) \<Rightarrow>
                 (False, session', set_error err message, w3))
             | Inr (nid, raw_pub) \<Rightarrow>
                 (True, s\<lparr>ts_peer_id := nid, ts_peer_pubkey := raw_pub, ts_established := True\<rparr>, err, w2)))"
    unfolding tls_handshake_def assms(2) option.case Let_def w1_def [symmetric] w2 prod.case by (rule refl)
  show ?thesis
  proof (cases "res \<le> 0")
    case True
    then show ?thesis
      using assms(1) unfolding unfolded by (auto dest: tls_close_facts split: prod.splits)
  next
    case False
    then show ?thesis
      using assms(1) unfolding unfolded
      by (cases "peer_identity lib ssl w2") (auto dest: tls_close_facts split: prod.splits)
  qed
qed

text \<open>A library for the examples: a key is a byte, its digest the next byte, its signature the key itself.\<close>

definition sample_certificate :: "byte \<Rightarrow> (byte, byte) x509" where
  "sample_certificate k =
     \<lparr>x_body = \<lparr>xb_version = 2, xb_serial = 1, xb_not_before = 940, xb_not_after = 315361000,
                xb_public_key = k, xb_subject = hex (replicate 32 (k + 1)),
                xb_issuer = hex (replicate 32 (k + 1))\<rparr>, x_signature = k\<rparr>"

definition sample_lib :: "('w, byte, byte) ssl_lib" where
  "sample_lib =
     \<lparr>key_is_ed25519 = (\<lambda>_. True), key_raw_public = (\<lambda>k. Some (replicate 32 k)),
      digest_sha256 = (\<lambda>bytes. Some (map (\<lambda>b. b + 1) bytes)), x509_alloc = (\<lambda>_. True),
      x509_sign = (\<lambda>_ k. Some k), x509_verify = (\<lambda>c k. x_signature c = k), current_time = (\<lambda>_. 1000),
      ctx_new = (\<lambda>_ w. (Some 1, w)), ctx_set_min_tls13 = (\<lambda>_ w. (True, w)),
      ctx_set_max_tls13 = (\<lambda>_ w. (True, w)), ctx_use_certificate = (\<lambda>_ _ w. (True, w)),
      ctx_use_key = (\<lambda>_ _ w. (True, w)), ctx_check_key = (\<lambda>_ _. True), ctx_set_verify = (\<lambda>_ w. w),
      ctx_certificate = (\<lambda>_ _. Some (sample_certificate 7)), ctx_free = (\<lambda>_ w. w),
      ssl_new = (\<lambda>_ w. (Some 2, w)), ssl_set_fd = (\<lambda>_ _ w. (True, w)), ssl_free = (\<lambda>_ w. w),
      ssl_shutdown = (\<lambda>_ w. w), ssl_is_server = (\<lambda>_ _. True), ssl_accept = (\<lambda>_ w. (1, w)),
      ssl_connect = (\<lambda>_ w. (1, w)), ssl_get_error = (\<lambda>_ _ _. 1), ssl_error_queue = (\<lambda>w. ([], w)),
      ssl_peer_certificate = (\<lambda>_ _. Some (sample_certificate 7)), ssl_verify_result = (\<lambda>_ _. 0),
      ssl_verify_text = (\<lambda>_. []), ssl_write = (\<lambda>_ data w. (int (length data), w)),
      ssl_read = (\<lambda>_ _ w. (Inl 0, w))\<rparr>"

section \<open>Properties\<close>

text \<open>
  A handshake that succeeds has established a session with a peer whose verified certificate holds the
  Ed25519 key stored in the session and whose node id is the SHA-256 digest of that key. A handshake that
  fails leaves no connection object and no established session.
\<close>

theorem handshake_authenticates:
  assumes "tls_handshake os lib s timeout err w = (ok, s', err', w')" "ts_ssl s = Some ssl"
  shows "(ok \<longrightarrow> ts_established s' \<and> ts_ssl s' = Some ssl \<and> ts_socket s' = ts_socket s \<and>
      (\<exists>cert. ssl_peer_certificate lib ssl w' = Some cert \<and> ssl_verify_result lib ssl w' = X509_V_OK \<and>
         key_is_ed25519 lib (xb_public_key (x_body cert)) \<and>
         key_raw_public lib (xb_public_key (x_body cert)) = Some (ts_peer_pubkey s') \<and>
         digest_sha256 lib (ts_peer_pubkey s') = Some (ts_peer_id s') \<and>
         is_node_id (ts_peer_id s') \<and> is_public_key (ts_peer_pubkey s'))) \<and>
    (\<not> ok \<longrightarrow> \<not> ts_established s' \<and> ts_ssl s' = None)"
proof (cases ok)
  case True
  then obtain nid raw where "peer_identity lib ssl w' = Inr (nid, raw)"
    "s' = s\<lparr>ts_peer_id := nid, ts_peer_pubkey := raw, ts_established := True\<rparr>"
    using tls_handshake_cases [OF assms] by auto
  then show ?thesis using peer_identity_facts [of lib ssl w' nid raw] assms(2) True by auto
next
  case False
  then show ?thesis using tls_handshake_cases [OF assms] by simp
qed

lemma handshake_authenticates_witness:
  "tls_handshake sample_os sample_lib (empty_tls_session\<lparr>ts_ssl := Some 2\<rparr>) None None [] =
     (True, \<lparr>ts_ssl = Some 2, ts_socket = INVALID_SOCKET_HANDLE, ts_peer_id = replicate 32 8,
             ts_peer_pubkey = replicate 32 7, ts_established = True\<rparr>, None, []) \<and>
   is_node_id (replicate 32 (8 :: byte))"
proof -
  have run: "tls_handshake sample_os sample_lib (empty_tls_session\<lparr>ts_ssl := Some 2\<rparr>) None None [] =
     (True, \<lparr>ts_ssl = Some 2, ts_socket = INVALID_SOCKET_HANDLE, ts_peer_id = replicate 32 8,
             ts_peer_pubkey = replicate 32 7, ts_established = True\<rparr>, None, [])"
    by (simp add: tls_handshake_def sample_lib_def empty_tls_session_def peer_identity_def
        sample_certificate_def X509_V_OK_def)
  from handshake_authenticates [OF run, of 2] run show ?thesis by (simp add: empty_tls_session_def)
qed

text \<open>
  The certificate that a node makes for itself passes the check that its peers make, from a minute
  before it is made until ten years later, provided that the library verifies the signatures it makes. If
  the node's own context matches its identity, a peer that was shown this certificate and verified it learns
  exactly that identity.
\<close>

theorem own_certificate_identifies:
  assumes "make_self_signed_certificate lib config err w = (Some cert, err', w')"
    and "\<forall>body k sig. x509_sign lib body k = Some sig \<longrightarrow> x509_verify lib \<lparr>x_body = body, x_signature = sig\<rparr> k"
    and "current_time lib w - 60 \<le> current_time lib v"
    and "current_time lib v < current_time lib w + 3650 * 24 * 60 * 60"
    and "cx_native ctx = Some native" "ctx_certificate lib native v = Some cert"
    and "tls_context_matches_identity lib ctx nid v = Inr ()"
    and "ssl_peer_certificate lib ssl u = Some cert" "ssl_verify_result lib ssl u = X509_V_OK"
  shows "verify_self_signed_peer lib v (Some cert) 0 \<and>
    (\<exists>raw. key_raw_public lib (xb_public_key (x_body cert)) = Some raw \<and>
           peer_identity lib ssl u = Inr (nid, raw))"
proof -
  obtain key sig where key: "tc_identity_key config = Some key" "key_is_ed25519 lib key"
    and sig: "x509_sign lib (x_body cert) key = Some sig" "x_signature cert = sig"
    and body: "xb_not_before (x_body cert) = current_time lib w - 60"
      "xb_not_after (x_body cert) = current_time lib w + 3650 * 24 * 60 * 60"
      "xb_public_key (x_body cert) = key" "xb_subject (x_body cert) = xb_issuer (x_body cert)"
    using assms(1)
    by (auto simp: make_self_signed_certificate_def Let_def split: option.splits if_splits prod.splits)
  have "x509_verify lib cert key" using assms(2) sig by (cases cert) auto
  then have "verify_self_signed_peer lib v (Some cert) 0"
    using key(2) body assms(3,4) by (simp add: verify_self_signed_peer_def Let_def)
  moreover have "\<exists>raw. key_raw_public lib (xb_public_key (x_body cert)) = Some raw \<and>
           peer_identity lib ssl u = Inr (nid, raw)"
    using assms(5-9) by (auto simp: tls_context_matches_identity_def peer_identity_def Let_def
        split: option.splits if_splits)
  ultimately show ?thesis ..
qed

definition sample_tls_config :: "byte tls_config" where
  "sample_tls_config = \<lparr>tc_identity_key = Some 7, tc_identity_id = replicate 32 8, tc_generation = 1\<rparr>"

lemma own_certificate_identifies_witness:
  "make_self_signed_certificate sample_lib sample_tls_config None () = (Some (sample_certificate 7), None, ()) \<and>
   verify_self_signed_peer sample_lib () (Some (sample_certificate 7)) 0 \<and>
   peer_identity sample_lib 2 () = Inr (replicate 32 8, replicate 32 7)"
proof -
  have made: "make_self_signed_certificate sample_lib sample_tls_config None () =
      (Some (sample_certificate 7), None, ())"
    by (simp add: make_self_signed_certificate_def sample_lib_def sample_tls_config_def sample_certificate_def
        Let_def)
  have "verify_self_signed_peer sample_lib () (Some (sample_certificate 7)) 0 \<and>
    (\<exists>raw. key_raw_public (sample_lib :: (unit, byte, byte) ssl_lib) (xb_public_key (x_body (sample_certificate 7))) = Some raw \<and>
           peer_identity sample_lib 2 () = Inr (replicate 32 8, raw))"
    by (rule own_certificate_identifies [OF made, where ctx = "empty_tls_context\<lparr>cx_native := Some 1\<rparr>"])
      (simp_all add: sample_lib_def tls_context_matches_identity_def empty_tls_context_def
        sample_certificate_def X509_V_OK_def)
  with made show ?thesis by (simp add: sample_lib_def sample_certificate_def)
qed

end
