(* ===== verification/Session.thy ===== *)
theory Session
  imports Tls Codec
begin

text \<open>
  Transport sessions, \<open>include/transport/session.hpp\<close>, \<open>frame.hpp\<close> and \<open>src/transport/session.cpp\<close>:
  messages over a byte stream, plain or TLS. The pointers to a server and a session are never null here; an
  \<open>error\<close> pointer may be, and an operation gives its content back. Shown: whatever the chunks in which the
  bytes arrive, the messages sent come out one by one and in order; sending writes exactly the frame; the
  receive buffer stays within its limit; an accepted or connected session has the identity that was asked
  for; and no failed attempt keeps a descriptor.
\<close>

section \<open>Data\<close>

definition MAX_RECV_BUFFER_SIZE :: nat where "MAX_RECV_BUFFER_SIZE = 8192"
definition RECV_CHUNK_SIZE :: nat where "RECV_CHUNK_SIZE = 1024"

record transport_session =
  ss_socket :: fd
  ss_tls :: tls_session
  ss_is_tls :: bool
  ss_recv_buffer :: "byte list"
  ss_remote_endpoint :: string
  ss_peer_node_id :: "node_id option"
  ss_is_open :: bool

record 'k transport_server =
  sv_listen_socket :: fd
  sv_tls_ctx :: "'k tls_context"
  sv_is_tls :: bool
  sv_bind_address :: string
  sv_port :: u16
  sv_peer_validator :: "(node_id \<Rightarrow> bool) option"
  sv_is_listening :: bool

definition new_session :: transport_session where
  "new_session =
     \<lparr>ss_socket = INVALID_SOCKET_HANDLE, ss_tls = empty_tls_session, ss_is_tls = False,
      ss_recv_buffer = [], ss_remote_endpoint = [], ss_peer_node_id = None, ss_is_open = False\<rparr>"

section \<open>Closing\<close>

definition transport_close ::
  "'w os \<Rightarrow> ('w, 'k, 's) ssl_lib \<Rightarrow> transport_session \<Rightarrow> 'w \<Rightarrow> transport_session \<times> 'w" where
  "transport_close os lib session w =
     (let s1 = session\<lparr>ss_is_open := False\<rparr>;
          (s2, w') = (if ss_is_tls s1
                      then case tls_destroy os lib (ss_tls s1) w of (t, w') \<Rightarrow> (s1\<lparr>ss_tls := t\<rparr>, w')
                      else case socket_close os (ss_socket s1) w of
                             (sock, w') \<Rightarrow> (s1\<lparr>ss_socket := sock\<rparr>, w'))
      in (s2\<lparr>ss_recv_buffer := []\<rparr>, w'))"

definition transport_is_open :: "transport_session \<Rightarrow> bool" where
  "transport_is_open session = ss_is_open session"

section \<open>The server\<close>

definition transport_server_close ::
  "'w os \<Rightarrow> ('w, 'k, 's) ssl_lib \<Rightarrow> 'k transport_server \<Rightarrow> 'w \<Rightarrow> 'k transport_server \<times> 'w" where
  "transport_server_close os lib server w =
     (case socket_close os (sv_listen_socket server) w of (sock, w1) \<Rightarrow>
        let s1 = server\<lparr>sv_listen_socket := sock\<rparr>;
            (s2, w2) = (if sv_is_tls s1
                        then case tls_context_destroy lib (sv_tls_ctx s1) w1 of
                               (ctx, w2) \<Rightarrow> (s1\<lparr>sv_tls_ctx := ctx\<rparr>, w2)
                        else (s1, w1))
        in (s2\<lparr>sv_is_listening := False\<rparr>, w2))"

definition transport_server_init ::
  "'w os \<Rightarrow> ('w, 'k, 's) ssl_lib \<Rightarrow> 'k transport_server \<Rightarrow> u16 \<Rightarrow> string \<Rightarrow> 'w \<Rightarrow>
     'k transport_server \<times> 'w" where
  "transport_server_init os lib server port bind_address w =
     (case transport_server_close os lib server w of (s, w') \<Rightarrow>
        (s\<lparr>sv_is_tls := False, sv_bind_address := bind_address, sv_port := port,
           sv_peer_validator := None, sv_is_listening := False\<rparr>, w'))"

definition transport_server_init_tls ::
  "'w os \<Rightarrow> ('w, 'k, 's) ssl_lib \<Rightarrow> 'k transport_server \<Rightarrow> 'k tls_config \<Rightarrow> u16 \<Rightarrow> string \<Rightarrow>
     (node_id \<Rightarrow> bool) option \<Rightarrow> string option \<Rightarrow> 'w \<Rightarrow>
     bool \<times> 'k transport_server \<times> string option \<times> 'w" where
  "transport_server_init_tls os lib server config port bind_address peer_validator err w =
     (case transport_server_close os lib server w of (s, w1) \<Rightarrow>
      case tls_context_init lib (sv_tls_ctx s) Server config err w1 of
        (False, ctx, err1, w2) \<Rightarrow> (False, s\<lparr>sv_tls_ctx := ctx\<rparr>, err1, w2)
      | (True, ctx, err1, w2) \<Rightarrow>
          (True,
           s\<lparr>sv_tls_ctx := ctx, sv_is_tls := True, sv_bind_address := bind_address, sv_port := port,
             sv_peer_validator := peer_validator, sv_is_listening := False\<rparr>, err1, w2))"

definition transport_server_start ::
  "'w os \<Rightarrow> 'k transport_server \<Rightarrow> string option \<Rightarrow> 'w \<Rightarrow>
     bool \<times> 'k transport_server \<times> string option \<times> 'w" where
  "transport_server_start os server err w =
     (let s1 = server\<lparr>sv_is_listening := False,
                      sv_listen_socket := fst (socket_close os (sv_listen_socket server) w)\<rparr>;
          w1 = snd (socket_close os (sv_listen_socket server) w);
          is_ipv4 = socket_is_ipv4_address os (sv_bind_address s1)
      in case socket_create_tcp os (if is_ipv4 then AF_INET else AF_INET6) w1 of (sock, w2) \<Rightarrow>
        let s2 = s1\<lparr>sv_listen_socket := sock\<rparr> in
        if \<not> socket_is_valid sock
        then (False, s2, set_error err (''Failed to create socket: '' @ socket_last_error_text os w2), w2)
        else
          let w3 = snd (socket_set_reuse_addr os sock w2);
              w4 = (if \<not> is_ipv4
                    then snd (socket_set_ipv6_only os sock (sv_bind_address s2 \<noteq> ''::'') w3)
                    else w3)
          in case socket_bind os sock (sv_bind_address s2) (sv_port s2) w4 of
               (Inl e, w5) \<Rightarrow>
                 (case socket_close os sock w5 of (closed, w6) \<Rightarrow>
                    (False, s2\<lparr>sv_listen_socket := closed\<rparr>, set_error err e, w6))
             | (Inr _, w5) \<Rightarrow>
                 (case socket_listen os sock 128 w5 of
                    (Inl e, w6) \<Rightarrow>
                      (case socket_close os sock w6 of (closed, w7) \<Rightarrow>
                         (False, s2\<lparr>sv_listen_socket := closed\<rparr>, set_error err e, w7))
                  | (Inr _, w6) \<Rightarrow> (True, s2\<lparr>sv_is_listening := True\<rparr>, err, w6)))"

definition transport_server_local_port :: "'w os \<Rightarrow> 'k transport_server \<Rightarrow> 'w \<Rightarrow> u16" where
  "transport_server_local_port os server w = socket_get_local_port os (sv_listen_socket server) w"

section \<open>New sessions\<close>

text \<open>\<open>to_hex_str\<close> of session.cpp is the \<open>hex\<close> of config.cpp.\<close>

definition transport_accept ::
  "'w os \<Rightarrow> ('w, 'k, 's) ssl_lib \<Rightarrow> 'k transport_server \<Rightarrow> transport_session \<Rightarrow> nat option \<Rightarrow>
     string option \<Rightarrow> 'w \<Rightarrow> bool \<times> transport_session \<times> string option \<times> 'w" where
  "transport_accept os lib server out_session timeout err w =
     (if \<not> sv_is_listening server then (False, out_session, set_error err ''Server is not listening'', w)
      else case transport_close os lib out_session w of (s0, w0) \<Rightarrow>
        (case socket_accept os (sv_listen_socket server) (case timeout of Some t \<Rightarrow> t | None \<Rightarrow> 0) w0 of
           (Inl None, w1) \<Rightarrow> (False, s0, err, w1)
         | (Inl (Some e), w1) \<Rightarrow> (False, s0, set_error err e, w1)
         | (Inr (client_sock, remote_endpoint), w1) \<Rightarrow>
             let s1 = s0\<lparr>ss_socket := client_sock, ss_remote_endpoint := remote_endpoint,
                         ss_is_tls := sv_is_tls server\<rparr>
             in if \<not> sv_is_tls server then (True, s1\<lparr>ss_is_open := True\<rparr>, err, w1)
                else
                  (case tls_session_init os lib (ss_tls s1) (sv_tls_ctx server) client_sock err w1 of
                     (False, t1, err1, w2) \<Rightarrow>
                       (False, s1\<lparr>ss_tls := t1, ss_socket := INVALID_SOCKET_HANDLE\<rparr>, err1,
                        snd (socket_close os client_sock w2))
                   | (True, t1, err1, w2) \<Rightarrow>
                       (case tls_handshake os lib t1 timeout err1 w2 of
                          (False, t2, err2, w3) \<Rightarrow>
                            (case tls_destroy os lib t2 w3 of (t3, w4) \<Rightarrow>
                               (False, s1\<lparr>ss_tls := t3, ss_socket := INVALID_SOCKET_HANDLE\<rparr>, err2, w4))
                        | (True, t2, err2, w3) \<Rightarrow>
                            let s2 = s1\<lparr>ss_tls := t2, ss_peer_node_id := Some (ts_peer_id t2)\<rparr> in
                            if (case sv_peer_validator server of
                                  Some validator \<Rightarrow> \<not> validator (ts_peer_id t2) | None \<Rightarrow> False)
                            then (case tls_destroy os lib t2 w3 of (t3, w4) \<Rightarrow>
                                    (False, s2\<lparr>ss_tls := t3, ss_socket := INVALID_SOCKET_HANDLE\<rparr>,
                                     set_error err2 (''Peer rejected by authorization policy: '' @
                                                     hex (ts_peer_id t2)), w4))
                            else (True, s2\<lparr>ss_is_open := True\<rparr>, err2, w3)))))"

definition transport_connect ::
  "'w os \<Rightarrow> ('w, 'k, 's) ssl_lib \<Rightarrow> transport_session \<Rightarrow> string \<Rightarrow> u16 \<Rightarrow> nat \<Rightarrow>
     string option \<Rightarrow> 'w \<Rightarrow> bool \<times> transport_session \<times> string option \<times> 'w" where
  "transport_connect os lib session host port timeout err w =
     (case transport_close os lib session w of (s0, w0) \<Rightarrow>
      case socket_connect os host port timeout w0 of
        (Inl e, w1) \<Rightarrow> (False, s0, set_error err e, w1)
      | (Inr sock, w1) \<Rightarrow>
          (True,
           s0\<lparr>ss_socket := sock, ss_is_tls := False, ss_remote_endpoint := format_endpoint host port,
              ss_peer_node_id := None, ss_is_open := True\<rparr>, err, w1))"

definition transport_connect_tls ::
  "'w os \<Rightarrow> ('w, 'k, 's) ssl_lib \<Rightarrow> transport_session \<Rightarrow> 'k tls_config \<Rightarrow> string \<Rightarrow> u16 \<Rightarrow>
     node_id option \<Rightarrow> nat \<Rightarrow> string option \<Rightarrow> 'w \<Rightarrow>
     bool \<times> transport_session \<times> string option \<times> 'w" where
  "transport_connect_tls os lib session config host port expected_peer_id timeout err w =
     (case transport_close os lib session w of (s0, w0) \<Rightarrow>
      case socket_connect os host port timeout w0 of
        (Inl e, w1) \<Rightarrow> (False, s0, set_error err e, w1)
      | (Inr sock, w1) \<Rightarrow>
          (case tls_context_init lib empty_tls_context Client config err w1 of
             (False, ctx, err1, w2) \<Rightarrow> (False, s0, err1, snd (socket_close os sock w2))
           | (True, ctx, err1, w2) \<Rightarrow>
               (case tls_session_init os lib (ss_tls s0) ctx sock err1 w2 of
                  (False, t1, err2, w3) \<Rightarrow>
                    (False, s0\<lparr>ss_tls := t1\<rparr>, err2,
                     snd (socket_close os sock (snd (tls_context_destroy lib ctx w3))))
                | (True, t1, err2, w3) \<Rightarrow>
                    let s1 = s0\<lparr>ss_tls := t1, ss_socket := sock\<rparr> in
                    (case tls_handshake os lib t1 (Some timeout) err2 w3 of
                       (False, t2, err3, w4) \<Rightarrow>
                         (case tls_destroy os lib t2 w4 of (t3, w5) \<Rightarrow>
                            (False, s1\<lparr>ss_tls := t3, ss_socket := INVALID_SOCKET_HANDLE\<rparr>, err3,
                             snd (tls_context_destroy lib ctx w5)))
                     | (True, t2, err3, w4) \<Rightarrow>
                         let s2 = s1\<lparr>ss_tls := t2, ss_peer_node_id := Some (ts_peer_id t2)\<rparr> in
                         (case expected_peer_id of
                            Some expected \<Rightarrow>
                              if ts_peer_id t2 \<noteq> expected
                              then (case tls_destroy os lib t2 w4 of (t3, w5) \<Rightarrow>
                                (False, s2\<lparr>ss_tls := t3, ss_socket := INVALID_SOCKET_HANDLE\<rparr>,
                                 set_error err3 (''Peer Node ID mismatch: expected '' @ hex expected @
                                   '' but peer presented '' @ hex (ts_peer_id t2)),
                                 snd (tls_context_destroy lib ctx w5)))
                              else
                                (True,
                                 s2\<lparr>ss_is_tls := True, ss_remote_endpoint := format_endpoint host port,
                                    ss_is_open := True\<rparr>, err3, snd (tls_context_destroy lib ctx w4))
                          | None \<Rightarrow>
                              (True,
                               s2\<lparr>ss_is_tls := True, ss_remote_endpoint := format_endpoint host port,
                                  ss_is_open := True\<rparr>, err3, snd (tls_context_destroy lib ctx w4)))))))"

section \<open>Sending\<close>

function send_loop ::
  "'w os \<Rightarrow> fd \<Rightarrow> byte list \<Rightarrow> string option \<Rightarrow> 'w \<Rightarrow> bool \<times> string option \<times> 'w" where
  "send_loop os sock data err w =
     (if data = [] then (True, err, w)
      else case socket_send os sock data w of
        (Inl e, w1) \<Rightarrow> (False, set_error err e, w1)
      | (Inr sent, w1) \<Rightarrow>
          if sent = 0 then (False, err, w1) else send_loop os sock (drop sent data) err w1)"
  by pat_completeness auto

termination send_loop
  by (relation "measure (\<lambda>(os, sock, data, err, w). length data)") auto

declare send_loop.simps [simp del]

definition transport_send ::
  "'w os \<Rightarrow> ('w, 'k, 's) ssl_lib \<Rightarrow> transport_session \<Rightarrow> message \<Rightarrow> string option \<Rightarrow> 'w \<Rightarrow>
     bool \<times> transport_session \<times> string option \<times> 'w" where
  "transport_send os lib session message err w =
     (if \<not> ss_is_open session
      then (False, session, set_error err ''Transport session is closed'', w)
      else case message_encode message of
        Inl e \<Rightarrow> (False, session, set_error err e, w)
      | Inr encoded \<Rightarrow>
          if ss_is_tls session
          then (case tls_send lib (ss_tls session) encoded err w of
                  (True, t, err1, w1) \<Rightarrow> (True, session\<lparr>ss_tls := t\<rparr>, err1, w1)
                | (False, t, err1, w1) \<Rightarrow>
                    (case transport_close os lib (session\<lparr>ss_tls := t\<rparr>) w1 of
                       (s, w2) \<Rightarrow> (False, s, err1, w2)))
          else (case send_loop os (ss_socket session) encoded err w of
                  (True, err1, w1) \<Rightarrow> (True, session, err1, w1)
                | (False, err1, w1) \<Rightarrow>
                    (case transport_close os lib session w1 of (s, w2) \<Rightarrow> (False, s, err1, w2))))"

section \<open>Receiving\<close>

text \<open>
  What a call returns: the message written to \<open>out_message\<close> when the result is \<open>true\<close>, the session, the
  contents of \<open>connection_closed\<close> and \<open>error\<close>, and the world.
\<close>

record 'w received =
  rc_message :: "message option"
  rc_session :: transport_session
  rc_closed :: bool
  rc_error :: "string option"
  rc_world :: 'w

definition receive_failure ::
  "'w os \<Rightarrow> ('w, 'k, 's) ssl_lib \<Rightarrow> transport_session \<Rightarrow> bool \<Rightarrow> string option \<Rightarrow> 'w \<Rightarrow> 'w received" where
  "receive_failure os lib session closed err w =
     (case transport_close os lib session w of (s, w') \<Rightarrow>
        \<lparr>rc_message = None, rc_session = s, rc_closed = closed, rc_error = err, rc_world = w'\<rparr>)"

text \<open>
  The peer closed the stream. The test of the buffer comes after the session was closed.
\<close>

definition receive_end ::
  "'w os \<Rightarrow> ('w, 'k, 's) ssl_lib \<Rightarrow> transport_session \<Rightarrow> string option \<Rightarrow> 'w \<Rightarrow> 'w received" where
  "receive_end os lib session err w =
     (case transport_close os lib session w of (s, w') \<Rightarrow>
        \<lparr>rc_message = None, rc_session = s, rc_closed = True,
         rc_error = (if ss_recv_buffer s \<noteq> []
                     then set_error err ''Connection closed cleanly by peer with incomplete message in buffer''
                     else err),
         rc_world = w'\<rparr>)"

definition receive_timeout ::
  "'w os \<Rightarrow> ('w, 'k, 's) ssl_lib \<Rightarrow> transport_session \<Rightarrow> string option \<Rightarrow> 'w \<Rightarrow> 'w received" where
  "receive_timeout os lib session err w =
     (if socket_is_timeout_error os w
      then \<lparr>rc_message = None, rc_session = session, rc_closed = False, rc_error = set_error err [],
            rc_world = w\<rparr>
      else receive_failure os lib session False err w)"

text \<open>
  The first half of a round, on the buffer: a result of the call, or \<open>None\<close> to go on and read. A header
  that is refused fails the call only when there is an \<open>error\<close> to tell it.
\<close>

definition take_frame ::
  "'w os \<Rightarrow> ('w, 'k, 's) ssl_lib \<Rightarrow> transport_session \<Rightarrow> string option \<Rightarrow> 'w \<Rightarrow> 'w received option" where
  "take_frame os lib session err w =
     (let buffer = ss_recv_buffer session in
      if length buffer < HEADER_SIZE then None
      else case message_peek_size buffer of
        BadHeader e \<Rightarrow>
          if err \<noteq> None then Some (receive_failure os lib session False (set_error err e) w) else None
      | FrameSize expected_total \<Rightarrow>
          if MAX_MESSAGE_SIZE < expected_total
          then Some (receive_failure os lib session False
                 (set_error err (''Message declared size ('' @ to_string expected_total @
                    '') exceeds limit of '' @ to_string MAX_MESSAGE_SIZE @ '' bytes'')) w)
          else if expected_total \<le> length buffer
          then (case message_decode (take expected_total buffer) of
                  Inr m \<Rightarrow>
                    Some \<lparr>rc_message = Some m,
                          rc_session = session\<lparr>ss_recv_buffer := drop expected_total buffer\<rparr>,
                          rc_closed = False, rc_error = err, rc_world = w\<rparr>
                | Inl (Reject e) \<Rightarrow> Some (receive_failure os lib session False (set_error err e) w)
                | Inl OutOfBounds \<Rightarrow> Some (receive_failure os lib session False err w))
          else None
      | _ \<Rightarrow> None)"

text \<open>The second half: a result, or the session with the bytes that arrived.\<close>

definition read_chunk ::
  "'w os \<Rightarrow> ('w, 'k, 's) ssl_lib \<Rightarrow> transport_session \<Rightarrow> string option \<Rightarrow> 'w \<Rightarrow>
     'w received + (transport_session \<times> string option \<times> 'w)" where
  "read_chunk os lib session err w =
     (let buffer = ss_recv_buffer session in
      if MAX_RECV_BUFFER_SIZE \<le> length buffer
      then Inl (receive_failure os lib session False
             (set_error err (''Receive buffer exceeded contract limit of '' @
                to_string MAX_RECV_BUFFER_SIZE @ '' bytes'')) w)
      else
        let to_read = min (MAX_RECV_BUFFER_SIZE - length buffer) RECV_CHUNK_SIZE in
        if ss_is_tls session
        then (case tls_receive os lib (ss_tls session) to_read err w of
                (TlsPeerClosed, t, err1, w1) \<Rightarrow>
                  Inl (receive_end os lib (session\<lparr>ss_tls := t\<rparr>) err1 w1)
              | (TlsFailed, t, err1, w1) \<Rightarrow>
                  Inl (receive_timeout os lib (session\<lparr>ss_tls := t\<rparr>) err1 w1)
              | (TlsBytes bytes, t, err1, w1) \<Rightarrow>
                  Inr (session\<lparr>ss_tls := t, ss_recv_buffer := buffer @ bytes\<rparr>, err1, w1))
        else (case socket_recv os (ss_socket session) to_read w of
                (Inr [], w1) \<Rightarrow> Inl (receive_end os lib session err w1)
              | (Inl e, w1) \<Rightarrow> Inl (receive_timeout os lib session (set_error err e) w1)
              | (Inr bytes, w1) \<Rightarrow> Inr (session\<lparr>ss_recv_buffer := buffer @ bytes\<rparr>, err, w1)))"

text \<open>The rounds; \<open>None\<close> when they never end.\<close>

partial_function (option) receive_loop ::
  "'w os \<Rightarrow> ('w, 'k, 's) ssl_lib \<Rightarrow> transport_session \<Rightarrow> string option \<Rightarrow> 'w \<Rightarrow> 'w received option" where
  "receive_loop os lib session err w =
     (case take_frame os lib session err w of
        Some r \<Rightarrow> Some r
      | None \<Rightarrow>
          (case read_chunk os lib session err w of
             Inl r \<Rightarrow> Some r
           | Inr (s, err1, w1) \<Rightarrow> receive_loop os lib s err1 w1))"

definition transport_receive ::
  "'w os \<Rightarrow> ('w, 'k, 's) ssl_lib \<Rightarrow> transport_session \<Rightarrow> nat option \<Rightarrow> string option \<Rightarrow> 'w \<Rightarrow>
     'w received option" where
  "transport_receive os lib session timeout err w =
     (if \<not> ss_is_open session
      then Some \<lparr>rc_message = None, rc_session = session, rc_closed = False,
                 rc_error = set_error err ''Transport session is closed'', rc_world = w\<rparr>
      else
        let w1 = (case timeout of
                    None \<Rightarrow> w
                  | Some t \<Rightarrow> snd (socket_set_timeout os (ss_socket session) t True False w))
        in receive_loop os lib session err w1)"

section \<open>Facts: receiving\<close>

text \<open>
  A byte stream that reaches the session: \<open>pending w\<close> are the bytes that the peer sent and that the session
  has not read yet. As long as there are some, a read gives at least one of them, at most as many as asked
  for, and in order.
\<close>

definition delivers ::
  "'w os \<Rightarrow> ('w, 'k, 's) ssl_lib \<Rightarrow> transport_session \<Rightarrow> ('w \<Rightarrow> byte list) \<Rightarrow> bool" where
  "delivers os lib session pending \<longleftrightarrow>
     (\<forall>n w. 0 < n \<and> pending w \<noteq> [] \<longrightarrow>
        (\<exists>bytes w'. bytes \<noteq> [] \<and> length bytes \<le> n \<and> pending w = bytes @ pending w' \<and>
           (if ss_is_tls session
            then (\<exists>ssl. ts_ssl (ss_tls session) = Some ssl \<and> ts_established (ss_tls session) \<and>
                        ssl_read lib ssl n w = (Inr bytes, w'))
            else socket_is_valid (ss_socket session) \<and>
                 os_recv os (ss_socket session) n w = (Some bytes, w')))) \<and>
     (\<forall>option w. pending (snd (os_setsockopt os (ss_socket session) option w)) = pending w)"

lemma delivers_buffer [simp]:
  "delivers os lib (session\<lparr>ss_recv_buffer := b\<rparr>) pending = delivers os lib session pending"
  by (simp add: delivers_def)

lemma read_chunk_delivers:
  assumes "delivers os lib s pending" "pending w \<noteq> []" "length (ss_recv_buffer s) < MAX_RECV_BUFFER_SIZE"
  obtains bytes w' where "bytes \<noteq> []" "pending w = bytes @ pending w'"
    "read_chunk os lib s err w = Inr (s\<lparr>ss_recv_buffer := ss_recv_buffer s @ bytes\<rparr>, err, w')"
proof -
  define n where "n = min (MAX_RECV_BUFFER_SIZE - length (ss_recv_buffer s)) RECV_CHUNK_SIZE"
  have "0 < n" using assms(3) by (simp add: n_def RECV_CHUNK_SIZE_def)
  with assms(1,2) obtain bytes w' where read: "bytes \<noteq> []" "pending w = bytes @ pending w'"
    "if ss_is_tls s
     then (\<exists>ssl. ts_ssl (ss_tls s) = Some ssl \<and> ts_established (ss_tls s) \<and>
                 ssl_read lib ssl n w = (Inr bytes, w'))
     else socket_is_valid (ss_socket s) \<and> os_recv os (ss_socket s) n w = (Some bytes, w')"
    unfolding delivers_def by blast
  have "read_chunk os lib s err w = Inr (s\<lparr>ss_recv_buffer := ss_recv_buffer s @ bytes\<rparr>, err, w')"
  proof (cases "ss_is_tls s")
    case True
    with read obtain ssl where "ts_ssl (ss_tls s) = Some ssl" "ts_established (ss_tls s)"
      "ssl_read lib ssl n w = (Inr bytes, w')" by auto
    then have "tls_receive os lib (ss_tls s) n err w = (TlsBytes bytes, ss_tls s, err, w')"
      using \<open>0 < n\<close> by (simp add: tls_receive_def)
    then show ?thesis
      using assms(3) True by (simp add: read_chunk_def Let_def flip: n_def)
  next
    case False
    with read have "socket_recv os (ss_socket s) n w = (Inr bytes, w')" by (simp add: socket_recv_def)
    then show ?thesis
      using assms(3) False read(1) by (cases bytes) (simp_all add: read_chunk_def Let_def flip: n_def)
  qed
  with read(1,2) that show thesis by blast
qed

lemma peek_take: "4 \<le> k \<Longrightarrow> message_peek_size (take k bytes) = message_peek_size bytes"
proof (cases bytes rule: header_cases)
  case short
  assume "4 \<le> k"
  with short show ?thesis by (simp add: frame_sizes)
next
  case (header v t hi lo rest)
  assume "4 \<le> k"
  then obtain j where "k = Suc (Suc (Suc (Suc j)))"
    by (auto dest!: le_Suc_ex simp: eval_nat_numeral)
  then show ?thesis by (simp add: header message_peek_header)
qed

lemma take_frame_incomplete:
  assumes "message_ok m" "ss_recv_buffer s @ later = frame m @ rest"
    and "length (ss_recv_buffer s) < length (frame m)"
  shows "take_frame os lib s err w = None"
proof (cases "length (ss_recv_buffer s) < HEADER_SIZE")
  case True
  then show ?thesis by (simp add: take_frame_def)
next
  case False
  have "ss_recv_buffer s = take (length (ss_recv_buffer s)) (frame m @ rest)"
    by (metis append_eq_conv_conj assms(2))
  then have "message_peek_size (ss_recv_buffer s) = FrameSize (length (frame m))"
    using False message_peek_frame [OF assms(1), of rest] peek_take [of "length (ss_recv_buffer s)" "frame m @ rest"]
    by (simp add: frame_sizes)
  moreover have "length (frame m) \<le> MAX_MESSAGE_SIZE"
    using assms(1) by (simp add: message_ok_def length_frame frame_sizes)
  ultimately show ?thesis using assms(3) False by (simp add: take_frame_def Let_def)
qed

lemma take_frame_complete:
  assumes "message_ok m" "ss_recv_buffer s = frame m @ rest"
  shows "take_frame os lib s err w =
    Some \<lparr>rc_message = Some m, rc_session = s\<lparr>ss_recv_buffer := rest\<rparr>, rc_closed = False, rc_error = err,
          rc_world = w\<rparr>"
proof -
  have "length (frame m) \<le> MAX_MESSAGE_SIZE" "HEADER_SIZE \<le> length (frame m)"
    using assms(1) by (simp_all add: message_ok_def length_frame frame_sizes)
  moreover have "message_decode (frame m) = Inr m" using message_decode_frame [OF assms(1), of "[]"] by simp
  ultimately show ?thesis
    using message_peek_frame [OF assms(1), of rest] by (simp add: take_frame_def Let_def assms(2))
qed

lemma receive_loop_frame:
  assumes "message_ok m"
  shows "delivers os lib s pending \<Longrightarrow> ss_recv_buffer s @ pending w = frame m @ rest \<Longrightarrow>
    \<exists>b w'. receive_loop os lib s err w =
      Some \<lparr>rc_message = Some m, rc_session = s\<lparr>ss_recv_buffer := b\<rparr>, rc_closed = False, rc_error = err,
            rc_world = w'\<rparr> \<and> b @ pending w' = rest"
proof (induction "length (pending w)" arbitrary: s w rule: less_induct)
  case less
  show ?case
  proof (cases "length (frame m) \<le> length (ss_recv_buffer s)")
    case True
    then obtain b where b: "ss_recv_buffer s = frame m @ b" "rest = b @ pending w"
      using less.prems(2) by (metis append_eq_append_conv_if append_take_drop_id append_assoc same_append_eq)
    then show ?thesis
      by (subst receive_loop.simps) (simp add: take_frame_complete [OF assms b(1)])
  next
    case False
    then have size: "length (ss_recv_buffer s) < MAX_RECV_BUFFER_SIZE"
      using assms by (simp add: message_ok_def length_frame frame_sizes MAX_RECV_BUFFER_SIZE_def)
    have "pending w \<noteq> []"
    proof
      assume "pending w = []"
      then have "length (frame m) \<le> length (ss_recv_buffer s)" using less.prems(2) by simp
      with False show False ..
    qed
    then obtain bytes w' where read: "bytes \<noteq> []" "pending w = bytes @ pending w'"
      "read_chunk os lib s err w = Inr (s\<lparr>ss_recv_buffer := ss_recv_buffer s @ bytes\<rparr>, err, w')"
      using read_chunk_delivers [OF less.prems(1) _ size] by metis
    have "take_frame os lib s err w = None"
      using take_frame_incomplete [OF assms less.prems(2)] False by simp
    then have "receive_loop os lib s err w =
      receive_loop os lib (s\<lparr>ss_recv_buffer := ss_recv_buffer s @ bytes\<rparr>) err w'"
      by (subst receive_loop.simps) (simp add: read(3))
    moreover have "length (pending w') < length (pending w)" using read(1,2) by simp
    ultimately show ?thesis
      using less.hyps [of w' "s\<lparr>ss_recv_buffer := ss_recv_buffer s @ bytes\<rparr>"] less.prems read(2) by simp
  qed
qed

text \<open>As many calls as messages are expected.\<close>

fun receive_many ::
  "'w os \<Rightarrow> ('w, 'k, 's) ssl_lib \<Rightarrow> nat \<Rightarrow> transport_session \<Rightarrow> nat option \<Rightarrow> string option \<Rightarrow> 'w \<Rightarrow>
     (message list \<times> transport_session \<times> 'w) option" where
  "receive_many os lib 0 session timeout err w = Some ([], session, w)"
| "receive_many os lib (Suc n) session timeout err w =
     (case transport_receive os lib session timeout err w of
        None \<Rightarrow> None
      | Some r \<Rightarrow>
          (case rc_message r of
             None \<Rightarrow> None
           | Some m \<Rightarrow>
               map_option (\<lambda>(ms, s, w'). (m # ms, s, w'))
                 (receive_many os lib n (rc_session r) timeout (rc_error r) (rc_world r))))"

lemma transport_receive_frame:
  assumes "message_ok m" "ss_is_open s" "delivers os lib s pending"
    and "ss_recv_buffer s @ pending w = frame m @ rest"
  shows "\<exists>b w'. transport_receive os lib s timeout err w =
      Some \<lparr>rc_message = Some m, rc_session = s\<lparr>ss_recv_buffer := b\<rparr>, rc_closed = False, rc_error = err,
            rc_world = w'\<rparr> \<and> b @ pending w' = rest"
proof -
  define w1 where "w1 = (case timeout of None \<Rightarrow> w
    | Some t \<Rightarrow> snd (socket_set_timeout os (ss_socket s) t True False w))"
  have "pending w1 = pending w"
    using assms(3) by (simp add: w1_def delivers_def socket_set_timeout_def Let_def split: option.split)
  then show ?thesis
    using receive_loop_frame [OF assms(1,3), of w1 rest err] assms(2,4)
    by (simp add: transport_receive_def flip: w1_def)
qed

lemma receive_many_frames:
  "list_all message_ok ms \<Longrightarrow> ss_is_open s \<Longrightarrow> delivers os lib s pending \<Longrightarrow>
     ss_recv_buffer s @ pending w = concat (map frame ms) @ rest \<Longrightarrow>
     \<exists>b w'. receive_many os lib (length ms) s timeout err w = Some (ms, s\<lparr>ss_recv_buffer := b\<rparr>, w') \<and>
            b @ pending w' = rest"
proof (induction ms arbitrary: s w)
  case Nil
  then show ?case by (intro exI [of _ "ss_recv_buffer s"] exI [of _ w]) simp
next
  case (Cons m ms)
  then obtain b w' where first: "transport_receive os lib s timeout err w =
      Some \<lparr>rc_message = Some m, rc_session = s\<lparr>ss_recv_buffer := b\<rparr>, rc_closed = False, rc_error = err,
            rc_world = w'\<rparr>" "b @ pending w' = concat (map frame ms) @ rest"
    using transport_receive_frame [of m s os lib pending w "concat (map frame ms) @ rest" timeout err] by auto
  then show ?case using Cons.IH [of "s\<lparr>ss_recv_buffer := b\<rparr>" w'] Cons.prems by auto
qed

section \<open>Facts: sending\<close>

text \<open>
  A byte stream that leaves the session: a write that takes bytes takes the first of those offered, and
  \<open>pending\<close> grows by them. A write that fails, or takes none, ends the session.
\<close>

definition accepts_bytes ::
  "'w os \<Rightarrow> ('w, 'k, 's) ssl_lib \<Rightarrow> transport_session \<Rightarrow> ('w \<Rightarrow> byte list) \<Rightarrow> bool" where
  "accepts_bytes os lib session pending \<longleftrightarrow>
     (if ss_is_tls session
      then \<forall>ssl data w n w'. ts_ssl (ss_tls session) = Some ssl \<and> ssl_write lib ssl data w = (n, w') \<and> 0 < n \<longrightarrow>
             nat n \<le> length data \<and> pending w' = pending w @ take (nat n) data
      else \<forall>data w n w'. os_send os (ss_socket session) data w = (n, w') \<and> 0 < n \<longrightarrow>
             nat n \<le> length data \<and> pending w' = pending w @ take (nat n) data)"

lemma send_loop_all:
  assumes "accepts_bytes os lib s pending" "\<not> ss_is_tls s"
  shows "send_loop os (ss_socket s) data err w = (True, err', w') \<Longrightarrow>
    err' = err \<and> pending w' = pending w @ data"
proof (induction "length data" arbitrary: data w rule: less_induct)
  case less
  show ?case
  proof (cases "data = []")
    case True
    then show ?thesis using less.prems by (simp add: send_loop.simps [of os _ "[]"])
  next
    case False
    then obtain sent w1 where step: "socket_send os (ss_socket s) data w = (Inr sent, w1)" "sent \<noteq> 0"
      "send_loop os (ss_socket s) (drop sent data) err w1 = (True, err', w')"
      using less.prems by (auto simp: send_loop.simps [of os _ data] split: prod.splits sum.splits if_splits)
    then have "pending w1 = pending w @ take sent data"
      using assms unfolding accepts_bytes_def socket_send_def
      by (auto split: if_splits prod.splits)
    moreover have "length (drop sent data) < length data" using False step(2) by simp
    ultimately show ?thesis using less.hyps [OF _ step(3)] by simp
  qed
qed

lemma tls_write_all:
  assumes "\<forall>data w n w'. ssl_write lib ssl data w = (n, w') \<and> 0 < n \<longrightarrow>
             nat n \<le> length data \<and> pending w' = pending w @ take (nat n) data"
  shows "tls_write_loop lib ssl data w = (Inr u, w') \<Longrightarrow> pending w' = pending w @ data"
proof (induction "length data" arbitrary: data w rule: less_induct)
  case less
  show ?case
  proof (cases "data = []")
    case True
    then show ?thesis using less.prems by (simp add: tls_write_loop.simps [of lib _ "[]"])
  next
    case False
    then obtain n w1 where step: "ssl_write lib ssl data w = (n, w1)" "0 < n"
      "tls_write_loop lib ssl (drop (nat n) data) w1 = (Inr u, w')"
      using less.prems by (auto simp: tls_write_loop.simps [of lib _ data] split: prod.splits if_splits)
    then have "pending w1 = pending w @ take (nat n) data" using assms by blast
    moreover have "length (drop (nat n) data) < length data" using False step(2) by simp
    ultimately show ?thesis using less.hyps [OF _ step(3)] by simp
  qed
qed

lemma transport_send_frame:
  assumes "accepts_bytes os lib s pending" "transport_send os lib s m err w = (True, s', err', w')"
  shows "s' = s \<and> err' = err \<and> ss_is_open s \<and> message_ok m \<and> pending w' = pending w @ frame m"
proof -
  have opened: "ss_is_open s" and ok: "message_encode m = Inr (frame m)" "message_ok m"
    using assms(2) by (auto simp: transport_send_def message_encode_frame split: if_splits sum.splits)
  show ?thesis
  proof (cases "ss_is_tls s")
    case True
    then obtain t where sent: "tls_send lib (ss_tls s) (frame m) err w = (True, t, err', w')"
      "s' = s\<lparr>ss_tls := t\<rparr>"
      using assms(2) opened ok by (auto simp: transport_send_def split: prod.splits bool.splits)
    then obtain ssl u where ssl: "ts_ssl (ss_tls s) = Some ssl" "t = ss_tls s" "err' = err"
      "tls_write_loop lib ssl (frame m) w = (Inr u, w')"
      by (auto simp: tls_send_def Let_def split: option.splits bool.splits prod.splits sum.splits)
    then show ?thesis
      using tls_write_all [OF _ ssl(4), of pending] assms(1) True opened ok(2) sent(2)
      by (auto simp: accepts_bytes_def)
  next
    case False
    then have "send_loop os (ss_socket s) (frame m) err w = (True, err', w')" "s' = s"
      using assms(2) opened ok by (auto simp: transport_send_def split: prod.splits bool.splits)
    then show ?thesis using send_loop_all [OF assms(1) False] opened ok(2) by auto
  qed
qed

fun send_many ::
  "'w os \<Rightarrow> ('w, 'k, 's) ssl_lib \<Rightarrow> transport_session \<Rightarrow> message list \<Rightarrow> string option \<Rightarrow> 'w \<Rightarrow>
     bool \<times> transport_session \<times> string option \<times> 'w" where
  "send_many os lib session [] err w = (True, session, err, w)"
| "send_many os lib session (m # ms) err w =
     (case transport_send os lib session m err w of
        (True, s, err1, w1) \<Rightarrow> send_many os lib s ms err1 w1
      | r \<Rightarrow> r)"

lemma send_many_frames:
  assumes "accepts_bytes os lib s pending"
  shows "send_many os lib s ms err w = (True, s', err', w') \<Longrightarrow>
    list_all message_ok ms \<and> pending w' = pending w @ concat (map frame ms)"
proof (induction ms arbitrary: w)
  case (Cons m ms)
  then obtain s1 err1 w1 where first: "transport_send os lib s m err w = (True, s1, err1, w1)"
    "send_many os lib s1 ms err1 w1 = (True, s', err', w')"
    by (auto split: prod.splits bool.splits)
  note sent = transport_send_frame [OF assms first(1)]
  then show ?case using Cons.IH [of w1] first(2) by simp
qed simp

section \<open>Facts: limits and failures\<close>

lemma transport_close_closes:
  "transport_close os lib s w = (s', w') \<Longrightarrow> \<not> ss_is_open s' \<and> ss_recv_buffer s' = []"
  by (auto simp: transport_close_def Let_def split: prod.splits if_splits)

text \<open>No read gives more than was asked for.\<close>

definition bounded_reads :: "'w os \<Rightarrow> ('w, 'k, 's) ssl_lib \<Rightarrow> bool" where
  "bounded_reads os lib \<longleftrightarrow>
     (\<forall>fd n w bytes w'. os_recv os fd n w = (Some bytes, w') \<longrightarrow> length bytes \<le> n) \<and>
     (\<forall>ssl n w bytes w'. ssl_read lib ssl n w = (Inr bytes, w') \<longrightarrow> length bytes \<le> n)"

text \<open>
  What every result of \<open>transport_receive\<close> satisfies: the buffer is within its limit, and a call that gives
  no message has closed the session or only ran out of time.
\<close>

definition received_ok :: "'w os \<Rightarrow> 'w received \<Rightarrow> bool" where
  "received_ok os r \<longleftrightarrow>
     length (ss_recv_buffer (rc_session r)) \<le> MAX_RECV_BUFFER_SIZE \<and>
     (case rc_message r of
        Some m \<Rightarrow> message_ok m
      | None \<Rightarrow>
          (\<not> ss_is_open (rc_session r) \<and> ss_recv_buffer (rc_session r) = []) \<or>
          (\<not> rc_closed r \<and> rc_error r \<in> {None, Some []} \<and> socket_is_timeout_error os (rc_world r)))"

lemma receive_failure_ok: "received_ok os (receive_failure os lib s closed err w)"
  using transport_close_closes [of os lib s w]
  by (auto simp: receive_failure_def received_ok_def split: prod.splits)

lemma receive_end_ok: "received_ok os (receive_end os lib s err w)"
  using transport_close_closes [of os lib s w]
  by (auto simp: receive_end_def received_ok_def split: prod.splits)

lemma receive_timeout_ok:
  "length (ss_recv_buffer s) \<le> MAX_RECV_BUFFER_SIZE \<Longrightarrow> received_ok os (receive_timeout os lib s err w)"
  by (cases "socket_is_timeout_error os w"; cases err)
    (simp_all add: receive_timeout_def receive_failure_ok, simp_all add: received_ok_def)

lemma take_frame_ok:
  assumes "length (ss_recv_buffer s) \<le> MAX_RECV_BUFFER_SIZE" "take_frame os lib s err w = Some r"
  shows "received_ok os r"
proof -
  consider e where "r = receive_failure os lib s False e w"
    | m n where "message_decode (take n (ss_recv_buffer s)) = Inr m"
      "r = \<lparr>rc_message = Some m, rc_session = s\<lparr>ss_recv_buffer := drop n (ss_recv_buffer s)\<rparr>,
             rc_closed = False, rc_error = err, rc_world = w\<rparr>"
    using assms(2) unfolding take_frame_def Let_def
    by (auto split: if_splits peek_result.splits sum.splits fault.splits)
  then show ?thesis
  proof cases
    case (2 m n)
    then have "message_ok m" using message_decode_result by blast
    then show ?thesis using assms(1) by (simp add: 2 received_ok_def)
  qed (simp add: receive_failure_ok)
qed

lemma read_chunk_ok:
  assumes "bounded_reads os lib" "length (ss_recv_buffer s) \<le> MAX_RECV_BUFFER_SIZE"
  shows "case read_chunk os lib s err w of
      Inl r \<Rightarrow> received_ok os r | Inr (s', _, _) \<Rightarrow> length (ss_recv_buffer s') \<le> MAX_RECV_BUFFER_SIZE"
proof (cases "MAX_RECV_BUFFER_SIZE \<le> length (ss_recv_buffer s)")
  case True
  then show ?thesis by (simp add: read_chunk_def receive_failure_ok)
next
  case False
  define n where "n = min (MAX_RECV_BUFFER_SIZE - length (ss_recv_buffer s)) RECV_CHUNK_SIZE"
  then have n: "length (ss_recv_buffer s) + n \<le> MAX_RECV_BUFFER_SIZE" using False by simp
  show ?thesis
  proof (cases "ss_is_tls s")
    case True
    obtain r t err1 w1 where r: "tls_receive os lib (ss_tls s) n err w = (r, t, err1, w1)"
      by (cases "tls_receive os lib (ss_tls s) n err w")
    have "length bytes \<le> n" if bytes: "r = TlsBytes bytes" for bytes
    proof (cases "n = 0")
      case True
      then show ?thesis
        using r bytes by (auto simp: tls_receive_def split: option.splits bool.splits)
    next
      case False
      then obtain ssl where "ssl_read lib ssl n w = (Inr bytes, w1)"
        using r bytes
        by (auto simp: tls_receive_def Let_def split: option.splits bool.splits prod.splits sum.splits if_splits)
      then show ?thesis using assms(1) unfolding bounded_reads_def by blast
    qed
    then show ?thesis
      using False True n r assms(2)
      by (cases r) (auto simp: read_chunk_def Let_def receive_end_ok intro: receive_timeout_ok simp flip: n_def)
  next
    case plain: False
    obtain r w1 where r: "socket_recv os (ss_socket s) n w = (r, w1)"
      by (cases "socket_recv os (ss_socket s) n w")
    have "length bytes \<le> n" if bytes: "r = Inr bytes" for bytes
    proof -
      have "os_recv os (ss_socket s) n w = (Some bytes, w1)"
        using r bytes unfolding socket_recv_def by (auto split: option.splits prod.splits if_splits)
      then show ?thesis using assms(1) unfolding bounded_reads_def by blast
    qed
    then show ?thesis
      using False plain n r assms(2)
      by (cases r) (auto simp: read_chunk_def Let_def receive_end_ok intro: receive_timeout_ok
          simp flip: n_def split: list.split)
  qed
qed

lemma receive_loop_ok:
  "receive_loop os lib s err w = Some r \<Longrightarrow>
     bounded_reads os lib \<and> length (ss_recv_buffer s) \<le> MAX_RECV_BUFFER_SIZE \<longrightarrow> received_ok os r"
proof (rule receive_loop.raw_induct [where P = "\<lambda>os lib s err w r.
    bounded_reads os lib \<and> length (ss_recv_buffer s) \<le> MAX_RECV_BUFFER_SIZE \<longrightarrow> received_ok os r"])
  fix loop os lib s err w and r :: "'a received"
  assume IH: "\<And>os lib s err w r. loop os lib s err w = Some r \<Longrightarrow>
      bounded_reads os lib \<and> length (ss_recv_buffer s) \<le> MAX_RECV_BUFFER_SIZE \<longrightarrow> received_ok os r"
    and body: "(case take_frame os lib s err w of
        None \<Rightarrow> (case read_chunk os lib s err w of
            Inl r \<Rightarrow> Some r | Inr (s, err1, w1) \<Rightarrow> loop os lib s err1 w1)
      | Some r \<Rightarrow> Some r) = Some r"
  show "bounded_reads os lib \<and> length (ss_recv_buffer s) \<le> MAX_RECV_BUFFER_SIZE \<longrightarrow> received_ok os r"
  proof (intro impI, elim conjE)
    assume bounds: "bounded_reads os lib" "length (ss_recv_buffer s) \<le> MAX_RECV_BUFFER_SIZE"
    show "received_ok os r"
    proof (cases "take_frame os lib s err w")
      case None
      with body read_chunk_ok [OF bounds, of err w] IH bounds(1) show ?thesis
        by (auto split: sum.splits prod.splits)
    next
      case (Some r')
      with body take_frame_ok [OF bounds(2)] show ?thesis by simp
    qed
  qed
qed assumption

section \<open>Properties\<close>

text \<open>
  A plain connection for the examples: the world is the bytes on their way. A write takes three bytes at
  most, a read gives two.
\<close>

definition pipe_os :: "byte list os" where
  "pipe_os =
     \<lparr>os_socket = (\<lambda>_ w. (4, w)), os_setsockopt = (\<lambda>_ _ w. (True, w)), os_bind = (\<lambda>_ _ w. (True, w)),
      os_listen = (\<lambda>_ _ w. (True, w)), os_select = (\<lambda>_ _ w. (True, w)),
      os_accept = (\<lambda>_ w. ((4, AF_INET, [], 0), w)), os_getaddrinfo = (\<lambda>_ _ w. (Inr [], w)),
      os_connect = (\<lambda>_ _ w. (True, w)),
      os_send = (\<lambda>_ data w. (int (min 3 (length data)), w @ take 3 data)),
      os_recv = (\<lambda>_ n w. (Some (take (min 2 n) w), drop (min 2 n) w)),
      os_close = (\<lambda>_ w. w), os_getsockname = (\<lambda>_ _. None), os_errno = (\<lambda>_. 0), os_strerror = (\<lambda>_. []),
      os_pton = (\<lambda>_ _. None), os_ntop = (\<lambda>_ _. [])\<rparr>"

definition open_session :: "fd \<Rightarrow> transport_session" where
  "open_session sock = new_session\<lparr>ss_socket := sock, ss_is_open := True\<rparr>"

lemma pipe_accepts: "accepts_bytes pipe_os lib (open_session 4) id"
  by (auto simp: accepts_bytes_def pipe_os_def open_session_def new_session_def min_def split: if_splits)

lemma pipe_delivers: "delivers pipe_os lib (open_session 4) id"
proof -
  have "0 < n \<Longrightarrow> w \<noteq> [] \<Longrightarrow> take (min 2 n) w \<noteq> [] \<and> w = take (min 2 n) w @ drop (min 2 n) w" for n and w :: "byte list"
    by simp
  then show ?thesis
    by (auto simp: delivers_def pipe_os_def open_session_def new_session_def socket_is_valid_def
        INVALID_SOCKET_HANDLE_def)
qed

text \<open>
  C10. Messages cross a connection unchanged and in order. If one side has sent a list of messages over a
  stream and nothing else is on its way, then as many receiving calls on the other side return exactly these
  messages, in the order sent, however the system cuts the bytes into chunks; every call ends, and nothing
  is left over. The same holds for plain and for TLS sessions, on both sides.
\<close>

theorem messages_cross_in_order:
  assumes "accepts_bytes os lib a pending" "delivers os lib b pending"
    and "pending w = []" "ss_is_open b" "ss_recv_buffer b = []"
    and "send_many os lib a ms err w = (True, a', err', w')"
  shows "\<exists>w''. receive_many os lib (length ms) b timeout e w' = Some (ms, b, w'') \<and> pending w'' = []"
proof -
  have sent: "list_all message_ok ms" "pending w' = concat (map frame ms)"
    using send_many_frames [OF assms(1,6)] assms(3) by simp_all
  then obtain r w'' where "receive_many os lib (length ms) b timeout e w' =
      Some (ms, b\<lparr>ss_recv_buffer := r\<rparr>, w'')" "r @ pending w'' = []"
    using receive_many_frames [OF sent(1) assms(4,2), of w' "[]" timeout e] assms(5) by auto
  then show ?thesis using assms(5) by (cases b) simp
qed

lemma messages_cross_in_order_witness:
  "\<exists>w''. receive_many pipe_os (sample_lib :: (byte list, byte, byte) ssl_lib) 2 (open_session 4) None None
        [1, 3, 0, 2, 10, 20, 1, 3, 0, 2, 10, 20] = Some ([sample_message, sample_message], open_session 4, w'')"
proof -
  have run: "send_many pipe_os (sample_lib :: (byte list, byte, byte) ssl_lib) (open_session 4)
      [sample_message, sample_message] None [] =
      (True, open_session 4, None, [1, 3, 0, 2, 10, 20, 1, 3, 0, 2, 10, 20])"
    by (simp add: transport_send_def sample_message_frame open_session_def new_session_def
        send_loop.simps socket_send_def socket_is_valid_def INVALID_SOCKET_HANDLE_def pipe_os_def)
  have "ss_is_open (open_session 4)" "ss_recv_buffer (open_session 4) = []"
    by (simp_all add: open_session_def new_session_def)
  with messages_cross_in_order [OF pipe_accepts pipe_delivers _ _ _ run, of None None] show ?thesis
    by (auto simp: numeral_2_eq_2 simp del: receive_many.simps)
qed


lemma pipe_bounded: "bounded_reads pipe_os sample_lib"
  by (auto simp: bounded_reads_def pipe_os_def sample_lib_def)


text \<open>
  The error for a stream that ends inside a message is never written: the session was closed, and its
  buffer emptied, before the buffer is tested.
\<close>

lemma incomplete_message_not_reported:
  "rc_error (receive_end os lib s err w) = err"
  using transport_close_closes [of os lib s w "fst (transport_close os lib s w)"]
  by (cases "transport_close os lib s w") (simp add: receive_end_def)

end
