(* ===== verification/Session_Access.thy ===== *)
theory Session_Access
  imports Session
begin

text \<open>
  Who a session talks to, and what a failed attempt leaves behind: facts about \<open>transport_accept\<close>,
  \<open>transport_connect\<close> and \<open>transport_connect_tls\<close> of \<open>src/transport/session.cpp\<close>. An open TLS session has
  an authenticated peer that the caller's policy admits, and descriptors are given back on every path.
\<close>

section \<open>Identities\<close>

lemma tls_session_init_True:
  "tls_session_init os lib t0 ctx sock err w = (True, t, err', w') \<Longrightarrow>
     (\<exists>ssl. ts_ssl t = Some ssl) \<and> ts_socket t = sock \<and> err' = err"
  by (auto simp: tls_session_init_def split: prod.splits option.splits bool.splits)

lemma tls_handshake_identity:
  assumes "tls_session_init os lib t0 ctx sock err w = (True, t1, err1, w1)"
    and "tls_handshake os lib t1 timeout err1 w1 = (True, t2, err2, w2)"
  shows "ts_established t2 \<and> digest_sha256 lib (ts_peer_pubkey t2) = Some (ts_peer_id t2) \<and>
    is_public_key (ts_peer_pubkey t2) \<and> ts_socket t2 = sock"
proof -
  obtain ssl where ssl: "ts_ssl t1 = Some ssl" "ts_socket t1 = sock"
    using tls_session_init_True [OF assms(1)] by auto
  then obtain nid raw where peer: "peer_identity lib ssl w2 = Inr (nid, raw)"
    "t2 = t1\<lparr>ts_peer_id := nid, ts_peer_pubkey := raw, ts_established := True\<rparr>"
    using tls_handshake_cases [OF assms(2)] by auto
  then show ?thesis using peer_identity_facts [OF peer(1)] ssl by auto
qed

definition admitted :: "'k transport_server \<Rightarrow> node_id \<Rightarrow> bool" where
  "admitted server nid \<longleftrightarrow> (case sv_peer_validator server of Some validator \<Rightarrow> validator nid | None \<Rightarrow> True)"

text \<open>What holds of a new session, by whether the call succeeded.\<close>

definition accept_outcome ::
  "('w, 'k, 's) ssl_lib \<Rightarrow> 'k transport_server \<Rightarrow> bool \<Rightarrow> transport_session \<Rightarrow> bool" where
  "accept_outcome lib server ok s \<longleftrightarrow>
     (if ok
      then ss_is_open s \<and> ss_recv_buffer s = [] \<and> ss_is_tls s = sv_is_tls server \<and>
           (sv_is_tls server \<longrightarrow>
              (\<exists>nid. ss_peer_node_id s = Some nid \<and> ts_established (ss_tls s) \<and>
                 digest_sha256 lib (ts_peer_pubkey (ss_tls s)) = Some nid \<and> admitted server nid))
      else \<not> ss_is_open s)"

lemma accept_outcome:
  assumes "transport_accept os lib server s timeout err w = (ok, s', err', w')" "sv_is_listening server"
  shows "accept_outcome lib server ok s'"
proof -
  obtain s0 w0 where s0: "transport_close os lib s w = (s0, w0)" by fastforce
  have closed: "\<not> ss_is_open s0" "ss_recv_buffer s0 = []" using transport_close_closes [OF s0] by auto
  define t where "t = (case timeout of Some t \<Rightarrow> t | None \<Rightarrow> 0)"
  obtain r w1 where w1: "socket_accept os (sv_listen_socket server) t w0 = (r, w1)" by fastforce
  note unfolded = assms(1) [unfolded transport_accept_def s0 prod.case t_def [symmetric] w1]
  show ?thesis
  proof (cases r)
    case (Inl e)
    then show ?thesis
      using unfolded assms(2) closed by (cases e) (auto simp: accept_outcome_def)
  next
    case (Inr p)
    obtain sock remote where p: "p = (sock, remote)" by fastforce
    note unfolded1 = unfolded [unfolded Inr p sum.case prod.case Let_def]
    show ?thesis
    proof (cases "sv_is_tls server")
      case False
      then show ?thesis using unfolded1 assms(2) closed by (auto simp: accept_outcome_def)
    next
      case True
      obtain ok1 t1 err1 w2 where t1:
        "tls_session_init os lib (ss_tls s0) (sv_tls_ctx server) sock err w1 = (ok1, t1, err1, w2)"
        by (metis prod_cases4)
      obtain ok2 t2 err2 w3 where t2: "tls_handshake os lib t1 timeout err1 w2 = (ok2, t2, err2, w3)"
        by (metis prod_cases4)
      have identity: "ts_established t2 \<and> digest_sha256 lib (ts_peer_pubkey t2) = Some (ts_peer_id t2)" if ok1 ok2
        using tls_handshake_identity [of os lib "ss_tls s0" "sv_tls_ctx server"] t1 t2 that by simp
      show ?thesis
        using unfolded1 assms(2) closed True t1 t2 identity
        by (cases ok1; cases ok2) (auto simp: accept_outcome_def admitted_def split: option.splits if_splits prod.splits)
    qed
  qed
qed

definition connect_outcome ::
  "('w, 'k, 's) ssl_lib \<Rightarrow> node_id option \<Rightarrow> bool \<Rightarrow> transport_session \<Rightarrow> bool" where
  "connect_outcome lib expected ok s \<longleftrightarrow>
     (if ok
      then ss_is_open s \<and> ss_recv_buffer s = [] \<and> ss_is_tls s \<and>
           (\<exists>nid. ss_peer_node_id s = Some nid \<and> ts_established (ss_tls s) \<and>
              digest_sha256 lib (ts_peer_pubkey (ss_tls s)) = Some nid \<and> is_public_key (ts_peer_pubkey (ss_tls s)) \<and>
              expected \<in> {None, Some nid})
      else \<not> ss_is_open s)"

lemma connect_outcome:
  assumes "transport_connect_tls os lib s config host port expected timeout err w = (ok, s', err', w')"
  shows "connect_outcome lib expected ok s'"
proof -
  obtain s0 w0 where s0: "transport_close os lib s w = (s0, w0)" by fastforce
  have closed: "\<not> ss_is_open s0" "ss_recv_buffer s0 = []" using transport_close_closes [OF s0] by auto
  obtain r w1 where w1: "socket_connect os host port timeout w0 = (r, w1)" by fastforce
  note unfolded = assms(1) [unfolded transport_connect_tls_def s0 prod.case w1]
  show ?thesis
  proof (cases r)
    case (Inl e)
    then show ?thesis using unfolded closed by (auto simp: connect_outcome_def)
  next
    case (Inr sock)
    obtain ok1 ctx err1 w2 where c: "tls_context_init lib empty_tls_context Client config err w1 = (ok1, ctx, err1, w2)"
      by (metis prod_cases4)
    obtain ok2 t1 err2 w3 where t1: "tls_session_init os lib (ss_tls s0) ctx sock err1 w2 = (ok2, t1, err2, w3)"
      by (metis prod_cases4)
    obtain ok3 t2 err3 w4 where t2: "tls_handshake os lib t1 (Some timeout) err2 w3 = (ok3, t2, err3, w4)"
      by (metis prod_cases4)
    have identity: "ts_established t2 \<and> digest_sha256 lib (ts_peer_pubkey t2) = Some (ts_peer_id t2) \<and>
        is_public_key (ts_peer_pubkey t2)" if ok2 ok3
      using tls_handshake_identity [of os lib "ss_tls s0" ctx] t1 t2 that by simp
    note unfolded1 = unfolded [unfolded Inr sum.case c prod.case t1 t2 Let_def]
    show ?thesis
      using unfolded1 closed identity
      by (cases ok1; cases ok2; cases ok3)
        (auto simp: connect_outcome_def split: option.splits if_splits prod.splits)
  qed
qed

section \<open>Descriptors\<close>

text \<open>
  The library opens and closes no descriptor of the process: \<open>SSL_set_fd\<close> takes a socket without owning it.
\<close>

definition keeps_descriptors :: "('w, 'k, 's) ssl_lib \<Rightarrow> ('w \<Rightarrow> fd set) \<Rightarrow> bool" where
  "keeps_descriptors lib held \<longleftrightarrow>
     (\<forall>role w. held (snd (ctx_new lib role w)) = held w) \<and>
     (\<forall>n w. held (snd (ctx_set_min_tls13 lib n w)) = held w) \<and>
     (\<forall>n w. held (snd (ctx_set_max_tls13 lib n w)) = held w) \<and>
     (\<forall>n c w. held (snd (ctx_use_certificate lib n c w)) = held w) \<and>
     (\<forall>n k w. held (snd (ctx_use_key lib n k w)) = held w) \<and>
     (\<forall>n w. held (ctx_set_verify lib n w) = held w) \<and>
     (\<forall>n w. held (ctx_free lib n w) = held w) \<and>
     (\<forall>n w. held (snd (ssl_new lib n w)) = held w) \<and>
     (\<forall>n fd w. held (snd (ssl_set_fd lib n fd w)) = held w) \<and>
     (\<forall>n w. held (ssl_free lib n w) = held w) \<and>
     (\<forall>n w. held (ssl_shutdown lib n w) = held w) \<and>
     (\<forall>n w. held (snd (ssl_accept lib n w)) = held w) \<and>
     (\<forall>n w. held (snd (ssl_connect lib n w)) = held w) \<and>
     (\<forall>w. held (snd (ssl_error_queue lib w)) = held w)"

named_theorems held_call

text \<open>Each fact in the form in which a call appears: its result is known.\<close>

lemma held_library [held_call]:
  assumes "keeps_descriptors lib held"
  shows "ctx_new lib role w = (r1, w') \<Longrightarrow> held w' = held w"
    and "ctx_set_min_tls13 lib n w = (r2, w') \<Longrightarrow> held w' = held w"
    and "ctx_set_max_tls13 lib n w = (r2, w') \<Longrightarrow> held w' = held w"
    and "ctx_use_certificate lib n c w = (r2, w') \<Longrightarrow> held w' = held w"
    and "ctx_use_key lib n k w = (r2, w') \<Longrightarrow> held w' = held w"
    and "ssl_new lib n w = (r1, w') \<Longrightarrow> held w' = held w"
    and "ssl_set_fd lib n fd w = (r2, w') \<Longrightarrow> held w' = held w"
    and "ssl_accept lib n w = (r3, w') \<Longrightarrow> held w' = held w"
    and "ssl_connect lib n w = (r3, w') \<Longrightarrow> held w' = held w"
    and "ssl_error_queue lib w = (r4, w') \<Longrightarrow> held w' = held w"
  using assms unfolding keeps_descriptors_def by (metis snd_conv)+

lemma held_effects:
  assumes "keeps_descriptors lib held"
  shows "held (ctx_set_verify lib n w) = held w" "held (ctx_free lib n w) = held w"
    "held (ssl_free lib n w) = held w" "held (ssl_shutdown lib n w) = held w"
  using assms by (simp_all add: keeps_descriptors_def)

lemma held_errors:
  assumes "keeps_descriptors lib held"
  shows "get_openssl_errors lib w = (d, w') \<Longrightarrow> held w' = held w"
    and "error_details lib err w = (d, w') \<Longrightarrow> held w' = held w"
  using held_library(10) [OF assms]
  by (auto simp: get_openssl_errors_def error_details_def Let_def split: prod.splits if_splits)

lemma held_tls_close:
  "keeps_descriptors lib held \<Longrightarrow> tls_close lib s w = (s', w') \<Longrightarrow>
     held w' = held w \<and> ts_socket s' = ts_socket s"
  by (auto simp: tls_close_def held_effects split: option.splits)

lemma held_tls_destroy:
  assumes "descriptors os held" "keeps_descriptors lib held" "tls_destroy os lib s w = (s', w')"
  shows "held w' = held w - {ts_socket s} \<and> ts_socket s' = INVALID_SOCKET_HANDLE"
proof -
  obtain s1 w1 where s1: "tls_close lib s w = (s1, w1)" by fastforce
  have "ts_socket s1 = ts_socket s" "held w1 = held w"
    using held_tls_close [OF assms(2) s1] by simp_all
  then show ?thesis
    using assms(3) held_close [OF assms(1), of "ts_socket s" w1] tls_destroy_facts [of os lib s w]
    by (auto simp: tls_destroy_def s1 split: prod.splits)
qed

lemma held_make_certificate:
  "keeps_descriptors lib held \<Longrightarrow> make_self_signed_certificate lib c err w = (cert, err', w') \<Longrightarrow> held w' = held w"
  by (auto simp: make_self_signed_certificate_def Let_def dest: held_errors
      split: option.splits prod.splits if_splits)

lemma held_configure:
  "keeps_descriptors lib held \<Longrightarrow> configure_certificate lib n cert k w = (ok, w') \<Longrightarrow> held w' = held w"
  by (auto simp: configure_certificate_def dest: held_library split: option.splits prod.splits bool.splits)

lemma held_context_destroy:
  "keeps_descriptors lib held \<Longrightarrow> tls_context_destroy lib ctx w = (ctx', w') \<Longrightarrow> held w' = held w"
  by (auto simp: tls_context_destroy_def held_effects split: option.splits)

lemma held_tls13: "keeps_descriptors lib held \<Longrightarrow> enforce_tls13 lib n w = (ok, w') \<Longrightarrow> held w' = held w"
  by (auto simp: enforce_tls13_def dest: held_library split: prod.splits bool.splits)

lemma held_context_init:
  assumes lib: "keeps_descriptors lib held" and "tls_context_init lib ctx role c err w = (ok, ctx', err', w')"
  shows "held w' = held w"
  using assms(2) unfolding tls_context_init_def
  by (auto simp: held_effects [OF lib]
      dest!: held_context_destroy [OF lib] held_library [OF lib] held_errors [OF lib] held_tls13 [OF lib]
        held_make_certificate [OF lib] held_configure [OF lib]
      split: prod.splits option.splits bool.splits if_splits)

lemma held_session_init:
  assumes os: "descriptors os held" and lib: "keeps_descriptors lib held"
    and "tls_session_init os lib t ctx sock err w = (ok, t', err', w')"
  shows "held w' = held w - {ts_socket t} \<and> ts_socket t' = (if ok then sock else INVALID_SOCKET_HANDLE)"
proof -
  obtain t0 w0 where t0: "tls_destroy os lib t w = (t0, w0)" by fastforce
  show ?thesis
    using assms(3) held_tls_destroy [OF os lib t0] unfolding tls_session_init_def t0 prod.case
    by (auto simp: held_effects [OF lib] dest!: held_library [OF lib] held_errors [OF lib]
        split: prod.splits option.splits bool.splits)
qed

lemma held_handshake:
  assumes os: "descriptors os held" and lib: "keeps_descriptors lib held"
    and "tls_handshake os lib t timeout err w = (ok, t', err', w')"
  shows "held w' = held w \<and> ts_socket t' = ts_socket t"
proof -
  have "held (case timeout of None \<Rightarrow> w | Some n \<Rightarrow> snd (socket_set_timeout os (ts_socket t) n True True w)) = held w"
    by (simp add: held_set_timeout [OF os] split: option.split)
  then show ?thesis
    using assms(3) unfolding tls_handshake_def Let_def
    by (auto dest!: held_library [OF lib] held_errors [OF lib] held_tls_close [OF lib]
        split: option.splits prod.splits if_splits sum.splits)
qed

text \<open>A session that holds no descriptor: new, or closed after an earlier use.\<close>

definition idle :: "transport_session \<Rightarrow> bool" where
  "idle s \<longleftrightarrow> ts_socket (ss_tls s) = INVALID_SOCKET_HANDLE \<and> (\<not> ss_is_tls s \<longrightarrow> ss_socket s = INVALID_SOCKET_HANDLE)"

text \<open>The session has the one descriptor \<open>sock\<close>.\<close>

definition uses :: "transport_session \<Rightarrow> fd \<Rightarrow> bool" where
  "uses s sock \<longleftrightarrow> ss_socket s = sock \<and>
     ts_socket (ss_tls s) = (if ss_is_tls s then sock else INVALID_SOCKET_HANDLE)"

lemma not_held_invalid: "descriptors os held \<Longrightarrow> INVALID_SOCKET_HANDLE \<notin> held w"
  by (simp add: descriptors_def)

lemma held_transport_close:
  assumes os: "descriptors os held" and lib: "keeps_descriptors lib held"
    and close: "transport_close os lib s w = (s', w')"
  shows "(idle s \<longrightarrow> held w' = held w \<and> idle s') \<and> (uses s sock \<longrightarrow> held w' = held w - {sock} \<and> idle s')"
proof (cases "ss_is_tls s")
  case True
  obtain t w1 where t: "tls_destroy os lib (ss_tls s) w = (t, w1)" by fastforce
  have "s' = s\<lparr>ss_is_open := False, ss_tls := t, ss_recv_buffer := []\<rparr>" "w' = w1"
    using close True by (simp_all add: transport_close_def t)
  moreover have "held w1 = held w - {ts_socket (ss_tls s)}" "ts_socket t = INVALID_SOCKET_HANDLE"
    using held_tls_destroy [OF os lib t] by simp_all
  ultimately show ?thesis
    using True not_held_invalid [OF os, of w] by (simp add: idle_def uses_def)
next
  case False
  obtain sock' w1 where c: "socket_close os (ss_socket s) w = (sock', w1)" by fastforce
  then have "s' = s\<lparr>ss_is_open := False, ss_socket := sock', ss_recv_buffer := []\<rparr>" "w' = w1"
    using close False by (simp_all add: transport_close_def)
  moreover have "held w1 = held w - {ss_socket s}" "sock' = INVALID_SOCKET_HANDLE"
    using held_close [OF os, of "ss_socket s" w] c
    by (simp_all add: socket_close_def socket_is_valid_def split: if_splits)
  ultimately show ?thesis
    using False not_held_invalid [OF os, of w] by (simp add: idle_def uses_def)
qed

text \<open>The descriptors after an attempt that started from \<open>before\<close>.\<close>

definition attempt_held :: "fd set \<Rightarrow> bool \<Rightarrow> transport_session \<Rightarrow> fd set \<Rightarrow> bool" where
  "attempt_held before ok s after \<longleftrightarrow>
     (if ok then \<exists>sock. sock \<notin> before \<and> after = insert sock before \<and> uses s sock
      else after = before \<and> idle s)"

lemma accept_held:
  assumes os: "descriptors os held" and lib: "keeps_descriptors lib held" and "idle s"
    and accept: "transport_accept os lib server s timeout err w = (ok, s', err', w')"
  shows "attempt_held (held w) ok s' (held w')"
proof (cases "sv_is_listening server")
  case False
  then show ?thesis using accept \<open>idle s\<close> by (simp add: transport_accept_def attempt_held_def)
next
  case listening: True
  obtain s0 w0 where s0: "transport_close os lib s w = (s0, w0)" by fastforce
  have idle: "idle s0" "held w0 = held w"
    using held_transport_close [OF os lib s0] \<open>idle s\<close> by auto
  define t where "t = (case timeout of Some t \<Rightarrow> t | None \<Rightarrow> 0)"
  obtain r w1 where w1: "socket_accept os (sv_listen_socket server) t w0 = (r, w1)" by fastforce
  note accepted = held_accept [OF os w1]
  note unfolded = accept [unfolded transport_accept_def s0 prod.case t_def [symmetric] w1]
  show ?thesis
  proof (cases r)
    case (Inl e)
    then show ?thesis
      using unfolded listening idle accepted by (cases e) (auto simp: attempt_held_def)
  next
    case (Inr p)
    obtain sock remote where p: "p = (sock, remote)" by fastforce
    have sock: "sock \<noteq> INVALID_SOCKET_HANDLE" "sock \<notin> held w" "held w1 = insert sock (held w)"
      using accepted idle by (simp_all add: Inr p)
    note unfolded1 = unfolded [unfolded Inr p sum.case prod.case Let_def]
    show ?thesis
    proof (cases "sv_is_tls server")
      case False
      then show ?thesis using unfolded1 listening sock idle
        by (auto simp: attempt_held_def uses_def idle_def)
    next
      case True
      obtain ok1 t1 err1 w2 where t1:
        "tls_session_init os lib (ss_tls s0) (sv_tls_ctx server) sock err w1 = (ok1, t1, err1, w2)"
        by (metis prod_cases4)
      obtain ok2 t2 err2 w3 where t2: "tls_handshake os lib t1 timeout err1 w2 = (ok2, t2, err2, w3)"
        by (metis prod_cases4)
      obtain t3 w4 where t3: "tls_destroy os lib t2 w3 = (t3, w4)" by fastforce
      have "held w2 = held w1" "ts_socket t1 = (if ok1 then sock else INVALID_SOCKET_HANDLE)"
        using held_session_init [OF os lib t1] idle not_held_invalid [OF os, of w1] by (auto simp: idle_def)
      moreover have "held w3 = held w2" "ts_socket t2 = ts_socket t1"
        using held_handshake [OF os lib t2] by simp_all
      ultimately show ?thesis
        using unfolded1 listening True t1 t2 t3 sock held_tls_destroy [OF os lib t3]
          held_close [OF os, of sock w2]
        by (cases ok1; cases ok2)
          (auto simp: attempt_held_def uses_def idle_def split: option.splits if_splits)
    qed
  qed
qed

lemma connect_held:
  assumes os: "descriptors os held" and lib: "keeps_descriptors lib held" and "idle s"
    and connect: "transport_connect_tls os lib s config host port expected timeout err w = (ok, s', err', w')"
  shows "attempt_held (held w) ok s' (held w')"
proof -
  obtain s0 w0 where s0: "transport_close os lib s w = (s0, w0)" by fastforce
  have idle: "idle s0" "held w0 = held w"
    using held_transport_close [OF os lib s0] \<open>idle s\<close> by auto
  obtain r w1 where w1: "socket_connect os host port timeout w0 = (r, w1)" by fastforce
  note unfolded = connect [unfolded transport_connect_tls_def s0 prod.case w1]
  show ?thesis
  proof (cases r)
    case (Inl e)
    then show ?thesis
      using unfolded idle held_connect [OF os w1] by (auto simp: attempt_held_def)
  next
    case (Inr sock)
    have sock: "sock \<noteq> INVALID_SOCKET_HANDLE" "sock \<notin> held w" "held w1 = insert sock (held w)"
      using held_connect [OF os w1] idle by (simp_all add: Inr)
    obtain ok1 ctx err1 w2 where c: "tls_context_init lib empty_tls_context Client config err w1 = (ok1, ctx, err1, w2)"
      by (metis prod_cases4)
    obtain ok2 t1 err2 w3 where t1: "tls_session_init os lib (ss_tls s0) ctx sock err1 w2 = (ok2, t1, err2, w3)"
      by (metis prod_cases4)
    obtain ok3 t2 err3 w4 where t2: "tls_handshake os lib t1 (Some timeout) err2 w3 = (ok3, t2, err3, w4)"
      by (metis prod_cases4)
    obtain t3 w5 where t3: "tls_destroy os lib t2 w4 = (t3, w5)" by fastforce
    have freed: "held (snd (tls_context_destroy lib ctx v)) = held v" for v
      using held_context_destroy [OF lib] by (metis prod.collapse)
    have "held w2 = held w1" using held_context_init [OF lib c] .
    moreover have "held w3 = held w2" "ts_socket t1 = (if ok2 then sock else INVALID_SOCKET_HANDLE)"
      using held_session_init [OF os lib t1] idle not_held_invalid [OF os, of w2] by (auto simp: idle_def)
    moreover have "held w4 = held w3" "ts_socket t2 = ts_socket t1"
      using held_handshake [OF os lib t2] by simp_all
    moreover note unfolded1 = unfolded [unfolded Inr sum.case c prod.case t1 t2 t3 Let_def]
    ultimately show ?thesis
      using unfolded1 sock idle held_tls_destroy [OF os lib t3] held_close [OF os, of sock]
      by (cases ok1; cases ok2; cases ok3)
        (auto simp: attempt_held_def uses_def idle_def freed split: option.splits if_splits)
  qed
qed

section \<open>Properties\<close>


definition sample_server :: "byte transport_server" where
  "sample_server =
     \<lparr>sv_listen_socket = 3, sv_tls_ctx = empty_tls_context\<lparr>cx_native := Some 1\<rparr>, sv_is_tls = True,
      sv_bind_address = ''::'', sv_port = 4242, sv_peer_validator = Some (\<lambda>nid. nid = replicate 32 8),
      sv_is_listening = True\<rparr>"

definition accepted_session :: transport_session where
  "accepted_session =
     \<lparr>ss_socket = 4,
      ss_tls = \<lparr>ts_ssl = Some 2, ts_socket = 4, ts_peer_id = replicate 32 8,
                ts_peer_pubkey = replicate 32 7, ts_established = True\<rparr>,
      ss_is_tls = True, ss_recv_buffer = [], ss_remote_endpoint = '':4242'',
      ss_peer_node_id = Some (replicate 32 8), ss_is_open = True\<rparr>"

lemma sample_ports_text: "to_string 4242 = ''4242''" "to_string (Suc 0) = ''1''"
  by (simp_all add: to_string.simps char_of_def bit_simps)

lemma sample_accept:
  "transport_accept sample_os sample_lib sample_server new_session None None [3] =
     (True, accepted_session, None, [4, 3])"
  by (simp add: transport_accept_def sample_server_def new_session_def accepted_session_def transport_close_def
      socket_close_def socket_is_valid_def INVALID_SOCKET_HANDLE_def socket_accept_def sample_os_def
      sample_lib_def tls_session_init_def tls_destroy_def tls_close_def empty_tls_session_def
      empty_tls_context_def tls_handshake_def peer_identity_def sample_certificate_def X509_V_OK_def
      remote_text_def sample_ports_text)


text \<open>
  A TLS connection that is opened to an expected peer has exactly that peer: its node id is the expected
  one and is the SHA-256 digest of the key the peer proved to have. When connecting fails, the session is
  not open.
\<close>

theorem connected_peer_is_expected:
  assumes "transport_connect_tls os lib s config host port expected timeout err w = (ok, s', err', w')"
  shows "if ok
    then ss_is_open s' \<and> ss_recv_buffer s' = [] \<and> ss_is_tls s' \<and>
      (\<exists>nid. ss_peer_node_id s' = Some nid \<and> ts_established (ss_tls s') \<and>
         digest_sha256 lib (ts_peer_pubkey (ss_tls s')) = Some nid \<and> (expected = None \<or> expected = Some nid))
    else \<not> ss_is_open s'"
  using connect_outcome [OF assms] by (auto simp: connect_outcome_def)

definition connected_session :: transport_session where
  "connected_session =
     \<lparr>ss_socket = 3,
      ss_tls = \<lparr>ts_ssl = Some 2, ts_socket = 3, ts_peer_id = replicate 32 8,
                ts_peer_pubkey = replicate 32 7, ts_established = True\<rparr>,
      ss_is_tls = True, ss_recv_buffer = [], ss_remote_endpoint = ''h:1'',
      ss_peer_node_id = Some (replicate 32 8), ss_is_open = True\<rparr>"

lemma sample_connect:
  "transport_connect_tls sample_os sample_lib new_session sample_tls_config ''h'' 1 (Some (replicate 32 8)) 0
     None [] = (True, connected_session, None, [3])"
  by (simp add: transport_connect_tls_def sample_tls_config_def new_session_def connected_session_def
      transport_close_def socket_close_def socket_is_valid_def INVALID_SOCKET_HANDLE_def socket_connect_def
      sample_os_def sample_lib_def tls_context_init_def tls_context_destroy_def enforce_tls13_def
      make_self_signed_certificate_def configure_certificate_def tls_session_init_def tls_destroy_def
      tls_close_def empty_tls_session_def empty_tls_context_def tls_handshake_def peer_identity_def
      sample_certificate_def X509_V_OK_def format_endpoint_def find_char_def socket_set_timeout_def
      sample_ports_text Let_def)

lemma connected_peer_is_expected_witness:
  "ss_is_open connected_session \<and> ss_peer_node_id connected_session = Some (replicate 32 8)"
  using connected_peer_is_expected [OF sample_connect] by (simp add: connected_session_def)

text \<open>
  Connecting over TLS gives back every descriptor that it does not use. Started on an idle session, a
  failed attempt leaves the process with the descriptors it had, on each of its error paths, and the session
  idle. A successful one adds exactly one, which closing the session gives back.
\<close>

theorem connect_tls_leaks_nothing:
  assumes "descriptors os held" "keeps_descriptors lib held" "idle s"
    and "transport_connect_tls os lib s config host port expected timeout err w = (ok, s', err', w')"
    and "transport_close os lib s' w' = (s'', w'')"
  shows "(\<not> ok \<longrightarrow> held w' = held w \<and> idle s') \<and>
    (ok \<longrightarrow> held w' = insert (ss_socket s') (held w) \<and> ss_socket s' \<notin> held w) \<and>
    held w'' = held w \<and> idle s''"
proof (cases ok)
  case True
  then obtain sock where sock: "sock \<notin> held w" "held w' = insert sock (held w)" "uses s' sock"
    using connect_held [OF assms(1-4)] by (auto simp: attempt_held_def)
  then show ?thesis
    using True held_transport_close [OF assms(1,2,5), of sock] by (auto simp: uses_def)
next
  case False
  then show ?thesis
    using connect_held [OF assms(1-4)] held_transport_close [OF assms(1,2,5)] by (auto simp: attempt_held_def)
qed

lemma sample_keeps: "keeps_descriptors sample_lib held"
  by (simp add: keeps_descriptors_def sample_lib_def)

lemma new_session_idle: "idle new_session"
  by (simp add: idle_def new_session_def empty_tls_session_def)

lemma connect_tls_leaks_nothing_witness:
  "sample_held [3] = insert 3 (sample_held []) \<and> (3 :: fd) \<notin> sample_held []"
  using connect_tls_leaks_nothing [OF sample_descriptors sample_keeps new_session_idle sample_connect
      surjective_pairing]
  by (simp add: connected_session_def)

text \<open>
  Accepting a session gives back every descriptor that it does not use, in the same sense: handshake and
  policy failures included.
\<close>

theorem accept_leaks_nothing:
  assumes "descriptors os held" "keeps_descriptors lib held" "idle s"
    and "transport_accept os lib server s timeout err w = (ok, s', err', w')"
    and "transport_close os lib s' w' = (s'', w'')"
  shows "(\<not> ok \<longrightarrow> held w' = held w \<and> idle s') \<and>
    (ok \<longrightarrow> held w' = insert (ss_socket s') (held w) \<and> ss_socket s' \<notin> held w) \<and>
    held w'' = held w \<and> idle s''"
proof (cases ok)
  case True
  then obtain sock where sock: "sock \<notin> held w" "held w' = insert sock (held w)" "uses s' sock"
    using accept_held [OF assms(1-4)] by (auto simp: attempt_held_def)
  then show ?thesis
    using True held_transport_close [OF assms(1,2,5), of sock] by (auto simp: uses_def)
next
  case False
  then show ?thesis
    using accept_held [OF assms(1-4)] held_transport_close [OF assms(1,2,5)] by (auto simp: attempt_held_def)
qed

lemma accept_leaks_nothing_witness:
  "sample_held [4, 3] = insert 4 (sample_held [3]) \<and> (4 :: fd) \<notin> sample_held [3]"
  using accept_leaks_nothing [OF sample_descriptors sample_keeps new_session_idle sample_accept
      surjective_pairing]
  by (simp add: accepted_session_def)

end
