(* ===== verification/Base64.thy ===== *)
theory Base64
  imports Prelude
begin

text \<open>
  The base64url encoding of invitations: \<open>base64url_encode\<close> and \<open>base64url_decode\<close> of
  \<open>src/security/invite.cpp\<close>. Both run over the input with a 32-bit buffer whose older bits are shifted out
  and a count of the bits in it that are not used yet. Shown: decoding inverts encoding, and only the
  encoder's own output is accepted.
\<close>

section \<open>The code\<close>

definition base64_alphabet :: string where
  "base64_alphabet = ''ABCDEFGHIJKLMNOPQRSTUVWXYZabcdefghijklmnopqrstuvwxyz0123456789-_''"

definition base64_char :: "u32 \<Rightarrow> char" where
  "base64_char v = base64_alphabet ! unat v"

text \<open>The inner loop: the characters that are complete, and the bits that are left.\<close>

fun base64_emit :: "u32 \<Rightarrow> nat \<Rightarrow> string \<times> nat" where
  "base64_emit buffer bits =
     (if bits < 6 then ([], bits)
      else case base64_emit buffer (bits - 6) of
        (output, left) \<Rightarrow> (base64_char (drop_bit (bits - 6) buffer AND 63) # output, left))"

declare base64_emit.simps [simp del]

fun base64_encode_loop :: "u32 \<Rightarrow> nat \<Rightarrow> byte list \<Rightarrow> string" where
  "base64_encode_loop buffer bits [] =
     (if bits \<noteq> 0 then [base64_char (push_bit (6 - bits) buffer AND 63)] else [])"
| "base64_encode_loop buffer bits (byte # bytes) =
     (let buffer' = push_bit 8 buffer OR ucast byte in
      case base64_emit buffer' (bits + 8) of
        (output, left) \<Rightarrow> output @ base64_encode_loop buffer' left bytes)"

definition base64url_encode :: "byte list \<Rightarrow> string" where
  "base64url_encode input = base64_encode_loop 0 0 input"

definition base64_value :: "char \<Rightarrow> u8 option" where
  "base64_value c =
     (let n = of_char c :: nat in
      if 65 \<le> n \<and> n \<le> 90 then Some (of_nat (n - 65))
      else if 97 \<le> n \<and> n \<le> 122 then Some (of_nat (n - 97 + 26))
      else if 48 \<le> n \<and> n \<le> 57 then Some (of_nat (n - 48 + 52))
      else if c = CHR ''-'' then Some 62
      else if c = CHR ''_'' then Some 63
      else None)"

text \<open>The bytes decoded, and the buffer with its unused bits at the end.\<close>

fun base64_decode_loop :: "u32 \<Rightarrow> nat \<Rightarrow> string \<Rightarrow> (byte list \<times> u32 \<times> nat) option" where
  "base64_decode_loop buffer bits [] = Some ([], buffer, bits)"
| "base64_decode_loop buffer bits (c # s) =
     (case base64_value c of
        None \<Rightarrow> None
      | Some v \<Rightarrow>
          let buffer' = push_bit 6 buffer OR ucast v in
          if 8 \<le> bits + 6
          then map_option (\<lambda>(decoded, rest). (ucast (drop_bit (bits + 6 - 8) buffer') # decoded, rest))
                 (base64_decode_loop buffer' (bits + 6 - 8) s)
          else base64_decode_loop buffer' (bits + 6) s)"

definition base64url_decode :: "string \<Rightarrow> string + byte list" where
  "base64url_decode input =
     (if input = [] \<or> length input mod 4 = 1 then Inl ''Invalid invitation encoding''
      else case base64_decode_loop 0 0 input of
        None \<Rightarrow> Inl ''Invalid invitation encoding''
      | Some (decoded, buffer, bits) \<Rightarrow>
          if (bits \<noteq> 0 \<and> buffer AND (push_bit bits 1 - 1) \<noteq> 0) \<or> base64url_encode decoded \<noteq> input
          then Inl ''Non-canonical invitation encoding''
          else Inr decoded)"

section \<open>Facts: the alphabet\<close>

lemma base64_alphabet_values: "map base64_value base64_alphabet = map (\<lambda>n. Some (of_nat n)) [0..<64]"
  by (simp add: base64_alphabet_def base64_value_def upt_rec)

lemma and_63: "(x :: u32) AND 63 = take_bit 6 x"
  by (simp add: take_bit_eq_mask mask_eq_exp_minus_1)

lemma base64_value_char: "base64_value (base64_char (x AND 63)) = Some (ucast (x AND 63))"
proof -
  define n where "n = unat (x AND 63)"
  have "n < 64"
    using take_bit_nat_less_exp [of 6 "unat x"] by (simp add: n_def and_63 unsigned_take_bit_eq)
  moreover have "length base64_alphabet = 64" by (simp add: base64_alphabet_def)
  ultimately have "base64_value (base64_alphabet ! n) = Some (of_nat n)"
    using arg_cong [OF base64_alphabet_values, of "\<lambda>xs. xs ! n"] by simp
  then show ?thesis unfolding base64_char_def n_def of_nat_unat .
qed

section \<open>Facts: groups of three bytes\<close>

lemma base64_emit_values:
  "base64_emit x 8 = ([base64_char (drop_bit 2 x AND 63)], 2)"
  "base64_emit x 10 = ([base64_char (drop_bit 4 x AND 63)], 4)"
  "base64_emit x 12 = ([base64_char (drop_bit 6 x AND 63), base64_char (x AND 63)], 0)"
  by (simp_all add: base64_emit.simps [of x 8] base64_emit.simps [of x 10] base64_emit.simps [of x 12]
      base64_emit.simps [of x 6] base64_emit.simps [of x 4] base64_emit.simps [of x 2] base64_emit.simps [of x 0])

definition shift_in :: "u32 \<Rightarrow> byte \<Rightarrow> u32" where
  "shift_in g a = push_bit 8 g OR ucast a"

lemma encode_triple:
  "base64_encode_loop g 0 (a # b # c # r) =
     (let g1 = shift_in g a; g2 = shift_in g1 b; g3 = shift_in g2 c in
      [base64_char (drop_bit 2 g1 AND 63), base64_char (drop_bit 4 g2 AND 63),
       base64_char (drop_bit 6 g3 AND 63), base64_char (g3 AND 63)] @ base64_encode_loop g3 0 r)"
  by (simp add: base64_emit_values Let_def shift_in_def)

lemma encode_pair:
  "base64_encode_loop g 0 [a, b] =
     (let g1 = shift_in g a; g2 = shift_in g1 b in
      [base64_char (drop_bit 2 g1 AND 63), base64_char (drop_bit 4 g2 AND 63), base64_char (push_bit 2 g2 AND 63)])"
  by (simp add: base64_emit_values Let_def shift_in_def)

lemma encode_single:
  "base64_encode_loop g 0 [a] =
     (let g1 = shift_in g a in [base64_char (drop_bit 2 g1 AND 63), base64_char (push_bit 4 g1 AND 63)])"
  by (simp add: base64_emit_values Let_def shift_in_def)

declare base64_encode_loop.simps(2) [simp del]

definition sextet_in :: "u32 \<Rightarrow> u32 \<Rightarrow> u32" where
  "sextet_in h x = push_bit 6 h OR ucast (ucast (x AND 63) :: u8)"

lemma decode_step:
  "base64_decode_loop h 0 (base64_char (x AND 63) # s) = base64_decode_loop (sextet_in h x) 6 s"
  "base64_decode_loop h 6 (base64_char (x AND 63) # s) =
     map_option (\<lambda>(d, r). (ucast (drop_bit 4 (sextet_in h x)) # d, r)) (base64_decode_loop (sextet_in h x) 4 s)"
  "base64_decode_loop h 4 (base64_char (x AND 63) # s) =
     map_option (\<lambda>(d, r). (ucast (drop_bit 2 (sextet_in h x)) # d, r)) (base64_decode_loop (sextet_in h x) 2 s)"
  "base64_decode_loop h 2 (base64_char (x AND 63) # s) =
     map_option (\<lambda>(d, r). (ucast (sextet_in h x) # d, r)) (base64_decode_loop (sextet_in h x) 0 s)"
  by (simp_all add: base64_value_char sextet_in_def Let_def)

declare base64_decode_loop.simps(2) [simp del]

text \<open>The bits that come out are those that went in.\<close>

lemma sextet_bits:
  "bit (sextet_in h x) n \<longleftrightarrow> n < 32 \<and> (if n < 6 then bit x n else bit h (n - 6))"
  by (auto simp: sextet_in_def and_63 bit_simps)

lemma shift_bits:
  "bit (shift_in g a) n \<longleftrightarrow> n < 32 \<and> (if n < 8 then bit a n else bit g (n - 8))"
  by (auto simp: shift_in_def bit_simps dest: bit_imp_le_length)

lemma byte_eqI:
  assumes "\<And>n. n \<in> {0, 1, 2, 3, 4, 5, 6, 7} \<Longrightarrow> bit a n \<longleftrightarrow> bit b n"
  shows "a = (b :: byte)"
proof (rule bit_word_eqI)
  fix n
  assume "n < LENGTH(8)"
  then have "n < 8" by simp
  then have "n \<in> {0, 1, 2, 3, 4, 5, 6, 7}" by (simp, presburger)
  then show "bit a n \<longleftrightarrow> bit b n" by (rule assms)
qed

lemmas group_bits = sextet_bits shift_bits bit_ucast_iff bit_drop_bit_eq bit_push_bit_iff

lemma triple_bytes:
  fixes a b c :: byte and g h :: u32
  defines "g1 \<equiv> shift_in g a" and "g2 \<equiv> shift_in (shift_in g a) b"
    and "g3 \<equiv> shift_in (shift_in (shift_in g a) b) c"
  defines "h2 \<equiv> sextet_in (sextet_in h (drop_bit 2 g1)) (drop_bit 4 g2)"
  shows "ucast (drop_bit 4 h2) = a"
    and "ucast (drop_bit 2 (sextet_in h2 (drop_bit 6 g3))) = b"
    and "ucast (sextet_in (sextet_in h2 (drop_bit 6 g3)) g3) = c"
    and "ucast (drop_bit 2 (sextet_in h2 (push_bit 2 g2))) = b"
    and "ucast (drop_bit 4 (sextet_in (sextet_in h (drop_bit 2 g1)) (push_bit 4 g1))) = a"
  unfolding g1_def g2_def g3_def h2_def
  by ((rule byte_eqI, elim insertE emptyE; simp add: group_bits)+)

lemmas decode_group = decode_step triple_bytes

text \<open>What is left of an incomplete group is zero.\<close>

lemma unused_bits:
  "sextet_in h (push_bit 2 g) AND 3 = 0" "sextet_in h (push_bit 4 g) AND 15 = 0"
proof -
  have "take_bit 2 (sextet_in h (push_bit 2 g)) = 0" "take_bit 4 (sextet_in h (push_bit 4 g)) = 0"
    by (auto intro!: bit_word_eqI simp: bit_take_bit_iff group_bits)
  then show "sextet_in h (push_bit 2 g) AND 3 = 0" "sextet_in h (push_bit 4 g) AND 15 = 0"
    by (simp_all add: take_bit_eq_mask mask_eq_exp_minus_1)
qed

lemma decode_single:
  "base64_decode_loop h 0 (base64_encode_loop g 0 [a]) =
     Some ([a], sextet_in (sextet_in h (drop_bit 2 (shift_in g a))) (push_bit 4 (shift_in g a)), 4)"
  by (simp add: encode_single Let_def decode_group)

lemma decode_pair:
  "base64_decode_loop h 0 (base64_encode_loop g 0 [a, b]) =
     Some ([a, b], sextet_in (sextet_in (sextet_in h (drop_bit 2 (shift_in g a)))
       (drop_bit 4 (shift_in (shift_in g a) b))) (push_bit 2 (shift_in (shift_in g a) b)), 2)"
  by (simp add: encode_pair Let_def decode_group)

lemma decode_triple:
  fixes g h a b c
  defines "g1 \<equiv> shift_in g a" and "g2 \<equiv> shift_in (shift_in g a) b"
    and "g3 \<equiv> shift_in (shift_in (shift_in g a) b) c"
  shows "base64_decode_loop h 0 (base64_encode_loop g 0 (a # b # c # r)) =
     map_option (\<lambda>(d, rest). (a # b # c # d, rest))
       (base64_decode_loop (sextet_in (sextet_in (sextet_in (sextet_in h (drop_bit 2 g1)) (drop_bit 4 g2))
          (drop_bit 6 g3)) g3) 0 (base64_encode_loop g3 0 r))"
  unfolding g1_def g2_def g3_def
  by (simp add: encode_triple Let_def decode_group option.map_comp comp_def case_prod_unfold)

lemma decode_encode_loop:
  "\<exists>buffer bits. base64_decode_loop h 0 (base64_encode_loop g 0 bs) = Some (bs, buffer, bits) \<and>
     (bits = 0 \<or> buffer AND (push_bit bits 1 - 1) = 0)"
proof (induction "length bs" arbitrary: bs g h rule: less_induct)
  case less
  consider "bs = []" | a where "bs = [a]" | a b where "bs = [a, b]" | a b c r where "bs = a # b # c # r"
    by (metis list.exhaust)
  then show ?case
  proof cases
    case 2
    show ?thesis unfolding 2 decode_single by (intro exI conjI, rule refl) (simp add: unused_bits)
  next
    case 3
    show ?thesis unfolding 3 decode_pair by (intro exI conjI, rule refl) (simp add: unused_bits)
  next
    case 4
    obtain g' h' where step: "base64_decode_loop h 0 (base64_encode_loop g 0 bs) =
      map_option (\<lambda>(d, rest). (a # b # c # d, rest)) (base64_decode_loop h' 0 (base64_encode_loop g' 0 r))"
      unfolding 4 using decode_triple by blast
    obtain buffer bits where "base64_decode_loop h' 0 (base64_encode_loop g' 0 r) = Some (r, buffer, bits)"
      "bits = 0 \<or> buffer AND (push_bit bits 1 - 1) = 0"
      using less [of r h' g'] 4 by auto
    then show ?thesis unfolding step by (simp add: 4)
  qed simp
qed

lemma length_encode_loop:
  "length (base64_encode_loop g 0 bs) mod 4 \<noteq> 1 \<and> (bs \<noteq> [] \<longrightarrow> base64_encode_loop g 0 bs \<noteq> []) \<and>
   length (base64_encode_loop g 0 bs) = (length bs * 4 + 2) div 3"
proof (induction "length bs" arbitrary: bs g rule: less_induct)
  case less
  consider "bs = []" | a where "bs = [a]" | a b where "bs = [a, b]" | a b c r where "bs = a # b # c # r"
    by (metis list.exhaust)
  then show ?case
  proof cases
    case 4
    then show ?thesis using less [of r "shift_in (shift_in (shift_in g a) b) c"]
      by (simp add: encode_triple Let_def) presburger
  qed (simp_all add: encode_single encode_pair Let_def)
qed

section \<open>Properties\<close>

lemma base64_inverse: "bytes \<noteq> [] \<Longrightarrow> base64url_decode (base64url_encode bytes) = Inr bytes"
  using decode_encode_loop [of 0 0 bytes] length_encode_loop [of 0 bytes]
  by (auto simp: base64url_decode_def base64url_encode_def)

lemma base64_decode_result: "base64url_decode s = Inr bytes \<Longrightarrow> s = base64url_encode bytes \<and> bytes \<noteq> []"
  by (auto simp: base64url_decode_def base64url_encode_def split: if_splits option.splits)

text \<open>
  The decoder accepts a text as the bytes exactly when the text is what the encoder makes of these
  bytes, and there is at least one: decoding inverts encoding, and no byte string has a second accepted
  spelling. An encoding has four characters for three bytes, rounded up.
\<close>

theorem base64_canonical:
  "(base64url_decode s = Inr bytes \<longleftrightarrow> bytes \<noteq> [] \<and> s = base64url_encode bytes) \<and>
   length (base64url_encode bytes) = (length bytes * 4 + 2) div 3"
  using base64_inverse base64_decode_result length_encode_loop [of 0 bytes]
  by (auto simp: base64url_encode_def)

end
