(* ===== verification/Storage.thy ===== *)
theory Storage
  imports Config
begin

text \<open>
  Private files: the POSIX branches of \<open>src/platform/private_storage.cpp\<close>, \<open>durability.cpp\<close> and
  \<open>file_lock.cpp\<close>. The file system is a parameter, a record of the calls that the code makes; so is the
  random generator. Paths are texts in normal form. Shown: replacing a private file is atomic.
\<close>

section \<open>The file system\<close>

type_synonym path = string

definition path_join :: "path \<Rightarrow> string \<Rightarrow> path" where
  "path_join directory name =
     (if directory = [] \<or> last directory = CHR ''/'' then directory @ name else directory @ ''/'' @ name)"

definition parent_path :: "path \<Rightarrow> path" where
  "parent_path p =
     (case rfind_char (CHR ''/'') p of
        None \<Rightarrow> []
      | Some i \<Rightarrow> if i = 0 then ''/'' else take i p)"

definition file_name :: "path \<Rightarrow> string" where
  "file_name p = (case rfind_char (CHR ''/'') p of None \<Rightarrow> p | Some i \<Rightarrow> drop (i + 1) p)"

datatype file_kind = Regular | Directory | Symlink | Other

text \<open>An \<open>error_code\<close> that is set: whether it is \<open>no_such_file_or_directory\<close>, and its message.\<close>

type_synonym fs_error = "bool \<times> string"

text \<open>
  \<open>fs_status\<close> is \<open>symlink_status\<close>; \<open>fs_owned\<close> tells whether \<open>lstat\<close> succeeds with one link and the caller
  as the owner; \<open>fs_create\<close> is \<open>open\<close> with \<open>O_CREAT | O_EXCL\<close>, \<open>fs_open\<close> an \<open>open\<close> for reading (of a
  directory, or creating the file, as the flag says); \<open>fs_write\<close> truncates, writes and flushes a stream;
  \<open>fs_read\<close> reads up to so many bytes, with the flag \<open>bad\<close>; \<open>fs_fsync\<close> repeats interrupted calls;
  \<open>fs_entries\<close> lists file names, and an error that ended the listing.
\<close>

record 'w fs =
  fs_exists :: "path \<Rightarrow> 'w \<Rightarrow> fs_error + bool"
  fs_create_directory :: "path \<Rightarrow> 'w \<Rightarrow> (fs_error + bool) \<times> 'w"
  fs_status :: "path \<Rightarrow> 'w \<Rightarrow> fs_error + file_kind"
  fs_owned :: "path \<Rightarrow> 'w \<Rightarrow> bool"
  fs_chmod :: "path \<Rightarrow> nat \<Rightarrow> 'w \<Rightarrow> bool \<times> 'w"
  fs_create :: "path \<Rightarrow> 'w \<Rightarrow> nat option \<times> 'w"
  fs_open :: "path \<Rightarrow> bool \<Rightarrow> 'w \<Rightarrow> nat option \<times> 'w"
  fs_close :: "nat \<Rightarrow> 'w \<Rightarrow> bool \<times> 'w"
  fs_fsync :: "nat \<Rightarrow> 'w \<Rightarrow> bool \<times> 'w"
  fs_flock :: "nat \<Rightarrow> 'w \<Rightarrow> bool \<times> 'w"
  fs_write :: "path \<Rightarrow> string \<Rightarrow> 'w \<Rightarrow> bool \<times> 'w"
  fs_read :: "path \<Rightarrow> nat \<Rightarrow> 'w \<Rightarrow> (string \<times> bool) option"
  fs_remove :: "path \<Rightarrow> 'w \<Rightarrow> (fs_error + bool) \<times> 'w"
  fs_rename :: "path \<Rightarrow> path \<Rightarrow> 'w \<Rightarrow> (fs_error + unit) \<times> 'w"
  fs_entries :: "path \<Rightarrow> 'w \<Rightarrow> string list \<times> string option"
  fs_errno_text :: "'w \<Rightarrow> string"
  fs_random :: "nat \<Rightarrow> 'w \<Rightarrow> (string + byte list) \<times> 'w"

text \<open>Writing through an \<open>error\<close> pointer: always, or only over an empty text.\<close>

definition put_error :: "string \<Rightarrow> string option \<Rightarrow> string option" where
  "put_error message err = map_option (\<lambda>_. message) err"

definition put_error_if_empty :: "string \<Rightarrow> string option \<Rightarrow> string option" where
  "put_error_if_empty message err = map_option (\<lambda>e. if e = [] then message else e) err"

section \<open>private_storage.cpp\<close>

text \<open>The empty text is the failure of the generator.\<close>

definition random_hex :: "'w fs \<Rightarrow> string option \<Rightarrow> 'w \<Rightarrow> string \<times> string option \<times> 'w" where
  "random_hex fs err w =
     (case fs_random fs 16 w of
        (Inl e, w1) \<Rightarrow> ([], put_error e err, w1)
      | (Inr bytes, w1) \<Rightarrow> (hex bytes, err, w1))"

definition reject_link :: "'w fs \<Rightarrow> path \<Rightarrow> bool \<Rightarrow> string option \<Rightarrow> 'w \<Rightarrow> bool \<times> string option" where
  "reject_link fs path directory err w =
     (if fs_status fs path w \<noteq> Inr (if directory then Directory else Regular)
      then (False, put_error ((if directory then ''Invalid private directory: ''
                               else ''Invalid private file: '') @ path) err)
      else if \<not> directory \<and> \<not> fs_owned fs path w
      then (False, put_error ''Private files must be owner-only regular files without links'' err)
      else (True, err))"

definition create_empty_private_file ::
  "'w fs \<Rightarrow> path \<Rightarrow> string option \<Rightarrow> 'w \<Rightarrow> bool \<times> string option \<times> 'w" where
  "create_empty_private_file fs path err w =
     (case fs_create fs path w of
        (None, w1) \<Rightarrow> (False, err, w1)
      | (Some file, w1) \<Rightarrow>
          (case fs_close fs file w1 of
             (False, w2) \<Rightarrow>
               (False, put_error ''Cannot close private temporary file'' err, snd (fs_remove fs path w2))
           | (True, w2) \<Rightarrow> (True, err, w2)))"

definition private_ensure_directory ::
  "'w fs \<Rightarrow> path \<Rightarrow> string option \<Rightarrow> 'w \<Rightarrow> bool \<times> string option \<times> 'w" where
  "private_ensure_directory fs path err w =
     (if path = [] then (False, put_error ''Private directory path is empty'' err, w)
      else
        let missing = (fs_exists fs path w \<noteq> Inr True);
            (created, w1) = (if missing then fs_create_directory fs path w else (Inr True, w))
        in if created \<noteq> Inr True
           then (False, put_error (''Cannot create private directory: '' @
                          (case created of Inl (_, message) \<Rightarrow> message | Inr _ \<Rightarrow> ''Success'')) err, w1)
           else case reject_link fs path True err w1 of
             (False, err1) \<Rightarrow> (False, err1, w1)
           | (True, err1) \<Rightarrow>
               (case fs_chmod fs path 448 w1 of
                  (False, w2) \<Rightarrow> (False, put_error ''Cannot protect private directory'' err1, w2)
                | (True, w2) \<Rightarrow> (True, err1, w2)))"

definition private_protect_file ::
  "'w fs \<Rightarrow> path \<Rightarrow> string option \<Rightarrow> 'w \<Rightarrow> bool \<times> string option \<times> 'w" where
  "private_protect_file fs path err w =
     (case reject_link fs path False err w of
        (False, err1) \<Rightarrow> (False, err1, w)
      | (True, err1) \<Rightarrow>
          (case fs_chmod fs path 384 w of
             (False, w1) \<Rightarrow> (False, put_error ''Cannot protect private file'' err1, w1)
           | (True, w1) \<Rightarrow> (True, err1, w1)))"

definition private_read_file ::
  "'w fs \<Rightarrow> path \<Rightarrow> nat \<Rightarrow> string option \<Rightarrow> 'w \<Rightarrow> string option \<times> string option \<times> 'w" where
  "private_read_file fs path maximum_size err w =
     (case private_protect_file fs path err w of
        (False, err1, w1) \<Rightarrow> (None, err1, w1)
      | (True, err1, w1) \<Rightarrow>
          (case fs_read fs path (maximum_size + 1) w1 of
             None \<Rightarrow> (None, put_error ''Cannot open private file'' err1, w1)
           | Some (result, bad) \<Rightarrow>
               if bad \<or> maximum_size < length result
               then (None, put_error ''Private file exceeds its size limit'' err1, w1)
               else (Some result, err1, w1)))"

section \<open>durability.cpp\<close>

definition regular_file :: "'w fs \<Rightarrow> path \<Rightarrow> string option \<Rightarrow> 'w \<Rightarrow> bool \<times> string option" where
  "regular_file fs path err w =
     (if fs_status fs path w \<noteq> Inr Regular
      then (False, put_error (''Expected a regular file: '' @ path) err) else (True, err))"

text \<open>The shared tail of both flushes; closing comes after the error number was saved.\<close>

definition flush_descriptor ::
  "'w fs \<Rightarrow> nat \<Rightarrow> string \<Rightarrow> string option \<Rightarrow> 'w \<Rightarrow> bool \<times> string option \<times> 'w" where
  "flush_descriptor fs file what err w =
     (case fs_fsync fs file w of
        (ok, w1) \<Rightarrow>
          (ok, if ok then err else put_error (what @ fs_errno_text fs w1) err, snd (fs_close fs file w1)))"

definition sync_file :: "'w fs \<Rightarrow> path \<Rightarrow> string option \<Rightarrow> 'w \<Rightarrow> bool \<times> string option \<times> 'w" where
  "sync_file fs path err w =
     (case regular_file fs path err w of
        (False, err1) \<Rightarrow> (False, err1, w)
      | (True, err1) \<Rightarrow>
          (case fs_open fs path False w of
             (None, w1) \<Rightarrow>
               (False, put_error (''Cannot open file for durable flush: '' @ fs_errno_text fs w1) err1, w1)
           | (Some file, w1) \<Rightarrow> flush_descriptor fs file ''fsync failed: '' err1 w1))"

definition sync_parent_directory ::
  "'w fs \<Rightarrow> path \<Rightarrow> string option \<Rightarrow> 'w \<Rightarrow> bool \<times> string option \<times> 'w" where
  "sync_parent_directory fs path err w =
     (case fs_open fs (parent_path path) False w of
        (None, w1) \<Rightarrow>
          (False,
           put_error (''Cannot open parent directory for durable flush: '' @ fs_errno_text fs w1) err, w1)
      | (Some directory, w1) \<Rightarrow> flush_descriptor fs directory ''Directory fsync failed: '' err w1)"

definition replace_atomically ::
  "'w fs \<Rightarrow> path \<Rightarrow> path \<Rightarrow> string option \<Rightarrow> 'w \<Rightarrow> bool \<times> string option \<times> 'w" where
  "replace_atomically fs source target err w =
     (let siblings = (parent_path source = parent_path target);
          (ok, err1) = (if siblings then regular_file fs source err w else (False, err))
      in if \<not> ok
         then (False, put_error_if_empty ''Atomic replacement requires sibling paths'' err1, w)
         else case fs_status fs target w of
           Inr kind \<Rightarrow>
             if kind = Symlink \<or> kind = Directory
             then (False, put_error ''Atomic replacement target is not a regular file'' err1, w)
             else (case fs_rename fs source target w of
                     (Inl (_, message), w1) \<Rightarrow>
                       (False, put_error (''Atomic replacement failed: '' @ message) err1, w1)
                   | (Inr _, w1) \<Rightarrow> (True, err1, w1))
         | Inl (not_found, message) \<Rightarrow>
             if \<not> not_found
             then (False, put_error (''Cannot inspect atomic replacement target: '' @ message) err1, w)
             else (case fs_rename fs source target w of
                     (Inl (_, message), w1) \<Rightarrow>
                       (False, put_error (''Atomic replacement failed: '' @ message) err1, w1)
                   | (Inr _, w1) \<Rightarrow> (True, err1, w1)))"

section \<open>Atomic writing\<close>

text \<open>What is done with the temporary file: protect it, flush it, move it to the target, flush the directory.\<close>

definition publish_temporary ::
  "'w fs \<Rightarrow> path \<Rightarrow> path \<Rightarrow> string option \<Rightarrow> 'w \<Rightarrow> bool \<times> string option \<times> 'w" where
  "publish_temporary fs temporary path err w =
     (case private_protect_file fs temporary err w of
        (False, err1, w1) \<Rightarrow> (False, err1, w1)
      | (True, err1, w1) \<Rightarrow>
          (case sync_file fs temporary err1 w1 of
             (False, err2, w2) \<Rightarrow> (False, err2, w2)
           | (True, err2, w2) \<Rightarrow>
               (case replace_atomically fs temporary path err2 w2 of
                  (False, err3, w3) \<Rightarrow> (False, err3, w3)
                | (True, err3, w3) \<Rightarrow> sync_parent_directory fs path err3 w3)))"

text \<open>The loop; the first argument is the number of attempts left.\<close>

fun write_attempts ::
  "nat \<Rightarrow> 'w fs \<Rightarrow> path \<Rightarrow> string \<Rightarrow> string option \<Rightarrow> 'w \<Rightarrow> bool \<times> string option \<times> 'w" where
  "write_attempts 0 fs path bytes err w =
     (False, put_error ''Cannot reserve a private temporary file'' err, w)"
| "write_attempts (Suc attempts) fs path bytes err w =
     (case random_hex fs err w of
        (suffix, err1, w1) \<Rightarrow>
          if suffix = [] then (False, err1, w1)
          else
            let temporary = path_join (parent_path path) (file_name path @ ''.tmp.'' @ suffix) in
            (case create_empty_private_file fs temporary err1 w1 of
               (False, err2, w2) \<Rightarrow>
                 if err2 \<noteq> None \<and> err2 \<noteq> Some [] then (False, err2, w2)
                 else
                   (case fs_exists fs temporary w2 of
                      Inl _ \<Rightarrow> (False, put_error ''Cannot inspect private temporary file'' err2, w2)
                    | Inr False \<Rightarrow> (False, put_error ''Cannot create private temporary file'' err2, w2)
                    | Inr True \<Rightarrow> write_attempts attempts fs path bytes err2 w2)
             | (True, err2, w2) \<Rightarrow>
                 (case fs_write fs temporary bytes w2 of
                    (False, w3) \<Rightarrow>
                      (False, put_error ''Cannot write private file'' err2, snd (fs_remove fs temporary w3))
                  | (True, w3) \<Rightarrow>
                      (case publish_temporary fs temporary path err2 w3 of
                         (False, err3, w4) \<Rightarrow> (False, err3, snd (fs_remove fs temporary w4))
                       | (True, err3, w4) \<Rightarrow> (True, err3, w4)))))"

definition private_write_atomically ::
  "'w fs \<Rightarrow> path \<Rightarrow> string \<Rightarrow> string option \<Rightarrow> 'w \<Rightarrow> bool \<times> string option \<times> 'w" where
  "private_write_atomically fs path bytes err w =
     (if path = [] \<or> parent_path path = [] then (False, err, w)
      else case reject_link fs (parent_path path) True err w of
        (False, err1) \<Rightarrow> (False, err1, w)
      | (True, err1) \<Rightarrow>
          (case (if fs_exists fs path w = Inr True then private_protect_file fs path err1 w
                 else (True, err1, w)) of
             (False, err2, w1) \<Rightarrow> (False, err2, w1)
           | (True, err2, w1) \<Rightarrow>
               (case fs_exists fs path w of
                  Inl (_, message) \<Rightarrow>
                    (False, put_error (''Cannot inspect private file: '' @ message) err2, w1)
                | Inr _ \<Rightarrow> write_attempts 16 fs path bytes err2 w1)))"

section \<open>file_lock.cpp\<close>

text \<open>A lock handle is the descriptor, \<open>None\<close> when there is none.\<close>

definition file_lock_release :: "'w fs \<Rightarrow> nat option \<Rightarrow> 'w \<Rightarrow> nat option \<times> 'w" where
  "file_lock_release fs handle w =
     (case handle of None \<Rightarrow> (None, w) | Some file \<Rightarrow> (None, snd (fs_close fs file w)))"

definition file_lock_acquire ::
  "'w fs \<Rightarrow> path \<Rightarrow> nat option \<Rightarrow> string option \<Rightarrow> 'w \<Rightarrow> bool \<times> nat option \<times> string option \<times> 'w" where
  "file_lock_acquire fs path handle err w =
     (if path = [] \<or> parent_path path = [] then (False, handle, put_error ''Invalid lock path'' err, w)
      else case file_lock_release fs handle w of
        (handle1, w1) \<Rightarrow>
          (case (case fs_exists fs path w1 of
                   Inl _ \<Rightarrow> (False, err, w1)
                 | Inr True \<Rightarrow> private_protect_file fs path err w1
                 | Inr False \<Rightarrow> private_write_atomically fs path [] err w1) of
             (False, err1, w2) \<Rightarrow>
               (False, handle1, put_error_if_empty ''Cannot prepare state lock'' err1, w2)
           | (True, err1, w2) \<Rightarrow>
               (case fs_open fs path True w2 of
                  (None, w3) \<Rightarrow>
                    (False, handle1, put_error ''State is already in use by another process'' err1, w3)
                | (Some file, w3) \<Rightarrow>
                    (case fs_flock fs file w3 of
                       (False, w4) \<Rightarrow>
                         (False, handle1, put_error ''State is already in use by another process'' err1,
                          snd (fs_close fs file w4))
                     | (True, w4) \<Rightarrow> (True, Some file, err1, w4)))))"

section \<open>Facts\<close>

text \<open>
  What the file system promises about the contents of the regular files, \<open>files w\<close>. A write that fails may
  leave anything in its file, a removal may or may not have happened, and renaming is atomic.
\<close>

definition keeps_contents :: "'w fs \<Rightarrow> ('w \<Rightarrow> path \<Rightarrow> string option) \<Rightarrow> bool" where
  "keeps_contents fs files \<longleftrightarrow>
     (\<forall>p w. files (snd (fs_create_directory fs p w)) = files w) \<and>
     (\<forall>p m w. files (snd (fs_chmod fs p m w)) = files w) \<and>
     (\<forall>p w. files (snd (fs_open fs p False w)) = files w) \<and>
     (\<forall>f w. files (snd (fs_close fs f w)) = files w) \<and>
     (\<forall>f w. files (snd (fs_fsync fs f w)) = files w) \<and>
     (\<forall>f w. files (snd (fs_flock fs f w)) = files w) \<and>
     (\<forall>n w. files (snd (fs_random fs n w)) = files w)"

definition changes_contents :: "'w fs \<Rightarrow> ('w \<Rightarrow> path \<Rightarrow> string option) \<Rightarrow> bool" where
  "changes_contents fs files \<longleftrightarrow>
     (\<forall>p w r w'. fs_create fs p w = (r, w') \<longrightarrow>
        (if r = None then files w' = files w else files w p = None \<and> files w' = (files w)(p \<mapsto> []))) \<and>
     (\<forall>p bytes w r w'. fs_write fs p bytes w = (r, w') \<longrightarrow>
        (if r then files w' = (files w)(p \<mapsto> bytes) else (\<exists>c. files w' = (files w)(p := c)))) \<and>
     (\<forall>p w. files (snd (fs_remove fs p w)) \<in> {files w, (files w)(p := None)}) \<and>
     (\<forall>p w w'. fs_remove fs p w = (Inr True, w') \<longrightarrow> files w' = (files w)(p := None)) \<and>
     (\<forall>p w r w'. fs_open fs p True w = (r, w') \<longrightarrow>
        files w' = files w \<or> (files w p = None \<and> files w' = (files w)(p \<mapsto> []))) \<and>
     (\<forall>p q w r w'. fs_rename fs p q w = (r, w') \<longrightarrow>
        (case r of Inl _ \<Rightarrow> files w' = files w | Inr _ \<Rightarrow> files w' = (files w)(q := files w p, p := None))) \<and>
     (\<forall>p n w r. fs_read fs p n w = Some (r, False) \<longrightarrow> (\<exists>c. files w p = Some c \<and> r = take n c))"

definition fs_laws :: "'w fs \<Rightarrow> ('w \<Rightarrow> path \<Rightarrow> string option) \<Rightarrow> bool" where
  "fs_laws fs files \<longleftrightarrow> keeps_contents fs files \<and> changes_contents fs files"

lemma kept [simp]:
  assumes "fs_laws fs files"
  shows "files (snd (fs_create_directory fs p w)) = files w"
    and "files (snd (fs_chmod fs p m w)) = files w"
    and "files (snd (fs_open fs p False w)) = files w"
    and "files (snd (fs_close fs f w)) = files w"
    and "files (snd (fs_fsync fs f w)) = files w"
    and "files (snd (fs_flock fs f w)) = files w"
    and "files (snd (fs_random fs n w)) = files w"
  using assms by (simp_all add: fs_laws_def keeps_contents_def)

lemma kept_call:
  assumes "fs_laws fs files"
  shows "fs_create_directory fs p w = (r1, w') \<Longrightarrow> files w' = files w"
    and "fs_chmod fs p m w = (r2, w') \<Longrightarrow> files w' = files w"
    and "fs_open fs p False w = (r3, w') \<Longrightarrow> files w' = files w"
    and "fs_fsync fs f w = (r4, w') \<Longrightarrow> files w' = files w"
    and "fs_flock fs f w = (r4, w') \<Longrightarrow> files w' = files w"
    and "fs_random fs n w = (r5, w') \<Longrightarrow> files w' = files w"
    and "fs_close fs f w = (r4, w') \<Longrightarrow> files w' = files w"
  using kept [OF assms] by (metis snd_conv)+

lemma create_contents:
  assumes "fs_laws fs files" "fs_create fs p w = (r, w')"
  shows "if r = None then files w' = files w else files w p = None \<and> files w' = (files w)(p \<mapsto> [])"
  using assms unfolding fs_laws_def changes_contents_def by (elim conjE) blast

lemma write_contents:
  assumes "fs_laws fs files" "fs_write fs p bytes w = (r, w')"
  shows "if r then files w' = (files w)(p \<mapsto> bytes) else (\<exists>c. files w' = (files w)(p := c))"
  using assms unfolding fs_laws_def changes_contents_def by (elim conjE) blast

lemma remove_contents:
  "fs_laws fs files \<Longrightarrow> files (snd (fs_remove fs p w)) \<in> {files w, (files w)(p := None)}"
  unfolding fs_laws_def changes_contents_def by (elim conjE) blast

lemma removed_contents:
  "fs_laws fs files \<Longrightarrow> fs_remove fs p w = (Inr True, w') \<Longrightarrow> files w' = (files w)(p := None)"
  unfolding fs_laws_def changes_contents_def by (elim conjE) blast

lemma open_contents:
  "fs_laws fs files \<Longrightarrow> fs_open fs p True w = (r, w') \<Longrightarrow>
     files w' = files w \<or> (files w p = None \<and> files w' = (files w)(p \<mapsto> []))"
  unfolding fs_laws_def changes_contents_def by (elim conjE) blast

lemma rename_contents:
  assumes "fs_laws fs files" "fs_rename fs p q w = (r, w')"
  shows "case r of Inl _ \<Rightarrow> files w' = files w | Inr _ \<Rightarrow> files w' = (files w)(q := files w p, p := None)"
  using assms unfolding fs_laws_def changes_contents_def by (elim conjE) meson

lemma read_contents:
  assumes "fs_laws fs files" "fs_read fs p n w = Some (r, False)"
  shows "\<exists>c. files w p = Some c \<and> r = take n c"
  using assms unfolding fs_laws_def changes_contents_def by (elim conjE) meson

lemma protect_contents:
  "fs_laws fs files \<Longrightarrow> private_protect_file fs p err w = (ok, err', w') \<Longrightarrow> files w' = files w"
  by (auto simp: private_protect_file_def dest: kept_call split: prod.splits bool.splits)

lemma ensure_contents:
  "fs_laws fs files \<Longrightarrow> private_ensure_directory fs p err w = (ok, err', w') \<Longrightarrow> files w' = files w"
  by (auto simp: private_ensure_directory_def Let_def split: prod.splits bool.splits if_splits)
    (metis kept_call(1,2))+

lemma flush_contents:
  "fs_laws fs files \<Longrightarrow> flush_descriptor fs f what err w = (ok, err', w') \<Longrightarrow> files w' = files w"
  by (auto simp: flush_descriptor_def dest: kept_call split: prod.splits)

lemma sync_contents:
  assumes "fs_laws fs files"
  shows "sync_file fs p err w = (ok, err', w') \<Longrightarrow> files w' = files w"
    and "sync_parent_directory fs p err w = (ok, err', w') \<Longrightarrow> files w' = files w"
  by (auto simp: sync_file_def sync_parent_directory_def dest!: kept_call [OF assms] flush_contents [OF assms]
      split: prod.splits bool.splits option.splits)

lemma replace_contents:
  assumes "fs_laws fs files" "replace_atomically fs p q err w = (ok, err', w')"
  shows "if ok then files w' = (files w)(q := files w p, p := None) else files w' = files w"
  using assms(2) unfolding replace_atomically_def Let_def
  by (auto dest!: rename_contents [OF assms(1)] split: prod.splits sum.splits if_splits)

text \<open>Publishing moves the temporary file, unless it fails before that.\<close>

lemma publish_contents:
  assumes "fs_laws fs files" "publish_temporary fs t p err w = (ok, err', w')"
  shows "files w' = (files w)(p := files w t, t := None) \<or> (\<not> ok \<and> files w' = files w)"
  using assms(2) unfolding publish_temporary_def
  by (auto dest!: protect_contents [OF assms(1)] sync_contents [OF assms(1)] replace_contents [OF assms(1)]
      split: prod.splits bool.splits)

text \<open>The names of temporary files.\<close>

definition temporary_of :: "path \<Rightarrow> string \<Rightarrow> path" where
  "temporary_of p suffix = path_join (parent_path p) (file_name p @ ''.tmp.'' @ suffix)"

lemma length_temporary: "length p < length (temporary_of p suffix)"
proof (cases "rfind_char (CHR ''/'') p")
  case None
  then show ?thesis by (simp add: temporary_of_def path_join_def parent_path_def file_name_def)
next
  case (Some i)
  then have i: "i < length p" using rfind_char_Some by blast
  show ?thesis
  proof (cases "i = 0")
    case True
    then show ?thesis
      using Some i by (simp add: temporary_of_def path_join_def parent_path_def file_name_def)
  next
    case False
    then show ?thesis
      using Some i by (auto simp: temporary_of_def path_join_def parent_path_def file_name_def)
  qed
qed

lemma temporary_not_target [simp]: "temporary_of p suffix \<noteq> p" "p \<noteq> temporary_of p suffix"
  using length_temporary [of p suffix] by auto

text \<open>The outcome of a write: the target has the new bytes or what it had; only temporaries change besides.\<close>

definition written :: "path \<Rightarrow> string \<Rightarrow> bool \<Rightarrow> (path \<Rightarrow> string option) \<Rightarrow> (path \<Rightarrow> string option) \<Rightarrow> bool" where
  "written p bytes ok before after \<longleftrightarrow>
     (ok \<longrightarrow> after p = Some bytes) \<and> after p \<in> {before p, Some bytes} \<and>
     (\<forall>q. q \<noteq> p \<and> (\<forall>suffix. q \<noteq> temporary_of p suffix) \<longrightarrow> after q = before q)"

lemma written_refl: "written p bytes False before before"
  by (simp add: written_def)

lemma create_empty_contents:
  assumes "fs_laws fs files" "create_empty_private_file fs t err w = (ok, err', w')"
  shows "if ok then files w' = (files w)(t \<mapsto> []) else (\<exists>c. files w' = (files w)(t := c))"
proof -
  obtain r w1 where w1: "fs_create fs t w = (r, w1)" by fastforce
  note created = create_contents [OF assms(1) w1]
  show ?thesis
  proof (cases r)
    case None
    then show ?thesis using assms(2) created
      by (auto simp: create_empty_private_file_def w1 intro: exI [of _ "files w t"])
  next
    case (Some f)
    obtain ok2 w2 where w2: "fs_close fs f w1 = (ok2, w2)" by fastforce
    then show ?thesis
      using assms(2) created Some kept_call(7) [OF assms(1) w2] remove_contents [OF assms(1), of t w2]
      by (cases ok2) (auto simp: create_empty_private_file_def w1)
  qed
qed

lemma write_attempts_contents:
  assumes laws: "fs_laws fs files"
  shows "write_attempts n fs p bytes err w = (ok, err', w') \<Longrightarrow> written p bytes ok (files w) (files w')"
proof (induction n arbitrary: err w)
  case 0
  then show ?case by (auto simp: written_refl)
next
  case (Suc n)
  obtain suffix err1 w1 where w1: "random_hex fs err w = (suffix, err1, w1)" by (metis prod_cases3)
  have same1: "files w1 = files w"
    using w1 by (auto simp: random_hex_def dest: kept_call [OF laws] split: prod.splits sum.splits)
  define t where "t = temporary_of p suffix"
  obtain ok2 err2 w2 where w2: "create_empty_private_file fs t err1 w1 = (ok2, err2, w2)" by (metis prod_cases3)
  note unfolded = Suc.prems [unfolded write_attempts.simps w1 prod.case Let_def temporary_of_def [symmetric]
      t_def [symmetric] w2]
  have untouched: "written p bytes False (files w) ((files w)(t := c))" for c
    by (simp add: written_def t_def)
  show ?case
  proof (cases "suffix = []")
    case True
    then show ?thesis using unfolded same1 by (auto simp: written_refl)
  next
    case False
    note created = create_empty_contents [OF laws w2]
    show ?thesis
    proof (cases ok2)
      case failed: False
      then obtain c where c: "files w2 = (files w)(t := c)" using created same1 by auto
      consider "ok = False" "w' = w2" | "write_attempts n fs p bytes err2 w2 = (ok, err', w')"
        using unfolded False failed by (auto split: if_splits sum.splits bool.splits)
      then show ?thesis
      proof cases
        case 1
        show ?thesis unfolding 1(1,2) c by (rule untouched)
      next
        case 2
        then have "written p bytes ok ((files w)(t := c)) (files w')" using Suc.IH c by metis
        then show ?thesis by (auto simp: written_def t_def)
      qed
    next
      case True
      obtain ok3 w3 where w3: "fs_write fs t bytes w2 = (ok3, w3)" by fastforce
      note wrote = write_contents [OF laws w3]
      show ?thesis
      proof (cases ok3)
        case False
        then obtain c where c: "files w3 = (files w)(t := c)" using wrote created True same1 by auto
        have "ok = False" "w' = snd (fs_remove fs t w3)"
          using unfolded \<open>suffix \<noteq> []\<close> True w3 False by simp_all
        moreover have "files (snd (fs_remove fs t w3)) = (files w)(t := c) \<or>
            files (snd (fs_remove fs t w3)) = (files w)(t := None)"
          using remove_contents [OF laws, of t w3] c by auto
        ultimately show ?thesis using untouched [of c] untouched [of None] by metis
      next
        case wrote_all: True
        then have w3_files: "files w3 = (files w)(t \<mapsto> bytes)" using wrote created True same1 by auto
        obtain ok4 err4 w4 where w4: "publish_temporary fs t p err2 w3 = (ok4, err4, w4)" by (metis prod_cases3)
        note published = publish_contents [OF laws w4]
        have "ok = ok4" "w' = (if ok4 then w4 else snd (fs_remove fs t w4))"
          using unfolded \<open>suffix \<noteq> []\<close> True w3 wrote_all w4 by (auto split: bool.splits)
        then show ?thesis
          using published w3_files remove_contents [OF laws, of t w4]
          by (cases ok4) (auto simp: written_def t_def)
      qed
    qed
  qed
qed

lemma private_write_contents:
  assumes "fs_laws fs files" "private_write_atomically fs p bytes err w = (ok, err', w')"
  shows "written p bytes ok (files w) (files w')"
  using assms(2) unfolding private_write_atomically_def
  by (auto simp: written_refl dest!: protect_contents [OF assms(1)] write_attempts_contents [OF assms(1)]
      split: prod.splits bool.splits sum.splits if_splits)

lemma private_read_contents:
  assumes "fs_laws fs files" "private_read_file fs p n err w = (r, err', w')"
  shows "files w' = files w \<and> (\<forall>c. r = Some c \<longrightarrow> files w p = Some c \<and> length c \<le> n)"
  using assms(2) unfolding private_read_file_def
  by (auto dest!: protect_contents [OF assms(1)] dest: read_contents [OF assms(1)]
      split: prod.splits bool.splits option.splits if_splits)

text \<open>Taking the lock touches only the lock file and its temporaries.\<close>

lemma lock_contents:
  assumes laws: "fs_laws fs files"
    and lock: "file_lock_acquire fs p handle err w = (ok, handle', err', w')"
    and q: "q \<noteq> p" "\<forall>suffix. q \<noteq> temporary_of p suffix"
  shows "files w' q = files w q"
proof -
  obtain h1 w1 where w1: "file_lock_release fs handle w = (h1, w1)" by fastforce
  have same: "files w1 = files w"
    using w1 laws by (auto simp: file_lock_release_def split: option.splits)
  define prepared where "prepared = (case fs_exists fs p w1 of
      Inl _ \<Rightarrow> (False, err, w1)
    | Inr True \<Rightarrow> private_protect_file fs p err w1
    | Inr False \<Rightarrow> private_write_atomically fs p [] err w1)"
  obtain ok2 err2 w2 where w2: "prepared = (ok2, err2, w2)" by (metis prod_cases3)
  have "files w2 q = files w q"
    using w2 same q unfolding prepared_def
    by (auto simp: written_def dest!: protect_contents [OF laws] private_write_contents [OF laws]
        split: sum.splits bool.splits)
  moreover have "files w' q = files w2 q \<or> files w' q = files w q"
    using lock q(1) same unfolding file_lock_acquire_def w1 prod.case prepared_def [symmetric] w2
    by (auto dest!: open_contents [OF laws] kept_call [OF laws] simp: kept [OF laws]
        split: if_splits bool.splits prod.splits option.splits)
  ultimately show ?thesis by auto
qed

lemma release_contents: "fs_laws fs files \<Longrightarrow> files (snd (file_lock_release fs handle w)) = files w"
  by (simp add: file_lock_release_def split: option.split)

section \<open>Property\<close>

text \<open>A file system in memory, with one directory.\<close>

definition memory_fs :: "(path \<Rightarrow> string option) fs" where
  "memory_fs =
     \<lparr>fs_exists = (\<lambda>p w. Inr (p = ''/d.state'' \<or> w p \<noteq> None)), fs_create_directory = (\<lambda>_ w. (Inr True, w)),
      fs_status = (\<lambda>p w. if p = ''/d.state'' then Inr Directory else if w p \<noteq> None then Inr Regular
                         else Inl (True, ''No such file'')),
      fs_owned = (\<lambda>_ _. True), fs_chmod = (\<lambda>_ _ w. (True, w)),
      fs_create = (\<lambda>p w. if w p = None then (Some 3, w(p \<mapsto> [])) else (None, w)),
      fs_open = (\<lambda>_ _ w. (Some 3, w)), fs_close = (\<lambda>_ w. (True, w)), fs_fsync = (\<lambda>_ w. (True, w)),
      fs_flock = (\<lambda>_ w. (True, w)), fs_write = (\<lambda>p bytes w. (True, w(p \<mapsto> bytes))),
      fs_read = (\<lambda>p n w. map_option (\<lambda>c. (take n c, False)) (w p)),
      fs_remove = (\<lambda>p w. (Inr (w p \<noteq> None), w(p := None))),
      fs_rename = (\<lambda>p q w. (Inr (), w(q := w p, p := None))),
      fs_entries = (\<lambda>_ _. ([], None)), fs_errno_text = (\<lambda>_. []),
      fs_random = (\<lambda>n w. (Inr (replicate n 7), w))\<rparr>"

lemma memory_fs_laws: "fs_laws memory_fs id"
  by (auto simp: fs_laws_def keeps_contents_def changes_contents_def memory_fs_def split: if_splits)

text \<open>
  C33. Writing a private file is atomic. Whatever fails on the way, and wherever, the target afterwards holds
  either exactly the new bytes or exactly what it held before, never a part; when the call reports success
  it holds the new bytes; and besides the target only files with the names of its temporaries can differ.
\<close>

theorem private_write_is_atomic:
  assumes "fs_laws fs files" "private_write_atomically fs p bytes err w = (ok, err', w')"
  shows "(ok \<longrightarrow> files w' p = Some bytes) \<and> (files w' p = files w p \<or> files w' p = Some bytes) \<and>
    (\<forall>q. q \<noteq> p \<and> (\<forall>suffix. q \<noteq> temporary_of p suffix) \<longrightarrow> files w' q = files w q)"
  using private_write_contents [OF assms] by (simp add: written_def)

lemma private_write_is_atomic_witness:
  "case private_write_atomically memory_fs ''/d.state/f'' ''x'' None [''/d.state/f'' \<mapsto> ''old''] of
     (ok, err, w') \<Rightarrow> ok \<and> w' ''/d.state/f'' = Some ''x''"
proof -
  obtain ok err w' where run: "private_write_atomically memory_fs ''/d.state/f'' ''x'' None [''/d.state/f'' \<mapsto> ''old''] =
      (ok, err, w')" by (metis prod_cases3)
  have "fst (private_write_atomically memory_fs ''/d.state/f'' ''x'' None [''/d.state/f'' \<mapsto> ''old''])"
    by code_simp
  with private_write_is_atomic [OF memory_fs_laws run] run show ?thesis by simp
qed


lemma parent_path_under:
  "CHR ''/'' \<notin> set name \<Longrightarrow> directory \<noteq> [] \<Longrightarrow> parent_path (directory @ CHR ''/'' # name) = directory"
  by (simp add: parent_path_def rfind_char_append)

lemma hex_without_slash: "CHR ''/'' \<notin> set (hex bs)"
  using hex_facts [of bs] by (auto simp: list_all_iff is_hex_digit_def)

text \<open>A write to a new file of that directory succeeds.\<close>

lemma memory_write:
  assumes "parent_path p = ''/d.state''" "p \<noteq> []" "p \<noteq> ''/d.state''" "w p = None"
    and "temporary_of p (hex (replicate 16 7)) = t" "t \<noteq> ''/d.state''" "parent_path t = parent_path p" "w t = None"
  shows "\<exists>w'. private_write_atomically memory_fs p bytes None w = (True, None, w')"
proof -
  have suffix: "hex (replicate 16 7) \<noteq> []" using hex_facts [of "replicate 16 7"] by auto
  have t: "path_join ''/d.state'' (file_name p @ ''.tmp.'' @ hex (replicate 16 7)) = t"
    using assms(1,5) by (simp add: temporary_of_def)
  have "t \<noteq> p" using assms(5) by auto
  have sixteen: "(16 :: nat) = Suc 15" by simp
  have "\<exists>w'. write_attempts 16 memory_fs p bytes None w = (True, None, w')"
    unfolding sixteen write_attempts.simps
    using assms suffix t \<open>t \<noteq> p\<close>
    by (simp add: random_hex_def memory_fs_def create_empty_private_file_def publish_temporary_def
        private_protect_file_def reject_link_def sync_file_def regular_file_def flush_descriptor_def
        replace_atomically_def sync_parent_directory_def)
  then show ?thesis
    using assms by (simp add: private_write_atomically_def reject_link_def memory_fs_def)
qed

lemma memory_write_new:
  assumes "CHR ''/'' \<notin> set name" "p = ''/d.state'' @ CHR ''/'' # name"
  shows "\<exists>w'. private_write_atomically memory_fs p bytes None Map.empty = (True, None, w')"
proof -
  let ?suffix = "hex (replicate 16 7)"
  have parent: "parent_path p = ''/d.state''"
    unfolding assms(2) by (rule parent_path_under [OF assms(1)]) simp
  have t: "temporary_of p ?suffix = ''/d.state'' @ CHR ''/'' # name @ ''.tmp.'' @ ?suffix"
    using assms rfind_char_append [OF assms(1), of "''/d.state''"]
    by (simp add: temporary_of_def parent parent_path_def file_name_def path_join_def)
  have "CHR ''/'' \<notin> set (name @ ''.tmp.'' @ ?suffix)" using assms(1) by (simp add: hex_without_slash)
  then have "parent_path (temporary_of p ?suffix) = ''/d.state''"
    unfolding t by (rule parent_path_under) simp
  moreover have "p \<noteq> []" "p \<noteq> ''/d.state''" by (simp_all add: assms(2))
  moreover have "temporary_of p ?suffix \<noteq> ''/d.state''" by (simp add: t)
  ultimately show ?thesis
    using memory_write [of p Map.empty "temporary_of p ?suffix"] parent by fastforce
qed

end
