(* ===== verification/Invite.thy ===== *)
theory Invite
  imports Base64 Storage
begin

text \<open>
  Invitation tickets, \<open>include/security/invite.hpp\<close> and the first half of \<open>src/security/invite.cpp\<close>:
  generating a ticket and its text form, a link with a base64url payload. \<open>inet_pton\<close> and the random
  generator are parameters, as before. An \<open>error\<close> pointer may be null, and an operation that fails gives
  its content back: some messages are written only when it was empty. Shown: what can be encoded decodes to
  the same ticket, and only that text does.
\<close>

section \<open>Data\<close>

definition DEFAULT_INVITE_LIFETIME_SECONDS :: u64 where "DEFAULT_INVITE_LIFETIME_SECONDS = 3600"
definition MAX_INVITE_LIFETIME_SECONDS :: u64 where "MAX_INVITE_LIFETIME_SECONDS = 86400"
definition MAX_TRUSTED_PEERS :: nat where "MAX_TRUSTED_PEERS = 15"
definition MAX_ACTIVE_INVITES :: nat where "MAX_ACTIVE_INVITES = 64"

definition invite_prefix :: string where "invite_prefix = ''madoka://invite/''"
definition maximum_endpoint_size :: nat where "maximum_endpoint_size = 255"

record invite_ticket =
  it_network :: ipv6
  it_secret :: "byte list"
  it_inviter_id :: node_id
  it_inviter_endpoint :: string
  it_created_at :: u64
  it_expires_at :: u64
  it_consumed :: bool

abbreviation is_secret :: "byte list \<Rightarrow> bool" where
  "is_secret xs \<equiv> length xs = 16"

definition zero_secret :: "byte list" where
  "zero_secret = replicate 16 0"

section \<open>Helpers\<close>

definition valid_endpoint ::
  "(string \<Rightarrow> byte list option) \<Rightarrow> (string \<Rightarrow> ipv6 option) \<Rightarrow> string \<Rightarrow> bool" where
  "valid_endpoint pton4 pton6 endpoint \<longleftrightarrow>
     endpoint \<noteq> [] \<and> length endpoint \<le> maximum_endpoint_size \<and> CHR 0x00 \<notin> set endpoint \<and>
     (case parse_endpoint pton4 pton6 endpoint of None \<Rightarrow> False | Some (_, port) \<Rightarrow> port \<noteq> 0)"

definition append_u16 :: "byte list \<Rightarrow> u16 \<Rightarrow> byte list" where
  "append_u16 output v = output @ [ucast (drop_bit 8 v), ucast v]"

definition append_u64 :: "byte list \<Rightarrow> u64 \<Rightarrow> byte list" where
  "append_u64 output v = output @ map (\<lambda>shift. ucast (drop_bit shift v)) [56, 48, 40, 32, 24, 16, 8, 0]"

definition read_u16 :: "byte list \<Rightarrow> u16" where
  "read_u16 p = push_bit 8 (ucast (p ! 0)) OR ucast (p ! 1)"

definition read_u64 :: "byte list \<Rightarrow> u64" where
  "read_u64 p = fold (\<lambda>index result. push_bit 8 result OR ucast (p ! index)) [0..<8] 0"

definition is_ula :: "ipv6 \<Rightarrow> bool" where
  "is_ula network \<longleftrightarrow> network ! 0 = 0xfd \<and> list_all (\<lambda>b. b = 0) (drop 8 network)"

section \<open>Tickets\<close>

text \<open>\<open>random_bytes n\<close> gives n bytes or an error, with the new state of the generator.\<close>

definition invite_generate ::
  "(string \<Rightarrow> byte list option) \<Rightarrow> (string \<Rightarrow> ipv6 option) \<Rightarrow> (nat \<Rightarrow> 'w \<Rightarrow> (string + byte list) \<times> 'w) \<Rightarrow>
     node_id \<Rightarrow> string \<Rightarrow> ipv6 \<Rightarrow> u64 \<Rightarrow> u64 \<Rightarrow> 'w \<Rightarrow> (string + invite_ticket) \<times> 'w" where
  "invite_generate pton4 pton6 random_bytes inviter_id inviter_endpoint network now_seconds
     lifetime_seconds w =
     (if inviter_id = zero_node_id \<or> \<not> valid_endpoint pton4 pton6 inviter_endpoint \<or> now_seconds = 0 \<or>
         lifetime_seconds = 0 \<or> MAX_INVITE_LIFETIME_SECONDS < lifetime_seconds \<or>
         - 1 - lifetime_seconds < now_seconds
      then (Inl ''Invalid invitation parameters'', w)
      else if \<not> is_ula network then (Inl ''Network must be a locally assigned ULA /64'', w)
      else case random_bytes 16 w of
        (Inl e, w1) \<Rightarrow> (Inl e, w1)
      | (Inr secret, w1) \<Rightarrow>
          (Inr \<lparr>it_network = network, it_secret = secret, it_inviter_id = inviter_id,
                it_inviter_endpoint = inviter_endpoint, it_created_at = now_seconds,
                it_expires_at = now_seconds + lifetime_seconds, it_consumed = False\<rparr>, w1))"

text \<open>The conditions that encoding and decoding share.\<close>

definition ticket_contents_ok ::
  "(string \<Rightarrow> byte list option) \<Rightarrow> (string \<Rightarrow> ipv6 option) \<Rightarrow> invite_ticket \<Rightarrow> bool" where
  "ticket_contents_ok pton4 pton6 ticket \<longleftrightarrow>
     valid_endpoint pton4 pton6 (it_inviter_endpoint ticket) \<and> it_inviter_id ticket \<noteq> zero_node_id \<and>
     it_secret ticket \<noteq> zero_secret \<and> it_created_at ticket \<noteq> 0 \<and>
     it_created_at ticket < it_expires_at ticket \<and>
     it_expires_at ticket - it_created_at ticket \<le> MAX_INVITE_LIFETIME_SECONDS"

definition ticket_bytes :: "invite_ticket \<Rightarrow> byte list" where
  "ticket_bytes ticket =
     append_u64 (append_u64
       (append_u16 (it_network ticket) (of_nat (length (it_inviter_endpoint ticket))) @
        bytes_of_string (it_inviter_endpoint ticket) @ it_inviter_id ticket @ it_secret ticket)
       (it_created_at ticket)) (it_expires_at ticket)"

text \<open>The empty text is the failure.\<close>

definition invite_encode ::
  "(string \<Rightarrow> byte list option) \<Rightarrow> (string \<Rightarrow> ipv6 option) \<Rightarrow> invite_ticket \<Rightarrow> string" where
  "invite_encode pton4 pton6 ticket =
     (if \<not> ticket_contents_ok pton4 pton6 ticket \<or> \<not> is_ula (it_network ticket) then []
      else invite_prefix @ base64url_encode (ticket_bytes ticket))"

definition ticket_fields :: "byte list \<Rightarrow> nat \<Rightarrow> invite_ticket" where
  "ticket_fields bytes endpoint_size =
     (let offset = 18 + endpoint_size in
      \<lparr>it_network = take 16 bytes, it_secret = take 16 (drop (offset + 32) bytes),
       it_inviter_id = take 32 (drop offset bytes),
       it_inviter_endpoint = string_of_bytes (take endpoint_size (drop 18 bytes)),
       it_created_at = read_u64 (drop (offset + 48) bytes),
       it_expires_at = read_u64 (drop (offset + 56) bytes), it_consumed = False\<rparr>)"

definition invite_decode ::
  "(string \<Rightarrow> byte list option) \<Rightarrow> (string \<Rightarrow> ipv6 option) \<Rightarrow> string \<Rightarrow> string option \<Rightarrow>
     string option + invite_ticket" where
  "invite_decode pton4 pton6 encoded err =
     (if \<not> starts_with encoded invite_prefix \<or> 512 < length encoded
      then Inl (put_error ''Invalid invitation token'' err)
      else case base64url_decode (drop (length invite_prefix) encoded) of
        Inl e \<Rightarrow> Inl (put_error e err)
      | Inr bytes \<Rightarrow>
          if length bytes < 16 + 2 + 32 + 16 + 8 + 8
          then Inl (put_error_if_empty ''Unsupported invitation token'' err)
          else if \<not> is_ula (take 16 bytes)
          then Inl (put_error ''Invalid network prefix in invitation'' err)
          else
            let endpoint_size = unat (read_u16 (drop 16 bytes));
                expected_size = 16 + 2 + endpoint_size + 32 + 16 + 8 + 8
            in if endpoint_size = 0 \<or> maximum_endpoint_size < endpoint_size \<or> length bytes \<noteq> expected_size
               then Inl (put_error ''Invalid invitation payload size'' err)
               else
                 let decoded = ticket_fields bytes endpoint_size in
                 if \<not> ticket_contents_ok pton4 pton6 decoded
                 then Inl (put_error ''Invalid invitation contents'' err)
                 else Inr decoded)"

section \<open>Facts\<close>

lemma append_u16_be: "append_u16 xs v = xs @ write_u16_be v"
  by (simp add: append_u16_def write_u16_be_def ucast_and_ff)

lemma append_u64_be: "append_u64 xs v = xs @ write_u64_be v"
proof -
  have "rev [0..<8] = [7, 6, 5, 4, 3, 2, 1, 0 :: nat]" by (simp add: upt_rec)
  then show ?thesis by (simp add: append_u64_def write_u64_be_def ucast_and_ff)
qed

lemma read_u16_take: "read_u16 p = u16_of (take 2 p)"
  by (simp add: read_u16_def u16_of_def)

lemma read_u64_take: "read_u64 p = u64_of (take 8 p)"
  by (simp add: read_u64_def u64_of_def upt_rec)

text \<open>The sizes of the arrays of a ticket; a ticket that was parsed has not been consumed.\<close>

definition ticket_sized :: "invite_ticket \<Rightarrow> bool" where
  "ticket_sized t \<longleftrightarrow>
     is_ipv6 (it_network t) \<and> is_secret (it_secret t) \<and> is_node_id (it_inviter_id t) \<and> \<not> it_consumed t"

lemma ticket_bytes_layout:
  "ticket_bytes t =
     it_network t @ write_u16_be (of_nat (length (it_inviter_endpoint t))) @
     bytes_of_string (it_inviter_endpoint t) @ it_inviter_id t @ it_secret t @
     write_u64_be (it_created_at t) @ write_u64_be (it_expires_at t)"
  by (simp add: ticket_bytes_def append_u16_be append_u64_be)

lemma length_ticket_bytes:
  "ticket_sized t \<Longrightarrow> length (ticket_bytes t) = 82 + length (it_inviter_endpoint t)"
  by (simp add: ticket_bytes_layout ticket_sized_def)

lemma ticket_fields_of_bytes:
  assumes "ticket_sized t"
  shows "ticket_fields (ticket_bytes t) (length (it_inviter_endpoint t)) = t"
  using assms
  by (simp add: ticket_fields_def Let_def ticket_bytes_layout ticket_sized_def read_u64_take)

lemma endpoint_size_of_bytes:
  assumes "ticket_sized t" "length (it_inviter_endpoint t) \<le> 255"
  shows "unat (read_u16 (drop 16 (ticket_bytes t))) = length (it_inviter_endpoint t)"
proof -
  have "read_u16 (drop 16 (ticket_bytes t)) = of_nat (length (it_inviter_endpoint t))"
    using assms(1) by (simp add: read_u16_take ticket_bytes_layout ticket_sized_def)
  then show ?thesis using assms(2) by (simp add: unat_of_nat)
qed

lemma decode_encoded:
  assumes "ticket_sized t" "ticket_contents_ok pton4 pton6 t" "is_ula (it_network t)"
  shows "invite_decode pton4 pton6 (invite_prefix @ base64url_encode (ticket_bytes t)) err = Inr t"
proof -
  have endpoint: "it_inviter_endpoint t \<noteq> []" "length (it_inviter_endpoint t) \<le> 255"
    using assms(2) by (simp_all add: ticket_contents_ok_def valid_endpoint_def maximum_endpoint_size_def)
  have size: "length (ticket_bytes t) = 82 + length (it_inviter_endpoint t)"
    by (rule length_ticket_bytes [OF assms(1)])
  then have nonempty: "ticket_bytes t \<noteq> []" by auto
  have "length (base64url_encode (ticket_bytes t)) = (length (ticket_bytes t) * 4 + 2) div 3"
    using length_encode_loop [of 0 "ticket_bytes t"] by (simp add: base64url_encode_def)
  then have "length (invite_prefix @ base64url_encode (ticket_bytes t)) \<le> 512"
    using size endpoint(2) by (simp add: invite_prefix_def)
  moreover have "take 16 (ticket_bytes t) = it_network t"
    using assms(1) by (simp add: ticket_bytes_layout ticket_sized_def)
  ultimately show ?thesis
    using assms endpoint size
    by (simp add: invite_decode_def starts_with_def base64_inverse [OF nonempty] Let_def
        endpoint_size_of_bytes ticket_fields_of_bytes maximum_endpoint_size_def)
qed

lemma ticket_bytes_of_fields:
  assumes "length bytes = 82 + n" "n = unat (read_u16 (drop 16 bytes))"
  shows "ticket_bytes (ticket_fields bytes n) = bytes" and "ticket_sized (ticket_fields bytes n)"
proof -
  have "of_nat n = u16_of (take 2 (drop 16 bytes))"
    using assms(2) by (simp add: read_u16_take)
  then have "write_u16_be (of_nat n) = take 2 (drop 16 bytes)"
    using assms(1) by (simp add: write_of_be)
  moreover have "write_u64_be (read_u64 (drop (66 + n) bytes)) = take 8 (drop (66 + n) bytes)"
    "write_u64_be (read_u64 (drop (74 + n) bytes)) = take 8 (drop (74 + n) bytes)"
    using assms(1) by (simp_all add: read_u64_take write_of_be)
  moreover have "take 16 bytes @ take 2 (drop 16 bytes) @ take n (drop 18 bytes) @ take 32 (drop (18 + n) bytes) @
      take 16 (drop (50 + n) bytes) @ take 8 (drop (66 + n) bytes) @ take 8 (drop (74 + n) bytes) = bytes"
    using assms(1) by (simp add: segment_glue segment_last)
  ultimately show "ticket_bytes (ticket_fields bytes n) = bytes"
    using assms(1) by (simp add: ticket_fields_def Let_def ticket_bytes_layout ac_simps)
  show "ticket_sized (ticket_fields bytes n)"
    using assms(1) by (simp add: ticket_fields_def Let_def ticket_sized_def)
qed

lemma decode_result:
  assumes "invite_decode pton4 pton6 s err = Inr t"
  shows "ticket_sized t \<and> ticket_contents_ok pton4 pton6 t \<and> is_ula (it_network t) \<and>
    s = invite_prefix @ base64url_encode (ticket_bytes t)"
proof -
  obtain bytes where bytes: "base64url_decode (drop (length invite_prefix) s) = Inr bytes"
    and prefix: "starts_with s invite_prefix"
    using assms by (auto simp: invite_decode_def split: if_splits sum.splits)
  define n where "n = unat (read_u16 (drop 16 bytes))"
  have t: "t = ticket_fields bytes n" "length bytes = 82 + n" "is_ula (take 16 bytes)"
    "ticket_contents_ok pton4 pton6 t"
    using assms bytes prefix by (auto simp: invite_decode_def Let_def simp flip: n_def split: if_splits)
  note fields = ticket_bytes_of_fields [OF t(2) n_def]
  have "s = invite_prefix @ drop (length invite_prefix) s"
    using prefix unfolding starts_with_def by (metis append_take_drop_id)
  also have "drop (length invite_prefix) s = base64url_encode bytes"
    using base64_decode_result [OF bytes] by simp
  finally show ?thesis
    using t fields by (simp add: ticket_fields_def Let_def)
qed

section \<open>Properties\<close>

text \<open>
  C36. Invitation links have one spelling. A text is accepted as a ticket exactly when the ticket is well
  formed and the text is what encoding the ticket gives; in particular every ticket that can be encoded is
  read back unchanged, and a text of more than 512 characters is never needed.
\<close>

theorem invite_canonical:
  "invite_decode pton4 pton6 s err = Inr t \<longleftrightarrow>
     ticket_sized t \<and> s = invite_encode pton4 pton6 t \<and> s \<noteq> []"
proof
  assume "invite_decode pton4 pton6 s err = Inr t"
  from decode_result [OF this] show "ticket_sized t \<and> s = invite_encode pton4 pton6 t \<and> s \<noteq> []"
    by (simp add: invite_encode_def invite_prefix_def)
next
  assume "ticket_sized t \<and> s = invite_encode pton4 pton6 t \<and> s \<noteq> []"
  then show "invite_decode pton4 pton6 s err = Inr t"
    using decode_encoded [of t pton4 pton6 err] by (auto simp: invite_encode_def split: if_splits)
qed

text \<open>
  C37. A ticket that was generated carries its inviter, endpoint and network unchanged, expires exactly after
  the lifetime that was asked for, without wrapping around, and is read back unchanged from its text. The
  hypotheses are that the generator gives 16 bytes which are not all zero, and the sizes of the arrays.
\<close>

theorem generated_ticket_roundtrip:
  assumes "invite_generate pton4 pton6 random_bytes inviter endpoint network now lifetime w = (Inr t, w')"
    and "random_bytes 16 w = (Inr secret, w')" "is_secret secret" "secret \<noteq> zero_secret"
    and "is_node_id inviter" "is_ipv6 network"
  shows "invite_decode pton4 pton6 (invite_encode pton4 pton6 t) err = Inr t \<and>
    it_inviter_id t = inviter \<and> it_inviter_endpoint t = endpoint \<and> it_network t = network \<and>
    unat (it_expires_at t) = unat now + unat lifetime \<and> 0 < lifetime \<and> unat lifetime \<le> 86400"
proof -
  have t: "t = \<lparr>it_network = network, it_secret = secret, it_inviter_id = inviter,
                it_inviter_endpoint = endpoint, it_created_at = now,
                it_expires_at = now + lifetime, it_consumed = False\<rparr>"
    and valid: "inviter \<noteq> zero_node_id" "valid_endpoint pton4 pton6 endpoint" "now \<noteq> 0" "lifetime \<noteq> 0"
      "lifetime \<le> MAX_INVITE_LIFETIME_SECONDS" "now \<le> - 1 - lifetime" "is_ula network"
    using assms(1,2) by (auto simp: invite_generate_def not_less split: if_splits sum.splits)
  have top: "unat (- 1 :: u64) = 18446744073709551615"
    by (simp add: unsigned_minus_1_eq_mask mask_eq_exp_minus_1)
  have "unat (- 1 - lifetime :: u64) = unat (- 1 :: u64) - unat lifetime"
    by (rule unat_sub) simp
  moreover have "unat lifetime < 2 ^ 64" using unsigned_less [of lifetime, where 'a = nat] by simp
  ultimately have "unat now + unat lifetime < 2 ^ 64"
    using valid(6) top by (simp add: word_le_nat_alt)
  then have sum: "unat (now + lifetime) = unat now + unat lifetime"
    by (subst unat_add_lem [THEN iffD1]) simp_all
  have positive: "0 < unat lifetime" using valid(4) by (simp add: unat_gt_0)
  then have "now < now + lifetime" using sum by (simp add: word_less_nat_alt)
  then have "ticket_contents_ok pton4 pton6 t"
    using valid assms(4) by (simp add: ticket_contents_ok_def t)
  moreover have "ticket_sized t" using assms(3,5,6) by (simp add: ticket_sized_def t)
  ultimately have "invite_decode pton4 pton6 (invite_encode pton4 pton6 t) err = Inr t"
    using decode_encoded valid(7) by (simp add: invite_encode_def t)
  moreover have "unat lifetime \<le> 86400"
    using valid(5) by (simp add: MAX_INVITE_LIFETIME_SECONDS_def word_le_nat_alt)
  ultimately show ?thesis using sum positive by (simp add: t word_less_nat_alt)
qed

definition sample_endpoint_pton6 :: "string \<Rightarrow> ipv6 option" where
  "sample_endpoint_pton6 t = (if t = ''::1'' then Some (replicate 15 0 @ [1]) else None)"

lemma sample_endpoint: "valid_endpoint (\<lambda>_. None) sample_endpoint_pton6 ''[::1]:80''"
  by (simp add: valid_endpoint_def sample_endpoint_pton6_def maximum_endpoint_size_def parse_endpoint_def
      find_char_def c_str_def parse_port_def from_chars_def is_digit_def digits_value_def)

definition sample_ticket :: invite_ticket where
  "sample_ticket =
     \<lparr>it_network = 0xfd # replicate 15 0, it_secret = replicate 16 5, it_inviter_id = replicate 32 9,
      it_inviter_endpoint = ''[::1]:80'', it_created_at = 1000, it_expires_at = 4600, it_consumed = False\<rparr>"

lemma sample_generate:
  "invite_generate (\<lambda>_. None) sample_endpoint_pton6 (\<lambda>n w. (Inr (replicate n 5), w)) (replicate 32 9)
     ''[::1]:80'' (0xfd # replicate 15 0) 1000 DEFAULT_INVITE_LIFETIME_SECONDS () = (Inr sample_ticket, ())"
proof -
  have "replicate 32 (9 :: byte) \<noteq> zero_node_id" by (simp add: zero_node_id_def)
  then show ?thesis
    by (simp add: invite_generate_def sample_endpoint sample_ticket_def is_ula_def list_all_iff
        DEFAULT_INVITE_LIFETIME_SECONDS_def MAX_INVITE_LIFETIME_SECONDS_def)
qed

lemma generated_ticket_roundtrip_witness:
  "invite_decode (\<lambda>_. None) sample_endpoint_pton6 (invite_encode (\<lambda>_. None) sample_endpoint_pton6 sample_ticket)
     None = Inr sample_ticket \<and> unat (it_expires_at sample_ticket) = 4600"
proof -
  have "replicate 16 (5 :: byte) \<noteq> zero_secret" by (simp add: zero_secret_def)
  with generated_ticket_roundtrip [OF sample_generate refl, of None] show ?thesis
    by (simp add: sample_ticket_def)
qed

end
