(* ===== verification/Trust.thy ===== *)
theory Trust
  imports Invite
begin

text \<open>
  The trust state of a node, the second half of \<open>src/security/invite.cpp\<close>: stored invitations, the records
  of trusted ps and the table of them. The file system is that of the storage layer, SHA-256 a parameter.
  Shown: records of ps have one spelling, an invitation is used once, the table stays sorted and answers
  lookups like a map, and an address that was found available keeps the addresses of the network distinct.
\<close>

section \<open>Data\<close>

definition peer_prefix :: string where "peer_prefix = ''madoka-peer-v1:''"

record trusted_peer =
  tp_id :: node_id
  tp_public_key :: public_key
  tp_endpoint :: string

record trust_state =
  tr_directory :: path
  tr_peers :: "trusted_peer list"

definition valid_identity_binding :: "(byte list \<Rightarrow> byte list option) \<Rightarrow> trusted_peer \<Rightarrow> bool" where
  "valid_identity_binding sha256 peer \<longleftrightarrow>
     tp_id peer \<noteq> zero_node_id \<and>
     (case sha256 (tp_public_key peer) of
        None \<Rightarrow> False | Some derived \<Rightarrow> length derived = 32 \<and> derived = tp_id peer)"

definition trust_directory :: "path \<Rightarrow> path" where
  "trust_directory identity_file = identity_file @ ''.state''"

definition invite_path :: "trust_state \<Rightarrow> invite_ticket \<Rightarrow> path" where
  "invite_path state ticket =
     path_join (tr_directory state) (''invite-'' @ hex (it_secret ticket) @ ''.ticket'')"

definition peer_path :: "trust_state \<Rightarrow> node_id \<Rightarrow> path" where
  "peer_path state nid = path_join (tr_directory state) (''peer-'' @ hex nid @ ''.trust'')"

section \<open>Records of ps\<close>

definition peer_bytes :: "trusted_peer \<Rightarrow> byte list" where
  "peer_bytes peer =
     append_u16 (1 # tp_id peer @ tp_public_key peer) (of_nat (length (tp_endpoint peer))) @
     bytes_of_string (tp_endpoint peer)"

definition encode_peer :: "trusted_peer \<Rightarrow> string" where
  "encode_peer peer = peer_prefix @ base64url_encode (peer_bytes peer) @ [CHR 0x0A]"

definition peer_fields :: "byte list \<Rightarrow> nat \<Rightarrow> trusted_peer" where
  "peer_fields bytes endpoint_size =
     \<lparr>tp_id = take 32 (drop 1 bytes), tp_public_key = take 32 (drop 33 bytes),
      tp_endpoint = string_of_bytes (take endpoint_size (drop 67 bytes))\<rparr>"

definition decode_peer ::
  "(string \<Rightarrow> byte list option) \<Rightarrow> (string \<Rightarrow> ipv6 option) \<Rightarrow> (byte list \<Rightarrow> byte list option) \<Rightarrow>
     string \<Rightarrow> string option \<Rightarrow> string option + trusted_peer" where
  "decode_peer pton4 pton6 sha256 txt err =
     (if \<not> starts_with txt peer_prefix \<or> \<not> ends_with txt [CHR 0x0A]
      then Inl (put_error ''Invalid trusted peer record'' err)
      else case base64url_decode (butlast (drop (length peer_prefix) txt)) of
        Inl e \<Rightarrow> Inl (put_error_if_empty ''Invalid trusted peer record'' (put_error e err))
      | Inr bytes \<Rightarrow>
          if length bytes < 1 + 32 + 32 + 2 \<or> bytes ! 0 \<noteq> 1
          then Inl (put_error_if_empty ''Invalid trusted peer record'' err)
          else
            let endpoint_size = unat (read_u16 (drop 65 bytes)) in
            if endpoint_size = 0 \<or> maximum_endpoint_size < endpoint_size \<or> length bytes \<noteq> 67 + endpoint_size
            then Inl (put_error ''Invalid trusted peer endpoint'' err)
            else
              let decoded = peer_fields bytes endpoint_size in
              if \<not> valid_identity_binding sha256 decoded \<or> \<not> valid_endpoint pton4 pton6 (tp_endpoint decoded)
              then Inl (put_error ''Invalid trusted peer identity or endpoint'' err)
              else Inr decoded)"

section \<open>Stored invitations\<close>

text \<open>
  The loop over the directory: the number of invitations that are still active, or \<open>None\<close> for \<open>false\<close>.
\<close>

fun count_active ::
  "(string \<Rightarrow> byte list option) \<Rightarrow> (string \<Rightarrow> ipv6 option) \<Rightarrow> 'w fs \<Rightarrow> path \<Rightarrow> u64 \<Rightarrow> string list \<Rightarrow>
     nat \<Rightarrow> string option \<Rightarrow> 'w \<Rightarrow> nat option \<times> string option \<times> 'w" where
  "count_active pton4 pton6 fs directory created [] active err w = (Some active, err, w)"
| "count_active pton4 pton6 fs directory created (filename # names) active err w =
     (if \<not> starts_with filename ''invite-'' \<or> \<not> ends_with filename ''.ticket''
      then count_active pton4 pton6 fs directory created names active err w
      else case private_read_file fs (path_join directory filename) 513 err w of
        (None, err1, w1) \<Rightarrow> (None, err1, w1)
      | (Some contents, err1, w1) \<Rightarrow>
          if \<not> ends_with contents [CHR 0x0A] then (None, err1, w1)
          else case invite_decode pton4 pton6 (butlast contents) err1 of
            Inl err2 \<Rightarrow> (None, err2, w1)
          | Inr existing \<Rightarrow>
              if it_expires_at existing \<le> created
              then (case fs_remove fs (path_join directory filename) w1 of
                      (Inl _, w2) \<Rightarrow> (None, put_error ''Cannot remove expired invitation'' err1, w2)
                    | (Inr _, w2) \<Rightarrow>
                        count_active pton4 pton6 fs directory created names active err1 w2)
              else count_active pton4 pton6 fs directory created names (active + 1) err1 w1)"

definition store_locked ::
  "(string \<Rightarrow> byte list option) \<Rightarrow> (string \<Rightarrow> ipv6 option) \<Rightarrow> 'w fs \<Rightarrow> trust_state \<Rightarrow> invite_ticket \<Rightarrow>
     string \<Rightarrow> string option \<Rightarrow> 'w \<Rightarrow> bool \<times> string option \<times> 'w" where
  "store_locked pton4 pton6 fs state ticket token err w =
     (case fs_entries fs (tr_directory state) w of (names, iterator_error) \<Rightarrow>
      case count_active pton4 pton6 fs (tr_directory state) (it_created_at ticket) names 0 err w of
        (None, err1, w1) \<Rightarrow> (False, err1, w1)
      | (Some active, err1, w1) \<Rightarrow>
          (case iterator_error of
             Some message \<Rightarrow> (False, put_error (''Cannot enumerate invitations: '' @ message) err1, w1)
           | None \<Rightarrow>
               if MAX_ACTIVE_INVITES \<le> active
               then (False, put_error ''Too many active invitations'' err1, w1)
               else
                 let path = invite_path state ticket in
                 (case fs_exists fs path w1 of
                    Inr True \<Rightarrow>
                      (False, put_error ''Invitation collision; generate another invitation'' err1, w1)
                  | Inl _ \<Rightarrow> (False, put_error ''Cannot inspect invitation path'' err1, w1)
                  | Inr False \<Rightarrow> private_write_atomically fs path (token @ [CHR 0x0A]) err1 w1)))"

definition invite_store ::
  "(string \<Rightarrow> byte list option) \<Rightarrow> (string \<Rightarrow> ipv6 option) \<Rightarrow> 'w fs \<Rightarrow> trust_state \<Rightarrow> invite_ticket \<Rightarrow>
     string option \<Rightarrow> 'w \<Rightarrow> bool \<times> string option \<times> 'w" where
  "invite_store pton4 pton6 fs state ticket err w =
     (let token = invite_encode pton4 pton6 ticket in
      if token = [] \<or> tr_directory state = [] then (False, err, w)
      else case private_ensure_directory fs (tr_directory state) err w of
        (False, err1, w1) \<Rightarrow> (False, err1, w1)
      | (True, err1, w1) \<Rightarrow>
          (case file_lock_acquire fs (path_join (tr_directory state) ''state.lock'') None err1 w1 of
             (False, lock, err2, w2) \<Rightarrow> (False, err2, w2)
           | (True, lock, err2, w2) \<Rightarrow>
               (case store_locked pton4 pton6 fs state ticket token err2 w2 of
                  (result, err3, w3) \<Rightarrow> (result, err3, snd (file_lock_release fs lock w3)))))"

definition consume_locked ::
  "(string \<Rightarrow> byte list option) \<Rightarrow> (string \<Rightarrow> ipv6 option) \<Rightarrow> 'w fs \<Rightarrow> trust_state \<Rightarrow> invite_ticket \<Rightarrow>
     u64 \<Rightarrow> string option \<Rightarrow> 'w \<Rightarrow> bool \<times> string option \<times> 'w" where
  "consume_locked pton4 pton6 fs state presented now_seconds err w =
     (let path = invite_path state presented in
      case private_read_file fs path 513 err w of
        (None, err1, w1) \<Rightarrow> (False, put_error ''Invitation is unknown or was already used'' err1, w1)
      | (Some stored, err1, w1) \<Rightarrow>
          if \<not> ends_with stored [CHR 0x0A] then (False, put_error ''Stored invitation is malformed'' err1, w1)
          else case invite_decode pton4 pton6 (butlast stored) err1 of
            Inl err2 \<Rightarrow> (False, put_error_if_empty ''Invitation does not match the issued ticket'' err2, w1)
          | Inr decoded \<Rightarrow>
              if it_secret decoded \<noteq> it_secret presented \<or> it_network decoded \<noteq> it_network presented \<or>
                 it_inviter_id decoded \<noteq> it_inviter_id presented \<or>
                 it_inviter_endpoint decoded \<noteq> it_inviter_endpoint presented \<or>
                 it_created_at decoded \<noteq> it_created_at presented \<or>
                 it_expires_at decoded \<noteq> it_expires_at presented
              then (False, put_error_if_empty ''Invitation does not match the issued ticket'' err1, w1)
              else case fs_remove fs path w1 of (removed, w2) \<Rightarrow>
                if removed \<noteq> Inr True
                then (False, put_error_if_empty ''Cannot consume invitation durably'' err1, w2)
                else case sync_parent_directory fs path err1 w2 of
                  (False, err2, w3) \<Rightarrow>
                    (False, put_error_if_empty ''Cannot consume invitation durably'' err2, w3)
                | (True, err2, w3) \<Rightarrow>
                    if now_seconds < it_created_at decoded \<or> it_expires_at decoded \<le> now_seconds
                    then (False, put_error ''Invitation expired'' err2, w3)
                    else (True, err2, w3))"

definition invite_consume ::
  "(string \<Rightarrow> byte list option) \<Rightarrow> (string \<Rightarrow> ipv6 option) \<Rightarrow> 'w fs \<Rightarrow> trust_state \<Rightarrow> invite_ticket \<Rightarrow>
     node_id \<Rightarrow> u64 \<Rightarrow> string option \<Rightarrow> 'w \<Rightarrow> bool \<times> string option \<times> 'w" where
  "invite_consume pton4 pton6 fs state presented expected_inviter now_seconds err w =
     (if it_inviter_id presented \<noteq> expected_inviter \<or> it_consumed presented
      then (False, put_error ''Invitation was issued by another node'' err, w)
      else case file_lock_acquire fs (path_join (tr_directory state) ''state.lock'') None err w of
        (False, lock, err1, w1) \<Rightarrow> (False, err1, w1)
      | (True, lock, err1, w1) \<Rightarrow>
          (case consume_locked pton4 pton6 fs state presented now_seconds err1 w1 of
             (result, err2, w2) \<Rightarrow> (result, err2, snd (file_lock_release fs lock w2))))"

section \<open>The table\<close>

fun load_peers ::
  "(string \<Rightarrow> byte list option) \<Rightarrow> (string \<Rightarrow> ipv6 option) \<Rightarrow> (byte list \<Rightarrow> byte list option) \<Rightarrow> 'w fs \<Rightarrow>
     path \<Rightarrow> string list \<Rightarrow> trusted_peer list \<Rightarrow> string option \<Rightarrow> 'w \<Rightarrow>
     trusted_peer list option \<times> string option \<times> 'w" where
  "load_peers pton4 pton6 sha256 fs directory [] ps err w = (Some ps, err, w)"
| "load_peers pton4 pton6 sha256 fs directory (filename # names) ps err w =
     (if \<not> starts_with filename ''peer-'' \<or> \<not> ends_with filename ''.trust''
      then load_peers pton4 pton6 sha256 fs directory names ps err w
      else case private_read_file fs (path_join directory filename) 1024 err w of
        (None, err1, w1) \<Rightarrow> (None, put_error_if_empty ''Invalid trusted peer filename'' err1, w1)
      | (Some contents, err1, w1) \<Rightarrow>
          (case decode_peer pton4 pton6 sha256 contents err1 of
             Inl err2 \<Rightarrow> (None, put_error_if_empty ''Invalid trusted peer filename'' err2, w1)
           | Inr peer \<Rightarrow>
               if filename \<noteq> ''peer-'' @ hex (tp_id peer) @ ''.trust''
               then (None, put_error_if_empty ''Invalid trusted peer filename'' err1, w1)
               else if find (\<lambda>existing. tp_id existing = tp_id peer) ps \<noteq> None \<or>
                       length ps = MAX_TRUSTED_PEERS
               then (None, put_error ''Duplicate or excessive trusted peer state'' err1, w1)
               else load_peers pton4 pton6 sha256 fs directory names (ps @ [peer]) err1 w1))"

definition trust_load ::
  "(string \<Rightarrow> byte list option) \<Rightarrow> (string \<Rightarrow> ipv6 option) \<Rightarrow> (byte list \<Rightarrow> byte list option) \<Rightarrow> 'w fs \<Rightarrow>
     path \<Rightarrow> string option \<Rightarrow> 'w \<Rightarrow> trust_state option \<times> string option \<times> 'w" where
  "trust_load pton4 pton6 sha256 fs identity_file err w =
     (if identity_file = [] then (None, put_error ''Invalid trust state'' err, w)
      else
        let directory = trust_directory identity_file in
        case private_ensure_directory fs directory err w of
          (False, err1, w1) \<Rightarrow> (None, err1, w1)
        | (True, err1, w1) \<Rightarrow>
            (case fs_entries fs directory w1 of (names, iterator_error) \<Rightarrow>
             case load_peers pton4 pton6 sha256 fs directory names [] err1 w1 of
               (None, err2, w2) \<Rightarrow> (None, err2, w2)
             | (Some ps, err2, w2) \<Rightarrow>
                 (case iterator_error of
                    Some message \<Rightarrow>
                      (None, put_error (''Cannot enumerate trusted ps: '' @ message) err2, w2)
                  | None \<Rightarrow>
                      (Some \<lparr>tr_directory = directory, tr_peers = sort_key tp_id ps\<rparr>, err2, w2))))"

text \<open>The iterator that \<open>std::lower_bound\<close> gives, as an index.\<close>

definition peer_index :: "trust_state \<Rightarrow> node_id \<Rightarrow> nat" where
  "peer_index state nid = lower_bound (map tp_id (tr_peers state)) nid 0 (length (tr_peers state))"

definition trust_find :: "trust_state \<Rightarrow> node_id \<Rightarrow> trusted_peer option" where
  "trust_find state nid =
     (let found = peer_index state nid in
      if found < length (tr_peers state) \<and> tp_id (tr_peers state ! found) = nid
      then Some (tr_peers state ! found) else None)"

definition trust_contains :: "trust_state \<Rightarrow> node_id \<Rightarrow> bool" where
  "trust_contains state nid \<longleftrightarrow> trust_find state nid \<noteq> None"

definition trust_address_available :: "trust_state \<Rightarrow> ipv6 \<Rightarrow> node_id \<Rightarrow> node_id \<Rightarrow> bool" where
  "trust_address_available state network local_id candidate_id =
     (if candidate_id = zero_node_id \<or> candidate_id = local_id then False
      else
        let candidate = virtual_address network candidate_id in
        if candidate = virtual_address network local_id \<or> list_all (\<lambda>b. b = 0) (drop 8 candidate)
        then False
        else list_all (\<lambda>peer. \<not> (tp_id peer \<noteq> candidate_id \<and>
                                 virtual_address network (tp_id peer) = candidate)) (tr_peers state))"

definition trust_add ::
  "(string \<Rightarrow> byte list option) \<Rightarrow> (string \<Rightarrow> ipv6 option) \<Rightarrow> (byte list \<Rightarrow> byte list option) \<Rightarrow> 'w fs \<Rightarrow>
     trust_state \<Rightarrow> trusted_peer \<Rightarrow> string option \<Rightarrow> 'w \<Rightarrow> bool \<times> trust_state \<times> string option \<times> 'w" where
  "trust_add pton4 pton6 sha256 fs state peer err w =
     (if tr_directory state = [] \<or> \<not> valid_endpoint pton4 pton6 (tp_endpoint peer) \<or>
         \<not> valid_identity_binding sha256 peer
      then (False, state, put_error ''Invalid trusted peer'' err, w)
      else case private_ensure_directory fs (tr_directory state) err w of
        (False, err1, w1) \<Rightarrow> (False, state, err1, w1)
      | (True, err1, w1) \<Rightarrow>
          let ps = tr_peers state; found = peer_index state (tp_id peer) in
          if found = length ps \<and> length ps = MAX_TRUSTED_PEERS
          then (False, state, put_error ''Trust table is full'' err1, w1)
          else case private_write_atomically fs (peer_path state (tp_id peer)) (encode_peer peer) err1 w1 of
            (False, err2, w2) \<Rightarrow> (False, state, err2, w2)
          | (True, err2, w2) \<Rightarrow>
              if found < length ps \<and> tp_id (ps ! found) = tp_id peer
              then (True, state\<lparr>tr_peers := ps[found := peer]\<rparr>, err2, w2)
              else (True, state\<lparr>tr_peers := take found ps @ peer # drop found ps\<rparr>, err2, w2))"


section \<open>Facts: records\<close>

text \<open>What a record that is stored or kept in the table satisfies.\<close>

definition trusted_peer_ok ::
  "(string \<Rightarrow> byte list option) \<Rightarrow> (string \<Rightarrow> ipv6 option) \<Rightarrow> (byte list \<Rightarrow> byte list option) \<Rightarrow>
     trusted_peer \<Rightarrow> bool" where
  "trusted_peer_ok pton4 pton6 sha256 peer \<longleftrightarrow>
     is_node_id (tp_id peer) \<and> length (tp_public_key peer) = 32 \<and> valid_identity_binding sha256 peer \<and>
     valid_endpoint pton4 pton6 (tp_endpoint peer)"

lemma peer_bytes_layout:
  "peer_bytes peer =
     1 # tp_id peer @ tp_public_key peer @ write_u16_be (of_nat (length (tp_endpoint peer))) @
     bytes_of_string (tp_endpoint peer)"
  by (simp add: peer_bytes_def append_u16_be)

lemma peer_bytes_of_fields:
  assumes "length bytes = 67 + n" "n = unat (read_u16 (drop 65 bytes))" "bytes ! 0 = 1"
  shows "peer_bytes (peer_fields bytes n) = bytes"
proof -
  have "of_nat n = u16_of (take 2 (drop 65 bytes))"
    using assms(2) by (simp add: read_u16_take)
  then have size: "write_u16_be (of_nat n) = take 2 (drop 65 bytes)"
    using assms(1) by (simp add: write_of_be)
  have "take 1 bytes = [1]" using assms(1,3) by (cases bytes) simp_all
  moreover have "take 1 bytes @ take 32 (drop 1 bytes) @ take 32 (drop 33 bytes) @ take 2 (drop 65 bytes) @
      take n (drop 67 bytes) = bytes"
    using assms(1) by (simp add: segment_glue segment_last)
  ultimately show ?thesis
    using assms(1) size by (simp add: peer_fields_def peer_bytes_layout)
qed

lemma decode_encoded_peer:
  assumes "trusted_peer_ok pton4 pton6 sha256 peer"
  shows "decode_peer pton4 pton6 sha256 (encode_peer peer) err = Inr peer"
proof -
  have sizes: "length (tp_id peer) = 32" "length (tp_public_key peer) = 32"
    and endpoint: "tp_endpoint peer \<noteq> []" "length (tp_endpoint peer) \<le> 255"
    using assms by (simp_all add: trusted_peer_ok_def valid_endpoint_def maximum_endpoint_size_def)
  have "read_u16 (drop 65 (peer_bytes peer)) = of_nat (length (tp_endpoint peer))"
    using sizes by (simp add: read_u16_take peer_bytes_layout)
  then have size: "unat (read_u16 (drop 65 (peer_bytes peer))) = length (tp_endpoint peer)"
    using endpoint(2) by (simp add: unat_of_nat)
  have fields: "peer_fields (peer_bytes peer) (length (tp_endpoint peer)) = peer"
    using sizes by (simp add: peer_fields_def peer_bytes_layout)
  have length: "length (peer_bytes peer) = 67 + length (tp_endpoint peer)"
    using sizes by (simp add: peer_bytes_layout)
  have first: "peer_bytes peer ! 0 = 1" "peer_bytes peer \<noteq> []" by (simp_all add: peer_bytes_layout)
  show ?thesis
    using assms endpoint
    by (simp add: decode_peer_def encode_peer_def starts_with_def ends_with_def butlast_append Let_def
        base64_inverse [OF first(2)] first(1) length size fields trusted_peer_ok_def
        maximum_endpoint_size_def)
qed

lemma decode_peer_result:
  assumes "decode_peer pton4 pton6 sha256 txt err = Inr peer"
  shows "trusted_peer_ok pton4 pton6 sha256 peer \<and> txt = encode_peer peer"
proof -
  obtain bytes where bytes: "base64url_decode (butlast (drop (length peer_prefix) txt)) = Inr bytes"
    and prefix: "starts_with txt peer_prefix" and suffix: "ends_with txt [CHR 0x0A]"
    using assms by (auto simp: decode_peer_def split: if_splits sum.splits)
  define n where "n = unat (read_u16 (drop 65 bytes))"
  have t: "peer = peer_fields bytes n" "length bytes = 67 + n" "bytes ! 0 = 1"
    "valid_identity_binding sha256 peer" "valid_endpoint pton4 pton6 (tp_endpoint peer)"
    using assms bytes prefix suffix by (auto simp: decode_peer_def Let_def simp flip: n_def split: if_splits)
  obtain rest where rest: "txt = peer_prefix @ rest" using prefix starts_with_iff by blast
  have "rest \<noteq> []"
    using suffix rest by (auto simp: ends_with_char peer_prefix_def)
  then have "txt = peer_prefix @ butlast rest @ [CHR 0x0A]"
    using suffix rest by (auto simp: ends_with_char) (metis append_butlast_last_id last_appendR last_snoc)
  moreover have "butlast rest = base64url_encode bytes"
    using base64_decode_result [OF bytes] rest by simp
  ultimately have "txt = encode_peer peer"
    using peer_bytes_of_fields [OF t(2) n_def t(3)] t(1) by (simp add: encode_peer_def)
  moreover have "is_node_id (tp_id peer)" "length (tp_public_key peer) = 32"
    using t(1,2) by (simp_all add: peer_fields_def)
  ultimately show ?thesis using t by (simp add: trusted_peer_ok_def)
qed


section \<open>Facts: the table\<close>

text \<open>The table of a state that was loaded: strictly sorted, within its limit, of valid records.\<close>

abbreviation table_sorted :: "trusted_peer list \<Rightarrow> bool" where
  "table_sorted ps \<equiv> sorted_wrt (<) (map tp_id ps)"

lemma peer_index_spec:
  assumes "table_sorted (tr_peers state)"
  shows "peer_index state nid \<le> length (tr_peers state)"
    and "\<forall>p\<in>set (take (peer_index state nid) (tr_peers state)). tp_id p < nid"
    and "\<forall>p\<in>set (drop (peer_index state nid) (tr_peers state)). nid \<le> tp_id p"
proof -
  let ?ids = "map tp_id (tr_peers state)"
  have sorted: "sorted ?ids" using assms by (simp add: strict_sorted_iff)
  have spec: "\<forall>i<peer_index state nid. ?ids ! i < nid"
    "\<forall>i<length ?ids. peer_index state nid \<le> i \<longrightarrow> \<not> ?ids ! i < nid"
    using lower_bound_spec [OF sorted, of 0 "length ?ids" nid] by (simp_all add: peer_index_def)
  show bound: "peer_index state nid \<le> length (tr_peers state)"
    using lower_bound_bounded [of ?ids nid 0 "length ?ids"] by (simp add: peer_index_def)
  show "\<forall>p\<in>set (take (peer_index state nid) (tr_peers state)). tp_id p < nid"
    using spec(1) bound by (auto simp: in_set_conv_nth)
  show "\<forall>p\<in>set (drop (peer_index state nid) (tr_peers state)). nid \<le> tp_id p"
    using spec(2) by (auto simp: in_set_conv_nth not_less)
qed

text \<open>A sorted table is a map from identifiers to records.\<close>

definition table_map :: "trusted_peer list \<Rightarrow> node_id \<Rightarrow> trusted_peer option" where
  "table_map ps = map_of (map (\<lambda>p. (tp_id p, p)) ps)"

lemma table_map_mem: "table_sorted ps \<Longrightarrow> table_map ps nid = Some p \<longleftrightarrow> p \<in> set ps \<and> tp_id p = nid"
proof -
  assume "table_sorted ps"
  then have "distinct (map tp_id ps)" by (simp add: strict_sorted_iff)
  then have "distinct (map fst (map (\<lambda>p. (tp_id p, p)) ps))" by (simp add: comp_def)
  then show ?thesis unfolding table_map_def by (auto simp: map_of_eq_Some_iff)
qed

lemma sorted_at_index:
  assumes "table_sorted (tr_peers state)" "p \<in> set (tr_peers state)"
  shows "peer_index state (tp_id p) < length (tr_peers state)"
    and "tr_peers state ! peer_index state (tp_id p) = p"
proof -
  let ?i = "peer_index state (tp_id p)"
  note spec = peer_index_spec [OF assms(1), of "tp_id p"]
  have "p \<in> set (take ?i (tr_peers state) @ drop ?i (tr_peers state))" using assms(2) by simp
  then have p: "p \<in> set (drop ?i (tr_peers state))" using spec(2) by (metis Un_iff less_irrefl set_append)
  then show bound: "?i < length (tr_peers state)" by (cases "?i < length (tr_peers state)") simp_all
  have drop: "drop ?i (tr_peers state) = tr_peers state ! ?i # drop (Suc ?i) (tr_peers state)"
    using bound by (simp add: Cons_nth_drop_Suc)
  have "sorted_wrt (<) (map tp_id (drop ?i (tr_peers state)))"
    using assms(1) by (metis drop_map sorted_wrt_drop)
  then show "tr_peers state ! ?i = p"
    using p spec(3) unfolding drop by (auto simp: not_less [symmetric])
qed

lemma trust_find_map:
  assumes "table_sorted (tr_peers state)"
  shows "trust_find state nid = table_map (tr_peers state) nid"
proof (cases "table_map (tr_peers state) nid")
  case None
  then have "\<not> (peer_index state nid < length (tr_peers state) \<and>
      tp_id (tr_peers state ! peer_index state nid) = nid)"
    using table_map_mem [OF assms, of nid] by fastforce
  then show ?thesis using None by (auto simp: trust_find_def Let_def)
next
  case (Some p)
  then have "p \<in> set (tr_peers state)" "tp_id p = nid" using table_map_mem [OF assms] by auto
  then show ?thesis using sorted_at_index [OF assms, of p] Some by (auto simp: trust_find_def Let_def)
qed

text \<open>Overwriting or inserting at the index keeps the order and updates the map.\<close>

definition put_peer :: "trust_state \<Rightarrow> trusted_peer \<Rightarrow> trusted_peer list" where
  "put_peer state peer =
     (let ps = tr_peers state; found = peer_index state (tp_id peer) in
      if found < length ps \<and> tp_id (ps ! found) = tp_id peer then ps[found := peer]
      else take found ps @ peer # drop found ps)"

lemma table_overwrite:
  assumes "table_sorted (xs @ y # zs)" "tp_id y = tp_id peer"
  shows "table_sorted (xs @ peer # zs) \<and>
    set (xs @ peer # zs) = insert peer {p \<in> set (xs @ y # zs). tp_id p \<noteq> tp_id peer}"
  using assms by (auto simp: sorted_wrt_append)

lemma table_insert:
  assumes "table_sorted (xs @ zs)" "\<forall>p\<in>set xs. tp_id p < tp_id peer" "\<forall>p\<in>set zs. tp_id peer < tp_id p"
  shows "table_sorted (xs @ peer # zs) \<and>
    set (xs @ peer # zs) = insert peer {p \<in> set (xs @ zs). tp_id p \<noteq> tp_id peer}"
  using assms by (auto simp: sorted_wrt_append)

lemma put_peer_facts:
  assumes "table_sorted (tr_peers state)"
  shows "table_sorted (put_peer state peer) \<and>
    set (put_peer state peer) = insert peer {p \<in> set (tr_peers state). tp_id p \<noteq> tp_id peer}"
proof -
  define i ps where "i = peer_index state (tp_id peer)" and "ps = tr_peers state"
  note spec = peer_index_spec [OF assms, of "tp_id peer", folded i_def ps_def]
  have sorted: "table_sorted ps" using assms by (simp add: ps_def)
  show ?thesis
  proof (cases "i < length ps \<and> tp_id (ps ! i) = tp_id peer")
    case True
    then have ps: "ps = take i ps @ ps ! i # drop (Suc i) ps" by (simp add: id_take_nth_drop)
    have put: "put_peer state peer = take i ps @ peer # drop (Suc i) ps"
      using True by (simp add: put_peer_def Let_def upd_conv_take_nth_drop flip: i_def ps_def)
    show ?thesis
      using table_overwrite [of "take i ps" "ps ! i" "drop (Suc i) ps" peer] sorted True
      unfolding put ps_def [symmetric] ps [symmetric] by simp
  next
    case False
    have put: "put_peer state peer = take i ps @ peer # drop i ps"
      using False by (auto simp: put_peer_def Let_def simp flip: i_def ps_def)
    have "tp_id p \<noteq> tp_id peer" if "p \<in> set ps" for p
      using sorted_at_index [OF assms, of p] that False by (metis i_def ps_def)
    then have later: "\<forall>p\<in>set (drop i ps). tp_id peer < tp_id p"
      using spec(3) by (metis in_set_dropD order_le_less)
    show ?thesis
      using table_insert [of "take i ps" "drop i ps" peer] sorted spec(2) later
      unfolding put ps_def [symmetric] append_take_drop_id by simp
  qed
qed


lemma put_peer_map:
  assumes "table_sorted (tr_peers state)"
  shows "table_map (put_peer state peer) = (table_map (tr_peers state))(tp_id peer \<mapsto> peer)"
proof
  fix nid
  have "table_map (put_peer state peer) nid = Some p \<longleftrightarrow>
      ((table_map (tr_peers state))(tp_id peer \<mapsto> peer)) nid = Some p" for p
    using put_peer_facts [OF assms, of peer] by (auto simp: table_map_mem assms)
  then show "table_map (put_peer state peer) nid = ((table_map (tr_peers state))(tp_id peer \<mapsto> peer)) nid"
    by (metis not_Some_eq)
qed

lemma trust_add_result:
  assumes "trust_add pton4 pton6 sha256 fs state peer err w = (True, state', err', w')"
  shows "state' = state\<lparr>tr_peers := put_peer state peer\<rparr>"
    and "valid_endpoint pton4 pton6 (tp_endpoint peer)" "valid_identity_binding sha256 peer"
    and "\<exists>err1 w1. private_ensure_directory fs (tr_directory state) err w = (True, err1, w1) \<and>
      private_write_atomically fs (peer_path state (tp_id peer)) (encode_peer peer) err1 w1 = (True, err', w')"
  using assms unfolding trust_add_def
  by (auto simp: put_peer_def Let_def split: if_splits bool.splits prod.splits)

lemma trust_add_refused:
  assumes "trust_add pton4 pton6 sha256 fs state peer err w = (False, state', err', w')"
  shows "state' = state"
  using assms unfolding trust_add_def
  by (auto simp: Let_def split: if_splits bool.splits prod.splits)

text \<open>
  The capacity is tested only when the new record would come last: a full table still takes a record whose
  identifier sorts before another one. The state on disk then has one record too many for loading it.
\<close>

lemma full_table_still_grows:
  assumes "table_sorted (tr_peers state)" "length (tr_peers state) = MAX_TRUSTED_PEERS"
    and "tp_id peer \<notin> set (map tp_id (tr_peers state))" "p \<in> set (tr_peers state)" "tp_id peer < tp_id p"
    and "tr_directory state \<noteq> []" "valid_endpoint pton4 pton6 (tp_endpoint peer)"
    and "valid_identity_binding sha256 peer"
    and "private_ensure_directory fs (tr_directory state) err w = (True, err1, w1)"
    and "private_write_atomically fs (peer_path state (tp_id peer)) (encode_peer peer) err1 w1 = (True, err', w')"
  shows "trust_add pton4 pton6 sha256 fs state peer err w = (True, state\<lparr>tr_peers := put_peer state peer\<rparr>, err', w') \<and>
    length (put_peer state peer) = MAX_TRUSTED_PEERS + 1"
proof -
  let ?i = "peer_index state (tp_id peer)" and ?ps = "tr_peers state"
  note spec = peer_index_spec [OF assms(1), of "tp_id peer"]
  have "p \<in> set (drop ?i ?ps)"
    using spec(2) assms(4,5) by (metis Un_iff append_take_drop_id less_asym set_append)
  then have i: "?i < length ?ps" by (cases "?i < length ?ps") simp_all
  then have "tp_id (?ps ! ?i) \<noteq> tp_id peer" using assms(3) by (metis in_set_conv_nth length_map nth_map)
  then show ?thesis
    using assms i by (simp add: trust_add_def put_peer_def Let_def)
qed

section \<open>Facts: invitations\<close>

lemma trust_directory_names:
  assumes "tr_directory state = trust_directory identity_file" "CHR ''/'' \<notin> set name"
  shows "path_join (tr_directory state) name = tr_directory state @ ''/'' @ name"
    and "temporary_of (path_join (tr_directory state) name) suffix =
      tr_directory state @ ''/'' @ name @ ''.tmp.'' @ suffix"
proof -
  have directory: "tr_directory state \<noteq> []" "last (tr_directory state) \<noteq> CHR ''/''"
    using assms(1) by (simp_all add: trust_directory_def)
  then show joined: "path_join (tr_directory state) name = tr_directory state @ ''/'' @ name"
    by (simp add: path_join_def)
  show "temporary_of (path_join (tr_directory state) name) suffix =
      tr_directory state @ ''/'' @ name @ ''.tmp.'' @ suffix"
    using directory assms(2) unfolding temporary_of_def joined
    by (simp add: parent_path_def file_name_def rfind_char_append path_join_def)
qed

lemma lock_is_not_invite:
  assumes "tr_directory state = trust_directory identity_file"
  shows "invite_path state ticket \<noteq> path_join (tr_directory state) ''state.lock''"
    and "invite_path state ticket \<noteq> temporary_of (path_join (tr_directory state) ''state.lock'') suffix"
proof -
  have directory: "tr_directory state \<noteq> []" "last (tr_directory state) \<noteq> CHR ''/''"
    using assms by (simp_all add: trust_directory_def)
  have lock: "CHR ''/'' \<notin> set ''state.lock''" by simp
  show "invite_path state ticket \<noteq> path_join (tr_directory state) ''state.lock''"
    using directory by (simp add: invite_path_def path_join_def)
  show "invite_path state ticket \<noteq> temporary_of (path_join (tr_directory state) ''state.lock'') suffix"
    unfolding trust_directory_names(2) [OF assms lock] using directory
    by (simp add: invite_path_def path_join_def)
qed

lemma consume_locked_contents:
  assumes laws: "fs_laws fs files"
    and run: "consume_locked pton4 pton6 fs state presented now err w = (ok, err', w')"
    and fresh: "\<not> it_consumed presented"
  shows "files w (invite_path state presented) = None \<Longrightarrow> \<not> ok"
    and "ok \<Longrightarrow> files w (invite_path state presented) = Some (invite_encode pton4 pton6 presented @ [CHR 0x0A]) \<and>
      files w' = (files w)(invite_path state presented := None) \<and>
      it_created_at presented \<le> now \<and> now < it_expires_at presented"
proof -
  let ?p = "invite_path state presented"
  obtain r err1 w1 where r: "private_read_file fs ?p 513 err w = (r, err1, w1)" by (metis prod_cases3)
  note read = private_read_contents [OF laws r]
  show "files w ?p = None \<Longrightarrow> \<not> ok"
    using read run by (cases r) (auto simp: consume_locked_def Let_def r)
  assume ok: ok
  obtain stored where stored: "r = Some stored" "ends_with stored [CHR 0x0A]"
    using run ok by (auto simp: consume_locked_def Let_def r split: option.splits if_splits)
  then obtain body where body: "stored = body @ [CHR 0x0A]" by (auto simp: ends_with_char)
  obtain t where t: "invite_decode pton4 pton6 body err1 = Inr t"
    using run ok stored body by (auto simp: consume_locked_def Let_def r split: sum.splits)
  obtain removed w2 where w2: "fs_remove fs ?p w1 = (removed, w2)" by fastforce
  have same: "it_secret t = it_secret presented" "it_network t = it_network presented"
    "it_inviter_id t = it_inviter_id presented" "it_inviter_endpoint t = it_inviter_endpoint presented"
    "it_created_at t = it_created_at presented" "it_expires_at t = it_expires_at presented"
    and removed: "removed = Inr True"
    using run ok stored body t w2 by (auto simp: consume_locked_def Let_def r split: if_splits)
  have tail: "(case sync_parent_directory fs ?p err1 w2 of
                  (False, err2, w3) \<Rightarrow>
                    (False, put_error_if_empty ''Cannot consume invitation durably'' err2, w3)
                | (True, err2, w3) \<Rightarrow>
                    if now < it_created_at t \<or> it_expires_at t \<le> now
                    then (False, put_error ''Invitation expired'' err2, w3)
                    else (True, err2, w3)) = (ok, err', w')"
    using run stored body t w2 same removed by (simp add: consume_locked_def Let_def r)
  have t_presented: "t = presented"
    using same decode_result [OF t] fresh by (simp add: ticket_sized_def)
  have "body = invite_encode pton4 pton6 t"
    using decode_result [OF t] by (simp add: invite_encode_def)
  moreover have "files w' = files w2 \<and> it_created_at t \<le> now \<and> now < it_expires_at t"
    using tail ok sync_contents(2) [OF laws]
    by (auto simp: not_less not_le split: prod.splits bool.splits if_splits)
  ultimately show "files w ?p = Some (invite_encode pton4 pton6 presented @ [CHR 0x0A]) \<and>
      files w' = (files w)(?p := None) \<and> it_created_at presented \<le> now \<and> now < it_expires_at presented"
    using read stored(1) body removed_contents [OF laws, of ?p w1 w2] w2 removed t_presented by simp
qed


section \<open>Facts: loading\<close>

lemma load_peers_facts:
  "load_peers pton4 pton6 sha256 fs directory names ps err w = (Some ps', err', w') \<Longrightarrow>
     distinct (map tp_id ps) \<Longrightarrow> length ps \<le> MAX_TRUSTED_PEERS \<Longrightarrow>
     list_all (trusted_peer_ok pton4 pton6 sha256) ps \<Longrightarrow>
     distinct (map tp_id ps') \<and> length ps' \<le> MAX_TRUSTED_PEERS \<and>
     list_all (trusted_peer_ok pton4 pton6 sha256) ps'"
proof (induction names arbitrary: ps err w)
  case (Cons filename names)
  show ?case
  proof (cases "starts_with filename ''peer-'' \<and> ends_with filename ''.trust''")
    case False
    with Cons show ?thesis by auto
  next
    case True
    with Cons.prems(1) obtain contents err1 w1 peer
      where peer: "decode_peer pton4 pton6 sha256 contents err1 = Inr peer"
        and new: "find (\<lambda>existing. tp_id existing = tp_id peer) ps = None" "length ps \<noteq> MAX_TRUSTED_PEERS"
        and rest: "load_peers pton4 pton6 sha256 fs directory names (ps @ [peer]) err1 w1 = (Some ps', err', w')"
      by (auto split: prod.splits option.splits sum.splits if_splits)
    show ?thesis
      using Cons.prems(2-4) decode_peer_result [OF peer] new(2)
      by (intro Cons.IH [OF rest]) (use new(1) in \<open>auto simp: find_None_iff\<close>)
  qed
qed simp

lemma trust_load_facts:
  assumes "trust_load pton4 pton6 sha256 fs identity_file err w = (Some state, err', w')"
  shows "table_sorted (tr_peers state) \<and> length (tr_peers state) \<le> MAX_TRUSTED_PEERS \<and>
    list_all (trusted_peer_ok pton4 pton6 sha256) (tr_peers state) \<and>
    tr_directory state = trust_directory identity_file"
proof -
  obtain ps err1 w1 err2 w2 names
    where load: "load_peers pton4 pton6 sha256 fs (trust_directory identity_file) names [] err1 w1 =
      (Some ps, err2, w2)"
      and state: "state = \<lparr>tr_directory = trust_directory identity_file, tr_peers = sort_key tp_id ps\<rparr>"
    using assms
    by (auto simp: trust_load_def Let_def split: if_splits prod.splits bool.splits option.splits)
  have "distinct (map tp_id ps) \<and> length ps \<le> MAX_TRUSTED_PEERS \<and> list_all (trusted_peer_ok pton4 pton6 sha256) ps"
    by (rule load_peers_facts [OF load]) simp_all
  then show ?thesis
    using state by (auto simp: strict_sorted_iff distinct_map list_all_iff)
qed

section \<open>Properties\<close>

text \<open>
  The record of a trusted peer has one spelling. A text is accepted exactly when it is the encoding of
  the peer that it gives, and that peer is bound to its key, which SHA-256 of the public key decides, and has
  a usable endpoint.
\<close>

theorem peer_record_canonical:
  "decode_peer pton4 pton6 sha256 txt err = Inr peer \<longleftrightarrow>
     trusted_peer_ok pton4 pton6 sha256 peer \<and> txt = encode_peer peer"
  using decode_encoded_peer decode_peer_result by blast

text \<open>
  C12. An invitation is used once. When consuming it succeeds, the inviter was the expected one, the file of
  the invitation held exactly the presented ticket, and the time lies in its life; the file is gone
  afterwards. As long as nobody writes it again, no ticket with that secret is consumed a second time.
\<close>

theorem invitation_used_once:
  assumes laws: "fs_laws fs files" and directory: "tr_directory state = trust_directory identity_file"
    and run: "invite_consume pton4 pton6 fs state presented inviter now err w = (True, err', w')"
    and later: "files w2 (invite_path state presented) = files w' (invite_path state presented)"
    and again: "it_secret presented2 = it_secret presented" "\<not> it_consumed presented2"
      "invite_consume pton4 pton6 fs state presented2 inviter2 now2 err2 w2 = (ok2, err3, w3)"
  shows "it_inviter_id presented = inviter \<and> it_created_at presented \<le> now \<and> now < it_expires_at presented \<and>
    files w (invite_path state presented) = Some (invite_encode pton4 pton6 presented @ [CHR 0x0A]) \<and>
    files w' (invite_path state presented) = None \<and> \<not> ok2"
proof -
  let ?p = "invite_path state presented" and ?lock = "path_join (tr_directory state) ''state.lock''"
  note apart = lock_is_not_invite [OF directory, of presented]
  have same_path: "invite_path state presented2 = ?p" using again(1) by (simp add: invite_path_def)
  have guard: "it_inviter_id presented = inviter" "\<not> it_consumed presented"
    using run by (auto simp: invite_consume_def split: if_splits)
  obtain lock err1 w1 where lock: "file_lock_acquire fs ?lock None err w = (True, lock, err1, w1)"
    using run guard by (auto simp: invite_consume_def split: prod.splits bool.splits)
  obtain err4 w4 where locked: "consume_locked pton4 pton6 fs state presented now err1 w1 = (True, err4, w4)"
    and end_state: "w' = snd (file_lock_release fs lock w4)"
    using run guard by (auto simp: invite_consume_def lock split: prod.splits)
  note used = consume_locked_contents(2) [OF laws locked guard(2) TrueI]
  have before: "files w1 ?p = files w ?p" by (rule lock_contents [OF laws lock apart(1)]) (use apart(2) in blast)
  have gone: "files w' ?p = None" using used end_state release_contents [OF laws] by simp
  have "\<not> ok2"
  proof
    assume ok2
    then obtain lock2 err5 w5 err6 w6
      where lock2: "file_lock_acquire fs ?lock None err2 w2 = (True, lock2, err5, w5)"
        and second: "consume_locked pton4 pton6 fs state presented2 now2 err5 w5 = (True, err6, w6)"
      using again(3) by (auto simp: invite_consume_def split: if_splits prod.splits bool.splits)
    have "files w5 ?p = files w2 ?p"
      by (rule lock_contents [OF laws lock2 apart(1)]) (use apart(2) in blast)
    then show False
      using consume_locked_contents(1) [OF laws second again(2)] gone later same_path by simp
  qed
  then show ?thesis using guard(1) used before gone by simp
qed


text \<open>The stored file of the sample ticket; consuming it from a file system in memory.\<close>

definition sample_trust :: trust_state where
  "sample_trust = \<lparr>tr_directory = trust_directory ''/d'', tr_peers = []\<rparr>"

definition sample_disk :: "path \<Rightarrow> string option" where
  "sample_disk =
     [path_join (tr_directory sample_trust) ''state.lock'' \<mapsto> [], invite_path sample_trust sample_ticket \<mapsto>
        invite_encode (\<lambda>_. None) sample_endpoint_pton6 sample_ticket @ [CHR 0x0A]]"

lemma sample_consume:
  "fst (invite_consume (\<lambda>_. None) sample_endpoint_pton6 memory_fs sample_trust sample_ticket (replicate 32 9) 2000
     None sample_disk)"
proof -
  let ?lock = "path_join (tr_directory sample_trust) ''state.lock''"
  let ?p = "invite_path sample_trust sample_ticket"
  let ?txt = "invite_encode (\<lambda>_. None) sample_endpoint_pton6 sample_ticket"
  have directory: "tr_directory sample_trust = trust_directory ''/d''" by (simp add: sample_trust_def)
  have lock: "?lock = ''/d.state/state.lock''" by (simp add: sample_trust_def trust_directory_def path_join_def)
  have p: "?p \<noteq> ?lock" "?p \<noteq> ''/d.state''" using lock_is_not_invite(1) [OF directory]
    by (auto simp: invite_path_def path_join_def sample_trust_def trust_directory_def)
  have "replicate 16 (5 :: byte) \<noteq> zero_secret" "replicate 32 (9 :: byte) \<noteq> zero_node_id"
    by (simp_all add: zero_secret_def zero_node_id_def)
  then have "ticket_contents_ok (\<lambda>_. None) sample_endpoint_pton6 sample_ticket" "is_ula (it_network sample_ticket)"
    using sample_endpoint by (simp_all add: ticket_contents_ok_def sample_ticket_def is_ula_def
        list_all_iff MAX_INVITE_LIFETIME_SECONDS_def)
  moreover have "ticket_sized sample_ticket" by (simp add: ticket_sized_def sample_ticket_def)
  ultimately have decoded: "invite_decode (\<lambda>_. None) sample_endpoint_pton6 ?txt None = Inr sample_ticket"
    by (simp add: invite_encode_def decode_encoded)
  then have short: "length ?txt \<le> 512" by (auto simp: invite_decode_def split: if_splits)
  have acquired: "file_lock_acquire memory_fs ?lock None None sample_disk = (True, Some 3, None, sample_disk)"
    using p unfolding lock
    by (simp add: file_lock_acquire_def file_lock_release_def parent_path_def rfind_char_def find_char_def memory_fs_def
        private_protect_file_def reject_link_def sample_disk_def lock)
  have stored: "sample_disk ?p = Some (?txt @ [CHR 0x0A])" by (simp add: sample_disk_def)
  have read: "private_read_file memory_fs ?p 513 None sample_disk = (Some (?txt @ [CHR 0x0A]), None, sample_disk)"
    using p short stored
    by (simp add: private_read_file_def private_protect_file_def reject_link_def memory_fs_def)
  have "fst (consume_locked (\<lambda>_. None) sample_endpoint_pton6 memory_fs sample_trust sample_ticket 2000 None sample_disk)"
    using stored
    by (simp add: consume_locked_def Let_def read ends_with_char decoded)
      (simp add: memory_fs_def sync_parent_directory_def flush_descriptor_def sample_ticket_def)
  moreover have "it_inviter_id sample_ticket = replicate 32 9" "\<not> it_consumed sample_ticket"
    by (simp_all add: sample_ticket_def)
  ultimately show ?thesis
    by (auto simp: invite_consume_def acquired split: prod.split)
qed

lemma invitation_used_once_witness:
  "\<not> fst (invite_consume (\<lambda>_. None) sample_endpoint_pton6 memory_fs sample_trust sample_ticket (replicate 32 9) 2000
     None (snd (snd (invite_consume (\<lambda>_. None) sample_endpoint_pton6 memory_fs sample_trust sample_ticket
       (replicate 32 9) 2000 None sample_disk))))"
proof -
  let ?consume = "invite_consume (\<lambda>_. None) sample_endpoint_pton6 memory_fs sample_trust sample_ticket
      (replicate 32 9) 2000 None"
  obtain err w where first: "?consume sample_disk = (True, err, w)"
    using sample_consume by (cases "?consume sample_disk") auto
  obtain ok2 err2 w2 where second: "?consume w = (ok2, err2, w2)" by (metis prod_cases3)
  have "tr_directory sample_trust = trust_directory ''/d''" by (simp add: sample_trust_def)
  moreover have "\<not> it_consumed sample_ticket" by (simp add: sample_ticket_def)
  ultimately show ?thesis
    using invitation_used_once [OF memory_fs_laws _ first refl refl _ second] first second by simp
qed


text \<open>
  Adding a trusted peer updates one entry and nothing else. On a sorted table, when adding succeeds, the
  table is sorted again, the peer is found under its identifier and every other identifier finds what it
  found before; the file of the peer holds exactly its record, which reads back as the peer; no other file
  changed but temporaries of that one. When it fails the table is as it was.
\<close>

theorem trust_add_updates_one_entry:
  assumes laws: "fs_laws fs files" and sorted: "table_sorted (tr_peers state)"
    and sizes: "is_node_id (tp_id peer)" "length (tp_public_key peer) = 32"
    and run: "trust_add pton4 pton6 sha256 fs state peer err w = (ok, state', err', w')"
  shows "(\<not> ok \<longrightarrow> state' = state) \<and>
    (ok \<longrightarrow> table_sorted (tr_peers state') \<and>
       (\<forall>nid. trust_find state' nid = (if nid = tp_id peer then Some peer else trust_find state nid)) \<and>
       (\<exists>contents. files w' (peer_path state (tp_id peer)) = Some contents \<and>
          decode_peer pton4 pton6 sha256 contents None = Inr peer) \<and>
       (\<forall>q. q \<noteq> peer_path state (tp_id peer) \<and> (\<forall>suffix. q \<noteq> temporary_of (peer_path state (tp_id peer)) suffix) \<longrightarrow>
          files w' q = files w q))"
proof (cases ok)
  case False
  then show ?thesis using run by (auto dest: trust_add_refused)
next
  case True
  then have "trust_add pton4 pton6 sha256 fs state peer err w = (True, state', err', w')" using run by simp
  note result = trust_add_result [OF this]
  note put = put_peer_facts [OF sorted, of peer]
  have sorted': "table_sorted (tr_peers state')" using put result(1) by simp
  have found: "trust_find state' nid = (if nid = tp_id peer then Some peer else trust_find state nid)" for nid
    unfolding trust_find_map [OF sorted'] trust_find_map [OF sorted]
    using put_peer_map [OF sorted, of peer] by (simp add: result(1))
  have written: "written (peer_path state (tp_id peer)) (encode_peer peer) True (files w) (files w')"
    using result(4) ensure_contents [OF laws] private_write_contents [OF laws] by metis
  have "trusted_peer_ok pton4 pton6 sha256 peer"
    using sizes result(2,3) by (simp add: trusted_peer_ok_def)
  then have "decode_peer pton4 pton6 sha256 (encode_peer peer) None = Inr peer" by (rule decode_encoded_peer)
  then show ?thesis using sorted' True found written by (simp add: written_def)
qed

definition sample_peer :: trusted_peer where
  "sample_peer = \<lparr>tp_id = replicate 32 9, tp_public_key = replicate 32 1, tp_endpoint = ''[::1]:80''\<rparr>"

lemma sample_peer_ok: "trusted_peer_ok (\<lambda>_. None) sample_endpoint_pton6 (\<lambda>_. Some (replicate 32 9)) sample_peer"
proof -
  have "replicate 32 (9 :: byte) \<noteq> zero_node_id" by (simp add: zero_node_id_def)
  then show ?thesis
    by (simp add: trusted_peer_ok_def valid_identity_binding_def sample_peer_def sample_endpoint)
qed


lemma sample_add_runs:
  "fst (trust_add (\<lambda>_. None) sample_endpoint_pton6 (\<lambda>_. Some (replicate 32 9)) memory_fs sample_trust sample_peer
     None Map.empty)"
proof -
  let ?p = "peer_path sample_trust (tp_id sample_peer)" and ?suffix = "hex (replicate 16 7)"
  let ?name = "''peer-'' @ hex (tp_id sample_peer) @ ''.trust''"
  have state: "tr_directory sample_trust = trust_directory ''/d''" by (simp add: sample_trust_def)
  have directory: "tr_directory sample_trust = ''/d.state''" by (simp add: sample_trust_def trust_directory_def)
  have name: "CHR ''/'' \<notin> set ?name" "CHR ''/'' \<notin> set (?name @ ''.tmp.'' @ ?suffix)"
    by (simp_all add: hex_without_slash)
  have p: "?p = ''/d.state'' @ CHR ''/'' # ?name"
    using trust_directory_names(1) [OF state name(1)] by (simp add: peer_path_def directory)
  obtain w' where written: "private_write_atomically memory_fs ?p (encode_peer sample_peer) None Map.empty =
      (True, None, w')"
    using memory_write_new [OF name(1) p] by blast
  have "private_ensure_directory memory_fs ''/d.state'' None Map.empty = (True, None, Map.empty)"
    by (simp add: private_ensure_directory_def memory_fs_def reject_link_def)
  moreover have "peer_index sample_trust (tp_id sample_peer) = 0"
    using peer_index_spec(1) [of sample_trust] by (simp add: sample_trust_def)
  ultimately show ?thesis
    using sample_peer_ok written directory
    by (auto simp: trust_add_def trusted_peer_ok_def sample_trust_def MAX_TRUSTED_PEERS_def)
qed

lemma trust_add_updates_one_entry_witness:
  "trust_find (fst (snd (trust_add (\<lambda>_. None) sample_endpoint_pton6 (\<lambda>_. Some (replicate 32 9)) memory_fs
     sample_trust sample_peer None Map.empty))) (replicate 32 9) = Some sample_peer"
proof -
  obtain ok state err w
    where run: "trust_add (\<lambda>_. None) sample_endpoint_pton6 (\<lambda>_. Some (replicate 32 9)) memory_fs sample_trust
      sample_peer None Map.empty = (ok, state, err, w)" by (metis prod_cases4)
  have "table_sorted (tr_peers sample_trust)" by (simp add: sample_trust_def)
  from trust_add_updates_one_entry [OF memory_fs_laws this _ _ run] show ?thesis
    using sample_add_runs run by (simp add: sample_peer_def)
qed

text \<open>
  C35. Loading the trust state gives a table that can be searched: it is strictly sorted by identifier, has at
  most 15 peers, every peer is bound to its key and has a usable endpoint, and looking up an identifier gives
  the peer that has it.
\<close>

theorem trust_load_valid:
  assumes "trust_load pton4 pton6 sha256 fs identity_file err w = (Some state, err', w')"
  shows "table_sorted (tr_peers state) \<and> length (tr_peers state) \<le> MAX_TRUSTED_PEERS \<and>
    list_all (trusted_peer_ok pton4 pton6 sha256) (tr_peers state) \<and>
    (\<forall>nid p. trust_find state nid = Some p \<longleftrightarrow> p \<in> set (tr_peers state) \<and> tp_id p = nid) \<and>
    (\<forall>nid. trust_contains state nid \<longleftrightarrow> nid \<in> set (map tp_id (tr_peers state)))"
proof -
  note loaded = trust_load_facts [OF assms]
  then have "trust_find state nid = Some p \<longleftrightarrow> p \<in> set (tr_peers state) \<and> tp_id p = nid" for nid p
    by (simp add: trust_find_map table_map_mem)
  then show ?thesis using loaded by (auto simp: trust_contains_def image_iff)
qed

text \<open>The directory lists one record, whose text the file system holds.\<close>

definition sample_listing :: "(path \<Rightarrow> string option) fs" where
  "sample_listing = memory_fs\<lparr>fs_entries := \<lambda>_ _. ([''peer-'' @ hex (tp_id sample_peer) @ ''.trust''], None)\<rparr>"

lemma trust_load_valid_witness:
  "\<exists>state err w. trust_load (\<lambda>_. None) sample_endpoint_pton6 (\<lambda>_. Some (replicate 32 9)) sample_listing ''/d'' None
     [peer_path sample_trust (tp_id sample_peer) \<mapsto> encode_peer sample_peer] = (Some state, err, w) \<and>
     trust_find state (replicate 32 9) = Some sample_peer"
proof -
  let ?disk = "[peer_path sample_trust (tp_id sample_peer) \<mapsto> encode_peer sample_peer]"
  let ?name = "''peer-'' @ hex (tp_id sample_peer) @ ''.trust''"
  have directory: "trust_directory ''/d'' = ''/d.state''" by (simp add: trust_directory_def)
  have p: "path_join ''/d.state'' ?name = peer_path sample_trust (tp_id sample_peer)"
    by (simp add: peer_path_def sample_trust_def trust_directory_def)
  have other: "peer_path sample_trust (tp_id sample_peer) \<noteq> ''/d.state''"
    by (simp add: p [symmetric] path_join_def)
  have "length (base64url_encode (peer_bytes sample_peer)) \<le> 200"
    using length_encode_loop [of 0 "peer_bytes sample_peer"]
    by (simp add: base64url_encode_def peer_bytes_layout sample_peer_def)
  then have size: "length (encode_peer sample_peer) \<le> 1024" by (simp add: encode_peer_def peer_prefix_def)
  have ensured: "private_ensure_directory sample_listing ''/d.state'' None ?disk = (True, None, ?disk)"
    by (simp add: private_ensure_directory_def sample_listing_def memory_fs_def reject_link_def)
  have read: "private_read_file sample_listing (peer_path sample_trust (tp_id sample_peer)) 1024 None ?disk =
      (Some (encode_peer sample_peer), None, ?disk)"
    using other size
    by (simp add: private_read_file_def private_protect_file_def reject_link_def sample_listing_def memory_fs_def)
  have name: "starts_with ?name ''peer-''" "ends_with ?name ''.trust''"
    by (simp_all add: starts_with_def ends_with_def)
  have loaded: "load_peers (\<lambda>_. None) sample_endpoint_pton6 (\<lambda>_. Some (replicate 32 9)) sample_listing ''/d.state''
      [?name] [] None ?disk = (Some [sample_peer], None, ?disk)"
    by (simp only: load_peers.simps name not_True_eq_False if_False p read prod.case option.case
        decode_encoded_peer [OF sample_peer_ok] sum.case) (simp add: MAX_TRUSTED_PEERS_def)
  have "fs_entries sample_listing ''/d.state'' ?disk = ([?name], None)" by (simp add: sample_listing_def)
  then have "trust_load (\<lambda>_. None) sample_endpoint_pton6 (\<lambda>_. Some (replicate 32 9)) sample_listing ''/d'' None ?disk =
      (Some \<lparr>tr_directory = ''/d.state'', tr_peers = [sample_peer]\<rparr>, None, ?disk)"
    using loaded by (simp add: trust_load_def directory ensured)
  moreover from trust_load_valid [OF this]
  have "trust_find \<lparr>tr_directory = ''/d.state'', tr_peers = [sample_peer]\<rparr> (replicate 32 9) = Some sample_peer"
    by (simp add: sample_peer_def)
  ultimately show ?thesis by blast
qed

text \<open>
  C34. The virtual addresses of the network stay distinct. When the addresses of the node itself and of its
  trusted peers are distinct and a candidate was found available, the addresses are still distinct after
  the candidate was added.
\<close>

theorem trusted_addresses_stay_distinct:
  assumes "distinct (map (virtual_address network) (local_id # map tp_id (tr_peers state)))"
    and "trust_address_available state network local_id (tp_id peer)"
    and "table_sorted (tr_peers state)"
    and "trust_add pton4 pton6 sha256 fs state peer err w = (True, state', err', w')"
  shows "distinct (map (virtual_address network) (local_id # map tp_id (tr_peers state')))"
proof -
  note put = put_peer_facts [OF assms(3), of peer]
  have ps: "tr_peers state' = put_peer state peer" using trust_add_result(1) [OF assms(4)] by simp
  have "distinct (map tp_id (put_peer state peer))" using put by (simp add: strict_sorted_iff)
  moreover have "inj_on (virtual_address network \<circ> tp_id) (set (put_peer state peer))"
    using put assms(1,2)
    by (auto simp: inj_on_def trust_address_available_def Let_def distinct_map list_all_iff split: if_splits)
  ultimately have "distinct (map (virtual_address network \<circ> tp_id) (put_peer state peer))"
    by (simp add: distinct_map)
  moreover have "virtual_address network local_id \<notin> (virtual_address network \<circ> tp_id) ` set (put_peer state peer)"
    using put assms(1,2) by (auto simp: trust_address_available_def Let_def split: if_splits)
  ultimately show ?thesis by (simp add: ps)
qed

lemma trusted_addresses_stay_distinct_witness:
  "distinct (map (virtual_address (0xfd # replicate 15 0)) (replicate 32 1 # map tp_id (tr_peers (fst (snd
     (trust_add (\<lambda>_. None) sample_endpoint_pton6 (\<lambda>_. Some (replicate 32 9)) memory_fs sample_trust sample_peer
        None Map.empty))))))"
proof -
  obtain ok state err w
    where run: "trust_add (\<lambda>_. None) sample_endpoint_pton6 (\<lambda>_. Some (replicate 32 9)) memory_fs sample_trust
      sample_peer None Map.empty = (ok, state, err, w)" by (metis prod_cases4)
  have sorted: "table_sorted (tr_peers sample_trust)" by (simp add: sample_trust_def)
  have "trust_address_available sample_trust (0xfd # replicate 15 0) (replicate 32 1) (tp_id sample_peer)"
    by code_simp
  moreover have "distinct (map (virtual_address (0xfd # replicate 15 0)) (replicate 32 1 # map tp_id (tr_peers sample_trust)))"
    by (simp add: sample_trust_def)
  ultimately show ?thesis
    using trusted_addresses_stay_distinct [OF _ _ sorted] sample_add_runs run by simp
qed

end
