(* ===== verification/Tun.thy ===== *)
theory Tun
  imports Socket
begin

text \<open>
  The network device: the Linux branches of \<open>src/platform/tun.cpp\<close> that move packets and close the device,
  over a record of the system calls. A device that is a mock swallows what is written to it. The last part sets a
  device up, \<open>tun_open\<close>; shown: it gives back every descriptor but the one of the device.
\<close>

text \<open>
  \<open>tun_poll\<close> tells whether the descriptor became readable in time; \<open>tun_read\<close> gives the bytes read, nothing
  when the call fails; \<open>tun_write\<close> whether the call did not fail.
\<close>

record 'w tun_os =
  tun_poll :: "fd \<Rightarrow> nat \<Rightarrow> 'w \<Rightarrow> bool \<times> 'w"
  tun_read :: "fd \<Rightarrow> nat \<Rightarrow> 'w \<Rightarrow> byte list option \<times> 'w"
  tun_write :: "fd \<Rightarrow> byte list \<Rightarrow> 'w \<Rightarrow> bool \<times> 'w"
  tun_errno_text :: "'w \<Rightarrow> string"

record tun_device =
  td_handle :: fd
  td_name :: string
  td_mtu :: nat
  td_is_open :: bool
  td_is_mock :: bool

definition tun_set_error :: "string \<Rightarrow> string option \<Rightarrow> string option" where
  "tun_set_error message err = map_option (\<lambda>_. message) err"

text \<open>The bytes read; \<open>[]\<close> is the result 0. The timeout is not negative; the sleep of a mock leaves no trace.\<close>

definition tun_read_packet ::
  "'w tun_os \<Rightarrow> tun_device \<Rightarrow> nat \<Rightarrow> nat \<Rightarrow> string option \<Rightarrow> 'w \<Rightarrow> byte list \<times> string option \<times> 'w" where
  "tun_read_packet tos dev buffer_size timeout err w =
     (if \<not> td_is_open dev then ([], tun_set_error ''TunDevice is not open'' err, w)
      else if td_is_mock dev then ([], err, w)
      else if td_handle dev < 0 then ([], tun_set_error ''TunDevice is not open'' err, w)
      else case tun_poll tos (td_handle dev) timeout w of
        (False, w1) \<Rightarrow> ([], err, w1)
      | (True, w1) \<Rightarrow>
          (case tun_read tos (td_handle dev) buffer_size w1 of
             (None, w2) \<Rightarrow> ([], err, w2)
           | (Some bytes, w2) \<Rightarrow> (bytes, err, w2)))"

definition tun_write_packet ::
  "'w tun_os \<Rightarrow> tun_device \<Rightarrow> byte list \<Rightarrow> string option \<Rightarrow> 'w \<Rightarrow> bool \<times> string option \<times> 'w" where
  "tun_write_packet tos dev packet err w =
     (if \<not> td_is_open dev then (False, tun_set_error ''TunDevice is not open'' err, w)
      else if td_is_mock dev then (True, err, w)
      else if td_handle dev < 0 then (False, tun_set_error ''TunDevice is not open'' err, w)
      else case tun_write tos (td_handle dev) packet w of
        (False, w1) \<Rightarrow> (False, tun_set_error (''tun_write failed: '' @ tun_errno_text tos w1) err, w1)
      | (True, w1) \<Rightarrow> (True, err, w1))"

definition tun_close :: "'w os \<Rightarrow> tun_device \<Rightarrow> 'w \<Rightarrow> tun_device \<times> 'w" where
  "tun_close os dev w =
     (if td_is_mock dev then (dev\<lparr>td_is_open := False, td_is_mock := False\<rparr>, w)
      else if 0 \<le> td_handle dev
      then (dev\<lparr>td_handle := - 1, td_is_open := False\<rparr>, os_close os (td_handle dev) w)
      else (dev\<lparr>td_is_open := False\<rparr>, w))"

definition tun_is_open :: "tun_device \<Rightarrow> bool" where
  "tun_is_open dev \<longleftrightarrow> td_is_open dev \<and> (td_is_mock dev \<or> 0 \<le> td_handle dev)"

lemma tun_close_closes: "tun_close os dev w = (dev', w') \<Longrightarrow> \<not> tun_is_open dev'"
  by (auto simp: tun_close_def tun_is_open_def split: if_splits)

section \<open>Setting the device up\<close>

record tun_config =
  tn_name :: string
  tn_ipv6 :: ipv6
  tn_prefix_length :: nat
  tn_mtu :: nat

text \<open>The request for a permanent address of the interface: \<open>RTM_NEWADDR\<close> with the address as local and peer address.\<close>

record address_request =
  rq_index :: nat
  rq_prefix_length :: u8
  rq_local :: ipv6
  rq_address :: ipv6

text \<open>
  The calls: whether \<open>MADOKA_MOCK_TUN\<close> is 1; opening \<open>/dev/net/tun\<close>, negative when it fails, and whether that was for
  lack of rights; \<open>TUNSETIFF\<close>, which gives the assigned name; datagram sockets of the two families and the netlink socket;
  \<open>SIOCSIFMTU\<close>, whose result is ignored; the index of an interface; sending the request and reading the answer, both
  ignored; \<open>SIOCGIFFLAGS\<close>, the flags unless it fails; and \<open>SIOCSIFFLAGS\<close>, ignored.
\<close>

record 'w tun_setup =
  ts_mock :: bool
  ts_open :: "'w \<Rightarrow> fd \<times> 'w"
  ts_denied :: "'w \<Rightarrow> bool"
  ts_set_iff :: "fd \<Rightarrow> string \<Rightarrow> 'w \<Rightarrow> string option \<times> 'w"
  ts_datagram :: "family \<Rightarrow> 'w \<Rightarrow> fd \<times> 'w"
  ts_netlink :: "'w \<Rightarrow> fd \<times> 'w"
  ts_set_mtu :: "fd \<Rightarrow> string \<Rightarrow> nat \<Rightarrow> 'w \<Rightarrow> 'w"
  ts_name_index :: "string \<Rightarrow> 'w \<Rightarrow> nat"
  ts_send_request :: "fd \<Rightarrow> address_request \<Rightarrow> 'w \<Rightarrow> 'w"
  ts_receive_answer :: "fd \<Rightarrow> 'w \<Rightarrow> 'w"
  ts_get_flags :: "fd \<Rightarrow> string \<Rightarrow> 'w \<Rightarrow> u16 option \<times> 'w"
  ts_set_flags :: "fd \<Rightarrow> string \<Rightarrow> u16 \<Rightarrow> 'w \<Rightarrow> 'w"
  ts_error_text :: "'w \<Rightarrow> string"

definition IFF_UP_RUNNING :: u16 where "IFF_UP_RUNNING = 0x41"

definition set_mtu :: "'w tun_setup \<Rightarrow> fd \<Rightarrow> string \<Rightarrow> nat \<Rightarrow> 'w \<Rightarrow> 'w" where
  "set_mtu ts sock name mtu w = (if 0 \<le> sock then ts_set_mtu ts sock name mtu w else w)"

definition add_address :: "'w tun_setup \<Rightarrow> 'w os \<Rightarrow> string \<Rightarrow> tun_config \<Rightarrow> 'w \<Rightarrow> 'w" where
  "add_address ts os name config w =
     (case ts_netlink ts w of (nl_fd, w1) \<Rightarrow>
        if nl_fd < 0 then w1
        else
          let request = \<lparr>rq_index = ts_name_index ts name w1, rq_prefix_length = of_nat (tn_prefix_length config),
                rq_local = tn_ipv6 config, rq_address = tn_ipv6 config\<rparr>
          in os_close os nl_fd (ts_receive_answer ts nl_fd (ts_send_request ts nl_fd request w1)))"

definition bring_up :: "'w tun_setup \<Rightarrow> 'w os \<Rightarrow> fd \<Rightarrow> string \<Rightarrow> 'w \<Rightarrow> 'w" where
  "bring_up ts os sock name w =
     (if sock < 0 then w
      else case ts_get_flags ts sock name w of
        (None, w1) \<Rightarrow> os_close os sock w1
      | (Some flags, w1) \<Rightarrow> os_close os sock (ts_set_flags ts sock name (flags OR IFF_UP_RUNNING) w1))"

definition configure_tun :: "'w tun_setup \<Rightarrow> 'w os \<Rightarrow> string \<Rightarrow> tun_config \<Rightarrow> 'w \<Rightarrow> 'w" where
  "configure_tun ts os name config w =
     (case (case ts_datagram ts AF_INET6 w of
              (sock, w1) \<Rightarrow> if sock < 0 then ts_datagram ts AF_INET w1 else (sock, w1)) of
        (sock, w2) \<Rightarrow> bring_up ts os sock name (add_address ts os name config (set_mtu ts sock name (tn_mtu config) w2)))"

definition tun_open ::
  "'w tun_setup \<Rightarrow> 'w os \<Rightarrow> tun_device \<Rightarrow> tun_config \<Rightarrow> string option \<Rightarrow> 'w \<Rightarrow>
     bool \<times> tun_device \<times> string option \<times> 'w" where
  "tun_open ts os dev0 config err w0 =
     (case tun_close os dev0 w0 of (dev, w) \<Rightarrow>
      if ts_mock ts
      then (True, dev\<lparr>td_name := tn_name config, td_mtu := tn_mtu config, td_is_open := True, td_is_mock := True\<rparr>, err, w)
      else case ts_open ts w of (fd, w1) \<Rightarrow>
        if fd < 0
        then (False, dev,
              tun_set_error (if ts_denied ts w1
                             then ''Cannot open /dev/net/tun: CAP_NET_ADMIN or root privileges required''
                             else ''Cannot open /dev/net/tun: '' @ ts_error_text ts w1) err, w1)
        else case ts_set_iff ts fd (take 15 (c_str (tn_name config))) w1 of
          (None, w2) \<Rightarrow>
            (False, dev, tun_set_error (''TUNSETIFF failed: '' @ ts_error_text ts w2) err, os_close os fd w2)
        | (Some name, w2) \<Rightarrow>
            (True, dev\<lparr>td_handle := fd, td_name := name, td_mtu := tn_mtu config, td_is_open := True\<rparr>, err,
             configure_tun ts os name config w2))"

text \<open>The new calls take and keep descriptors as the calls of \<open>descriptors\<close> do.\<close>

definition gives_descriptor :: "('w \<Rightarrow> fd set) \<Rightarrow> 'w \<Rightarrow> fd \<times> 'w \<Rightarrow> bool" where
  "gives_descriptor held w r \<longleftrightarrow>
     (if fst r < 0 then held (snd r) = held w else fst r \<notin> held w \<and> held (snd r) = insert (fst r) (held w))"

definition tun_descriptors :: "'w tun_setup \<Rightarrow> ('w \<Rightarrow> fd set) \<Rightarrow> bool" where
  "tun_descriptors ts held \<longleftrightarrow>
     (\<forall>w. gives_descriptor held w (ts_open ts w) \<and> gives_descriptor held w (ts_netlink ts w)) \<and>
     (\<forall>family w. gives_descriptor held w (ts_datagram ts family w)) \<and>
     (\<forall>fd name w. held (snd (ts_set_iff ts fd name w)) = held w) \<and>
     (\<forall>fd name n w. held (ts_set_mtu ts fd name n w) = held w) \<and>
     (\<forall>fd request w. held (ts_send_request ts fd request w) = held w) \<and>
     (\<forall>fd w. held (ts_receive_answer ts fd w) = held w) \<and>
     (\<forall>fd name w. held (snd (ts_get_flags ts fd name w)) = held w) \<and>
     (\<forall>fd name flags w. held (ts_set_flags ts fd name flags w) = held w)"

lemma tun_laws:
  assumes "tun_descriptors ts held"
  shows "gives_descriptor held w (ts_open ts w)" "gives_descriptor held w (ts_netlink ts w)"
    "gives_descriptor held w (ts_datagram ts family w)" "held (snd (ts_set_iff ts fd name w)) = held w"
    "held (ts_set_mtu ts fd name n w) = held w" "held (ts_send_request ts fd request w) = held w"
    "held (ts_receive_answer ts fd w) = held w" "held (snd (ts_get_flags ts fd name w)) = held w"
    "held (ts_set_flags ts fd name flags w) = held w"
  using assms by (simp_all add: tun_descriptors_def)

lemma held_add_address:
  assumes "tun_descriptors ts held" "descriptors os held"
  shows "held (add_address ts os name config w) = held w"
proof -
  obtain fd w1 where nl: "ts_netlink ts w = (fd, w1)" by fastforce
  have "gives_descriptor held w (fd, w1)" using tun_laws(2) [OF assms(1), of w] nl by simp
  then show ?thesis
    using nl
    by (auto simp: add_address_def gives_descriptor_def descriptors_close [OF assms(2)] tun_laws [OF assms(1)] Let_def)
qed

lemma held_bring_up:
  assumes "tun_descriptors ts held" "descriptors os held"
  shows "held (bring_up ts os sock name w) = (if sock < 0 then held w else held w - {sock})"
proof -
  obtain flags w1 where flags: "ts_get_flags ts sock name w = (flags, w1)" by fastforce
  have "held w1 = held w" using tun_laws(8) [OF assms(1), of sock name w] flags by simp
  then show ?thesis
    using flags
    by (cases flags) (simp_all add: bring_up_def descriptors_close [OF assms(2)] tun_laws [OF assms(1)])
qed

lemma held_configure_tun:
  assumes "tun_descriptors ts held" "descriptors os held"
  shows "held (configure_tun ts os name config w) = held w"
proof -
  obtain s1 w1 where first: "ts_datagram ts AF_INET6 w = (s1, w1)" by fastforce
  obtain s2 w2 where second: "ts_datagram ts AF_INET w1 = (s2, w2)" by fastforce
  have given: "gives_descriptor held w (s1, w1)" "gives_descriptor held w1 (s2, w2)"
    using tun_laws(3) [OF assms(1), of w AF_INET6] tun_laws(3) [OF assms(1), of w1 AF_INET] first second by simp_all
  have mtu: "held (set_mtu ts sock name n v) = held v" for sock n v
    by (simp add: set_mtu_def tun_laws [OF assms(1)])
  note simps = configure_tun_def first second held_bring_up [OF assms] held_add_address [OF assms] mtu
  show ?thesis
  proof (cases "s1 < 0")
    case True
    then have "held w1 = held w" using given(1) by (simp add: gives_descriptor_def)
    then show ?thesis using given(2) True by (cases "s2 < 0") (simp_all add: simps gives_descriptor_def)
  next
    case False
    then show ?thesis using given(1) by (simp add: simps gives_descriptor_def)
  qed
qed

text \<open>
  Opening a device that is closed takes one descriptor, the handle of the device, or none: when opening fails, and for
  a mock.
\<close>

lemma tun_open_leaks_nothing:
  assumes laws: "tun_descriptors ts held" "descriptors os held" and closed: "td_handle dev < 0"
    and run: "tun_open ts os dev config err w = (ok, dev', err', w')"
  shows "held w' = (if ok \<and> \<not> td_is_mock dev' then insert (td_handle dev') (held w) else held w) \<and>
    tun_is_open dev' = ok \<and> (ok \<and> \<not> td_is_mock dev' \<longrightarrow> td_handle dev' \<notin> held w)"
proof -
  obtain d w0 where close: "tun_close os dev w = (d, w0)" by fastforce
  have d: "w0 = w" "td_handle d < 0" "\<not> td_is_open d" "\<not> td_is_mock d"
    using close closed by (auto simp: tun_close_def split: if_splits)
  note unfolded = run [unfolded tun_open_def close prod.case]
  show ?thesis
  proof (cases "ts_mock ts")
    case True
    then show ?thesis using unfolded d by (auto simp: tun_is_open_def)
  next
    case False
    obtain fd w1 where op: "ts_open ts w = (fd, w1)" by fastforce
    have given: "gives_descriptor held w (fd, w1)" using tun_laws(1) [OF laws(1), of w] op by simp
    obtain name w2 where iff: "ts_set_iff ts fd (take 15 (c_str (tn_name config))) w1 = (name, w2)" by fastforce
    have same: "held w2 = held w1"
      using tun_laws(4) [OF laws(1), of fd "take 15 (c_str (tn_name config))" w1] iff by simp
    note facts = unfolded [unfolded d(1) op prod.case]
    show ?thesis
    proof (cases "fd < 0")
      case True
      then show ?thesis
        using facts False d given by (simp add: gives_descriptor_def tun_is_open_def)
    next
      case opened: False
      then have given: "fd \<notin> held w" "held w2 = insert fd (held w)"
        using given same by (simp_all add: gives_descriptor_def)
      show ?thesis
      proof (cases name)
        case None
        then show ?thesis
          using facts False opened d given iff by (auto simp: descriptors_close [OF laws(2)] tun_is_open_def)
      next
        case (Some n)
        then show ?thesis
          using facts False opened d given iff by (auto simp: held_configure_tun [OF laws] tun_is_open_def)
      qed
    qed
  qed
qed

end
