(* ===== verification/Node.thy ===== *)
theory Node
  imports "HOL-Library.AList" Tun Session Trust Identity Distance_Vector Forwarding Join
begin

text \<open>
  The state of a running node, \<open>include/core/app.hpp\<close>, and the parts of \<open>src/core/daemon.cpp\<close> that the data
  plane and the control plane share. Sessions are shared pointers in the code, so the state has a store from
  addresses to sessions and the list of the registered addresses. The host is a record of everything outside:
  system calls, OpenSSL, the network device and the clocks. Mutexes are not modelled: every function here runs
  without interruption. Writing the status file has no effect on the state and is left out.
\<close>

section \<open>The state\<close>

record data_plane_metrics =
  dm_tun_packets_read :: u64
  dm_tun_packets_written :: u64
  dm_data_messages_sent :: u64
  dm_data_messages_received :: u64
  dm_drop_no_active_peer :: u64
  dm_drop_invalid_ipv6 :: u64
  dm_drop_wrong_destination :: u64
  dm_drop_oversized :: u64
  dm_drop_transport_error :: u64
  dm_drop_malformed_data_message :: u64
  dm_drop_unshared_port :: u64

record routing_metrics =
  rm_routes_installed :: u64
  rm_routes_updated :: u64
  rm_routes_expired :: u64
  rm_route_advertisements_sent :: u64
  rm_route_advertisements_received :: u64
  rm_route_advertisements_stale :: u64
  rm_forwarded_packets :: u64
  rm_delivered_local_packets :: u64
  rm_drop_no_route :: u64
  rm_drop_next_hop_unavailable :: u64
  rm_drop_ttl_expired :: u64
  rm_drop_invalid_route_advertisement :: u64
  rm_neighbor_up :: u64
  rm_neighbor_down :: u64

record virtual_network_state =
  vn_tun :: tun_device
  vn_address :: ipv6
  vn_mtu :: nat
  vn_packets_received :: u64
  vn_packets_transmitted :: u64
  vn_is_up :: bool

record app_peer_session =
  as_transport :: transport_session
  as_contact :: node_contact
  as_peer_id :: "node_id option"
  as_worker_started :: bool
  as_trusted :: bool

record stored_route_advertisement =
  sa_advertisement :: route_advertisement
  sa_received_at_ms :: u64

text \<open>
  Hash maps are association lists; their order is never observed. Times of the steady clock are nanoseconds.
\<close>

type_synonym session_ref = nat

record 'k app_state =
  ap_config :: config
  ap_identity :: "'k identity"
  ap_trust :: trust_state
  ap_vnet :: virtual_network_state
  ap_kademlia :: kademlia_table
  ap_topology :: topology
  ap_routing_table :: route_table
  ap_route_advertisements :: "(node_id \<times> stored_route_advertisement) list"
  ap_route_origins :: route_origin_states
  ap_routing_dirty :: bool
  ap_next_route_sequence :: u64
  ap_next_control_sequence :: u64
  ap_local_contact :: node_contact
  ap_store :: "session_ref \<Rightarrow> app_peer_session"
  ap_sessions :: "session_ref list"
  ap_outbound_ports :: "(u16 \<times> int) list"
  ap_next_packet_id :: u64
  ap_data_metrics :: data_plane_metrics
  ap_routing_metrics :: routing_metrics

text \<open>
  The outside. \<open>h_steady\<close> and \<open>h_system\<close> read the clocks in nanoseconds; \<open>h_digest\<close> is SHA-256, \<open>h_pton4\<close>
  and \<open>h_pton6\<close> are \<open>inet_pton\<close>. \<open>h_running\<close> and \<open>h_stop_requested\<close> are the two flags that other threads and the
  handlers of signals change: \<open>running\<close> of the application and the one of \<open>lifecycle.cpp\<close>.
\<close>

record ('w, 'k, 's) host =
  h_os :: "'w os"
  h_lib :: "('w, 'k, 's) ssl_lib"
  h_tun :: "'w tun_os"
  h_fs :: "'w fs"
  h_steady :: "'w \<Rightarrow> int \<times> 'w"
  h_system :: "'w \<Rightarrow> int \<times> 'w"
  h_digest :: "byte list \<Rightarrow> byte list option"
  h_pton4 :: "string \<Rightarrow> byte list option"
  h_pton6 :: "string \<Rightarrow> ipv6 option"
  h_running :: "'w \<Rightarrow> bool"
  h_stop_requested :: "'w \<Rightarrow> bool"

text \<open>The condition of the loops of the workers.\<close>

definition goes_on :: "('w, 'k, 's) host \<Rightarrow> 'w \<Rightarrow> bool" where
  "goes_on host w \<longleftrightarrow> h_running host w \<and> \<not> h_stop_requested host w"

section \<open>Constants and clocks\<close>

definition MAX_PEER_SESSIONS :: nat where "MAX_PEER_SESSIONS = 16"
definition MAX_MESSAGES_PER_SECOND :: nat where "MAX_MESSAGES_PER_SECOND = 1000"
definition ROUTE_ADVERTISEMENT_TIMEOUT_MS :: u64 where "ROUTE_ADVERTISEMENT_TIMEOUT_MS = 6000"

definition now_ms :: "('w, 'k, 's) host \<Rightarrow> 'w \<Rightarrow> u64 \<times> 'w" where
  "now_ms host w = (case h_system host w of (t, w1) \<Rightarrow> (of_int (t div 1000000), w1))"

definition steady_now_ms :: "('w, 'k, 's) host \<Rightarrow> 'w \<Rightarrow> u64 \<times> 'w" where
  "steady_now_ms host w = (case h_steady host w of (t, w1) \<Rightarrow> (of_int (t div 1000000), w1))"

section \<open>Counting\<close>

definition count_data ::
  "(data_plane_metrics \<Rightarrow> data_plane_metrics) \<Rightarrow> 'k app_state \<Rightarrow> 'k app_state" where
  "count_data f app = app\<lparr>ap_data_metrics := f (ap_data_metrics app)\<rparr>"

definition count_routing ::
  "(routing_metrics \<Rightarrow> routing_metrics) \<Rightarrow> 'k app_state \<Rightarrow> 'k app_state" where
  "count_routing f app = app\<lparr>ap_routing_metrics := f (ap_routing_metrics app)\<rparr>"

section \<open>Sessions\<close>

definition set_session :: "'k app_state \<Rightarrow> session_ref \<Rightarrow> app_peer_session \<Rightarrow> 'k app_state" where
  "set_session app r s = app\<lparr>ap_store := (ap_store app)(r := s)\<rparr>"

text \<open>A session pointer may be null.\<close>

definition send_on_session ::
  "('w, 'k, 's) host \<Rightarrow> 'k app_state \<Rightarrow> session_ref option \<Rightarrow> message \<Rightarrow> string option \<Rightarrow> 'w \<Rightarrow>
     bool \<times> 'k app_state \<times> string option \<times> 'w" where
  "send_on_session host app session message err w =
     (case session of
        None \<Rightarrow> (False, app, map_option (\<lambda>_. ''Peer session is null'') err, w)
      | Some r \<Rightarrow>
          (case transport_send (h_os host) (h_lib host) (as_transport (ap_store app r)) message err w of
             (ok, t, err1, w1) \<Rightarrow>
               (ok, set_session app r ((ap_store app r)\<lparr>as_transport := t\<rparr>), err1, w1)))"

definition close_session ::
  "('w, 'k, 's) host \<Rightarrow> 'k app_state \<Rightarrow> session_ref option \<Rightarrow> 'w \<Rightarrow> 'k app_state \<times> 'w" where
  "close_session host app session w =
     (case session of
        None \<Rightarrow> (app, w)
      | Some r \<Rightarrow>
          (case transport_close (h_os host) (h_lib host) (as_transport (ap_store app r)) w of
             (t, w1) \<Rightarrow> (set_session app r ((ap_store app r)\<lparr>as_transport := t\<rparr>), w1)))"

definition session_is_open :: "'k app_state \<Rightarrow> session_ref option \<Rightarrow> bool" where
  "session_is_open app session =
     (case session of None \<Rightarrow> False | Some r \<Rightarrow> transport_is_open (as_transport (ap_store app r)))"

definition make_control_wire :: "control_message \<Rightarrow> message" where
  "make_control_wire control =
     \<lparr>m_version = PROTOCOL_VERSION, m_type = MT_Control, m_payload = serialize_control_message control\<rparr>"

definition send_control ::
  "('w, 'k, 's) host \<Rightarrow> 'k app_state \<Rightarrow> session_ref option \<Rightarrow> control_message_type \<Rightarrow> u64 \<Rightarrow> node_id \<Rightarrow>
     byte list \<Rightarrow> string option \<Rightarrow> 'w \<Rightarrow> bool \<times> 'k app_state \<times> string option \<times> 'w" where
  "send_control host app session t sequence sender payload err w =
     send_on_session host app session (make_control_wire (control_message_create t sequence sender payload)) err w"

definition peer_is_trusted :: "'k app_state \<Rightarrow> node_id \<Rightarrow> bool" where
  "peer_is_trusted app peer_id = trust_contains (ap_trust app) peer_id"

definition mark_routing_dirty :: "'k app_state \<Rightarrow> 'k app_state" where
  "mark_routing_dirty app = app\<lparr>ap_routing_dirty := True\<rparr>"

text \<open>The loop of \<open>find_session_by_next_hop\<close>; the clock is read only when the topology knows the peer.\<close>

fun scan_sessions ::
  "('w, 'k, 's) host \<Rightarrow> 'k app_state \<Rightarrow> node_id \<Rightarrow> session_ref list \<Rightarrow> 'w \<Rightarrow> session_ref option \<times> 'w" where
  "scan_sessions host app next_hop [] w = (None, w)"
| "scan_sessions host app next_hop (r # rs) w =
     (if as_peer_id (ap_store app r) \<noteq> Some next_hop then scan_sessions host app next_hop rs w
      else
        let is_open = transport_is_open (as_transport (ap_store app r));
            (active, w1) =
              (case topology_find_peer (ap_topology app) next_hop of
                 None \<Rightarrow> (False, w)
               | Some p \<Rightarrow> (case steady_now_ms host w of (t, w1) \<Rightarrow> (peer_is_alive p t 5000, w1)))
        in if is_open \<and> active then (Some r, w1) else scan_sessions host app next_hop rs w1)"

definition find_session_by_next_hop ::
  "('w, 'k, 's) host \<Rightarrow> 'k app_state \<Rightarrow> node_id \<Rightarrow> 'w \<Rightarrow> session_ref option \<times> 'w" where
  "find_session_by_next_hop host app next_hop w = scan_sessions host app next_hop (ap_sessions app) w"


section \<open>Sample values\<close>

text \<open>A small node for the concrete examples: identifier 1, one connected peer with identifier 2, port 443 shared.\<close>

definition no_files :: "'w fs" where
  "no_files =
     \<lparr>fs_exists = (\<lambda>_ _. Inr False), fs_create_directory = (\<lambda>_ w. (Inr False, w)),
      fs_status = (\<lambda>_ _. Inl (True, [])), fs_owned = (\<lambda>_ _. False), fs_chmod = (\<lambda>_ _ w. (False, w)),
      fs_create = (\<lambda>_ w. (None, w)), fs_open = (\<lambda>_ _ w. (None, w)), fs_close = (\<lambda>_ w. (True, w)),
      fs_fsync = (\<lambda>_ w. (True, w)), fs_flock = (\<lambda>_ w. (True, w)), fs_write = (\<lambda>_ _ w. (False, w)),
      fs_read = (\<lambda>_ _ _. None), fs_remove = (\<lambda>_ w. (Inr False, w)), fs_rename = (\<lambda>_ _ w. (Inl (True, []), w)),
      fs_entries = (\<lambda>_ _. ([], None)), fs_errno_text = (\<lambda>_. []), fs_random = (\<lambda>n w. (Inr (replicate n 7), w))\<rparr>"

definition sample_tun_os :: "'w tun_os" where
  "sample_tun_os =
     \<lparr>tun_poll = (\<lambda>_ _ w. (False, w)), tun_read = (\<lambda>_ _ w. (None, w)), tun_write = (\<lambda>_ _ w. (True, w)),
      tun_errno_text = (\<lambda>_. [])\<rparr>"

definition sample_host :: "(int list, byte, byte) host" where
  "sample_host =
     \<lparr>h_os = sample_os, h_lib = sample_lib, h_tun = sample_tun_os, h_fs = no_files,
      h_steady = (\<lambda>w. (5000000, w)), h_system = (\<lambda>w. (7000000, w)), h_digest = (\<lambda>k. Some (map (\<lambda>b. b + 1) k)),
      h_pton4 = (\<lambda>_. None), h_pton6 = sample_endpoint_pton6, h_running = (\<lambda>_. True), h_stop_requested = (\<lambda>_. False)\<rparr>"

definition zero_data_metrics :: data_plane_metrics where
  "zero_data_metrics =
     \<lparr>dm_tun_packets_read = 0, dm_tun_packets_written = 0, dm_data_messages_sent = 0,
      dm_data_messages_received = 0, dm_drop_no_active_peer = 0, dm_drop_invalid_ipv6 = 0,
      dm_drop_wrong_destination = 0, dm_drop_oversized = 0, dm_drop_transport_error = 0,
      dm_drop_malformed_data_message = 0, dm_drop_unshared_port = 0\<rparr>"

definition zero_routing_metrics :: routing_metrics where
  "zero_routing_metrics =
     \<lparr>rm_routes_installed = 0, rm_routes_updated = 0, rm_routes_expired = 0, rm_route_advertisements_sent = 0,
      rm_route_advertisements_received = 0, rm_route_advertisements_stale = 0, rm_forwarded_packets = 0,
      rm_delivered_local_packets = 0, rm_drop_no_route = 0, rm_drop_next_hop_unavailable = 0,
      rm_drop_ttl_expired = 0, rm_drop_invalid_route_advertisement = 0, rm_neighbor_up = 0, rm_neighbor_down = 0\<rparr>"

definition sample_network :: ipv6 where "sample_network = 0xfd # replicate 15 0"

definition sample_app :: "byte app_state" where
  "sample_app =
     \<lparr>ap_config = default_config\<lparr>cfg_network := sample_network, cfg_shared_ports := [443],
        cfg_share_all_ports := False\<rparr>,
      ap_identity = \<lparr>id_key = Some 0, id_id = replicate 32 1, id_generation = 1, id_storage_path = [],
        id_lock_handle = None\<rparr>,
      ap_trust = \<lparr>tr_directory = ''/d.state'', tr_peers = [\<lparr>tp_id = replicate 32 2, tp_public_key = replicate 32 1,
        tp_endpoint = ''[::1]:80''\<rparr>]\<rparr>,
      ap_vnet = \<lparr>vn_tun = \<lparr>td_handle = 9, td_name = ''madoka0'', td_mtu = 1280, td_is_open = True, td_is_mock = False\<rparr>,
        vn_address = virtual_address sample_network (replicate 32 1), vn_mtu = 1280, vn_packets_received = 0,
        vn_packets_transmitted = 0, vn_is_up = True\<rparr>,
      ap_kademlia = sample_kademlia\<lparr>kt_local_id := replicate 32 1\<rparr>,
      ap_topology = \<lparr>peers = [peer_create (replicate 32 2) (virtual_address sample_network (replicate 32 2))
        ''[::1]:80'' Connected 5]\<rparr>,
      ap_routing_table = \<lparr>routes = []\<rparr>, ap_route_advertisements = [], ap_route_origins = Map.empty,
      ap_routing_dirty = False, ap_next_route_sequence = 1, ap_next_control_sequence = 1,
      ap_local_contact = bare_contact (replicate 32 1),
      ap_store = (\<lambda>_. \<lparr>as_transport = new_session, as_contact = bare_contact (replicate 32 2),
        as_peer_id = Some (replicate 32 2), as_worker_started = True, as_trusted = True\<rparr>),
      ap_sessions = [], ap_outbound_ports = [], ap_next_packet_id = 1,
      ap_data_metrics = zero_data_metrics, ap_routing_metrics = zero_routing_metrics\<rparr>"

end
