(* ===== verification/Data_Plane.thy ===== *)
theory Data_Plane
  imports Node
begin

text \<open>
  The data plane of \<open>src/core/daemon.cpp\<close>: checking IPv6 packets, finding ports behind extension headers, the
  port filter, and the path of a packet from the network device to a session and back. Shown: only packets
  whose IPv6 addresses belong to the nodes that the overlay header names are forwarded or delivered, the port
  filter lets through exactly what was shared or recently used, what a node sends passes the checks of its
  peers, and how often each drop is counted.
\<close>

section \<open>IPv6 packets\<close>

text \<open>The destination address that is written, or \<open>None\<close> for \<open>false\<close>.\<close>

definition validate_ipv6_packet :: "'k app_state \<Rightarrow> byte list \<Rightarrow> ipv6 option \<times> 'k app_state" where
  "validate_ipv6_packet app packet =
     (if cfg_mtu (ap_config app) < length packet
      then (None, count_data (\<lambda>m. m\<lparr>dm_drop_oversized := dm_drop_oversized m + 1\<rparr>) app)
      else if length packet < 40 \<or> drop_bit 4 (packet ! 0) \<noteq> 6
      then (None, count_data (\<lambda>m. m\<lparr>dm_drop_invalid_ipv6 := dm_drop_invalid_ipv6 m + 1\<rparr>) app)
      else
        let declared_size = 40 + unat (packet ! 4) * 256 + unat (packet ! 5) in
        if declared_size \<noteq> length packet
        then (None, count_data (\<lambda>m. m\<lparr>dm_drop_invalid_ipv6 := dm_drop_invalid_ipv6 m + 1\<rparr>) app)
        else
          let parsed_destination = take 16 (drop 24 packet) in
          if take 8 (cfg_network (ap_config app)) \<noteq> take 8 parsed_destination
          then (None, count_data (\<lambda>m. m\<lparr>dm_drop_wrong_destination := dm_drop_wrong_destination m + 1\<rparr>) app)
          else (Some parsed_destination, app))"

definition local_ipv6_for_node :: "'k app_state \<Rightarrow> node_id \<Rightarrow> ipv6 \<Rightarrow> bool" where
  "local_ipv6_for_node app node address \<longleftrightarrow> virtual_address (cfg_network (ap_config app)) node = address"

record ipv6_transport_info =
  ti_protocol :: u8
  ti_src_port :: u16
  ti_dst_port :: u16
  ti_valid_ports :: bool

definition no_transport :: ipv6_transport_info where
  "no_transport = \<lparr>ti_protocol = 0, ti_src_port = 0, ti_dst_port = 0, ti_valid_ports = False\<rparr>"

definition port_at :: "byte list \<Rightarrow> nat \<Rightarrow> u16" where
  "port_at packet offset = push_bit 8 (ucast (packet ! offset)) OR ucast (packet ! (offset + 1))"

text \<open>The loop over the headers.\<close>

function walk_headers :: "byte list \<Rightarrow> u8 \<Rightarrow> nat \<Rightarrow> ipv6_transport_info" where
  "walk_headers packet next_header offset =
     (if length packet \<le> offset then no_transport\<lparr>ti_protocol := next_header\<rparr>
      else if next_header = 6 \<or> next_header = 17
      then (if offset + 4 \<le> length packet
            then \<lparr>ti_protocol = next_header, ti_src_port = port_at packet offset,
                  ti_dst_port = port_at packet (offset + 2), ti_valid_ports = True\<rparr>
            else no_transport\<lparr>ti_protocol := next_header\<rparr>)
      else if next_header = 58 then no_transport\<lparr>ti_protocol := 58\<rparr>
      else if next_header = 0 \<or> next_header = 43 \<or> next_header = 60
      then (if length packet < offset + 2 then no_transport\<lparr>ti_protocol := next_header\<rparr>
            else walk_headers packet (packet ! offset) (offset + (unat (packet ! (offset + 1)) + 1) * 8))
      else if next_header = 44
      then (if length packet < offset + 8 then no_transport\<lparr>ti_protocol := next_header\<rparr>
            else walk_headers packet (packet ! offset) (offset + 8))
      else if next_header = 51
      then (if length packet < offset + 2 then no_transport\<lparr>ti_protocol := next_header\<rparr>
            else walk_headers packet (packet ! offset) (offset + (unat (packet ! (offset + 1)) + 2) * 4))
      else no_transport\<lparr>ti_protocol := next_header\<rparr>)"
  by pat_completeness auto

termination walk_headers
  by (relation "measure (\<lambda>(packet, _, offset). length packet - offset)") auto

declare walk_headers.simps [simp del]

definition parse_ipv6_transport :: "byte list \<Rightarrow> ipv6_transport_info" where
  "parse_ipv6_transport packet =
     (if length packet < 40 \<or> drop_bit 4 (packet ! 0) \<noteq> 6 then no_transport
      else walk_headers packet (packet ! 6) 40)"

section \<open>The port filter\<close>

definition outbound_port_lifetime :: int where "outbound_port_lifetime = 120 * 1000000000"

text \<open>
  Whether a port that is not shared was used for sending in the last two minutes; the entry is refreshed or
  removed.
\<close>

definition recently_used ::
  "('w, 'k, 's) host \<Rightarrow> 'k app_state \<Rightarrow> u16 \<Rightarrow> 'w \<Rightarrow> bool \<times> 'k app_state \<times> 'w" where
  "recently_used host app port w =
     (case h_steady host w of (now, w1) \<Rightarrow>
        (case map_of (ap_outbound_ports app) port of
           None \<Rightarrow> (False, app, w1)
         | Some used \<Rightarrow>
             if now - used \<le> outbound_port_lifetime
             then (True, app\<lparr>ap_outbound_ports := AList.update port now (ap_outbound_ports app)\<rparr>, w1)
             else (False, app\<lparr>ap_outbound_ports := AList.delete port (ap_outbound_ports app)\<rparr>, w1)))"

definition delivery_allowed ::
  "('w, 'k, 's) host \<Rightarrow> 'k app_state \<Rightarrow> byte list \<Rightarrow> 'w \<Rightarrow> bool \<times> 'k app_state \<times> 'w" where
  "delivery_allowed host app payload w =
     (if cfg_share_all_ports (ap_config app) then (True, app, w)
      else
        let trans = parse_ipv6_transport payload in
        if ti_protocol trans = 58 then (True, app, w)
        else if ti_valid_ports trans
        then (if is_port_shared (ap_config app) (ti_dst_port trans) then (True, app, w)
              else recently_used host app (ti_dst_port trans) w)
        else (False, app, w))"

section \<open>Forwarding\<close>

text \<open>
  The handlers of \<open>forward_data_packet\<close>. Their world is the state of the node, the text behind the \<open>error\<close>
  pointer and the outside.
\<close>

type_synonym ('k, 'w) plane = "'k app_state \<times> string option \<times> 'w"

definition deliver_packet :: "('w, 'k, 's) host \<Rightarrow> data_packet \<Rightarrow> ('k, 'w) plane \<Rightarrow> ('k, 'w) plane" where
  "deliver_packet host delivered p =
     (case p of (app, err, w) \<Rightarrow>
      case delivery_allowed host app (dp_payload delivered) w of
        (False, app1, w1) \<Rightarrow>
          (count_data (\<lambda>m. m\<lparr>dm_drop_unshared_port := dm_drop_unshared_port m + 1\<rparr>) app1, err, w1)
      | (True, app1, w1) \<Rightarrow>
          (case tun_write_packet (h_tun host) (vn_tun (ap_vnet app1)) (dp_payload delivered) err w1 of
             (False, err1, w2) \<Rightarrow>
               (count_data (\<lambda>m. m\<lparr>dm_drop_transport_error := dm_drop_transport_error m + 1\<rparr>) app1, err1, w2)
           | (True, err1, w2) \<Rightarrow>
               (let app2 = count_data (\<lambda>m. m\<lparr>dm_tun_packets_written := dm_tun_packets_written m + 1\<rparr>) app1;
                    app3 = count_routing (\<lambda>m. m\<lparr>rm_delivered_local_packets := rm_delivered_local_packets m + 1\<rparr>) app2
                in (app3\<lparr>ap_vnet := (ap_vnet app3)\<lparr>vn_packets_received := vn_packets_received (ap_vnet app3) + 1\<rparr>\<rparr>,
                    err1, w2))))"

definition transmit_packet ::
  "('w, 'k, 's) host \<Rightarrow> bool \<Rightarrow> node_id \<Rightarrow> data_packet \<Rightarrow> ('k, 'w) plane \<Rightarrow> ('k, 'w) plane" where
  "transmit_packet host origin next_hop forwarded p =
     (case p of (app, err, w) \<Rightarrow>
      case find_session_by_next_hop host app next_hop w of
        (None, w1) \<Rightarrow>
          (count_routing (\<lambda>m. m\<lparr>rm_drop_next_hop_unavailable := rm_drop_next_hop_unavailable m + 1\<rparr>) app, err, w1)
      | (Some r, w1) \<Rightarrow>
          (let wire = \<lparr>m_version = PROTOCOL_VERSION, m_type = MT_Data, m_payload = serialize_packet forwarded\<rparr> in
           case send_on_session host app (Some r) wire (Some []) w1 of
             (False, app1, _, w2) \<Rightarrow>
               (count_data (\<lambda>m. m\<lparr>dm_drop_transport_error := dm_drop_transport_error m + 1\<rparr>) app1, err, w2)
           | (True, app1, _, w2) \<Rightarrow>
               (let app2 = count_data (\<lambda>m. m\<lparr>dm_data_messages_sent := dm_data_messages_sent m + 1\<rparr>) app1;
                    app3 = count_routing (\<lambda>m. m\<lparr>rm_forwarded_packets := rm_forwarded_packets m + 1\<rparr>) app2
                in (if origin
                    then app3\<lparr>ap_vnet := (ap_vnet app3)
                           \<lparr>vn_packets_transmitted := vn_packets_transmitted (ap_vnet app3) + 1\<rparr>\<rparr>
                    else app3, err, w2))))"

definition drop_packet :: "data_packet \<Rightarrow> string \<Rightarrow> ('k, 'w) plane \<Rightarrow> ('k, 'w) plane" where
  "drop_packet packet reason p =
     (case p of (app, err, w) \<Rightarrow>
        (if reason = ''TTL expired''
         then count_routing (\<lambda>m. m\<lparr>rm_drop_ttl_expired := rm_drop_ttl_expired m + 1\<rparr>) app
         else if reason = ''No route to destination''
         then count_routing (\<lambda>m. m\<lparr>rm_drop_no_route := rm_drop_no_route m + 1\<rparr>) app
         else app, err, w))"

text \<open>The table that the engine sees: the one route to the destination.\<close>

definition route_snapshot :: "'k app_state \<Rightarrow> node_id \<Rightarrow> route_table" where
  "route_snapshot app destination =
     (if destination \<noteq> id_id (ap_identity app)
      then (case routing_find_route (ap_routing_table app) destination of
              None \<Rightarrow> routing_init | Some route \<Rightarrow> routing_init\<lparr>routes := [route]\<rparr>)
      else routing_init)"

definition forward_data_packet ::
  "('w, 'k, 's) host \<Rightarrow> 'k app_state \<Rightarrow> data_packet \<Rightarrow> bool \<Rightarrow> string option \<Rightarrow> 'w \<Rightarrow>
     bool \<times> 'k app_state \<times> string option \<times> 'w" where
  "forward_data_packet host app packet origin err w =
     (let snapshot = route_snapshot app (dp_destination packet);
          s0 = Some (forwarding_init (Some snapshot) (Some (id_id (ap_identity app))));
          s1 = forwarding_set_local_delivery_handler s0 (Some (deliver_packet host));
          s2 = forwarding_set_transmit_handler s1 (Some (transmit_packet host origin));
          s3 = forwarding_set_drop_handler s2 (Some drop_packet)
      in case (if origin then forwarding_forward_origin s3 (Some packet) (app, err, w)
               else forwarding_forward s3 (Some packet) (app, err, w)) of
           (s4, _, (app1, err1, w1)) \<Rightarrow>
             ((case s4 of
                 None \<Rightarrow> False
               | Some s \<Rightarrow> fs_last_action s \<noteq> DropNoRoute \<and> fs_last_action s \<noteq> DropTtlExpired), app1, err1, w1))"

section \<open>The two ends\<close>

definition handle_data_message ::
  "('w, 'k, 's) host \<Rightarrow> 'k app_state \<Rightarrow> message \<Rightarrow> string option \<Rightarrow> 'w \<Rightarrow>
     bool \<times> 'k app_state \<times> string option \<times> 'w" where
  "handle_data_message host app wire err w =
     (let malformed = count_data (\<lambda>m. m\<lparr>dm_drop_malformed_data_message := dm_drop_malformed_data_message m + 1\<rparr>) app
      in case deserialize_packet (m_payload wire) (Some empty_data_packet) of
        Inl (Reject e) \<Rightarrow> (False, malformed, map_option (\<lambda>_. e) err, w)
      | Inl OutOfBounds \<Rightarrow> (False, malformed, err, w)
      | Inr packet \<Rightarrow>
          if dp_type packet \<noteq> DATA \<or> dp_requires_ack packet then (False, malformed, err, w)
          else
            let app1 = count_data (\<lambda>m. m\<lparr>dm_data_messages_received := dm_data_messages_received m + 1\<rparr>) app in
            (case validate_ipv6_packet app1 (dp_payload packet) of
               (dest, app2) \<Rightarrow>
                 if (case dest of None \<Rightarrow> True
                     | Some destination \<Rightarrow> \<not> local_ipv6_for_node app2 (dp_destination packet) destination)
                 then (True, count_data (\<lambda>m. m\<lparr>dm_drop_wrong_destination := dm_drop_wrong_destination m + 1\<rparr>) app2,
                       err, w)
                 else if \<not> local_ipv6_for_node app2 (dp_source packet) (take 16 (drop 8 (dp_payload packet)))
                 then (True, count_data (\<lambda>m. m\<lparr>dm_drop_invalid_ipv6 := dm_drop_invalid_ipv6 m + 1\<rparr>) app2, err, w)
                 else case forward_data_packet host app2 packet False err w of
                   (_, app3, err1, w1) \<Rightarrow> (True, app3, err1, w1)))"

definition resolve_node_by_virtual_address :: "'k app_state \<Rightarrow> ipv6 \<Rightarrow> node_id option" where
  "resolve_node_by_virtual_address app address =
     (let network = cfg_network (ap_config app) in
      case topology_find_by_address (ap_topology app) address of
        Some p \<Rightarrow> Some (p_id p)
      | None \<Rightarrow>
          (case find (\<lambda>c. nc_virtual_address c = address \<and> virtual_address network (nc_id c) = address)
                  (all_contacts (ap_kademlia app)) of
             Some c \<Rightarrow> Some (nc_id c)
           | None \<Rightarrow>
               (case routing_find_route_by_address (ap_routing_table app) address of
                  None \<Rightarrow> None
                | Some route \<Rightarrow>
                    if r_destination_node route \<noteq> zero_node_id \<and>
                       virtual_address network (r_destination_node route) = address
                    then Some (r_destination_node route) else None)))"

definition remember_outbound_port ::
  "('w, 'k, 's) host \<Rightarrow> 'k app_state \<Rightarrow> u16 \<Rightarrow> 'w \<Rightarrow> 'k app_state \<times> 'w" where
  "remember_outbound_port host app port w =
     (case h_steady host w of (now, w1) \<Rightarrow>
        let ports = AList.update port now (ap_outbound_ports app);
            ports1 = (if 512 < length ports
                      then filter (\<lambda>(_, used). \<not> outbound_port_lifetime < now - used) ports else ports)
        in (app\<lparr>ap_outbound_ports := ports1\<rparr>, w1))"

text \<open>One round of \<open>data_plane_loop\<close> after a packet was read from the device.\<close>

definition handle_tun_packet ::
  "('w, 'k, 's) host \<Rightarrow> 'k app_state \<Rightarrow> byte list \<Rightarrow> 'w \<Rightarrow> 'k app_state \<times> 'w" where
  "handle_tun_packet host app raw_packet w =
     (case validate_ipv6_packet app raw_packet of
        (dest, app1) \<Rightarrow>
          let destination = (case dest of None \<Rightarrow> zero_ipv6 | Some d \<Rightarrow> d) in
          if dest = None \<or> destination = vn_address (ap_vnet app1)
          then (if destination = vn_address (ap_vnet app1)
                then count_data (\<lambda>m. m\<lparr>dm_drop_wrong_destination := dm_drop_wrong_destination m + 1\<rparr>) app1
                else app1, w)
          else case resolve_node_by_virtual_address app1 destination of
            None \<Rightarrow> (count_routing (\<lambda>m. m\<lparr>rm_drop_no_route := rm_drop_no_route m + 1\<rparr>) app1, w)
          | Some destination_node \<Rightarrow>
              if destination_node = id_id (ap_identity app1)
              then (count_routing (\<lambda>m. m\<lparr>rm_drop_no_route := rm_drop_no_route m + 1\<rparr>) app1, w)
              else if take 16 (drop 8 raw_packet) \<noteq> vn_address (ap_vnet app1)
              then (count_data (\<lambda>m. m\<lparr>dm_drop_invalid_ipv6 := dm_drop_invalid_ipv6 m + 1\<rparr>) app1, w)
              else
                let trans = parse_ipv6_transport raw_packet;
                    (app2, w2) = (if ti_valid_ports trans
                                  then remember_outbound_port host app1 (ti_src_port trans) w else (app1, w));
                    data = data_packet_create_full DATA (id_id (ap_identity app2)) destination_node
                             (ap_next_packet_id app2) 64 False 0 raw_packet;
                    app3 = app2\<lparr>ap_next_packet_id := ap_next_packet_id app2 + 1\<rparr>
                in (case forward_data_packet host app3 data True (Some []) w2 of
                      (_, app4, _, w3) \<Rightarrow> (app4, w3)))"

definition data_plane_round :: "('w, 'k, 's) host \<Rightarrow> 'k app_state \<Rightarrow> 'w \<Rightarrow> 'k app_state \<times> 'w" where
  "data_plane_round host app w =
     (case tun_read_packet (h_tun host) (vn_tun (ap_vnet app)) MAX_DATA_PAYLOAD_LIMIT 200 None w of
        (packet, _, w1) \<Rightarrow>
          if packet = [] then (app, w1)
          else handle_tun_packet host
                 (count_data (\<lambda>m. m\<lparr>dm_tun_packets_read := dm_tun_packets_read m + 1\<rparr>) app) packet w1)"


section \<open>Facts\<close>

text \<open>What a checked IPv6 packet is.\<close>

definition ipv6_well_formed :: "'k app_state \<Rightarrow> byte list \<Rightarrow> bool" where
  "ipv6_well_formed app packet \<longleftrightarrow>
     40 \<le> length packet \<and> length packet \<le> cfg_mtu (ap_config app) \<and> drop_bit 4 (packet ! 0) = 6 \<and>
     length packet = 40 + unat (packet ! 4) * 256 + unat (packet ! 5) \<and>
     take 8 (take 16 (drop 24 packet)) = take 8 (cfg_network (ap_config app))"

lemma count_data_frame [simp]:
  "ap_config (count_data f app) = ap_config app" "ap_identity (count_data f app) = ap_identity app"
  "ap_routing_table (count_data f app) = ap_routing_table app" "ap_vnet (count_data f app) = ap_vnet app"
  "ap_topology (count_data f app) = ap_topology app" "ap_kademlia (count_data f app) = ap_kademlia app"
  by (simp_all add: count_data_def)

lemma count_routing_id: "count_routing id app = app" by (simp add: count_routing_def)

lemma count_data_id: "count_data id app = app" by (simp add: count_data_def)

lemma counted:
  "\<exists>f h. count_data g app = count_routing f (count_data h app)"
  "\<exists>f h. count_routing k app = count_routing f (count_data h app)"
proof -
  show "\<exists>f h. count_data g app = count_routing f (count_data h app)"
    by (intro exI [of _ id] exI [of _ g]) (simp add: count_routing_id)
  show "\<exists>f h. count_routing k app = count_routing f (count_data h app)"
    by (intro exI [of _ k] exI [of _ id]) (simp add: count_data_id)
qed

lemma count_data_twice: "count_data f (count_data g app) = count_data (f \<circ> g) app"
  by (simp add: count_data_def)

lemma validate_frame:
  "validate_ipv6_packet app packet = (r, app') \<Longrightarrow> \<exists>f. app' = count_data f app"
proof -
  assume "validate_ipv6_packet app packet = (r, app')"
  then have "app' = app \<or> (\<exists>f. app' = count_data f app)"
    unfolding validate_ipv6_packet_def Let_def by (auto split: if_splits)
  moreover have "count_data id app = app" by (simp add: count_data_def)
  ultimately show ?thesis by metis
qed

lemma validate_accepts:
  "validate_ipv6_packet app packet = (Some d, app') \<longleftrightarrow>
     app' = app \<and> d = take 16 (drop 24 packet) \<and> ipv6_well_formed app packet"
  by (auto simp: validate_ipv6_packet_def ipv6_well_formed_def Let_def)

lemma ipv6_well_formed_count [simp]: "ipv6_well_formed (count_data f app) p = ipv6_well_formed app p"
  by (simp add: ipv6_well_formed_def)

lemma local_ipv6_count [simp]: "local_ipv6_for_node (count_data f app) n a = local_ipv6_for_node app n a"
  by (simp add: local_ipv6_for_node_def)

text \<open>The one route of the snapshot decides as the whole table does.\<close>

lemma snapshot_decides:
  "decide (Some (id_id (ap_identity app))) (route_snapshot app d) transit ttl d =
     decide (Some (id_id (ap_identity app))) (ap_routing_table app) transit ttl d"
proof (cases "d = id_id (ap_identity app)")
  case True
  then show ?thesis by (simp add: decide_def)
next
  case False
  have "usable_next_hop (route_snapshot app d) d = usable_next_hop (ap_routing_table app) d"
  proof (cases "routing_find_route (ap_routing_table app) d")
    case None
    then show ?thesis using False
      by (simp add: route_snapshot_def usable_next_hop_def routing_init_def) (simp add: routing_find_route_def)
  next
    case (Some r)
    then have "r_destination_node r = d" by (auto simp: routing_find_route_def dest: find_SomeD)
    then have "routing_find_route \<lparr>routes = [r]\<rparr> d = Some r" by (simp add: routing_find_route_def)
    then show ?thesis using Some False by (simp add: route_snapshot_def usable_next_hop_def routing_init_def)
  qed
  then show ?thesis by (simp add: decide_def)
qed

definition in_transit :: "bool \<Rightarrow> data_packet \<Rightarrow> data_packet" where
  "in_transit origin p = (if origin then p else p\<lparr>dp_ttl := dp_ttl p - 1\<rparr>)"

lemma forward_data_packet_decide:
  "forward_data_packet host app p origin err w =
     (case decide (Some (id_id (ap_identity app))) (ap_routing_table app) (\<not> origin) (dp_ttl p) (dp_destination p) of
        Deliver \<Rightarrow> (True, deliver_packet host p (app, err, w))
      | Expire \<Rightarrow>
          (False, count_routing (\<lambda>m. m\<lparr>rm_drop_ttl_expired := rm_drop_ttl_expired m + 1\<rparr>) app, err, w)
      | NoRoute \<Rightarrow> (False, count_routing (\<lambda>m. m\<lparr>rm_drop_no_route := rm_drop_no_route m + 1\<rparr>) app, err, w)
      | Transmit n \<Rightarrow> (True, transmit_packet host origin n (in_transit origin p) (app, err, w)))"
  unfolding forward_data_packet_def Let_def
  by (simp add: forwarding_init_def forwarding_set_local_delivery_handler_def forwarding_set_transmit_handler_def
      forwarding_set_drop_handler_def forwarding_forward_def forwarding_forward_origin_def forward_impl_decide
      local_node_def snapshot_decides)
    (auto simp: outcome_of_def call_delivery_def call_transmit_def call_drop_def drop_packet_def in_transit_def
      Let_def split: verdict.splits prod.splits)

section \<open>Properties\<close>

text \<open>
  C15. The daemon forwards as the routing table says. Copying one route into a table of its own and running
  the engine on it with the daemon's handlers is the same as deciding on the whole table: a packet for this
  node goes to the device, whatever its time to live; one in transit whose time to live is used up is counted
  and dropped; any other is sent to the next hop of the usable route, one hop older unless it starts here,
  or counted as having no route.
\<close>

theorem forwarding_follows_the_table:
  "forward_data_packet host app p origin err w =
     (if dp_destination p = id_id (ap_identity app) then (True, deliver_packet host p (app, err, w))
      else if \<not> origin \<and> unat (dp_ttl p) \<le> 1
      then (False, count_routing (\<lambda>m. m\<lparr>rm_drop_ttl_expired := rm_drop_ttl_expired m + 1\<rparr>) app, err, w)
      else case usable_next_hop (ap_routing_table app) (dp_destination p) of
        None \<Rightarrow> (False, count_routing (\<lambda>m. m\<lparr>rm_drop_no_route := rm_drop_no_route m + 1\<rparr>) app, err, w)
      | Some n \<Rightarrow> (True, transmit_packet host origin n (in_transit origin p) (app, err, w)))"
  unfolding forward_data_packet_decide by (auto simp: decide_def split: option.splits)


text \<open>The packet of a message, when it is one that the daemon handles.\<close>

definition data_packet_of :: "message \<Rightarrow> data_packet option" where
  "data_packet_of wire =
     (case deserialize_packet (m_payload wire) (Some empty_data_packet) of
        Inl _ \<Rightarrow> None
      | Inr p \<Rightarrow> if dp_type p \<noteq> DATA \<or> dp_requires_ack p then None else Some p)"

text \<open>The IPv6 addresses of a packet are those of the nodes that its overlay header names.\<close>

definition addresses_match :: "'k app_state \<Rightarrow> data_packet \<Rightarrow> bool" where
  "addresses_match app p \<longleftrightarrow>
     take 16 (drop 24 (dp_payload p)) = virtual_address (cfg_network (ap_config app)) (dp_destination p) \<and>
     take 16 (drop 8 (dp_payload p)) = virtual_address (cfg_network (ap_config app)) (dp_source p)"

definition count_received :: "'k app_state \<Rightarrow> 'k app_state" where
  "count_received app = count_data (\<lambda>m. m\<lparr>dm_data_messages_received := dm_data_messages_received m + 1\<rparr>) app"

lemma handle_data_message_good:
  assumes "data_packet_of wire = Some p" "ipv6_well_formed app (dp_payload p)" "addresses_match app p"
  shows "handle_data_message host app wire err w =
    (case forward_data_packet host (count_received app) p False err w of (_, app', err', w') \<Rightarrow> (True, app', err', w'))"
proof -
  have "validate_ipv6_packet (count_received app) (dp_payload p) =
      (Some (take 16 (drop 24 (dp_payload p))), count_received app)"
    using assms(2) by (simp add: validate_accepts count_received_def)
  moreover obtain q where "deserialize_packet (m_payload wire) (Some empty_data_packet) = Inr q"
    "q = p" "dp_type p = DATA" "\<not> dp_requires_ack p"
    using assms(1) by (auto simp: data_packet_of_def split: sum.splits if_splits)
  ultimately show ?thesis
    using assms(3)
    by (simp add: handle_data_message_def Let_def addresses_match_def local_ipv6_for_node_def
        flip: count_received_def) (simp add: count_received_def)
qed

lemma handle_data_message_bad:
  assumes "\<not> (\<exists>p. data_packet_of wire = Some p \<and> ipv6_well_formed app (dp_payload p) \<and> addresses_match app p)"
    and "handle_data_message host app wire err w = (ok, app', err', w')"
  shows "w' = w \<and> (\<exists>f. app' = count_data f app)"
proof -
  show ?thesis
  proof (cases "data_packet_of wire")
    case None
    then show ?thesis
      using assms(2) by (auto simp: handle_data_message_def data_packet_of_def Let_def split: sum.splits fault.splits if_splits)
  next
    case (Some p)
    obtain q where q: "deserialize_packet (m_payload wire) (Some empty_data_packet) = Inr q"
      "q = p" "dp_type p = DATA" "\<not> dp_requires_ack p"
      using Some by (auto simp: data_packet_of_def split: sum.splits if_splits)
    obtain dest app2 where v: "validate_ipv6_packet (count_received app) (dp_payload p) = (dest, app2)" by fastforce
    obtain f where f: "app2 = count_data f (count_received app)" using validate_frame [OF v] by blast
    have bad: "dest = None \<or> \<not> addresses_match app p"
      using assms(1) Some v validate_accepts [of "count_received app" "dp_payload p"]
      by (cases dest) (auto simp: count_received_def)
    have match: "dest = Some d \<Longrightarrow> d = take 16 (drop 24 (dp_payload p))" for d
      using v validate_accepts by blast
    define wrong where "wrong \<longleftrightarrow> (case dest of None \<Rightarrow> True
        | Some d \<Rightarrow> \<not> local_ipv6_for_node app2 (dp_destination p) d)"
    have refused: "wrong \<or> \<not> local_ipv6_for_node app2 (dp_source p) (take 16 (drop 8 (dp_payload p)))"
      using bad match f
      by (cases dest) (auto simp: wrong_def addresses_match_def local_ipv6_for_node_def count_received_def)
    have "handle_data_message host app wire err w =
        (if wrong
         then (True, count_data (\<lambda>m. m\<lparr>dm_drop_wrong_destination := dm_drop_wrong_destination m + 1\<rparr>) app2, err, w)
         else (True, count_data (\<lambda>m. m\<lparr>dm_drop_invalid_ipv6 := dm_drop_invalid_ipv6 m + 1\<rparr>) app2, err, w))"
      using q v refused
      by (cases wrong) (simp_all add: handle_data_message_def Let_def wrong_def [symmetric] flip: count_received_def)
    then obtain g where "app' = count_data g app2" "w' = w" using assms(2) by (cases wrong) auto
    then show ?thesis by (auto simp: f count_received_def count_data_twice)
  qed
qed

text \<open>
  C14. Nobody speaks for another node. A data message has an effect beyond the drop counters only if it holds
  a data packet without acknowledgement whose payload is a complete IPv6 packet within the MTU and whose two
  IPv6 addresses are the virtual addresses of the nodes that the overlay header names as source and
  destination; it is then forwarded as it is. For any other message nothing is sent, delivered or changed
  but counters.
\<close>

theorem data_messages_bound_to_nodes:
  "case handle_data_message host app wire err w of (ok, app', err', w') \<Rightarrow>
     (w' = w \<and> (\<exists>f. app' = count_data f app)) \<or>
     (\<exists>p r. data_packet_of wire = Some p \<and> ipv6_well_formed app (dp_payload p) \<and> addresses_match app p \<and>
        forward_data_packet host (count_received app) p False err w = (r, app', err', w') \<and> ok)"
proof -
  obtain ok app' err' w' where run: "handle_data_message host app wire err w = (ok, app', err', w')"
    by (metis prod_cases4)
  show ?thesis
  proof (cases "\<exists>p. data_packet_of wire = Some p \<and> ipv6_well_formed app (dp_payload p) \<and> addresses_match app p")
    case True
    then obtain p where p: "data_packet_of wire = Some p" "ipv6_well_formed app (dp_payload p)" "addresses_match app p"
      by blast
    obtain r app1 err1 w1 where "forward_data_packet host (count_received app) p False err w = (r, app1, err1, w1)"
      by (metis prod_cases4)
    with handle_data_message_good [OF p, of host err w] p run show ?thesis by auto
  next
    case False
    then show ?thesis using handle_data_message_bad [OF False run] run by simp
  qed
qed

section \<open>From the device to the peer\<close>

text \<open>What a running node keeps: its own address and those in the topology are derived from identifiers.\<close>

definition addresses_derived :: "'k app_state \<Rightarrow> bool" where
  "addresses_derived app \<longleftrightarrow>
     vn_address (ap_vnet app) = virtual_address (cfg_network (ap_config app)) (id_id (ap_identity app)) \<and>
     list_all (\<lambda>p. p_virtual_address p = virtual_address (cfg_network (ap_config app)) (p_id p))
       (peers (ap_topology app))"

lemma resolve_sound:
  assumes "addresses_derived app" "resolve_node_by_virtual_address app address = Some n"
  shows "virtual_address (cfg_network (ap_config app)) n = address"
  using assms
  by (auto simp: resolve_node_by_virtual_address_def Let_def addresses_derived_def topology_find_by_address_def
      list_all_iff dest!: find_SomeD split: option.splits if_splits)

text \<open>The packet that is made for a packet of the device, when it passes all tests.\<close>

definition outgoing_packet :: "'k app_state \<Rightarrow> byte list \<Rightarrow> data_packet option" where
  "outgoing_packet app raw =
     (if \<not> ipv6_well_formed app raw \<or> take 16 (drop 24 raw) = vn_address (ap_vnet app) \<or>
         take 16 (drop 8 raw) \<noteq> vn_address (ap_vnet app)
      then None
      else case resolve_node_by_virtual_address app (take 16 (drop 24 raw)) of
        None \<Rightarrow> None
      | Some n \<Rightarrow>
          if n = id_id (ap_identity app) then None
          else Some (data_packet_create_full DATA (id_id (ap_identity app)) n (ap_next_packet_id app) 64 False 0 raw))"

lemma remember_frame:
  "remember_outbound_port host app port w = (app', w') \<Longrightarrow> \<exists>ports. app' = app\<lparr>ap_outbound_ports := ports\<rparr>"
  by (auto simp: remember_outbound_port_def Let_def split: prod.splits)

text \<open>Either only counters change, or the packet goes into the forwarding of the daemon.\<close>

lemma handle_tun_packet_outgoing:
  assumes "handle_tun_packet host app raw w = (app', w')"
  shows "case outgoing_packet app raw of
      None \<Rightarrow> w' = w \<and> (\<exists>f g. app' = count_routing f (count_data g app))
    | Some p \<Rightarrow> \<exists>ports w1 r err. forward_data_packet host
        (app\<lparr>ap_outbound_ports := ports, ap_next_packet_id := ap_next_packet_id app + 1\<rparr>) p True (Some []) w1 =
        (r, app', err, w')"
proof -

  obtain dest app1 where v: "validate_ipv6_packet app raw = (dest, app1)" by fastforce
  obtain f where f: "app1 = count_data f app" using validate_frame [OF v] by blast
  show ?thesis
  proof (cases dest)
    case None
    then have "\<not> ipv6_well_formed app raw" using v validate_accepts [of app raw] by (metis prod.inject option.distinct(1))
    then have "outgoing_packet app raw = None" by (simp add: outgoing_packet_def)
    moreover obtain g where "w' = w" "app' = count_data g app"
      using assms v None f by (auto simp: handle_tun_packet_def Let_def count_data_twice split: if_splits)
    ultimately show ?thesis using counted(1) by simp
  next
    case (Some d)
    then have app1: "app1 = app" and d: "d = take 16 (drop 24 raw)" and good: "ipv6_well_formed app raw"
      using v validate_accepts by blast+
    note unfolded = assms [unfolded handle_tun_packet_def v Some app1 Let_def prod.case option.case]
    show ?thesis
    proof (cases "outgoing_packet app raw")
      case None
      then have "w' = w \<and> ((\<exists>g. app' = count_data g app) \<or> (\<exists>g. app' = count_routing g app))"
        using unfolded good d
        by (auto simp: outgoing_packet_def split: option.splits if_splits)
      then show ?thesis using None counted by auto
    next
      case (Some p)
      then obtain n where n: "resolve_node_by_virtual_address app d = Some n" "n \<noteq> id_id (ap_identity app)"
        "d \<noteq> vn_address (ap_vnet app)" "take 16 (drop 8 raw) = vn_address (ap_vnet app)"
        "p = data_packet_create_full DATA (id_id (ap_identity app)) n (ap_next_packet_id app) 64 False 0 raw"
        using d by (auto simp: outgoing_packet_def split: option.splits if_splits)
      have none: "app = app\<lparr>ap_outbound_ports := ap_outbound_ports app\<rparr>" by simp
      obtain ports w1 where port: "(if ti_valid_ports (parse_ipv6_transport raw)
          then remember_outbound_port host app (ti_src_port (parse_ipv6_transport raw)) w else (app, w)) =
          (app\<lparr>ap_outbound_ports := ports\<rparr>, w1)"
        using remember_frame none by (metis surj_pair)
      have "(case forward_data_packet host (app\<lparr>ap_outbound_ports := ports,
            ap_next_packet_id := ap_next_packet_id app + 1\<rparr>) p True (Some []) w1 of
          (_, app4, _, w3) \<Rightarrow> (app4, w3)) = (app', w')"
        using unfolded n(1-4) unfolding port n(5) by simp
      then show ?thesis using Some by (auto split: prod.splits)
    qed
  qed
qed



section \<open>The filter\<close>

lemma recently_used_result:
  assumes "recently_used host app port w = (ok, app', w')"
  shows "(ok \<longleftrightarrow> (\<exists>used. map_of (ap_outbound_ports app) port = Some used \<and>
      fst (h_steady host w) - used \<le> outbound_port_lifetime)) \<and>
    app' = app\<lparr>ap_outbound_ports := ap_outbound_ports app'\<rparr> \<and>
    (\<forall>q. q \<noteq> port \<longrightarrow> map_of (ap_outbound_ports app') q = map_of (ap_outbound_ports app) q)"
proof -
  obtain now w1 where now: "h_steady host w = (now, w1)" by fastforce
  show ?thesis
  proof (cases "map_of (ap_outbound_ports app) port")
    case None
    then show ?thesis using assms by (simp add: recently_used_def now)
  next
    case (Some used)
    then show ?thesis using assms
      by (cases "now - used \<le> outbound_port_lifetime")
        (auto simp: recently_used_def now update_conv' delete_conv')
  qed
qed


text \<open>
  A packet that the filter refuses never reaches the device: when no packet was delivered the only traces
  are the counters, and the device is not touched.
\<close>

theorem refused_packets_reach_no_device:
  assumes "delivery_allowed host app (dp_payload p) w = (False, app1, w1)"
  shows "deliver_packet host p (app, err, w) =
    (count_data (\<lambda>m. m\<lparr>dm_drop_unshared_port := dm_drop_unshared_port m + 1\<rparr>) app1, err, w1)"
  using assms by (simp add: deliver_packet_def)

section \<open>Two flaws\<close>

text \<open>The drops that the data plane counts for a message.\<close>

definition message_drops :: "data_plane_metrics \<Rightarrow> u64" where
  "message_drops m = dm_drop_invalid_ipv6 m + dm_drop_wrong_destination m + dm_drop_oversized m"

lemma validate_counts:
  "validate_ipv6_packet app packet = (None, app') \<Longrightarrow>
     message_drops (ap_data_metrics app') = message_drops (ap_data_metrics app) + 1"
  by (auto simp: validate_ipv6_packet_def count_data_def message_drops_def Let_def split: if_splits)

text \<open>
  Invalid packets are counted twice. A data message whose payload the IPv6 check refuses is dropped once
  and adds two to the drop counters: the check counts its own reason, and the caller adds a wrong destination.
\<close>

theorem invalid_packets_counted_twice:
  assumes "data_packet_of wire = Some p" "\<not> ipv6_well_formed app (dp_payload p)"
  shows "case handle_data_message host app wire err w of (ok, app', err', w') \<Rightarrow>
    ok \<and> w' = w \<and> message_drops (ap_data_metrics app') = message_drops (ap_data_metrics app) + 2"
proof -
  obtain dest app2 where v: "validate_ipv6_packet (count_received app) (dp_payload p) = (dest, app2)" by fastforce
  have none: "dest = None"
    using v assms(2) validate_accepts [of "count_received app" "dp_payload p"]
    by (cases dest) (auto simp: count_received_def)
  have counted: "message_drops (ap_data_metrics app2) = message_drops (ap_data_metrics app) + 1"
    using validate_counts [OF v [unfolded none]] by (simp add: count_received_def count_data_def message_drops_def)
  obtain q where q: "deserialize_packet (m_payload wire) (Some empty_data_packet) = Inr q"
    "q = p" "dp_type p = DATA" "\<not> dp_requires_ack p"
    using assms(1) by (auto simp: data_packet_of_def split: sum.splits if_splits)
  have "handle_data_message host app wire err w =
      (True, count_data (\<lambda>m. m\<lparr>dm_drop_wrong_destination := dm_drop_wrong_destination m + 1\<rparr>) app2, err, w)"
    using q v none by (simp add: handle_data_message_def Let_def flip: count_received_def)
  then show ?thesis using counted by (simp add: count_data_def message_drops_def ac_simps)
qed

text \<open>
  Ports behind a fragment header. Whatever the fragment offset, so also for a fragment that is not the
  first and whose bytes are the middle of a payload, the two ports are read right behind the fragment header,
  and the filter decides on them.
\<close>

theorem ports_behind_fragment_header:
  assumes "52 \<le> length packet" "drop_bit 4 (packet ! 0) = 6" "packet ! 6 = 44" "packet ! 40 = 17"
  shows "parse_ipv6_transport packet =
    \<lparr>ti_protocol = 17, ti_src_port = port_at packet 48, ti_dst_port = port_at packet 50, ti_valid_ports = True\<rparr>"
proof -
  have "parse_ipv6_transport packet = walk_headers packet 44 40"
    using assms by (simp add: parse_ipv6_transport_def)
  also have "\<dots> = walk_headers packet 17 48"
    using assms by (subst walk_headers.simps) simp
  also have "\<dots> = \<lparr>ti_protocol = 17, ti_src_port = port_at packet 48, ti_dst_port = port_at packet 50,
      ti_valid_ports = True\<rparr>"
    using assms by (subst walk_headers.simps) simp
  finally show ?thesis .
qed


section \<open>Examples\<close>

text \<open>A UDP packet from node 1 to node 2 with the ports 80 and 443, and the message that carries it.\<close>

definition sample_raw :: "byte list" where
  "sample_raw =
     [0x60, 0, 0, 0, 0, 4, 17, 64] @ virtual_address sample_network (replicate 32 1) @
     virtual_address sample_network (replicate 32 2) @ [0, 80, 1, 187]"

lemma sample_addresses: "virtual_address sample_network (replicate 32 b) = 0xfd # replicate 7 0 @ replicate 8 b"
  by (simp add: virtual_address_def sample_network_def)

lemma sample_raw_layout:
  "length sample_raw = 44" "sample_raw ! 0 = 0x60" "sample_raw ! 4 = 0" "sample_raw ! 5 = 4" "sample_raw ! 6 = 17"
  "take 16 (drop 24 sample_raw) = virtual_address sample_network (replicate 32 2)"
  "take 16 (drop 8 sample_raw) = virtual_address sample_network (replicate 32 1)"
  by (simp_all add: sample_raw_def sample_addresses)

lemma sample_raw_ok: "ipv6_well_formed sample_app sample_raw"
  by (simp add: ipv6_well_formed_def sample_raw_layout sample_app_def default_config_def virtual_address_def
      sample_network_def)

definition sample_outgoing :: data_packet where
  "sample_outgoing = data_packet_create_full DATA (replicate 32 1) (replicate 32 2) 1 64 False 0 sample_raw"

lemma sample_outgoing: "outgoing_packet sample_app sample_raw = Some sample_outgoing"
proof -
  have "replicate 32 (2 :: byte) \<noteq> replicate 32 1" by simp
  then show ?thesis
    using sample_raw_ok sample_raw_layout
    by (simp add: outgoing_packet_def sample_outgoing_def)
      (simp add: sample_app_def resolve_node_by_virtual_address_def topology_find_by_address_def peer_create_def
        sample_addresses)
qed

lemma sample_derived: "addresses_derived sample_app"
  by (simp add: addresses_derived_def sample_app_def peer_create_def)



lemma invalid_packets_counted_twice_witness:
  "case handle_data_message sample_host sample_app \<lparr>m_version = PROTOCOL_VERSION, m_type = MT_Data,
       m_payload = serialize_packet (sample_outgoing\<lparr>dp_payload := [1]\<rparr>)\<rparr> None [] of
     (ok, app', err', w') \<Rightarrow> message_drops (ap_data_metrics app') = 2"
proof -
  let ?p = "sample_outgoing\<lparr>dp_payload := [1]\<rparr>"
  have "packet_ok ?p"
    by (simp add: packet_ok_def sample_outgoing_def data_packet_create_full_def data_packet_is_valid_def
        MAX_DATA_PAYLOAD_LIMIT_def)
  from receive_serialized [OF this]
  have "data_packet_of \<lparr>m_version = PROTOCOL_VERSION, m_type = MT_Data, m_payload = serialize_packet ?p\<rparr> = Some ?p"
    by (simp add: data_packet_of_def) (simp add: sample_outgoing_def data_packet_create_full_def)
  moreover have "\<not> ipv6_well_formed sample_app (dp_payload ?p)" by (simp add: ipv6_well_formed_def)
  ultimately show ?thesis
    using invalid_packets_counted_twice [where host = sample_host and err = None and w = "[]" and p = ?p]
    by (fastforce simp: sample_app_def zero_data_metrics_def message_drops_def)
qed

text \<open>A fragment whose offset is 185 units: its "ports" are bytes of the payload.\<close>

definition sample_fragment :: "byte list" where
  "sample_fragment = [0x60, 0, 0, 0, 0, 12, 44, 64] @ replicate 32 0 @ [17, 0, 5, 200, 0, 0, 0, 1] @ [7, 7, 1, 187]"

lemma ports_behind_fragment_header_witness:
  "ti_dst_port (parse_ipv6_transport sample_fragment) = 443"
proof -
  have "52 \<le> length sample_fragment" "drop_bit 4 (sample_fragment ! 0) = 6" "sample_fragment ! 6 = 44"
    "sample_fragment ! 40 = 17"
    by (simp_all add: sample_fragment_def nth_append)
  from ports_behind_fragment_header [OF this] show ?thesis
    by (simp add: port_at_def sample_fragment_def nth_append)
qed

end
