(* ===== verification/Neighbors.thy ===== *)
theory Neighbors
  imports Data_Plane Route_Wire Session_Access
begin

text \<open>
  The registry of sessions and the neighbours of a node, \<open>src/core/daemon.cpp\<close>: registering and removing
  sessions, activating, touching and deactivating neighbours, rebuilding the routing table from the
  neighbours and their last advertisements, and one round of the routing worker. The hash map of
  advertisements is an association list. Shown: what a rebuilt table contains, that only trusted nodes with
  their own virtual address become neighbours, and that every operation keeps the invariant of the node.
\<close>

section \<open>Contacts\<close>

definition extract_public_key :: "('w, 'k, 's) host \<Rightarrow> 'k identity \<Rightarrow> public_key option" where
  "extract_public_key host ident =
     (case id_key ident of
        None \<Rightarrow> None
      | Some key \<Rightarrow>
          (case key_raw_public (h_lib host) key of
             None \<Rightarrow> None
           | Some public_key \<Rightarrow> if length public_key = 32 then Some public_key else None))"

definition valid_node_contact :: "('w, 'k, 's) host \<Rightarrow> config \<Rightarrow> node_contact \<Rightarrow> bool" where
  "valid_node_contact host config contact \<longleftrightarrow>
     nc_id contact \<noteq> zero_node_id \<and>
     (case h_digest host (nc_public_key contact) of
        None \<Rightarrow> False
      | Some derived \<Rightarrow> length derived = 32 \<and> derived = nc_id contact) \<and>
     nc_virtual_address contact = virtual_address (cfg_network config) (nc_id contact) \<and>
     (case parse_endpoint (h_pton4 host) (h_pton6 host) (nc_endpoint contact) of
        None \<Rightarrow> False
      | Some (address, port) \<Rightarrow> port \<noteq> 0)"

section \<open>The routing table of a node\<close>

text \<open>The routes to the neighbours that are connected and alive.\<close>

definition direct_route :: "u64 \<Rightarrow> peer \<Rightarrow> route" where
  "direct_route timestamp p = route_create (p_virtual_address p) (p_id p) 1 timestamp (p_id p)"

fun add_direct_routes :: "u64 \<Rightarrow> peer list \<Rightarrow> route_table \<Rightarrow> route_table" where
  "add_direct_routes timestamp [] table = table"
| "add_direct_routes timestamp (p # ps) table =
     (if p_state p \<noteq> Connected \<or> \<not> peer_is_alive p timestamp 5000
      then add_direct_routes timestamp ps table
      else add_direct_routes timestamp ps (snd (routing_add_route table (direct_route timestamp p))))"

text \<open>The neighbours whose advertisements count, in ascending order of their identifiers.\<close>

definition advertising_neighbors ::
  "peer list \<Rightarrow> (node_id \<times> stored_route_advertisement) list \<Rightarrow> node_id list" where
  "advertising_neighbors ps advertisements =
     sort (filter
       (\<lambda>neighbor. find (\<lambda>p. p_id p = neighbor \<and> p_state p = Connected) ps \<noteq> None)
       (map fst advertisements))"

fun apply_advertisements ::
  "(node_id \<times> stored_route_advertisement) list \<Rightarrow> u64 \<Rightarrow> node_id list \<Rightarrow> route_table \<Rightarrow> route_table" where
  "apply_advertisements advertisements timestamp [] table = table"
| "apply_advertisements advertisements timestamp (neighbor # rest) table =
     (case map_of advertisements neighbor of
        None \<Rightarrow> apply_advertisements advertisements timestamp rest table
      | Some stored \<Rightarrow>
          apply_advertisements advertisements timestamp rest
            (dv_table (fst (distance_vector_update table neighbor (sa_advertisement stored) timestamp 1 None))))"

text \<open>How many routes are new, and how many changed their next hop or metric.\<close>

fun count_changes :: "route list \<Rightarrow> route list \<Rightarrow> nat \<times> nat \<Rightarrow> nat \<times> nat" where
  "count_changes before [] n = n"
| "count_changes before (r # rs) (installed, updated) =
     count_changes before rs
       (case find (\<lambda>candidate. r_destination_node candidate = r_destination_node r \<and>
                               r_destination candidate = r_destination r) before of
          None \<Rightarrow> (Suc installed, updated)
        | Some old \<Rightarrow>
            if r_next_hop old \<noteq> r_next_hop r \<or> r_metric old \<noteq> r_metric r
            then (installed, Suc updated) else (installed, updated))"

definition rebuild_routing_table :: "('w, 'k, 's) host \<Rightarrow> 'k app_state \<Rightarrow> 'w \<Rightarrow> 'k app_state \<times> 'w" where
  "rebuild_routing_table host app w =
     (let ps = peers (ap_topology app);
          before = routes (ap_routing_table app);
          cleared = routing_clear (ap_routing_table app);
          (timestamp, w1) = steady_now_ms host w;
          direct = add_direct_routes timestamp ps cleared;
          table = apply_advertisements (ap_route_advertisements app) timestamp
            (advertising_neighbors ps (ap_route_advertisements app)) direct;
          (installed, updated) = count_changes before (routes table) (0, 0)
      in (count_routing
            (\<lambda>m. m\<lparr>rm_routes_installed := rm_routes_installed m + of_nat installed,
                  rm_routes_updated := rm_routes_updated m + of_nat updated\<rparr>)
            (app\<lparr>ap_routing_table := table\<rparr>), w1))"

section \<open>Neighbours\<close>

definition activate_neighbor ::
  "('w, 'k, 's) host \<Rightarrow> 'k app_state \<Rightarrow> node_contact \<Rightarrow> 'w \<Rightarrow> bool \<times> 'k app_state \<times> 'w" where
  "activate_neighbor host app contact w =
     (if nc_id contact = zero_node_id \<or> nc_id contact = id_id (ap_identity app) \<or>
         \<not> peer_is_trusted app (nc_id contact) \<or>
         nc_virtual_address contact \<noteq> virtual_address (cfg_network (ap_config app)) (nc_id contact)
      then (False, app, w)
      else case steady_now_ms host w of (timestamp, w1) \<Rightarrow>
        let connected =
          (case topology_find_peer (ap_topology app) (nc_id contact) of
             None \<Rightarrow>
               (case topology_add_peer (Some (ap_topology app))
                       (peer_create (nc_id contact) (nc_virtual_address contact) (nc_endpoint contact)
                          Connected timestamp) of
                  Inl _ \<Rightarrow> None
                | Inr topo \<Rightarrow> Some (topo, True))
           | Some p \<Rightarrow>
               Some (modify_peer (ap_topology app) (nc_id contact)
                       (\<lambda>p. p\<lparr>p_virtual_address := nc_virtual_address contact,
                             p_endpoint := nc_endpoint contact, p_state := Connected,
                             p_last_seen := timestamp\<rparr>),
                     p_state p \<noteq> Connected))
        in case connected of
             None \<Rightarrow> (False, app, w1)
           | Some (topo, became_connected) \<Rightarrow>
               let app1 = app\<lparr>ap_topology := topo\<rparr>;
                   app2 = (if became_connected
                           then count_routing (\<lambda>m. m\<lparr>rm_neighbor_up := rm_neighbor_up m + 1\<rparr>) app1
                           else app1);
                   (app3, w2) = rebuild_routing_table host app2 w1
               in (True, mark_routing_dirty app3, w2))"

definition deactivate_neighbor ::
  "('w, 'k, 's) host \<Rightarrow> 'k app_state \<Rightarrow> node_id \<Rightarrow> 'w \<Rightarrow> 'k app_state \<times> 'w" where
  "deactivate_neighbor host app peer_id w =
     (if list_ex (\<lambda>r. as_peer_id (ap_store app r) = Some peer_id) (ap_sessions app) then (app, w)
      else
        let found = topology_find_peer (ap_topology app) peer_id;
            was_connected = (case found of None \<Rightarrow> False | Some p \<Rightarrow> p_state p = Connected);
            app1 = (case found of
                      None \<Rightarrow> app
                    | Some _ \<Rightarrow> app\<lparr>ap_topology := modify_peer (ap_topology app) peer_id
                        (\<lambda>p. p\<lparr>p_state := Disconnected\<rparr>)\<rparr>);
            app2 = app1\<lparr>ap_route_advertisements := AList.delete peer_id (ap_route_advertisements app1)\<rparr>;
            app3 = (if was_connected
                    then count_routing (\<lambda>m. m\<lparr>rm_neighbor_down := rm_neighbor_down m + 1\<rparr>) app2
                    else app2);
            (app4, w1) = rebuild_routing_table host app3 w
        in (mark_routing_dirty app4, w1))"

definition touch_neighbor ::
  "('w, 'k, 's) host \<Rightarrow> 'k app_state \<Rightarrow> node_id \<Rightarrow> 'w \<Rightarrow> 'k app_state \<times> 'w" where
  "touch_neighbor host app peer_id w =
     (case topology_find_peer (ap_topology app) peer_id of
        None \<Rightarrow> (app, w)
      | Some p \<Rightarrow>
          let became_connected = (p_state p \<noteq> Connected);
              (now, w1) = steady_now_ms host w;
              app1 = app\<lparr>ap_topology := modify_peer (ap_topology app) peer_id
                (\<lambda>p. p\<lparr>p_state := Connected, p_last_seen := now\<rparr>)\<rparr>
          in if became_connected
             then (case rebuild_routing_table host
                          (count_routing (\<lambda>m. m\<lparr>rm_neighbor_up := rm_neighbor_up m + 1\<rparr>) app1) w1 of
                     (app2, w2) \<Rightarrow> (mark_routing_dirty app2, w2))
             else (app1, w1))"

section \<open>The registry of sessions\<close>

definition find_idle_session :: "'k app_state \<Rightarrow> node_id \<Rightarrow> session_ref option" where
  "find_idle_session app peer_id =
     find (\<lambda>r. as_peer_id (ap_store app r) = Some peer_id \<and> \<not> as_worker_started (ap_store app r))
       (ap_sessions app)"

definition remove_session ::
  "('w, 'k, 's) host \<Rightarrow> 'k app_state \<Rightarrow> session_ref \<Rightarrow> 'w \<Rightarrow> 'k app_state \<times> 'w" where
  "remove_session host app session w =
     (if session \<in> set (ap_sessions app)
      then let app1 = app\<lparr>ap_sessions := remove_first (\<lambda>r. r = session) (ap_sessions app)\<rparr>
           in (case as_peer_id (ap_store app session) of
                 None \<Rightarrow> (app1, w)
               | Some peer_id \<Rightarrow> deactivate_neighbor host app1 peer_id w)
      else (app, w))"

definition register_session :: "'k app_state \<Rightarrow> session_ref option \<Rightarrow> bool \<times> 'k app_state" where
  "register_session app session =
     (case session of
        None \<Rightarrow> (False, app)
      | Some r \<Rightarrow>
          (case as_peer_id (ap_store app r) of
             None \<Rightarrow> (False, app)
           | Some peer_id \<Rightarrow>
               if MAX_PEER_SESSIONS \<le> length (ap_sessions app) then (False, app)
               else if find (\<lambda>existing. as_peer_id (ap_store app existing) = Some peer_id \<and>
                                       session_is_open app (Some existing)) (ap_sessions app) \<noteq> None
               then (False, app)
               else (True, app\<lparr>ap_sessions := ap_sessions app @ [r]\<rparr>)))"

definition bind_session ::
  "('w, 'k, 's) host \<Rightarrow> 'k app_state \<Rightarrow> session_ref \<Rightarrow> node_contact \<Rightarrow> 'w \<Rightarrow> bool \<times> 'k app_state \<times> 'w" where
  "bind_session host app session contact w =
     (let s = ap_store app session in
      if ss_is_tls (as_transport s) \<and> ss_peer_node_id (as_transport s) \<noteq> Some (nc_id contact)
      then (False, app, w)
      else if list_ex (\<lambda>other. other \<noteq> session \<and> as_peer_id (ap_store app other) = Some (nc_id contact))
                (ap_sessions app)
      then (False, app, w)
      else activate_neighbor host (set_session app session (s\<lparr>as_contact := contact\<rparr>)) contact w)"

definition active_sessions :: "('w, 'k, 's) host \<Rightarrow> 'k app_state \<Rightarrow> 'w \<Rightarrow> session_ref list \<times> 'w" where
  "active_sessions host app w =
     (case steady_now_ms host w of (now, w1) \<Rightarrow>
        (filter (\<lambda>r.
           \<not> (case as_peer_id (ap_store app r) of
               None \<Rightarrow> True
             | Some peer_id \<Rightarrow>
                 if \<not> session_is_open app (Some r) then True
                 else case topology_find_peer (ap_topology app) peer_id of
                        None \<Rightarrow> True
                      | Some p \<Rightarrow> \<not> peer_is_alive p now 5000)) (ap_sessions app), w1))"

text \<open>Only the first of two calls starts a worker; the worker itself is \<open>session_round\<close> in the theory \<open>Control\<close>.\<close>

definition start_session_worker :: "'k app_state \<Rightarrow> session_ref \<Rightarrow> 'k app_state" where
  "start_session_worker app session =
     (let s = ap_store app session in
      if as_worker_started s then app else set_session app session (s\<lparr>as_worker_started := True\<rparr>))"

text \<open>
  One round of the accept worker. \<open>r\<close> is the address of the new session; \<open>new_peer_session\<close> is what
  \<open>std::make_shared<AppPeerSession>()\<close> holds. A session that comes in while the node stops is closed like one without
  an identity.
\<close>

definition new_peer_session :: app_peer_session where
  "new_peer_session =
     \<lparr>as_transport = new_session, as_contact = empty_contact, as_peer_id = None, as_worker_started = False,
      as_trusted = False\<rparr>"

definition accept_round ::
  "('w, 'k, 's) host \<Rightarrow> 'k transport_server \<Rightarrow> session_ref \<Rightarrow> 'k app_state \<Rightarrow> 'w \<Rightarrow> 'k app_state \<times> 'w" where
  "accept_round host server r app w =
     (case transport_accept (h_os host) (h_lib host) server new_session (Some 200) (Some []) w of
        (False, t, err, w1) \<Rightarrow> (app, w1)
      | (True, t, err, w1) \<Rightarrow>
          (case (if h_running host w1 then ss_peer_node_id t else None) of
             None \<Rightarrow> close_session host (set_session app r (new_peer_session\<lparr>as_transport := t\<rparr>)) (Some r) w1
           | Some peer_id \<Rightarrow>
               (case now_ms host w1 of (now, w2) \<Rightarrow>
                  let contact = \<lparr>nc_id = peer_id, nc_public_key = ts_peer_pubkey (ss_tls t),
                        nc_virtual_address = virtual_address (cfg_network (ap_config app)) peer_id,
                        nc_endpoint = ss_remote_endpoint t, nc_last_seen_ms = now, nc_rtt_ms = 0,
                        nc_failed_pings = 0\<rparr>;
                      app1 = set_session app r (new_peer_session\<lparr>as_transport := t, as_peer_id := Some peer_id,
                        as_contact := contact\<rparr>)
                  in case register_session app1 (Some r) of
                       (False, app2) \<Rightarrow> close_session host app2 (Some r) w2
                     | (True, app2) \<Rightarrow> (start_session_worker app2 r, w2))))"

section \<open>The routing worker\<close>

record routing_timers =
  rt_next_advertisement :: int
  rt_next_hello :: int

definition routing_interval :: int where "routing_interval = 2 * 1000000000"

definition advertisement_expired :: "u64 \<Rightarrow> stored_route_advertisement \<Rightarrow> bool" where
  "advertisement_expired now stored \<longleftrightarrow>
     sa_received_at_ms stored < now \<and> ROUTE_ADVERTISEMENT_TIMEOUT_MS \<le> now - sa_received_at_ms stored"

text \<open>The first half of a round: silent neighbours and old advertisements go, and the table follows.\<close>

definition routing_maintenance ::
  "('w, 'k, 's) host \<Rightarrow> u64 \<Rightarrow> 'k app_state \<Rightarrow> 'w \<Rightarrow> bool \<times> 'k app_state \<times> 'w" where
  "routing_maintenance host now app w =
     (case topology_prune_stale (Some (ap_topology app)) now 5000 of (topo, pruned) \<Rightarrow>
      let app1 = count_routing (\<lambda>m. m\<lparr>rm_neighbor_down := rm_neighbor_down m + of_nat pruned\<rparr>)
            (app\<lparr>ap_topology := (case topo of None \<Rightarrow> ap_topology app | Some t \<Rightarrow> t)\<rparr>);
          kept = filter (\<lambda>(neighbor, stored). \<not> advertisement_expired now stored) (ap_route_advertisements app1);
          expired = length (ap_route_advertisements app1) - length kept;
          app2 = count_routing (\<lambda>m. m\<lparr>rm_routes_expired := rm_routes_expired m + of_nat expired\<rparr>)
            (app1\<lparr>ap_route_advertisements := kept\<rparr>)
      in if pruned \<noteq> 0 \<or> expired \<noteq> 0
         then (case rebuild_routing_table host app2 w of (app3, w1) \<Rightarrow> (True, app3, w1))
         else (False, app2, w))"

definition send_hello ::
  "('w, 'k, 's) host \<Rightarrow> u64 \<Rightarrow> session_ref \<Rightarrow> 'k app_state \<times> string option \<times> 'w \<Rightarrow>
     'k app_state \<times> string option \<times> 'w" where
  "send_hello host now r = (\<lambda>(app, err, w).
     let sequence = ap_next_control_sequence app;
         local_id = id_id (ap_identity app);
         app1 = app\<lparr>ap_next_control_sequence := sequence + 1\<rparr>
     in case send_control host app1 (Some r) CT_HELLO sequence local_id
               (serialize_hello_message (heartbeat_create_hello local_id now)) err w of
          (_, app2, err2, w2) \<Rightarrow> (app2, err2, w2))"

definition send_advertisement ::
  "('w, 'k, 's) host \<Rightarrow> session_ref \<Rightarrow> 'k app_state \<times> string option \<times> 'w \<Rightarrow>
     'k app_state \<times> string option \<times> 'w" where
  "send_advertisement host r = (\<lambda>(app, err, w).
     let local_id = id_id (ap_identity app);
         advertisement = route_create_advertisement local_id (ap_routing_table app) (ap_next_route_sequence app)
           (as_peer_id (ap_store app r)) PoisonReverse (id_generation (ap_identity app));
         sequence = ap_next_control_sequence app;
         app1 = app\<lparr>ap_next_route_sequence := ap_next_route_sequence app + 1,
                    ap_next_control_sequence := sequence + 1\<rparr>
     in case send_control host app1 (Some r) CT_ROUTE_ADVERTISEMENT sequence local_id
               (serialize_route_advertisement advertisement) err w of
          (sent, app2, err2, w2) \<Rightarrow>
            (if sent
             then count_routing (\<lambda>m. m\<lparr>rm_route_advertisements_sent := rm_route_advertisements_sent m + 1\<rparr>) app2
             else app2, err2, w2))"

fun send_to_sessions ::
  "('w, 'k, 's) host \<Rightarrow> u64 \<Rightarrow> bool \<Rightarrow> bool \<Rightarrow> session_ref list \<Rightarrow> 'k app_state \<Rightarrow> 'w \<Rightarrow> 'k app_state \<times> 'w" where
  "send_to_sessions host now hello advertisement [] app w = (app, w)"
| "send_to_sessions host now hello advertisement (r # rs) app w =
     (let s0 = (app, Some [], w);
          s1 = (if hello then send_hello host now r s0 else s0);
          (app2, err2, w2) = (if advertisement then send_advertisement host r s1 else s1)
      in send_to_sessions host now hello advertisement rs app2 w2)"

definition routing_round ::
  "('w, 'k, 's) host \<Rightarrow> routing_timers \<Rightarrow> 'k app_state \<Rightarrow> 'w \<Rightarrow> routing_timers \<times> 'k app_state \<times> 'w" where
  "routing_round host timers app w =
     (let dirty0 = ap_routing_dirty app;
          app0 = app\<lparr>ap_routing_dirty := False\<rparr>;
          (now, w1) = steady_now_ms host w;
          (changed, app1, w2) = routing_maintenance host now app0 w1;
          dirty = (dirty0 \<or> changed);
          (now_clock, w3) = h_steady host w2;
          hello = (rt_next_hello timers \<le> now_clock);
          advertisement = (dirty \<or> rt_next_advertisement timers \<le> now_clock)
      in if \<not> hello \<and> \<not> advertisement then (timers, app1, w3)
         else
           let (sessions, w4) = active_sessions host app1 w3;
               (app2, w5) = send_to_sessions host now hello advertisement sessions app1 w4;
               (t1, w6) = (if hello then (case h_steady host w5 of (t, w') \<Rightarrow>
                             (timers\<lparr>rt_next_hello := t + routing_interval\<rparr>, w')) else (timers, w5));
               (t2, w7) = (if advertisement then (case h_steady host w6 of (t, w') \<Rightarrow>
                             (t1\<lparr>rt_next_advertisement := t + routing_interval\<rparr>, w')) else (t1, w6))
           in (t2, app2, w7))"

section \<open>What a rebuilt table contains\<close>

text \<open>
  A route that a node may hold: through one of the given next hops, to the address that belongs to its
  destination, at most at infinity.
\<close>

definition route_fits :: "ipv6 \<Rightarrow> node_id set \<Rightarrow> route \<Rightarrow> bool" where
  "route_fits network hops r \<longleftrightarrow>
     r_next_hop r \<in> hops \<and> r_destination_node r \<noteq> zero_node_id \<and>
     r_destination r = virtual_address network (r_destination_node r) \<and> r_metric r \<le> ROUTE_METRIC_INFINITY"

definition connected_ids :: "peer list \<Rightarrow> node_id set" where
  "connected_ids ps = {p_id p | p. p \<in> set ps \<and> p_state p = Connected}"

lemma validated_routes:
  "validate_advertised network rs = Inr () \<Longrightarrow> r \<in> set rs \<Longrightarrow>
     r_destination_node r \<noteq> zero_node_id \<and> r_destination r = virtual_address network (r_destination_node r) \<and>
     r_metric r \<le> ROUTE_METRIC_INFINITY"
  by (induction rs) (auto split: if_splits)

lemma apply_one_cases:
  fixes rs :: "route list" and a :: route and nb :: node_id and c :: u32 and now :: u64 and ch :: bool
  defines "hit \<equiv> \<lambda>r. same_destination r a"
    and "candidate \<equiv> route_create (r_destination a) nb (candidate_metric c (r_metric a)) now (r_destination_node a)"
  shows "fst (apply_one nb now c (rs, ch) a) = rs \<or> fst (apply_one nb now c (rs, ch) a) = rs @ [candidate] \<or>
    fst (apply_one nb now c (rs, ch) a) = update_first hit (\<lambda>_. candidate) rs \<or>
    fst (apply_one nb now c (rs, ch) a) =
      update_first hit (\<lambda>e. e\<lparr>r_metric := ROUTE_METRIC_INFINITY, r_last_update := now\<rparr>) rs \<or>
    fst (apply_one nb now c (rs, ch) a) = update_first hit (\<lambda>e. e\<lparr>r_last_update := now\<rparr>) rs"
proof (cases "r_destination_node a = nb")
  case True
  then show ?thesis by (simp add: apply_one_def)
next
  case False
  show ?thesis
  proof (cases "ROUTE_METRIC_INFINITY \<le> candidate_metric c (r_metric a)")
    case True
    then show ?thesis
      using False by (simp add: apply_one_def Let_def hit_def split: option.split)
  next
    case low: False
    show ?thesis
    proof (cases "find hit rs")
      case None
      then show ?thesis
        using False low by (simp add: apply_one_def Let_def flip: hit_def candidate_def)
    next
      case (Some e)
      then show ?thesis
        using False low by (simp add: apply_one_def Let_def flip: hit_def candidate_def)
    qed
  qed
qed

lemma apply_one_fits:
  assumes "\<forall>r\<in>set rs. route_fits network hops r" "nb \<in> hops"
    and a: "r_destination_node a \<noteq> zero_node_id" "r_destination a = virtual_address network (r_destination_node a)"
  shows "\<forall>r\<in>set (fst (apply_one nb now c (rs, ch) a)). route_fits network hops r"
proof -
  have candidate: "route_fits network hops
      (route_create (r_destination a) nb (candidate_metric c (r_metric a)) now (r_destination_node a))"
    using assms(2) a candidate_metric_le [of c "r_metric a"]
    unfolding route_fits_def route_create_def by simp
  have update: "\<forall>r\<in>set (update_first P f rs). route_fits network hops r"
    if "\<And>r. route_fits network hops r \<Longrightarrow> route_fits network hops (f r)" for P f
    by (rule update_first_all [OF assms(1)]) (rule that)
  have poisoned: "route_fits network hops r \<Longrightarrow>
      route_fits network hops (r\<lparr>r_metric := ROUTE_METRIC_INFINITY, r_last_update := now\<rparr>)" for r
    by (simp add: route_fits_def)
  have refreshed: "route_fits network hops r \<Longrightarrow> route_fits network hops (r\<lparr>r_last_update := now\<rparr>)" for r
    by (simp add: route_fits_def)
  have appended: "\<forall>r\<in>set (rs @ [x]). route_fits network hops r" if "route_fits network hops x" for x
    using assms(1) that by simp
  note fits = assms(1) appended [OF candidate] update [OF poisoned] update [OF refreshed] update [OF candidate]
  have "list_all (route_fits network hops) (fst (apply_one nb now c (rs, ch) a))"
    using apply_one_cases [of nb now c rs ch a]
    by (elim disjE) (simp_all only: fits [folded list_all_iff])
  then show ?thesis by (simp only: list_all_iff)
qed

lemma apply_routes_fits:
  assumes "\<forall>r\<in>set (routes t). route_fits network hops r" "nb \<in> hops"
    and valid: "validate_advertised network (ra_routes adv) = Inr ()"
  shows "\<forall>r\<in>set (routes (snd (apply_routes t nb adv now c))). route_fits network hops r"
proof -
  have loop: "\<forall>r\<in>set (fst (foldl (apply_one nb now c) (rs, ch) advertised)). route_fits network hops r"
    if "\<forall>r\<in>set rs. route_fits network hops r" "set advertised \<subseteq> set (ra_routes adv)" for rs ch advertised
    using that
  proof (induction advertised arbitrary: rs ch)
    case (Cons a advertised)
    obtain rs1 ch1 where one: "apply_one nb now c (rs, ch) a = (rs1, ch1)" by fastforce
    have "\<forall>r\<in>set rs1. route_fits network hops r"
      using apply_one_fits [OF Cons.prems(1) assms(2), of a now c ch] validated_routes [OF valid, of a]
        Cons.prems(2) one by simp
    then show ?case using Cons one by simp
  qed simp
  have kept: "\<forall>r\<in>set (filter (\<lambda>r. \<not> withdrawn nb (ra_routes adv) r) (routes t)). route_fits network hops r"
    using assms(1) by simp
  show ?thesis using loop [OF kept subset_refl] by (simp add: apply_routes_def Let_def case_prod_beta)
qed

lemma dv_table_no_origins:
  "dv_table (fst (distance_vector_update t nb adv now c None)) =
     (if ra_sender adv \<noteq> nb then t else snd (apply_routes t nb adv now c))"
  by (simp add: distance_vector_update_def Let_def case_prod_beta)

lemma add_direct_routes_fold:
  "add_direct_routes now ps t =
     add_routes (map (direct_route now) (filter (\<lambda>p. peer_is_alive p now 5000) ps)) t"
  by (induction ps arbitrary: t) (auto simp: add_routes_def peer_is_alive_def)

lemma add_routes_append:
  assumes "table_inv t" "distinct (map r_destination_node (routes t @ rs))"
    "length (routes t @ rs) \<le> MAX_ROUTE_TABLE_ENTRIES" "\<forall>r\<in>set rs. r_destination_node r \<noteq> zero_node_id"
  shows "routes (add_routes rs t) = routes t @ rs \<and> table_inv (add_routes rs t)"
  using assms
proof (induction rs arbitrary: t)
  case Nil
  then show ?case by (simp add: add_routes_def)
next
  case (Cons r rs)
  let ?t = "snd (routing_add_route t r)"
  have "routing_find_route t (r_destination_node r) = None"
    using Cons.prems(2) by (auto simp: routing_find_route_def find_None_iff_all rev_image_eqI)
  then have "routes ?t = routes t @ [r]"
    using Cons.prems routing_add_route_inv [OF Cons.prems(1), of r] by simp
  moreover from this have "table_inv ?t" using Cons.prems table_inv_add [OF Cons.prems(1), of r] by simp
  ultimately show ?case using Cons.IH [of ?t] Cons.prems by (simp add: add_routes_def)
qed

lemma direct_routes:
  assumes "keyed 16 p_id ps" "\<forall>p\<in>set ps. p_id p \<noteq> zero_node_id"
  shows "routes (add_direct_routes now ps (routing_clear t)) =
      map (direct_route now) (filter (\<lambda>p. peer_is_alive p now 5000) ps)"
    and "table_inv (add_direct_routes now ps (routing_clear t))"
proof -
  let ?alive = "filter (\<lambda>p. peer_is_alive p now 5000) ps"
  have node: "r_destination_node (direct_route now p) = p_id p" for p
    by (simp add: direct_route_def route_create_def)
  have "keyed 16 p_id ?alive" using assms(1) by (rule keyed_filter)
  moreover have "table_inv (routing_clear t)" by (simp add: table_inv_def routing_clear_def)
  ultimately have "routes (add_routes (map (direct_route now) ?alive) (routing_clear t)) =
      routes (routing_clear t) @ map (direct_route now) ?alive \<and>
    table_inv (add_routes (map (direct_route now) ?alive) (routing_clear t))"
    using assms(2)
    by (intro add_routes_append)
      (auto simp: routing_clear_def keyed_def comp_def node MAX_ROUTE_TABLE_ENTRIES_def)
  then show "routes (add_direct_routes now ps (routing_clear t)) = map (direct_route now) ?alive"
    and "table_inv (add_direct_routes now ps (routing_clear t))"
    by (simp_all add: add_direct_routes_fold routing_clear_def)
qed

text \<open>The stored advertisements: one for each sender, and each one valid.\<close>

definition advertisement_ok :: "ipv6 \<Rightarrow> node_id \<times> stored_route_advertisement \<Rightarrow> bool" where
  "advertisement_ok network entry \<longleftrightarrow>
     ra_sender (sa_advertisement (snd entry)) = fst entry \<and>
     validate_route_advertisement (sa_advertisement (snd entry)) network = Inr ()"

definition advertisements_ok :: "ipv6 \<Rightarrow> (node_id \<times> stored_route_advertisement) list \<Rightarrow> bool" where
  "advertisements_ok network ads \<longleftrightarrow> distinct (map fst ads) \<and> list_all (advertisement_ok network) ads"

lemma stored_valid:
  assumes "advertisements_ok network ads" "map_of ads n = Some stored"
  shows "ra_sender (sa_advertisement stored) = n"
    and "validate_advertised network (ra_routes (sa_advertisement stored)) = Inr ()"
    and "\<forall>a\<in>set (ra_routes (sa_advertisement stored)). r_destination_node a \<noteq> zero_node_id"
proof -
  have ok: "advertisement_ok network (n, stored)"
    using assms map_of_SomeD by (fastforce simp: advertisements_ok_def list_all_iff)
  then show "ra_sender (sa_advertisement stored) = n" by (simp add: advertisement_ok_def)
  show valid: "validate_advertised network (ra_routes (sa_advertisement stored)) = Inr ()"
    using ok by (auto simp: advertisement_ok_def validate_route_advertisement_def split: if_splits)
  show "\<forall>a\<in>set (ra_routes (sa_advertisement stored)). r_destination_node a \<noteq> zero_node_id"
    using validated_routes [OF valid] by blast
qed

lemma apply_advertisements_fits:
  assumes "advertisements_ok network ads" "table_inv t" "\<forall>r\<in>set (routes t). route_fits network hops r"
    "set ns \<subseteq> hops"
  shows "table_inv (apply_advertisements ads now ns t) \<and>
    (\<forall>r\<in>set (routes (apply_advertisements ads now ns t)). route_fits network hops r)"
  using assms(2-)
proof (induction ns arbitrary: t)
  case (Cons n ns)
  show ?case
  proof (cases "map_of ads n")
    case None
    then show ?thesis using Cons by simp
  next
    case (Some stored)
    note valid = stored_valid [OF assms(1) Some]
    let ?t = "snd (apply_routes t n (sa_advertisement stored) now 1)"
    have inv: "table_inv ?t" using apply_routes_view [OF Cons.prems(1) valid(3) refl] by blast
    have fits: "\<forall>r\<in>set (routes ?t). route_fits network hops r"
      using Cons.prems(3) by (intro apply_routes_fits [OF Cons.prems(2) _ valid(2)]) simp
    have step: "apply_advertisements ads now (n # ns) t = apply_advertisements ads now ns ?t"
      using Some valid(1) by (simp add: dv_table_no_origins)
    show ?thesis unfolding step using Cons.prems(3) by (intro Cons.IH inv fits) simp
  qed
qed simp

text \<open>A direct route stays as long as no advertised metric is zero.\<close>

definition positive_metrics :: "(node_id \<times> stored_route_advertisement) list \<Rightarrow> bool" where
  "positive_metrics ads \<longleftrightarrow>
     list_all (\<lambda>(n, stored). list_all (\<lambda>a. 0 < r_metric a) (ra_routes (sa_advertisement stored))) ads"

lemma relax_all_direct:
  assumes "\<forall>a\<in>set adv. 0 < r_metric a" "d \<noteq> nb"
  shows "relax_all nb 1 adv d (Some (d, 1)) = Some (d, 1)"
  using assms(1)
proof (induction adv)
  case Nil
  then show ?case by (simp add: relax_all_def)
next
  case (Cons a adv)
  have "0 < unat (r_metric a)" using Cons.prems by (simp add: unat_gt_0 word_gt_0)
  then have "unat (candidate_metric 1 (r_metric a)) > unat (1 :: u32)"
    by (simp add: candidate_metric_unat)
  then have "\<not> candidate_metric 1 (r_metric a) \<le> 1" by (simp only: word_le_nat_alt not_le)
  then have "relax nb (candidate_metric 1 (r_metric a)) (Some (d, 1)) = Some (d, 1)"
    using assms(2) by (auto simp: relax_def)
  moreover have "relax_all nb 1 adv d (Some (d, 1)) = Some (d, 1)" using Cons by simp
  ultimately show ?case using assms(2) by (simp add: relax_all_def)
qed

lemma apply_routes_direct:
  assumes "table_inv t" "\<forall>a\<in>set (ra_routes adv). r_destination_node a \<noteq> zero_node_id"
    and "\<forall>a\<in>set (ra_routes adv). 0 < r_metric a" "view (routes t) d = Some (d, 1)"
  shows "view (routes (snd (apply_routes t nb adv now 1))) d = Some (d, 1)"
proof (cases "d = nb")
  case True
  then show ?thesis using apply_routes_view [OF assms(1,2) refl, of nb now 1 d] assms(4) by simp
next
  case False
  then have kept: "(if d \<noteq> nb \<and> find (for_node d) (ra_routes adv) = None
      then withdraw nb (view (routes t) d) else view (routes t) d) = Some (d, 1)"
    using assms(4) by (simp add: withdraw_def)
  show ?thesis
    using apply_routes_view [OF assms(1,2) refl, of nb now 1 d] relax_all_direct [OF assms(3) False]
    unfolding kept by simp
qed

lemma apply_advertisements_direct:
  assumes "advertisements_ok network ads" "positive_metrics ads" "table_inv t" "view (routes t) d = Some (d, 1)"
  shows "view (routes (apply_advertisements ads now ns t)) d = Some (d, 1)"
  using assms(3-)
proof (induction ns arbitrary: t)
  case (Cons n ns)
  show ?case
  proof (cases "map_of ads n")
    case None
    then show ?thesis using Cons by simp
  next
    case (Some stored)
    note valid = stored_valid [OF assms(1) Some]
    have "\<forall>a\<in>set (ra_routes (sa_advertisement stored)). 0 < r_metric a"
      using assms(2) map_of_SomeD [OF Some] by (force simp: positive_metrics_def list_all_iff)
    from apply_routes_direct [OF Cons.prems(1) valid(3) this Cons.prems(2)]
      apply_routes_view [OF Cons.prems(1) valid(3) refl]
    show ?thesis using Cons Some valid(1) by (simp add: dv_table_no_origins)
  qed
qed simp

section \<open>The rebuilt table\<close>

definition rebuilt_table ::
  "peer list \<Rightarrow> (node_id \<times> stored_route_advertisement) list \<Rightarrow> u64 \<Rightarrow> route_table \<Rightarrow> route_table" where
  "rebuilt_table ps ads now table =
     apply_advertisements ads now (advertising_neighbors ps ads) (add_direct_routes now ps (routing_clear table))"

lemma rebuild_result:
  assumes "rebuild_routing_table host app w = (app', w')"
  shows "\<exists>f. app' = count_routing f (app\<lparr>ap_routing_table :=
    rebuilt_table (peers (ap_topology app)) (ap_route_advertisements app) (fst (steady_now_ms host w))
      (ap_routing_table app)\<rparr>)"
  using assms by (auto simp: rebuild_routing_table_def rebuilt_table_def Let_def case_prod_beta)

definition neighbor_ok :: "'k app_state \<Rightarrow> peer \<Rightarrow> bool" where
  "neighbor_ok app p \<longleftrightarrow>
     p_id p \<noteq> zero_node_id \<and> p_id p \<noteq> id_id (ap_identity app) \<and> peer_is_trusted app (p_id p) \<and>
     p_virtual_address p = virtual_address (cfg_network (ap_config app)) (p_id p)"

lemma alive_connected: "peer_is_alive p now t \<Longrightarrow> p_state p = Connected"
  by (auto simp: peer_is_alive_def split: if_splits)

lemma rebuilt_table_facts:
  assumes "keyed 16 p_id ps"
    and "\<forall>p\<in>set ps. p_id p \<noteq> zero_node_id \<and> p_virtual_address p = virtual_address network (p_id p)"
    and "advertisements_ok network ads"
  shows "table_inv (rebuilt_table ps ads now t)"
    and "\<forall>r\<in>set (routes (rebuilt_table ps ads now t)). route_fits network (connected_ids ps) r"
    and "positive_metrics ads \<Longrightarrow> p \<in> set ps \<Longrightarrow> peer_is_alive p now 5000 \<Longrightarrow>
      view (routes (rebuilt_table ps ads now t)) (p_id p) = Some (p_id p, 1)"
proof -
  let ?direct = "add_direct_routes now ps (routing_clear t)"
  have ids: "\<forall>p\<in>set ps. p_id p \<noteq> zero_node_id" using assms(2) by blast
  note direct = direct_routes [OF assms(1) ids, of now t]
  have fits: "\<forall>r\<in>set (routes ?direct). route_fits network (connected_ids ps) r"
    using assms(2) unfolding direct(1)
    by (auto simp: route_fits_def direct_route_def route_create_def connected_ids_def ROUTE_METRIC_INFINITY_def
        dest: alive_connected)
  have hops: "set (advertising_neighbors ps ads) \<subseteq> connected_ids ps"
    by (auto simp: advertising_neighbors_def connected_ids_def dest!: find_SomeD)
  note whole = apply_advertisements_fits [OF assms(3) direct(2) fits hops, of now]
  show "table_inv (rebuilt_table ps ads now t)"
    and "\<forall>r\<in>set (routes (rebuilt_table ps ads now t)). route_fits network (connected_ids ps) r"
    using whole by (simp_all add: rebuilt_table_def)
  show "view (routes (rebuilt_table ps ads now t)) (p_id p) = Some (p_id p, 1)"
    if "positive_metrics ads" "p \<in> set ps" "peer_is_alive p now 5000"
  proof -
    have "find (for_node (p_id p)) (routes ?direct) = Some (direct_route now p)"
      using direct(2) that(2,3) unfolding table_inv_def keyed_def
      by (subst find_key_eq_Some) (auto simp: direct(1) direct_route_def route_create_def)
    then have "view (routes ?direct) (p_id p) = Some (p_id p, 1)"
      by (simp add: view_def hop_def direct_route_def route_create_def)
    from apply_advertisements_direct [OF assms(3) that(1) direct(2) this]
    show ?thesis by (simp add: rebuilt_table_def)
  qed
qed

section \<open>The invariant of the neighbours\<close>

definition neighbors_ok :: "'k app_state \<Rightarrow> bool" where
  "neighbors_ok app \<longleftrightarrow>
     topology_inv (ap_topology app) \<and> (\<forall>p\<in>set (peers (ap_topology app)). neighbor_ok app p) \<and>
     advertisements_ok (cfg_network (ap_config app)) (ap_route_advertisements app)"

definition routes_ok :: "'k app_state \<Rightarrow> bool" where
  "routes_ok app \<longleftrightarrow>
     table_inv (ap_routing_table app) \<and>
     (\<forall>r\<in>set (routes (ap_routing_table app)).
        route_fits (cfg_network (ap_config app)) (connected_ids (peers (ap_topology app))) r)"

named_theorems app_frame \<open>what does not depend on the fields that an operation changes\<close>

lemma count_routing_frame [app_frame]:
  "ap_config (count_routing f app) = ap_config app" "ap_identity (count_routing f app) = ap_identity app"
  "ap_trust (count_routing f app) = ap_trust app" "ap_topology (count_routing f app) = ap_topology app"
  "ap_kademlia (count_routing f app) = ap_kademlia app" "ap_vnet (count_routing f app) = ap_vnet app"
  "ap_routing_table (count_routing f app) = ap_routing_table app"
  "ap_route_advertisements (count_routing f app) = ap_route_advertisements app"
  "ap_store (count_routing f app) = ap_store app" "ap_sessions (count_routing f app) = ap_sessions app"
  "ap_local_contact (count_routing f app) = ap_local_contact app"
  by (simp_all add: count_routing_def)

lemma neighbor_ok_frame [app_frame]:
  "neighbor_ok (count_routing f app) = neighbor_ok app"
  "neighbor_ok (app\<lparr>ap_routing_table := t\<rparr>) = neighbor_ok app"
  "neighbor_ok (app\<lparr>ap_topology := topo\<rparr>) = neighbor_ok app"
  "neighbor_ok (app\<lparr>ap_route_advertisements := ads\<rparr>) = neighbor_ok app"
  "neighbor_ok (app\<lparr>ap_sessions := rs\<rparr>) = neighbor_ok app"
  "neighbor_ok (set_session app r s) = neighbor_ok app"
  "neighbor_ok (mark_routing_dirty app) = neighbor_ok app"
  "neighbor_ok (app\<lparr>ap_routing_dirty := b\<rparr>) = neighbor_ok app"
  by (auto simp: fun_eq_iff neighbor_ok_def peer_is_trusted_def count_routing_def set_session_def
      mark_routing_dirty_def)

lemma neighbors_ok_frame [app_frame]:
  "neighbors_ok (count_routing f app) = neighbors_ok app"
  "neighbors_ok (app\<lparr>ap_routing_table := t\<rparr>) = neighbors_ok app"
  "neighbors_ok (app\<lparr>ap_sessions := rs\<rparr>) = neighbors_ok app"
  "neighbors_ok (set_session app r s) = neighbors_ok app"
  "neighbors_ok (mark_routing_dirty app) = neighbors_ok app"
  "neighbors_ok (app\<lparr>ap_routing_dirty := b\<rparr>) = neighbors_ok app"
  by (simp_all add: neighbors_ok_def app_frame) (simp_all add: set_session_def mark_routing_dirty_def)

lemma routes_ok_frame [app_frame]:
  "routes_ok (count_routing f app) = routes_ok app"
  "routes_ok (app\<lparr>ap_sessions := rs\<rparr>) = routes_ok app"
  "routes_ok (set_session app r s) = routes_ok app"
  "routes_ok (mark_routing_dirty app) = routes_ok app"
  "routes_ok (app\<lparr>ap_routing_dirty := b\<rparr>) = routes_ok app"
  by (simp_all add: routes_ok_def app_frame set_session_def mark_routing_dirty_def)

text \<open>
  What an operation on neighbours may touch: the topology, the table, the stored advertisements, the counters
  and the wake-up flag, and never the sessions, the trust or the contacts.
\<close>

definition neighbor_change :: "'k app_state \<Rightarrow> 'k app_state \<Rightarrow> bool" where
  "neighbor_change app app' \<longleftrightarrow>
     (\<exists>topo t ads m dirty. app' = app\<lparr>ap_topology := topo, ap_routing_table := t,
        ap_route_advertisements := ads, ap_routing_metrics := m, ap_routing_dirty := dirty\<rparr>)"

lemma neighbor_changeI:
  "app' = app\<lparr>ap_topology := ap_topology app', ap_routing_table := ap_routing_table app',
     ap_route_advertisements := ap_route_advertisements app', ap_routing_metrics := ap_routing_metrics app',
     ap_routing_dirty := ap_routing_dirty app'\<rparr> \<Longrightarrow> neighbor_change app app'"
  unfolding neighbor_change_def by (intro exI) assumption

lemma neighbor_change_trans:
  "neighbor_change a b \<Longrightarrow> neighbor_change b c \<Longrightarrow> neighbor_change a c"
  by (rule neighbor_changeI) (auto simp: neighbor_change_def)

lemma neighbor_change_basic:
  "neighbor_change app app" "neighbor_change app (count_routing f app)"
  "neighbor_change app (app\<lparr>ap_topology := topo\<rparr>)" "neighbor_change app (app\<lparr>ap_routing_table := t\<rparr>)"
  "neighbor_change app (app\<lparr>ap_route_advertisements := ads\<rparr>)" "neighbor_change app (mark_routing_dirty app)"
  "neighbor_change app (app\<lparr>ap_routing_dirty := b\<rparr>)"
  by (rule neighbor_changeI, simp add: count_routing_def mark_routing_dirty_def)+

lemma neighbor_change_then:
  assumes "neighbor_change app app'"
  shows "neighbor_change app (count_routing f app')" "neighbor_change app (mark_routing_dirty app')"
    "neighbor_change app (app'\<lparr>ap_topology := topo\<rparr>)" "neighbor_change app (app'\<lparr>ap_routing_table := t\<rparr>)"
    "neighbor_change app (app'\<lparr>ap_route_advertisements := ads\<rparr>)"
    "neighbor_change app (app'\<lparr>ap_routing_dirty := b\<rparr>)"
  using neighbor_change_trans [OF assms neighbor_change_basic(2)]
    neighbor_change_trans [OF assms neighbor_change_basic(3)]
    neighbor_change_trans [OF assms neighbor_change_basic(4)]
    neighbor_change_trans [OF assms neighbor_change_basic(5)]
    neighbor_change_trans [OF assms neighbor_change_basic(6)]
    neighbor_change_trans [OF assms neighbor_change_basic(7)] by blast+

lemma rebuild_keeps:
  assumes "rebuild_routing_table host app w = (app', w')" "neighbors_ok app"
  shows "neighbors_ok app' \<and> routes_ok app' \<and> neighbor_change app app' \<and> ap_topology app' = ap_topology app"
proof -
  let ?ps = "peers (ap_topology app)"
  let ?t = "rebuilt_table ?ps (ap_route_advertisements app) (fst (steady_now_ms host w)) (ap_routing_table app)"
  obtain f where app': "app' = count_routing f (app\<lparr>ap_routing_table := ?t\<rparr>)"
    using rebuild_result [OF assms(1)] by blast
  have "keyed 16 p_id ?ps" using assms(2) by (simp add: neighbors_ok_def topology_inv_def MAX_TOPOLOGY_PEERS_def)
  moreover have "\<forall>p\<in>set ?ps. p_id p \<noteq> zero_node_id \<and>
      p_virtual_address p = virtual_address (cfg_network (ap_config app)) (p_id p)"
    using assms(2) by (simp add: neighbors_ok_def neighbor_ok_def)
  moreover have "advertisements_ok (cfg_network (ap_config app)) (ap_route_advertisements app)"
    using assms(2) by (simp add: neighbors_ok_def)
  ultimately have "table_inv ?t"
    "\<forall>r\<in>set (routes ?t). route_fits (cfg_network (ap_config app)) (connected_ids ?ps) r"
    by (rule rebuilt_table_facts)+
  then show ?thesis
    using assms(2) by (simp add: app' app_frame routes_ok_def neighbor_change_then neighbor_change_basic)
qed

text \<open>Changes of the topology.\<close>

lemma neighbors_ok_modify:
  assumes "neighbors_ok app" "\<And>p. p_id (f p) = p_id p"
    and "\<And>p. neighbor_ok app p \<Longrightarrow> p_id p = n \<Longrightarrow> neighbor_ok app (f p)"
  shows "neighbors_ok (app\<lparr>ap_topology := modify_peer (ap_topology app) n f\<rparr>)"
proof -
  have "\<forall>p\<in>set (update_first (\<lambda>p. p_id p = n) f (peers (ap_topology app))). neighbor_ok app p"
    by (rule update_first_all) (use assms in \<open>auto simp: neighbors_ok_def\<close>)
  moreover have "topology_inv (modify_peer (ap_topology app) n f)"
    using assms(1,2) by (simp add: neighbors_ok_def topology_inv_modify)
  ultimately show ?thesis using assms(1) by (simp add: neighbors_ok_def app_frame) (simp add: modify_peer_def)
qed

lemma connected_ids_mono:
  "\<forall>p\<in>set ps. p_state p = Connected \<longrightarrow> p_id p \<in> connected_ids qs \<Longrightarrow> connected_ids ps \<subseteq> connected_ids qs"
  by (auto simp: connected_ids_def)

lemma connected_update_first:
  assumes "\<And>p. p_id (f p) = p_id p" "\<And>p. p_state p = Connected \<Longrightarrow> p_state (f p) = Connected"
  shows "connected_ids ps \<subseteq> connected_ids (update_first P f ps)"
proof -
  have "p_id p \<in> connected_ids (update_first P f ps)" if "p \<in> set ps" "p_state p = Connected" for p
    using that
  proof (induction ps)
    case (Cons q ps)
    show ?case
    proof (cases "P q")
      case True
      then show ?thesis
        using Cons.prems assms by (cases "p = q") (auto simp: connected_ids_def intro: exI [of _ "f q"])
    next
      case False
      then have split: "connected_ids (update_first P f (q # ps)) =
          connected_ids [q] \<union> connected_ids (update_first P f ps)"
        by (auto simp: connected_ids_def)
      show ?thesis
        unfolding split using Cons by (cases "p = q") (auto simp: connected_ids_def)
    qed
  qed simp
  then show ?thesis by (auto simp: connected_ids_def)
qed

lemma routes_ok_topology:
  assumes "routes_ok app" "connected_ids (peers (ap_topology app)) \<subseteq> connected_ids (peers topo)"
  shows "routes_ok (app\<lparr>ap_topology := topo\<rparr>)"
  using assms by (auto simp: routes_ok_def route_fits_def)

lemma neighbor_ok_create:
  assumes "nc_id contact \<noteq> zero_node_id" "nc_id contact \<noteq> id_id (ap_identity app)"
    "peer_is_trusted app (nc_id contact)"
    "nc_virtual_address contact = virtual_address (cfg_network (ap_config app)) (nc_id contact)"
  shows "neighbor_ok app (peer_create (nc_id contact) (nc_virtual_address contact) endpoint st now)"
  using assms by (simp add: neighbor_ok_def peer_create_def)

lemma neighbors_ok_add:
  assumes "neighbors_ok app" "topology_add_peer (Some (ap_topology app)) p = Inr topo" "neighbor_ok app p"
  shows "neighbors_ok (app\<lparr>ap_topology := topo\<rparr>)"
  using assms topology_inv_add [OF _ assms(2)]
  by (auto simp: neighbors_ok_def app_frame topology_add_peer_def split: if_splits)

text \<open>What activating a neighbour ends with, and reviving one that was silent.\<close>

definition connect_and_rebuild ::
  "('w, 'k, 's) host \<Rightarrow> 'k app_state \<Rightarrow> topology \<Rightarrow> bool \<Rightarrow> 'w \<Rightarrow> 'k app_state \<times> 'w" where
  "connect_and_rebuild host app topo became w =
     (case rebuild_routing_table host
             (if became
              then count_routing (\<lambda>m. m\<lparr>rm_neighbor_up := rm_neighbor_up m + 1\<rparr>) (app\<lparr>ap_topology := topo\<rparr>)
              else app\<lparr>ap_topology := topo\<rparr>) w of
        (app', w') \<Rightarrow> (mark_routing_dirty app', w'))"

lemma connect_and_rebuild_keeps:
  assumes "connect_and_rebuild host app topo became w = (app', w')" "neighbors_ok (app\<lparr>ap_topology := topo\<rparr>)"
  shows "neighbors_ok app' \<and> routes_ok app' \<and> neighbor_change app app' \<and> ap_topology app' = topo"
proof -
  define app2 where "app2 = (if became
    then count_routing (\<lambda>m. m\<lparr>rm_neighbor_up := rm_neighbor_up m + 1\<rparr>) (app\<lparr>ap_topology := topo\<rparr>)
    else app\<lparr>ap_topology := topo\<rparr>)"
  obtain app3 w2 where rebuild: "rebuild_routing_table host app2 w = (app3, w2)" by fastforce
  have result: "app' = mark_routing_dirty app3"
    using assms(1) rebuild by (simp add: connect_and_rebuild_def app2_def split: prod.splits)
  have "neighbors_ok app2" using assms(2) by (simp add: app2_def app_frame)
  note kept = rebuild_keeps [OF rebuild this]
  have "neighbor_change app app2" by (simp add: app2_def neighbor_change_then neighbor_change_basic)
  then have change: "neighbor_change app app3" using kept neighbor_change_trans by blast
  have "ap_topology app' = topo" using kept by (simp add: result mark_routing_dirty_def app2_def app_frame)
  then show ?thesis using kept by (simp add: result app_frame neighbor_change_then [OF change])
qed

lemma activate_neighbor_keeps:
  assumes run: "activate_neighbor host app contact w = (ok, app', w')"
    and inv: "neighbors_ok app" "routes_ok app"
  shows "neighbors_ok app' \<and> routes_ok app' \<and> neighbor_change app app' \<and> (\<not> ok \<longrightarrow> app' = app) \<and>
    (ok \<longrightarrow> nc_id contact \<noteq> zero_node_id \<and> nc_id contact \<noteq> id_id (ap_identity app) \<and>
       peer_is_trusted app (nc_id contact) \<and> nc_id contact \<in> connected_ids (peers (ap_topology app')))"
proof (cases "nc_id contact = zero_node_id \<or> nc_id contact = id_id (ap_identity app) \<or>
    \<not> peer_is_trusted app (nc_id contact) \<or>
    nc_virtual_address contact \<noteq> virtual_address (cfg_network (ap_config app)) (nc_id contact)")
  case True
  then show ?thesis using run inv by (simp add: activate_neighbor_def neighbor_change_basic)
next
  case False
  then have trusted: "nc_id contact \<noteq> zero_node_id" "nc_id contact \<noteq> id_id (ap_identity app)"
    "peer_is_trusted app (nc_id contact)"
    "nc_virtual_address contact = virtual_address (cfg_network (ap_config app)) (nc_id contact)"
    by simp_all
  obtain now w1 where clock: "steady_now_ms host w = (now, w1)" by fastforce
  let ?new = "peer_create (nc_id contact) (nc_virtual_address contact) (nc_endpoint contact) Connected now"
  let ?f = "\<lambda>p. p\<lparr>p_virtual_address := nc_virtual_address contact, p_endpoint := nc_endpoint contact,
    p_state := Connected, p_last_seen := now\<rparr>"
  have finish: ?thesis if "neighbors_ok (app\<lparr>ap_topology := topo\<rparr>)" "nc_id contact \<in> connected_ids (peers topo)"
    and "activate_neighbor host app contact w =
      (case connect_and_rebuild host app topo became w1 of (app3, w2) \<Rightarrow> (True, app3, w2))" for topo became
    using connect_and_rebuild_keeps [of host app topo became w1 app' w'] that trusted run
    by (simp split: prod.splits)
  show ?thesis
  proof (cases "topology_find_peer (ap_topology app) (nc_id contact)")
    case None
    show ?thesis
    proof (cases "topology_add_peer (Some (ap_topology app)) ?new")
      case (Inl e)
      then show ?thesis
        using run inv False clock None by (simp add: activate_neighbor_def neighbor_change_basic)
    next
      case (Inr topo)
      have "?new \<in> set (peers topo)" using Inr by (auto simp: topology_add_peer_def split: if_splits)
      then have "nc_id contact \<in> connected_ids (peers topo)"
        by (force simp: connected_ids_def peer_create_def)
      then show ?thesis
        using False clock None Inr neighbors_ok_add [OF inv(1) Inr neighbor_ok_create [OF trusted]]
        by (intro finish [of topo True])
          (simp_all add: activate_neighbor_def connect_and_rebuild_def Let_def case_prod_beta)
    qed
  next
    case (Some p)
    let ?topo = "modify_peer (ap_topology app) (nc_id contact) ?f"
    have "topology_find_peer ?topo (nc_id contact) = Some (?f p)"
      using Some by (simp add: topology_find_peer_def modify_peer_def find_update_first_same)
    then have "nc_id contact \<in> connected_ids (peers ?topo)"
      by (auto simp: topology_find_peer_def connected_ids_def dest!: find_SomeD intro!: exI [of _ "?f p"])
    moreover have "neighbors_ok (app\<lparr>ap_topology := ?topo\<rparr>)"
      by (rule neighbors_ok_modify [OF inv(1)]) (use trusted in \<open>auto simp: neighbor_ok_def\<close>)
    ultimately show ?thesis
      using False clock Some
      by (intro finish [of ?topo "p_state p \<noteq> Connected"])
        (simp_all add: activate_neighbor_def connect_and_rebuild_def Let_def case_prod_beta)
  qed
qed

text \<open>Fewer advertisements, and the remaining operations.\<close>

lemma neighbors_ok_fewer:
  assumes "neighbors_ok app"
  shows "neighbors_ok (app\<lparr>ap_route_advertisements := filter P (ap_route_advertisements app)\<rparr>)"
  using assms
  by (auto simp: neighbors_ok_def app_frame advertisements_ok_def distinct_map_filter list_all_iff)

lemma deactivate_neighbor_keeps:
  assumes run: "deactivate_neighbor host app n w = (app', w')" and inv: "neighbors_ok app" "routes_ok app"
  shows "neighbors_ok app' \<and> routes_ok app' \<and> neighbor_change app app'"
proof (cases "list_ex (\<lambda>r. as_peer_id (ap_store app r) = Some n) (ap_sessions app)")
  case True
  then show ?thesis using run inv by (simp add: deactivate_neighbor_def neighbor_change_basic)
next
  case False
  let ?topo = "modify_peer (ap_topology app) n (\<lambda>p. p\<lparr>p_state := Disconnected\<rparr>)"
  define app1 where "app1 =
    (case topology_find_peer (ap_topology app) n of None \<Rightarrow> app | Some _ \<Rightarrow> app\<lparr>ap_topology := ?topo\<rparr>)"
  define app2 where "app2 = app1\<lparr>ap_route_advertisements := AList.delete n (ap_route_advertisements app1)\<rparr>"
  define down where "down = (case topology_find_peer (ap_topology app) n of
    None \<Rightarrow> False | Some p \<Rightarrow> p_state p = Connected)"
  define app3 where "app3 = (if down
    then count_routing (\<lambda>m. m\<lparr>rm_neighbor_down := rm_neighbor_down m + 1\<rparr>) app2 else app2)"
  obtain app4 w1 where rebuild: "rebuild_routing_table host app3 w = (app4, w1)" by fastforce
  have "deactivate_neighbor host app n w =
      (case rebuild_routing_table host app3 w of (app4, w1) \<Rightarrow> (mark_routing_dirty app4, w1))"
    using False by (simp add: deactivate_neighbor_def Let_def down_def app1_def app2_def app3_def)
  then have result: "app' = mark_routing_dirty app4" using run rebuild by simp
  have "neighbors_ok (app\<lparr>ap_topology := ?topo\<rparr>)"
    by (rule neighbors_ok_modify [OF inv(1)]) (auto simp: neighbor_ok_def)
  then have "neighbors_ok app1" using inv(1) by (simp add: app1_def split: option.split)
  then have "neighbors_ok app2" using neighbors_ok_fewer by (simp add: app2_def AList.delete_eq)
  then have "neighbors_ok app3" by (simp add: app3_def app_frame)
  note kept = rebuild_keeps [OF rebuild this]
  have "neighbor_change app app1" by (simp add: app1_def neighbor_change_basic split: option.split)
  then have "neighbor_change app app3" by (simp add: app3_def app2_def neighbor_change_then)
  with kept have "neighbor_change app app4" using neighbor_change_trans by blast
  then show ?thesis using kept by (simp add: result app_frame neighbor_change_then)
qed

lemma touch_neighbor_keeps:
  assumes run: "touch_neighbor host app n w = (app', w')" and inv: "neighbors_ok app" "routes_ok app"
  shows "neighbors_ok app' \<and> routes_ok app' \<and> neighbor_change app app'"
proof (cases "topology_find_peer (ap_topology app) n")
  case None
  then show ?thesis using run inv by (simp add: touch_neighbor_def neighbor_change_basic)
next
  case (Some p)
  obtain now w1 where clock: "steady_now_ms host w = (now, w1)" by fastforce
  let ?f = "\<lambda>p. p\<lparr>p_state := Connected, p_last_seen := now\<rparr>"
  let ?topo = "modify_peer (ap_topology app) n ?f"
  have ok: "neighbors_ok (app\<lparr>ap_topology := ?topo\<rparr>)"
    by (rule neighbors_ok_modify [OF inv(1)]) (auto simp: neighbor_ok_def)
  show ?thesis
  proof (cases "p_state p = Connected")
    case True
    have "connected_ids (peers (ap_topology app)) \<subseteq> connected_ids (peers ?topo)"
      unfolding modify_peer_def by (simp add: connected_update_first)
    then show ?thesis
      using run Some clock True ok routes_ok_topology [OF inv(2)]
      by (auto simp: touch_neighbor_def neighbor_change_basic)
  next
    case False
    then have "connect_and_rebuild host app ?topo True w1 = (app', w')"
      using run Some clock by (simp add: touch_neighbor_def connect_and_rebuild_def Let_def)
    from connect_and_rebuild_keeps [OF this ok] show ?thesis by blast
  qed
qed

lemma routing_maintenance_keeps:
  assumes run: "routing_maintenance host now app w = (changed, app', w')"
    and inv: "neighbors_ok app" "routes_ok app"
  shows "neighbors_ok app' \<and> routes_ok app' \<and> neighbor_change app app'"
proof -
  obtain topo pruned where prune: "topology_prune_stale (Some (ap_topology app)) now 5000 = (Some topo, pruned)"
    by (cases "prune_loop now 5000 (peers (ap_topology app)) 0") (simp add: topology_prune_stale_def)
  let ?stale = "\<lambda>p. p_state p = Connected \<and> \<not> peer_is_alive p now 5000"
  have topo: "peers topo = map (\<lambda>p. if ?stale p then p\<lparr>p_state := Disconnected\<rparr> else p) (peers (ap_topology app))"
    and pruned: "pruned = length (filter ?stale (peers (ap_topology app)))"
    using prune by (auto simp: topology_prune_stale_def prune_loop_spec)
  define app1 where "app1 = count_routing (\<lambda>m. m\<lparr>rm_neighbor_down := rm_neighbor_down m + of_nat pruned\<rparr>)
    (app\<lparr>ap_topology := topo\<rparr>)"
  define kept where "kept = filter (\<lambda>(neighbor, stored). \<not> advertisement_expired now stored) (ap_route_advertisements app1)"
  define expired where "expired = length (ap_route_advertisements app1) - length kept"
  define app2 where "app2 = count_routing (\<lambda>m. m\<lparr>rm_routes_expired := rm_routes_expired m + of_nat expired\<rparr>)
    (app1\<lparr>ap_route_advertisements := kept\<rparr>)"
  have split: "routing_maintenance host now app w =
      (if pruned \<noteq> 0 \<or> expired \<noteq> 0
       then (case rebuild_routing_table host app2 w of (app3, w1) \<Rightarrow> (True, app3, w1)) else (False, app2, w))"
    by (simp add: routing_maintenance_def prune app2_def expired_def kept_def app1_def Let_def app_frame)
  have "neighbors_ok (app\<lparr>ap_topology := topo\<rparr>)"
    using inv(1) topology_inv_prune [OF _ prune]
    by (auto simp: neighbors_ok_def app_frame topo neighbor_ok_def peer_is_trusted_def)
  then have "neighbors_ok app1" by (simp add: app1_def app_frame)
  from neighbors_ok_fewer [OF this] have ok: "neighbors_ok app2" by (simp add: app2_def kept_def app_frame)
  have change: "neighbor_change app app2"
    by (simp add: app2_def app1_def neighbor_change_then neighbor_change_basic)
  show ?thesis
  proof (cases "pruned \<noteq> 0 \<or> expired \<noteq> 0")
    case True
    then have "rebuild_routing_table host app2 w = (app', w')"
      using run by (simp add: split split: prod.splits)
    from rebuild_keeps [OF this ok] show ?thesis using change neighbor_change_trans by blast
  next
    case False
    then have app': "app' = app2" using run by (simp add: split)
    have "\<forall>p\<in>set (peers (ap_topology app)). \<not> ?stale p"
      using False unfolding pruned by (auto simp: filter_empty_conv)
    then have "peers topo = peers (ap_topology app)" unfolding topo by (intro map_idI) auto
    then have "routes_ok (app\<lparr>ap_topology := topo\<rparr>)" using routes_ok_topology [OF inv(2)] by simp
    moreover have "routes_ok (a\<lparr>ap_route_advertisements := kept\<rparr>) = routes_ok a" for a :: "'a app_state"
      by (simp add: routes_ok_def)
    ultimately show ?thesis using ok change by (simp add: app' app2_def app1_def app_frame)
  qed
qed

end
