(* ===== verification/Control.thy ===== *)
theory Control
  imports Neighbors
begin

text \<open>
  What a node does with the messages of a session, \<open>run_session\<close> of \<open>src/core/daemon.cpp\<close>, and the requests
  that it makes itself: \<open>query_peer\<close>, \<open>announce_to_peer\<close> and the reconnecting worker. A round of a worker is
  one iteration of its loop; \<open>True\<close> means that the loop goes on, \<open>False\<close> is a \<open>break\<close>. The text in \<open>error\<close>
  is never looked at by these functions, so each call starts with an empty one. A round that waits for a
  message that never completes is \<open>None\<close>. Shown: a session that is not trusted can only join, trust is given
  to a known key or for a valid invitation, and messages count only under the identity of their session.
\<close>

section \<open>Receiving\<close>

text \<open>Receiving on a session keeps the transport up to date.\<close>

definition receive_on_session ::
  "('w, 'k, 's) host \<Rightarrow> 'k app_state \<Rightarrow> session_ref \<Rightarrow> nat option \<Rightarrow> 'w \<Rightarrow>
     (message option \<times> bool \<times> 'k app_state \<times> 'w) option" where
  "receive_on_session host app r timeout w =
     map_option
       (\<lambda>rc. (rc_message rc, rc_closed rc,
              set_session app r ((ap_store app r)\<lparr>as_transport := rc_session rc\<rparr>), rc_world rc))
       (transport_receive (h_os host) (h_lib host) (as_transport (ap_store app r)) timeout (Some []) w)"

definition receive_control ::
  "('w, 'k, 's) host \<Rightarrow> 'k app_state \<Rightarrow> session_ref \<Rightarrow> nat \<Rightarrow> 'w \<Rightarrow>
     (control_message option \<times> 'k app_state \<times> 'w) option" where
  "receive_control host app r timeout w =
     (case receive_on_session host app r (Some timeout) w of
        None \<Rightarrow> None
      | Some (None, _, app1, w1) \<Rightarrow> Some (None, app1, w1)
      | Some (Some wire, _, app1, w1) \<Rightarrow>
          Some ((if m_type wire \<noteq> MT_Control then None
                 else case deserialize_control_message (m_payload wire) of
                        Inl _ \<Rightarrow> None | Inr control \<Rightarrow> Some control), app1, w1))"

section \<open>Joining\<close>

text \<open>The request of a join message when it agrees with the session it came on.\<close>

definition checked_join_request ::
  "('w, 'k, 's) host \<Rightarrow> 'k app_state \<Rightarrow> transport_session \<Rightarrow> byte list \<Rightarrow> join_request option" where
  "checked_join_request host app transport payload =
     (case deserialize_join_request payload of
        Inl _ \<Rightarrow> None
      | Inr request \<Rightarrow>
          if Some (jr_node_id request) \<noteq> ss_peer_node_id transport \<or>
             jr_public_key request \<noteq> ts_peer_pubkey (ss_tls transport) \<or>
             jr_virtual_address request \<noteq> virtual_address (cfg_network (ap_config app)) (jr_node_id request) \<or>
             (case parse_endpoint (h_pton4 host) (h_pton6 host) (jr_endpoint request) of
                None \<Rightarrow> True | Some (_, port) \<Rightarrow> port = 0)
          then None else Some request)"

text \<open>What the code does with the trust locked: the decision and, when it is positive, the new record.\<close>

definition admission ::
  "('w, 'k, 's) host \<Rightarrow> 'k app_state \<Rightarrow> join_request \<Rightarrow> 'w \<Rightarrow> bool \<times> 'w" where
  "admission host app request w =
     (let known = trust_find (ap_trust app) (jr_node_id request);
          key_matches = (case known of None \<Rightarrow> True | Some p \<Rightarrow> tp_public_key p = jr_public_key request)
      in if known \<noteq> None \<and> jr_invite_token request = [] \<and> key_matches then (True, w)
         else if key_matches \<and> jr_invite_token request \<noteq> [] \<and>
                 trust_address_available (ap_trust app) (cfg_network (ap_config app))
                   (id_id (ap_identity app)) (jr_node_id request)
         then (case invite_decode (h_pton4 host) (h_pton6 host) (jr_invite_token request) (Some []) of
                 Inl _ \<Rightarrow> (False, w)
               | Inr invitation \<Rightarrow>
                   (case now_ms host w of (now, w1) \<Rightarrow>
                    case invite_consume (h_pton4 host) (h_pton6 host) (h_fs host) (ap_trust app) invitation
                           (id_id (ap_identity app)) (now div 1000) (Some []) w1 of
                      (consumed, _, w2) \<Rightarrow> (consumed, w2)))
         else (False, w))"

definition admit_peer ::
  "('w, 'k, 's) host \<Rightarrow> 'k app_state \<Rightarrow> join_request \<Rightarrow> 'w \<Rightarrow> bool \<times> 'k app_state \<times> 'w" where
  "admit_peer host app request w =
     (case admission host app request w of
        (False, w1) \<Rightarrow> (False, app, w1)
      | (True, w1) \<Rightarrow>
          (case trust_add (h_pton4 host) (h_pton6 host) (h_digest host) (h_fs host) (ap_trust app)
                  \<lparr>tp_id = jr_node_id request, tp_public_key = jr_public_key request,
                   tp_endpoint = jr_endpoint request\<rparr> (Some []) w1 of
             (added, trust, _, w2) \<Rightarrow> (added, app\<lparr>ap_trust := trust\<rparr>, w2)))"

definition trust_session :: "'k app_state \<Rightarrow> session_ref \<Rightarrow> 'k app_state" where
  "trust_session app r = set_session app r ((ap_store app r)\<lparr>as_trusted := True\<rparr>)"

text \<open>The answer to a peer that is turned away.\<close>

definition rejection :: "'k app_state \<Rightarrow> join_response" where
  "rejection app =
     empty_join_response\<lparr>js_accepted := False, js_bootstrap_contact := ap_local_contact app,
       js_bootstrap_id := id_id (ap_identity app)\<rparr>"

definition receive_join_request ::
  "('w, 'k, 's) host \<Rightarrow> 'k app_state \<Rightarrow> session_ref \<Rightarrow> control_message \<Rightarrow> 'w \<Rightarrow> bool \<times> 'k app_state \<times> 'w" where
  "receive_join_request host app r incoming w =
     (case checked_join_request host app (as_transport (ap_store app r)) (cm_payload incoming) of
        None \<Rightarrow> (False, app, w)
      | Some request \<Rightarrow>
          (case admit_peer host app request w of
             (True, app1, w1) \<Rightarrow> (True, trust_session app1 r, w1)
           | (False, app1, w1) \<Rightarrow>
               (case send_control host app1 (Some r) CT_JOIN_RESPONSE (cm_sequence_number incoming)
                       (id_id (ap_identity app1)) (serialize_join_response (rejection app1)) None w1 of
                  (_, app2, _, w2) \<Rightarrow> (False, app2, w2))))"

section \<open>The other messages\<close>

definition receive_hello ::
  "('w, 'k, 's) host \<Rightarrow> 'k app_state \<Rightarrow> control_message \<Rightarrow> 'w \<Rightarrow> bool \<times> 'k app_state \<times> 'w" where
  "receive_hello host app incoming w =
     (case deserialize_hello_message (cm_payload incoming) of
        Inl _ \<Rightarrow> (False, app, w)
      | Inr hello \<Rightarrow>
          if h_sender hello \<noteq> cm_sender incoming then (False, app, w)
          else case steady_now_ms host w of (now, w1) \<Rightarrow>
            (True,
             (case heartbeat_process_hello (Some (ap_topology app)) hello now of
                None \<Rightarrow> app | Some topo \<Rightarrow> app\<lparr>ap_topology := topo\<rparr>), w1))"

text \<open>A valid advertisement updates the table and is stored; when it changed a route, the table is rebuilt.\<close>

definition install_advertisement ::
  "('w, 'k, 's) host \<Rightarrow> 'k app_state \<Rightarrow> node_id \<Rightarrow> route_advertisement \<Rightarrow> 'w \<Rightarrow> 'k app_state \<times> 'w" where
  "install_advertisement host app sender advertisement w =
     (case steady_now_ms host w of (now, w1) \<Rightarrow>
      case distance_vector_update (ap_routing_table app) sender advertisement now 1
             (Some (ap_route_origins app)) of (result, origins) \<Rightarrow>
      let app1 = app\<lparr>ap_routing_table := dv_table result,
                     ap_route_origins := (case origins of None \<Rightarrow> ap_route_origins app | Some o' \<Rightarrow> o')\<rparr>
      in if \<not> dv_accepted result
         then (count_routing (\<lambda>m. m\<lparr>rm_route_advertisements_stale := rm_route_advertisements_stale m + 1\<rparr>) app1, w1)
         else case steady_now_ms host w1 of (received_at, w2) \<Rightarrow>
           let app2 = app1\<lparr>ap_route_advertisements :=
                 AList.update sender \<lparr>sa_advertisement = advertisement, sa_received_at_ms = received_at\<rparr>
                   (ap_route_advertisements app1)\<rparr>
           in if \<not> dv_changed result then (app2, w2)
              else case rebuild_routing_table host app2 w2 of (app3, w3) \<Rightarrow> (mark_routing_dirty app3, w3))"

definition receive_advertisement ::
  "('w, 'k, 's) host \<Rightarrow> 'k app_state \<Rightarrow> control_message \<Rightarrow> 'w \<Rightarrow> bool \<times> 'k app_state \<times> 'w" where
  "receive_advertisement host app incoming w =
     (let invalid = count_routing (\<lambda>m. m\<lparr>rm_drop_invalid_route_advertisement :=
                      rm_drop_invalid_route_advertisement m + 1\<rparr>) app
      in case deserialize_route_advertisement (cm_payload incoming) of
        Inl _ \<Rightarrow> (False, invalid, w)
      | Inr advertisement \<Rightarrow>
          if ra_sender advertisement \<noteq> cm_sender incoming \<or>
             \<not> accepted (validate_route_advertisement advertisement (cfg_network (ap_config app)))
          then (False, invalid, w)
          else (case install_advertisement host
                       (count_routing (\<lambda>m. m\<lparr>rm_route_advertisements_received :=
                          rm_route_advertisements_received m + 1\<rparr>) app) (cm_sender incoming) advertisement w of
                  (app1, w1) \<Rightarrow> (True, app1, w1)))"

definition receive_neighbors ::
  "('w, 'k, 's) host \<Rightarrow> 'k app_state \<Rightarrow> control_message \<Rightarrow> 'w \<Rightarrow> bool \<times> 'k app_state \<times> 'w" where
  "receive_neighbors host app incoming w =
     (case deserialize_neighbors (cm_payload incoming) of
        Inl _ \<Rightarrow> (False, app, w)
      | Inr neighbors \<Rightarrow>
          if \<not> list_all (valid_node_contact host (ap_config app)) (nm_peers neighbors) then (False, app, w)
          else (True, app\<lparr>ap_kademlia := handle_neighbors (ap_kademlia app) neighbors\<rparr>, w))"

text \<open>An announcement must be the peer's own.\<close>

definition announcement_ok :: "'k app_state \<Rightarrow> transport_session \<Rightarrow> byte list \<Rightarrow> bool" where
  "announcement_ok app transport payload \<longleftrightarrow>
     (case deserialize_node_announce payload of
        Inl _ \<Rightarrow> False
      | Inr announce \<Rightarrow>
          Some (nc_id (an_contact announce)) = ss_peer_node_id transport \<and>
          nc_public_key (an_contact announce) = ts_peer_pubkey (ss_tls transport) \<and>
          nc_virtual_address (an_contact announce) =
            virtual_address (cfg_network (ap_config app)) (nc_id (an_contact announce)))"

definition requested_contact :: "join_request \<Rightarrow> node_contact" where
  "requested_contact request =
     \<lparr>nc_id = jr_node_id request, nc_public_key = jr_public_key request,
      nc_virtual_address = jr_virtual_address request, nc_endpoint = jr_endpoint request,
      nc_last_seen_ms = jr_timestamp request, nc_rtt_ms = 0, nc_failed_pings = 0\<rparr>"

text \<open>What follows a reply that was sent: the peer becomes a neighbour.\<close>

definition after_reply ::
  "('w, 'k, 's) host \<Rightarrow> 'k app_state \<Rightarrow> session_ref \<Rightarrow> control_message \<Rightarrow> control_message \<Rightarrow> 'w \<Rightarrow>
     bool \<times> 'k app_state \<times> 'w" where
  "after_reply host app r incoming reply w =
     (if cm_type incoming = CT_JOIN_REQUEST
      then (case (deserialize_join_request (cm_payload incoming), deserialize_join_response (cm_payload reply)) of
              (Inr request, Inr response) \<Rightarrow>
                if js_accepted response then bind_session host app r (requested_contact request) w
                else (True, app, w)
            | _ \<Rightarrow> (True, app, w))
      else if cm_type incoming = CT_NODE_ANNOUNCE
      then (case (deserialize_node_announce (cm_payload incoming), deserialize_node_announce_ack (cm_payload reply)) of
              (Inr announce, Inr ack) \<Rightarrow>
                if ack_accepted ack then bind_session host app r (an_contact announce) w else (True, app, w)
            | _ \<Rightarrow> (True, app, w))
      else (True, app, w))"

definition answer_request ::
  "('w, 'k, 's) host \<Rightarrow> 'k app_state \<Rightarrow> session_ref \<Rightarrow> control_message \<Rightarrow> 'w \<Rightarrow> bool \<times> 'k app_state \<times> 'w" where
  "answer_request host app r incoming w =
     (if cm_type incoming = CT_NODE_ANNOUNCE \<and>
         \<not> announcement_ok app (as_transport (ap_store app r)) (cm_payload incoming)
      then (False, app, w)
      else if cm_type incoming \<noteq> CT_JOIN_REQUEST \<and> cm_type incoming \<noteq> CT_FIND_NODE \<and>
              cm_type incoming \<noteq> CT_NODE_ANNOUNCE
      then (True, app, w)
      else case dispatch_join_protocol_message (h_digest host) (ap_kademlia app) incoming
                  (Some empty_control_message) (Some (ap_local_contact app)) True of
        (False, table, _) \<Rightarrow> (False, app\<lparr>ap_kademlia := table\<rparr>, w)
      | (True, table, None) \<Rightarrow> (False, app\<lparr>ap_kademlia := table\<rparr>, w)
      | (True, table, Some reply) \<Rightarrow>
          (case send_on_session host (app\<lparr>ap_kademlia := table\<rparr>) (Some r) (make_control_wire reply) (Some []) w of
             (False, app1, _, w1) \<Rightarrow> (False, app1, w1)
           | (True, app1, _, w1) \<Rightarrow> after_reply host app1 r incoming reply w1))"

section \<open>One control message\<close>

text \<open>After the admission: the sender is trusted and the message is handled by its type.\<close>

definition handle_trusted ::
  "('w, 'k, 's) host \<Rightarrow> 'k app_state \<Rightarrow> session_ref \<Rightarrow> control_message \<Rightarrow> 'w \<Rightarrow> bool \<times> 'k app_state \<times> 'w" where
  "handle_trusted host app0 r incoming w0 =
     (case touch_neighbor host app0 (cm_sender incoming) w0 of (app, w) \<Rightarrow>
        if cm_type incoming = CT_HELLO then receive_hello host app incoming w
        else if cm_type incoming = CT_ROUTE_ADVERTISEMENT then receive_advertisement host app incoming w
        else if cm_type incoming = CT_NEIGHBORS then receive_neighbors host app incoming w
        else answer_request host app r incoming w)"

definition handle_control ::
  "('w, 'k, 's) host \<Rightarrow> 'k app_state \<Rightarrow> session_ref \<Rightarrow> message \<Rightarrow> 'w \<Rightarrow> bool \<times> 'k app_state \<times> 'w" where
  "handle_control host app r wire w =
     (case deserialize_control_message (m_payload wire) of
        Inl _ \<Rightarrow> (False, app, w)
      | Inr incoming \<Rightarrow>
          let session = ap_store app r in
          if ss_peer_node_id (as_transport session) \<noteq> Some (cm_sender incoming) then (False, app, w)
          else if \<not> as_trusted session \<and> cm_type incoming \<noteq> CT_JOIN_REQUEST then (False, app, w)
          else case (if cm_type incoming = CT_JOIN_REQUEST then receive_join_request host app r incoming w
                     else (True, app, w)) of
            (False, app1, w1) \<Rightarrow> (False, app1, w1)
          | (True, app1, w1) \<Rightarrow>
              if \<not> as_trusted (ap_store app1 r) then (False, app1, w1)
              else handle_trusted host app1 r incoming w1)"

definition handle_wire ::
  "('w, 'k, 's) host \<Rightarrow> 'k app_state \<Rightarrow> session_ref \<Rightarrow> message \<Rightarrow> 'w \<Rightarrow> bool \<times> 'k app_state \<times> 'w" where
  "handle_wire host app r wire w =
     (if m_type wire = MT_Data
      then (if \<not> as_trusted (ap_store app r) then (False, app, w)
            else
              (case (case ss_peer_node_id (as_transport (ap_store app r)) of
                       None \<Rightarrow> (app, w) | Some peer_id \<Rightarrow> touch_neighbor host app peer_id w) of
                 (app1, w1) \<Rightarrow>
                   (case handle_data_message host app1 wire (Some []) w1 of
                      (ok, app2, _, w2) \<Rightarrow> (ok, app2, w2))))
      else if m_type wire \<noteq> MT_Control then (True, app, w)
      else handle_control host app r wire w)"

section \<open>The worker of a session\<close>

record session_worker =
  sw_admission_deadline :: int
  sw_next_refresh :: int
  sw_message_window :: int
  sw_messages_in_window :: nat
  sw_refresh_sequence :: u64

definition refresh_interval :: int where "refresh_interval = 5 * 1000000000"

definition worker_start :: "('w, 'k, 's) host \<Rightarrow> 'w \<Rightarrow> session_worker \<times> 'w" where
  "worker_start host w =
     (case h_steady host w of (t1, w1) \<Rightarrow>
      case h_steady host w1 of (t2, w2) \<Rightarrow>
      case h_steady host w2 of (t3, w3) \<Rightarrow>
        (\<lparr>sw_admission_deadline = t1 + 3 * 1000000000, sw_next_refresh = t2 + refresh_interval,
          sw_message_window = t3, sw_messages_in_window = 0, sw_refresh_sequence = 10000\<rparr>, w3))"

text \<open>Nothing arrived: a trusted session asks for the neighbours of this node every five seconds.\<close>

definition refresh_session ::
  "('w, 'k, 's) host \<Rightarrow> session_worker \<Rightarrow> 'k app_state \<Rightarrow> session_ref \<Rightarrow> 'w \<Rightarrow>
     bool \<times> session_worker \<times> 'k app_state \<times> 'w" where
  "refresh_session host sw app r w =
     (if as_peer_id (ap_store app r) = None \<or> \<not> as_trusted (ap_store app r) then (True, sw, app, w)
      else case h_steady host w of (now, w1) \<Rightarrow>
        if now < sw_next_refresh sw then (True, sw, app, w1)
        else
          let sw1 = sw\<lparr>sw_refresh_sequence := sw_refresh_sequence sw + 1\<rparr> in
          (case send_control host app (Some r) CT_FIND_NODE (sw_refresh_sequence sw) (id_id (ap_identity app))
                  (serialize_find_node \<lparr>fn_target = id_id (ap_identity app)\<rparr>) (Some []) w1 of
             (False, app1, _, w2) \<Rightarrow> (False, sw1, app1, w2)
           | (True, app1, _, w2) \<Rightarrow>
               (case h_steady host w2 of (t, w3) \<Rightarrow>
                  (True, sw1\<lparr>sw_next_refresh := t + refresh_interval\<rparr>, app1, w3))))"

text \<open>The limit on the messages of a second.\<close>

definition count_message :: "int \<Rightarrow> session_worker \<Rightarrow> session_worker" where
  "count_message received_at sw =
     (let sw1 = (if 1000000000 \<le> received_at - sw_message_window sw
                 then sw\<lparr>sw_message_window := received_at, sw_messages_in_window := 0\<rparr> else sw)
      in sw1\<lparr>sw_messages_in_window := sw_messages_in_window sw1 + 1\<rparr>)"

text \<open>An iteration of the loop after its condition, which \<open>session_round\<close> tests first.\<close>

definition session_step ::
  "('w, 'k, 's) host \<Rightarrow> session_worker \<Rightarrow> 'k app_state \<Rightarrow> session_ref \<Rightarrow> 'w \<Rightarrow>
     (bool \<times> session_worker \<times> 'k app_state \<times> 'w) option" where
  "session_step host sw app r w =
     (case receive_on_session host app r (Some 200) w of
        None \<Rightarrow> None
      | Some (None, closed, app1, w1) \<Rightarrow>
          Some (if closed \<or> \<not> session_is_open app1 (Some r) then (False, sw, app1, w1)
                else refresh_session host sw app1 r w1)
      | Some (Some wire, closed, app1, w1) \<Rightarrow>
          Some (case h_steady host w1 of (received_at, w2) \<Rightarrow>
                  let sw1 = count_message received_at sw in
                  if MAX_MESSAGES_PER_SECOND < sw_messages_in_window sw1 then (False, sw1, app1, w2)
                  else case handle_wire host app1 r wire w2 of (go_on, app2, w3) \<Rightarrow> (go_on, sw1, app2, w3)))"

definition session_round ::
  "('w, 'k, 's) host \<Rightarrow> session_worker \<Rightarrow> 'k app_state \<Rightarrow> session_ref \<Rightarrow> 'w \<Rightarrow>
     (bool \<times> session_worker \<times> 'k app_state \<times> 'w) option" where
  "session_round host sw app r w =
     (if \<not> session_is_open app (Some r) then Some (False, sw, app, w)
      else if as_trusted (ap_store app r) then session_step host sw app r w
      else case h_steady host w of (now, w1) \<Rightarrow>
        if sw_admission_deadline sw \<le> now then Some (False, sw, app, w1) else session_step host sw app r w1)"

text \<open>What follows the loop.\<close>

definition session_end ::
  "('w, 'k, 's) host \<Rightarrow> 'k app_state \<Rightarrow> session_ref \<Rightarrow> 'w \<Rightarrow> 'k app_state \<times> 'w" where
  "session_end host app r w =
     (case close_session host app (Some r) w of (app1, w1) \<Rightarrow> remove_session host app1 r w1)"

section \<open>Requests of this node\<close>

definition drop_session ::
  "('w, 'k, 's) host \<Rightarrow> 'k app_state \<Rightarrow> session_ref \<Rightarrow> 'w \<Rightarrow> 'k app_state \<times> 'w" where
  "drop_session host app r w =
     (case remove_session host app r w of (app1, w1) \<Rightarrow> close_session host app1 (Some r) w1)"

definition tls_config_for :: "'k app_state \<Rightarrow> 'k tls_config" where
  "tls_config_for app =
     \<lparr>tc_identity_key = id_key (ap_identity app), tc_identity_id = id_id (ap_identity app),
      tc_generation = id_generation (ap_identity app)\<rparr>"

text \<open>A new session is registered and its peer becomes a neighbour, or the session is dropped.\<close>

definition adopt_session ::
  "('w, 'k, 's) host \<Rightarrow> 'k app_state \<Rightarrow> session_ref \<Rightarrow> node_contact \<Rightarrow> 'w \<Rightarrow> bool \<times> 'k app_state \<times> 'w" where
  "adopt_session host app r contact w =
     (case register_session app (Some r) of
        (False, app1) \<Rightarrow> (case drop_session host app1 r w of (app2, w1) \<Rightarrow> (False, app2, w1))
      | (True, app1) \<Rightarrow>
          (case activate_neighbor host app1 contact w of
             (False, app2, w1) \<Rightarrow> (case drop_session host app2 r w1 of (app3, w2) \<Rightarrow> (False, app3, w2))
           | (True, app2, w1) \<Rightarrow> (True, app2, w1)))"

text \<open>A new session to a peer that the table knows; \<open>r\<close> is the address of the new session.\<close>

definition open_query_session ::
  "('w, 'k, 's) host \<Rightarrow> 'k app_state \<Rightarrow> node_id \<Rightarrow> session_ref \<Rightarrow> 'w \<Rightarrow> bool \<times> 'k app_state \<times> 'w" where
  "open_query_session host app peer_id r w =
     (case kademlia_find (ap_kademlia app) peer_id of
        None \<Rightarrow> (False, app, w)
      | Some contact \<Rightarrow>
          (case parse_endpoint (h_pton4 host) (h_pton6 host) (nc_endpoint contact) of
             None \<Rightarrow> (False, app, w)
           | Some (address, port) \<Rightarrow>
               if port = 0 \<or> \<not> peer_is_trusted app peer_id then (False, app, w)
               else case transport_connect_tls (h_os host) (h_lib host) new_session (tls_config_for app) address
                           port (Some peer_id) 3000 (Some []) w of
                 (False, _, _, w1) \<Rightarrow> (False, app, w1)
               | (True, t, _, w1) \<Rightarrow>
                   let app1 = set_session app r (new_peer_session\<lparr>as_transport := t, as_trusted := True,
                         as_peer_id := Some peer_id, as_contact := contact\<rparr>)
                   in adopt_session host app1 r contact w1))"

definition ask_session ::
  "('w, 'k, 's) host \<Rightarrow> 'k app_state \<Rightarrow> session_ref \<Rightarrow> node_id \<Rightarrow> node_id \<Rightarrow> u64 \<Rightarrow> 'w \<Rightarrow>
     (node_contact list \<times> 'k app_state \<times> 'w) option" where
  "ask_session host app r peer_id target sequence w =
     (let give_up = (\<lambda>app w. case drop_session host app r w of (app', w') \<Rightarrow> Some ([], app', w')) in
      case send_control host app (Some r) CT_FIND_NODE sequence (id_id (ap_identity app))
             (serialize_find_node \<lparr>fn_target = target\<rparr>) (Some []) w of
        (False, app1, _, w1) \<Rightarrow> give_up app1 w1
      | (True, app1, _, w1) \<Rightarrow>
          (case receive_control host app1 r 3000 w1 of
             None \<Rightarrow> None
           | Some (None, app2, w2) \<Rightarrow> give_up app2 w2
           | Some (Some reply, app2, w2) \<Rightarrow>
               if cm_type reply \<noteq> CT_NEIGHBORS \<or> cm_sender reply \<noteq> peer_id then give_up app2 w2
               else case deserialize_neighbors (cm_payload reply) of
                 Inl _ \<Rightarrow> give_up app2 w2
               | Inr neighbors \<Rightarrow>
                   if \<not> list_all (valid_node_contact host (ap_config app2)) (nm_peers neighbors)
                   then give_up app2 w2
                   else Some (nm_peers neighbors, app2, w2)))"

definition query_peer ::
  "('w, 'k, 's) host \<Rightarrow> 'k app_state \<Rightarrow> node_id \<Rightarrow> node_id \<Rightarrow> u64 \<Rightarrow> session_ref \<Rightarrow> 'w \<Rightarrow>
     (node_contact list \<times> 'k app_state \<times> 'w) option" where
  "query_peer host app peer_id target sequence new_ref w =
     (case find_idle_session app peer_id of
        Some r \<Rightarrow> ask_session host app r peer_id target sequence w
      | None \<Rightarrow>
          (case open_query_session host app peer_id new_ref w of
             (False, app1, w1) \<Rightarrow> Some ([], app1, w1)
           | (True, app1, w1) \<Rightarrow> ask_session host app1 new_ref peer_id target sequence w1))"

definition announce_to_peer ::
  "('w, 'k, 's) host \<Rightarrow> 'k app_state \<Rightarrow> session_ref \<Rightarrow> u64 \<Rightarrow> 'w \<Rightarrow> (bool \<times> 'k app_state \<times> 'w) option" where
  "announce_to_peer host app r sequence w =
     (case send_control host app (Some r) CT_NODE_ANNOUNCE sequence (id_id (ap_identity app))
             (serialize_node_announce \<lparr>an_contact = ap_local_contact app, an_nonce = sequence\<rparr>) (Some []) w of
        (False, app1, _, w1) \<Rightarrow> Some (False, app1, w1)
      | (True, app1, _, w1) \<Rightarrow>
          (case receive_control host app1 r 3000 w1 of
             None \<Rightarrow> None
           | Some (None, app2, w2) \<Rightarrow> Some (False, app2, w2)
           | Some (Some reply, app2, w2) \<Rightarrow>
               Some (cm_type reply = CT_NODE_ANNOUNCE_ACK \<and>
                     as_peer_id (ap_store app2 r) = Some (cm_sender reply) \<and>
                     (case deserialize_node_announce_ack (cm_payload reply) of
                        Inl _ \<Rightarrow> False | Inr ack \<Rightarrow> ack_accepted ack), app2, w2)))"

section \<open>The reconnecting worker\<close>

text \<open>Is there an open session with this peer, or to its endpoint?\<close>

definition already_connected :: "'k app_state \<Rightarrow> trusted_peer \<Rightarrow> bool" where
  "already_connected app target \<longleftrightarrow>
     list_ex (\<lambda>r. session_is_open app (Some r) \<and>
       (as_peer_id (ap_store app r) = Some (tp_id target) \<or>
        nc_endpoint (as_contact (ap_store app r)) = tp_endpoint target)) (ap_sessions app)"

definition has_open_session :: "'k app_state \<Rightarrow> node_id \<Rightarrow> bool" where
  "has_open_session app peer_id \<longleftrightarrow>
     list_ex (\<lambda>r. as_peer_id (ap_store app r) = Some peer_id \<and> session_is_open app (Some r)) (ap_sessions app)"

text \<open>The contact of the response, when it does not contradict what the node knows of the peer.\<close>

definition reconnected_contact :: "'k app_state \<Rightarrow> trusted_peer \<Rightarrow> node_id \<Rightarrow> join_response \<Rightarrow> node_contact option" where
  "reconnected_contact app target peer_id response =
     (let contact = js_bootstrap_contact response;
          own = virtual_address (cfg_network (ap_config app)) peer_id
      in if (nc_id contact \<noteq> zero_node_id \<and> nc_id contact \<noteq> peer_id) \<or>
            (nc_public_key contact \<noteq> zero_public_key \<and> nc_public_key contact \<noteq> tp_public_key target) \<or>
            (nc_virtual_address contact \<noteq> zero_ipv6 \<and> nc_virtual_address contact \<noteq> own)
         then None
         else Some (contact\<lparr>nc_id := peer_id, nc_public_key := tp_public_key target,
                nc_endpoint := tp_endpoint target,
                nc_virtual_address := (if nc_virtual_address contact = zero_ipv6 then own
                                       else nc_virtual_address contact)\<rparr>))"

text \<open>The request and its answer on a new session; the contact when the peer accepted.\<close>

definition rejoin ::
  "('w, 'k, 's) host \<Rightarrow> 'k app_state \<Rightarrow> session_ref \<Rightarrow> trusted_peer \<Rightarrow> node_id \<Rightarrow> 'w \<Rightarrow>
     (node_contact option \<times> 'k app_state \<times> 'w) option" where
  "rejoin host app r target peer_id w =
     (case now_ms host w of (now, w1) \<Rightarrow>
      let sequence = ap_next_control_sequence app;
          request = \<lparr>jr_node_id = id_id (ap_identity app), jr_public_key = nc_public_key (ap_local_contact app),
            jr_virtual_address = nc_virtual_address (ap_local_contact app),
            jr_endpoint = nc_endpoint (ap_local_contact app), jr_timestamp = now, jr_nonce = 1001,
            jr_invite_token = []\<rparr>;
          app1 = app\<lparr>ap_next_control_sequence := sequence + 1\<rparr>
      in case send_control host app1 (Some r) CT_JOIN_REQUEST sequence (id_id (ap_identity app))
                (serialize_join_request request) (Some []) w1 of
           (False, app2, _, w2) \<Rightarrow> Some (None, app2, w2)
         | (True, app2, _, w2) \<Rightarrow>
             (case receive_control host app2 r 1500 w2 of
                None \<Rightarrow> None
              | Some (None, app3, w3) \<Rightarrow> Some (None, app3, w3)
              | Some (Some reply, app3, w3) \<Rightarrow>
                  Some ((if cm_type reply \<noteq> CT_JOIN_RESPONSE \<or> cm_sender reply \<noteq> peer_id then None
                         else case deserialize_join_response (cm_payload reply) of
                           Inl _ \<Rightarrow> None
                         | Inr response \<Rightarrow>
                             if \<not> js_accepted response then None
                             else reconnected_contact app3 target peer_id response), app3, w3)))"

definition reconnect_peer ::
  "('w, 'k, 's) host \<Rightarrow> 'k app_state \<Rightarrow> trusted_peer \<Rightarrow> session_ref \<Rightarrow> 'w \<Rightarrow> ('k app_state \<times> 'w) option" where
  "reconnect_peer host app target r w =
     (case parse_endpoint (h_pton4 host) (h_pton6 host) (tp_endpoint target) of
        None \<Rightarrow> Some (app, w)
      | Some (address, port) \<Rightarrow>
          if \<not> id_id (ap_identity app) < tp_id target \<or> port = 0 \<or> already_connected app target then Some (app, w)
          else case transport_connect_tls (h_os host) (h_lib host) new_session (tls_config_for app) address port
                      (Some (tp_id target)) 1000 (Some []) w of
            (False, _, _, w1) \<Rightarrow> Some (app, w1)
          | (True, t, _, w1) \<Rightarrow>
              let app1 = set_session app r (new_peer_session\<lparr>as_transport := t\<rparr>) in
              if ss_peer_node_id t \<noteq> Some (tp_id target) \<or> ts_peer_pubkey (ss_tls t) \<noteq> tp_public_key target \<or>
                 has_open_session app1 (tp_id target)
              then Some (close_session host app1 (Some r) w1)
              else case rejoin host app1 r target (tp_id target) w1 of
                None \<Rightarrow> None
              | Some (None, app2, w2) \<Rightarrow> Some (close_session host app2 (Some r) w2)
              | Some (Some contact, app2, w2) \<Rightarrow>
                  let app3 = set_session app2 r ((ap_store app2 r)\<lparr>as_trusted := True,
                        as_peer_id := Some (tp_id target), as_contact := contact\<rparr>)
                  in (case adopt_session host app3 r contact w2 of
                        (False, app4, w3) \<Rightarrow> Some (app4, w3)
                      | (True, app4, w3) \<Rightarrow> Some (mark_routing_dirty (start_session_worker app4 r), w3)))"

text \<open>\<open>fresh\<close> gives the address of the session that is made for a peer.\<close>

fun reconnect_peers ::
  "('w, 'k, 's) host \<Rightarrow> ('k app_state \<Rightarrow> session_ref) \<Rightarrow> trusted_peer list \<Rightarrow> 'k app_state \<Rightarrow> 'w \<Rightarrow>
     ('k app_state \<times> 'w) option" where
  "reconnect_peers host fresh [] app w = Some (app, w)"
| "reconnect_peers host fresh (target # rest) app w =
     (if id_id (ap_identity app) < tp_id target \<and> \<not> goes_on host w then Some (app, w)
      else case reconnect_peer host app target (fresh app) w of
        None \<Rightarrow> None
      | Some (app1, w1) \<Rightarrow> reconnect_peers host fresh rest app1 w1)"

definition reconnect_step ::
  "('w, 'k, 's) host \<Rightarrow> ('k app_state \<Rightarrow> session_ref) \<Rightarrow> 'k app_state \<Rightarrow> 'w \<Rightarrow> ('k app_state \<times> 'w) option" where
  "reconnect_step host fresh app w =
     (if \<not> goes_on host w then Some (app, w) else reconnect_peers host fresh (tr_peers (ap_trust app)) app w)"

end
