(* ===== verification/Node_Invariant.thy ===== *)
theory Node_Invariant
  imports Control
begin

text \<open>
  The invariant of a running node over every step of its workers: accepted sessions, messages of sessions, the
  routing worker, packets of the network device, reconnecting, and the queries of a joining node. A step is one
  round of a worker, run without interruption; between two steps the world may change in any way. Shown: the
  neighbours of a node are trusted, use their own virtual address and at most sixteen, every route leads through
  a connected neighbour, a session is trusted only when its peer is, no peer has two open sessions, and every
  contact is bound to its key.
\<close>

section \<open>Transports\<close>

text \<open>What no operation on an existing session does: change its peer or the key it has proved, or open it again.\<close>

definition same_link :: "transport_session \<Rightarrow> transport_session \<Rightarrow> bool" where
  "same_link t t' \<longleftrightarrow>
     ss_peer_node_id t' = ss_peer_node_id t \<and> ts_peer_pubkey (ss_tls t') = ts_peer_pubkey (ss_tls t) \<and>
     (ss_is_open t' \<longrightarrow> ss_is_open t)"

lemma same_link_refl [simp]: "same_link t t" by (simp add: same_link_def)

lemma same_link_trans: "same_link s t \<Longrightarrow> same_link t u \<Longrightarrow> same_link s u"
  by (auto simp: same_link_def)

lemma same_link_fields [simp]:
  "ts_peer_pubkey s = ts_peer_pubkey (ss_tls t) \<Longrightarrow> same_link (t\<lparr>ss_tls := s\<rparr>) u = same_link t u"
  "ts_peer_pubkey s = ts_peer_pubkey (ss_tls u) \<Longrightarrow> same_link t (u\<lparr>ss_tls := s\<rparr>) = same_link t u"
  "same_link t (u\<lparr>ss_recv_buffer := b\<rparr>) = same_link t u" "same_link (t\<lparr>ss_recv_buffer := b\<rparr>) u = same_link t u"
  by (simp_all add: same_link_def)

lemma close_same_link: "transport_close os lib s w = (s', w') \<Longrightarrow> same_link s s'"
  by (auto simp: transport_close_def same_link_def Let_def dest: tls_destroy_key split: prod.splits if_splits)

lemma send_same_link: "transport_send os lib s m err w = (ok, s', err', w') \<Longrightarrow> same_link s s'"
  by (auto simp: transport_send_def split: if_splits sum.splits prod.splits bool.splits
      dest!: close_same_link tls_send_key)

definition received_link :: "transport_session \<Rightarrow> 'w received \<Rightarrow> bool" where
  "received_link s r \<longleftrightarrow> same_link s (rc_session r)"

lemma receive_failure_link: "received_link s (receive_failure os lib s closed err w)"
  using close_same_link [of os lib s w]
  by (auto simp: receive_failure_def received_link_def split: prod.split)

lemma receive_end_link: "received_link s (receive_end os lib s err w)"
  using close_same_link [of os lib s w]
  by (auto simp: receive_end_def received_link_def split: prod.split)

lemma receive_timeout_link: "received_link s (receive_timeout os lib s err w)"
  by (simp add: receive_timeout_def receive_failure_link) (simp add: received_link_def)

lemma take_frame_link: "take_frame os lib s err w = Some r \<Longrightarrow> received_link s r"
  unfolding take_frame_def Let_def
  by (auto simp: receive_failure_link split: if_splits peek_result.splits sum.splits fault.splits)
    (simp add: received_link_def)

lemma received_link_tls:
  "ts_peer_pubkey t = ts_peer_pubkey (ss_tls s) \<Longrightarrow> received_link (s\<lparr>ss_tls := t\<rparr>) r = received_link s r"
  by (simp add: received_link_def)

lemma read_chunk_link:
  "case read_chunk os lib s err w of Inl r \<Rightarrow> received_link s r | Inr (s', _, _) \<Rightarrow> same_link s s'"
proof -
  have ended: "received_link s (receive_end os lib (s\<lparr>ss_tls := t\<rparr>) err w)"
    if "ts_peer_pubkey t = ts_peer_pubkey (ss_tls s)" for t err w
    using receive_end_link [of "s\<lparr>ss_tls := t\<rparr>"] that by (simp add: received_link_tls)
  have timed_out: "received_link s (receive_timeout os lib (s\<lparr>ss_tls := t\<rparr>) err w)"
    if "ts_peer_pubkey t = ts_peer_pubkey (ss_tls s)" for t err w
    using receive_timeout_link [of "s\<lparr>ss_tls := t\<rparr>"] that by (simp add: received_link_tls)
  show ?thesis
    unfolding read_chunk_def Let_def
    by (auto simp: receive_failure_link receive_end_link receive_timeout_link ended timed_out dest!: tls_receive_key
        split: prod.split tls_read.split sum.split list.split)
qed

lemma receive_loop_link: "receive_loop os lib s err w = Some r \<Longrightarrow> received_link s r"
proof (rule receive_loop.raw_induct [where P = "\<lambda>os lib s err w r. received_link s r"])
  fix loop os lib s err w and r :: "'a received"
  assume IH: "\<And>os lib s err w r. loop os lib s err w = Some r \<Longrightarrow> received_link s r"
    and body: "(case take_frame os lib s err w of
        None \<Rightarrow> (case read_chunk os lib s err w of
            Inl r \<Rightarrow> Some r | Inr (s, err1, w1) \<Rightarrow> loop os lib s err1 w1)
      | Some r \<Rightarrow> Some r) = Some r"
  show "received_link s r"
  proof (cases "take_frame os lib s err w")
    case (Some r')
    then show ?thesis using body take_frame_link by simp
  next
    case None
    then show ?thesis
      using body read_chunk_link [where os = os and lib = lib and s = s and err = err and w = w] IH same_link_trans
      by (fastforce simp: received_link_def split: sum.splits prod.splits)
  qed
qed

lemma receive_same_link:
  "transport_receive os lib s timeout err w = Some r \<Longrightarrow> same_link s (rc_session r)"
  using receive_loop_link by (fastforce simp: transport_receive_def received_link_def Let_def split: if_splits)

section \<open>Changes that the invariant does not see\<close>

definition kept_session :: "app_peer_session \<Rightarrow> app_peer_session \<Rightarrow> bool" where
  "kept_session s s' \<longleftrightarrow>
     as_peer_id s' = as_peer_id s \<and> as_trusted s' = as_trusted s \<and> same_link (as_transport s) (as_transport s')"

definition quiet :: "'k app_state \<Rightarrow> 'k app_state \<Rightarrow> bool" where
  "quiet app app' \<longleftrightarrow>
     ap_config app' = ap_config app \<and> id_id (ap_identity app') = id_id (ap_identity app) \<and>
     ap_trust app' = ap_trust app \<and> vn_address (ap_vnet app') = vn_address (ap_vnet app) \<and>
     ap_kademlia app' = ap_kademlia app \<and> ap_topology app' = ap_topology app \<and>
     ap_routing_table app' = ap_routing_table app \<and>
     ap_route_advertisements app' = ap_route_advertisements app \<and> ap_sessions app' = ap_sessions app \<and>
     (\<forall>r. kept_session (ap_store app r) (ap_store app' r))"

named_theorems quiet_step \<open>operations that the invariant does not see\<close>

lemma quiet_refl [simp]: "quiet app app" by (simp add: quiet_def kept_session_def)

lemma quiet_trans: "quiet a b \<Longrightarrow> quiet b c \<Longrightarrow> quiet a c"
  by (auto simp: quiet_def kept_session_def dest: same_link_trans)

lemma quiet_fields [simp]:
  "quiet app (count_data f app') = quiet app app'" "quiet app (count_routing g app') = quiet app app'"
  "quiet app (app'\<lparr>ap_outbound_ports := ports\<rparr>) = quiet app app'"
  "quiet app (app'\<lparr>ap_next_packet_id := n\<rparr>) = quiet app app'"
  "quiet app (app'\<lparr>ap_next_control_sequence := n\<rparr>) = quiet app app'"
  "quiet app (app'\<lparr>ap_next_route_sequence := n\<rparr>) = quiet app app'"
  "quiet app (app'\<lparr>ap_routing_dirty := b\<rparr>) = quiet app app'"
  "quiet app (mark_routing_dirty app') = quiet app app'"
  by (simp_all add: quiet_def count_data_def count_routing_def mark_routing_dirty_def)

lemma quiet_transport:
  "same_link (as_transport (ap_store app r)) t \<Longrightarrow>
     quiet app (set_session app r ((ap_store app r)\<lparr>as_transport := t\<rparr>))"
  by (simp add: quiet_def set_session_def kept_session_def)

lemma send_on_session_quiet [quiet_step]:
  "send_on_session host app r m err w = (ok, app', err', w') \<Longrightarrow> quiet app app'"
  using send_same_link
  by (fastforce simp: send_on_session_def intro: quiet_transport split: option.splits prod.splits)

lemma send_control_quiet [quiet_step]:
  "send_control host app r ty seq sender payload err w = (ok, app', err', w') \<Longrightarrow> quiet app app'"
  unfolding send_control_def by (rule send_on_session_quiet)

lemma close_session_quiet [quiet_step]: "close_session host app r w = (app', w') \<Longrightarrow> quiet app app'"
  using close_same_link
  by (fastforce simp: close_session_def intro: quiet_transport split: option.splits prod.splits)

lemma receive_on_session_quiet [quiet_step]:
  "receive_on_session host app r timeout w = Some (m, closed, app', w') \<Longrightarrow> quiet app app'"
  using receive_same_link by (fastforce simp: receive_on_session_def intro: quiet_transport)

lemma receive_control_quiet [quiet_step]:
  "receive_control host app r timeout w = Some (m, app', w') \<Longrightarrow> quiet app app'"
  by (auto simp: receive_control_def split: option.splits prod.splits dest: receive_on_session_quiet)

text \<open>The data plane touches counters, ports and transports.\<close>

lemma quiet_vnet [simp]:
  "vn_address v = vn_address (ap_vnet app') \<Longrightarrow> quiet app (app'\<lparr>ap_vnet := v\<rparr>) = quiet app app'"
  by (simp add: quiet_def)

lemma delivery_allowed_quiet:
  "delivery_allowed host app payload w = (ok, app', w') \<Longrightarrow> quiet app app'"
proof -
  assume "delivery_allowed host app payload w = (ok, app', w')"
  moreover have "recently_used host a port v = (b, a', v') \<Longrightarrow> quiet a a'" for a port v b a' v'
    by (auto simp: recently_used_def Let_def split: option.splits prod.splits if_splits)
  ultimately show ?thesis
    by (auto simp: delivery_allowed_def Let_def split: if_splits)
qed

lemma deliver_packet_quiet: "deliver_packet host p (app, err, w) = (app', err', w') \<Longrightarrow> quiet app app'"
  by (auto simp: deliver_packet_def Let_def split: prod.splits bool.splits dest: delivery_allowed_quiet)

lemma transmit_packet_quiet: "transmit_packet host origin n p (app, err, w) = (app', err', w') \<Longrightarrow> quiet app app'"
  by (auto simp: transmit_packet_def Let_def split: prod.splits bool.splits option.splits if_splits
      dest: send_on_session_quiet)

lemma forward_data_packet_quiet [quiet_step]:
  assumes "forward_data_packet host app p origin err w = (r, app', err', w')"
  shows "quiet app app'"
  using assms unfolding forward_data_packet_decide
  by (auto split: verdict.splits dest: deliver_packet_quiet transmit_packet_quiet)

lemma handle_data_message_quiet [quiet_step]:
  assumes run: "handle_data_message host app wire err w = (ok, app', err', w')"
  shows "quiet app app'"
proof (cases "\<exists>p. data_packet_of wire = Some p \<and> ipv6_well_formed app (dp_payload p) \<and> addresses_match app p")
  case True
  then obtain p where p: "data_packet_of wire = Some p" "ipv6_well_formed app (dp_payload p)" "addresses_match app p"
    by blast
  obtain r a e v where forwarded: "forward_data_packet host (count_received app) p False err w = (r, a, e, v)"
    by (metis prod_cases4)
  have "quiet app (count_received app)" by (simp add: count_received_def)
  moreover have "quiet (count_received app) app'"
    using run handle_data_message_good [OF p, of host err w] forward_data_packet_quiet [OF forwarded] forwarded
    by simp
  ultimately show ?thesis by (rule quiet_trans)
next
  case False
  then obtain f where "app' = count_data f app" using handle_data_message_bad [OF _ run] by blast
  then show ?thesis by simp
qed

lemma data_plane_round_quiet [quiet_step]:
  assumes run: "data_plane_round host app w = (app', w')"
  shows "quiet app app'"
proof -
  have tun: "quiet a a'" if handled: "handle_tun_packet host a raw v = (a', v')" for a raw v a' v'
  proof (cases "outgoing_packet a raw")
    case None
    then show ?thesis using handle_tun_packet_outgoing [OF handled] by auto
  next
    case (Some p)
    then obtain ports w1 r err where forwarded: "forward_data_packet host
        (a\<lparr>ap_outbound_ports := ports, ap_next_packet_id := ap_next_packet_id a + 1\<rparr>) p True (Some []) w1 =
        (r, a', err, v')"
      using handle_tun_packet_outgoing [OF handled] by auto
    have "quiet a (a\<lparr>ap_outbound_ports := ports, ap_next_packet_id := ap_next_packet_id a + 1\<rparr>)" by simp
    then show ?thesis using forward_data_packet_quiet [OF forwarded] by (rule quiet_trans)
  qed
  obtain packet err w1 where
    "tun_read_packet (h_tun host) (vn_tun (ap_vnet app)) MAX_DATA_PAYLOAD_LIMIT 200 None w = (packet, err, w1)"
    by (metis prod_cases3)
  note unfolded = run [unfolded data_plane_round_def this prod.case]
  have counted: "quiet app (count_data f app)" for f by simp
  show ?thesis
    using unfolded quiet_trans [OF counted tun] by (cases "packet = []") auto
qed

text \<open>So does sending hellos and advertisements.\<close>

lemma send_hello_quiet:
  assumes "send_hello host now r (app, err, w) = (app', err', w')"
  shows "quiet app app'"
proof -
  let ?app1 = "app\<lparr>ap_next_control_sequence := ap_next_control_sequence app + 1\<rparr>"
  have "quiet ?app1 app'"
    using assms by (auto simp: send_hello_def Let_def split: prod.splits dest: send_control_quiet)
  moreover have "quiet app ?app1" by simp
  ultimately show ?thesis using quiet_trans by blast
qed

lemma send_advertisement_quiet:
  assumes "send_advertisement host r (app, err, w) = (app', err', w')"
  shows "quiet app app'"
proof -
  let ?app1 = "app\<lparr>ap_next_route_sequence := ap_next_route_sequence app + 1,
    ap_next_control_sequence := ap_next_control_sequence app + 1\<rparr>"
  have "quiet ?app1 app'"
    using assms by (auto simp: send_advertisement_def Let_def split: prod.splits if_splits dest: send_control_quiet)
  moreover have "quiet app ?app1" by simp
  ultimately show ?thesis using quiet_trans by blast
qed

lemma send_to_sessions_quiet [quiet_step]:
  "send_to_sessions host now hello adv rs app w = (app', w') \<Longrightarrow> quiet app app'"
proof (induction rs arbitrary: app w)
  case (Cons r rs)
  obtain app1 err1 w1 where s1: "(if hello then send_hello host now r (app, Some [], w) else (app, Some [], w)) =
      (app1, err1, w1)" by (metis prod_cases3)
  obtain app2 err2 w2 where s2: "(if adv then send_advertisement host r (app1, err1, w1) else (app1, err1, w1)) =
      (app2, err2, w2)" by (metis prod_cases3)
  have "quiet app app1" using s1 by (cases hello) (auto dest: send_hello_quiet)
  moreover have "quiet app1 app2" using s2 by (cases adv) (auto dest: send_advertisement_quiet)
  moreover have "quiet app2 app'"
    using Cons.prems by (intro Cons.IH [of app2 w2]) (simp add: s1 s2)
  ultimately show ?case using quiet_trans by blast
qed simp

section \<open>The invariant\<close>

definition session_ok :: "'k app_state \<Rightarrow> app_peer_session \<Rightarrow> bool" where
  "session_ok app s \<longleftrightarrow>
     as_peer_id s \<noteq> None \<and> ss_peer_node_id (as_transport s) = as_peer_id s \<and>
     (as_trusted s \<longrightarrow> peer_is_trusted app (the (as_peer_id s)))"

definition sessions_ok :: "'k app_state \<Rightarrow> bool" where
  "sessions_ok app \<longleftrightarrow>
     distinct (ap_sessions app) \<and> length (ap_sessions app) \<le> MAX_PEER_SESSIONS \<and>
     (\<forall>r\<in>set (ap_sessions app). session_ok app (ap_store app r)) \<and>
     (\<forall>r\<in>set (ap_sessions app). \<forall>r'\<in>set (ap_sessions app).
        session_is_open app (Some r) \<and> session_is_open app (Some r') \<and>
        as_peer_id (ap_store app r) = as_peer_id (ap_store app r') \<longrightarrow> r = r')"

definition contacts_ok :: "('w, 'k, 's) host \<Rightarrow> 'k app_state \<Rightarrow> bool" where
  "contacts_ok host app \<longleftrightarrow>
     known_table (ap_kademlia app) \<and> kt_local_id (ap_kademlia app) = id_id (ap_identity app) \<and>
     (\<forall>c\<in>set (all_contacts (ap_kademlia app)).
        bound_identity (h_digest host) c \<and>
        nc_virtual_address c = virtual_address (cfg_network (ap_config app)) (nc_id c))"

definition rest_ok :: "('w, 'k, 's) host \<Rightarrow> 'k app_state \<Rightarrow> bool" where
  "rest_ok host app \<longleftrightarrow>
     sessions_ok app \<and> contacts_ok host app \<and> table_sorted (tr_peers (ap_trust app)) \<and>
     vn_address (ap_vnet app) = virtual_address (cfg_network (ap_config app)) (id_id (ap_identity app))"

definition node_ok :: "('w, 'k, 's) host \<Rightarrow> 'k app_state \<Rightarrow> bool" where
  "node_ok host app \<longleftrightarrow> neighbors_ok app \<and> routes_ok app \<and> rest_ok host app"

lemma sessions_ok_quiet: "quiet app app' \<Longrightarrow> sessions_ok app \<Longrightarrow> sessions_ok app'"
  unfolding sessions_ok_def quiet_def kept_session_def same_link_def session_ok_def session_is_open_def
    transport_is_open_def peer_is_trusted_def
  by simp

lemma node_ok_quiet: "quiet app app' \<Longrightarrow> node_ok host app \<Longrightarrow> node_ok host app'"
  using sessions_ok_quiet [of app app']
  by (auto simp: node_ok_def rest_ok_def neighbors_ok_def routes_ok_def contacts_ok_def neighbor_ok_def
      peer_is_trusted_def quiet_def)

lemma rest_ok_neighbor_change: "neighbor_change app app' \<Longrightarrow> rest_ok host app \<Longrightarrow> rest_ok host app'"
  by (auto simp: neighbor_change_def rest_ok_def sessions_ok_def contacts_ok_def session_ok_def
      session_is_open_def peer_is_trusted_def)

lemma node_ok_neighbor_change:
  "neighbors_ok app' \<Longrightarrow> routes_ok app' \<Longrightarrow> neighbor_change app app' \<Longrightarrow> node_ok host app \<Longrightarrow> node_ok host app'"
  unfolding node_ok_def using rest_ok_neighbor_change by blast

section \<open>Sessions\<close>

lemma session_ok_frame:
  "session_ok (set_session app r s) = session_ok app" "session_ok (app\<lparr>ap_sessions := rs\<rparr>) = session_ok app"
  by (auto simp: fun_eq_iff session_ok_def peer_is_trusted_def set_session_def)

lemma sessions_ok_fresh:
  assumes "r \<notin> set (ap_sessions app)"
  shows "sessions_ok (set_session app r s) = sessions_ok app"
proof -
  have other: "r' \<noteq> r" if "r' \<in> set (ap_sessions app)" for r' using that assms by blast
  show ?thesis
    unfolding sessions_ok_def session_ok_frame
    by (auto simp: set_session_def session_is_open_def other)
qed

lemma rest_ok_fresh:
  assumes "r \<notin> set (ap_sessions app)"
  shows "rest_ok host (set_session app r s) = rest_ok host app"
proof -
  have "contacts_ok host (set_session app r s) = contacts_ok host app"
    by (simp add: contacts_ok_def set_session_def)
  then show ?thesis using sessions_ok_fresh [OF assms] by (simp add: rest_ok_def) (simp add: set_session_def)
qed

lemma node_ok_fresh: "r \<notin> set (ap_sessions app) \<Longrightarrow> node_ok host (set_session app r s) = node_ok host app"
  by (simp add: node_ok_def app_frame rest_ok_fresh)

lemma node_ok_sessions:
  "sessions_ok (app\<lparr>ap_sessions := rs\<rparr>) \<Longrightarrow> node_ok host app \<Longrightarrow> node_ok host (app\<lparr>ap_sessions := rs\<rparr>)"
  by (simp add: node_ok_def app_frame rest_ok_def) (simp add: contacts_ok_def)

lemma register_session_keeps:
  assumes run: "register_session app (Some r) = (ok, app')" and inv: "node_ok host app"
    and new: "r \<notin> set (ap_sessions app)" "session_ok app (ap_store app r)"
  shows "node_ok host app' \<and> ap_store app' = ap_store app \<and>
    (if ok then ap_sessions app' = ap_sessions app @ [r] else app' = app)"
proof (cases ok)
  case False
  then show ?thesis using run inv by (auto simp: register_session_def split: option.splits if_splits)
next
  case True
  have "app' = app\<lparr>ap_sessions := ap_sessions app @ [r]\<rparr> \<and> length (ap_sessions app) < MAX_PEER_SESSIONS \<and>
    (\<forall>q\<in>set (ap_sessions app). as_peer_id (ap_store app q) = as_peer_id (ap_store app r) \<longrightarrow>
       \<not> session_is_open app (Some q))"
    using run True by (auto simp: register_session_def find_None_iff_all split: option.splits if_splits)
  then have result: "app' = app\<lparr>ap_sessions := ap_sessions app @ [r]\<rparr>"
    "length (ap_sessions app) < MAX_PEER_SESSIONS"
    and alone: "\<forall>q\<in>set (ap_sessions app). as_peer_id (ap_store app q) = as_peer_id (ap_store app r) \<longrightarrow>
       \<not> session_is_open app (Some q)"
    by blast+
  have old: "sessions_ok app" using inv by (simp add: node_ok_def rest_ok_def)
  have open_frame: "session_is_open app' q = session_is_open app q" for q
    by (cases q) (simp_all add: result session_is_open_def)
  have "sessions_ok app'"
    using old new alone result(2) unfolding sessions_ok_def open_frame
    unfolding result(1) session_ok_frame by auto
  then show ?thesis using True result(1) node_ok_sessions [OF _ inv] by simp
qed

lemma remove_session_keeps:
  assumes run: "remove_session host app r w = (app', w')" and inv: "node_ok host app"
  shows "node_ok host app'"
proof (cases "r \<in> set (ap_sessions app)")
  case False
  then show ?thesis using run inv by (simp add: remove_session_def)
next
  case True
  let ?app1 = "app\<lparr>ap_sessions := remove_first (\<lambda>q. q = r) (ap_sessions app)\<rparr>"
  have old: "sessions_ok app" using inv by (simp add: node_ok_def rest_ok_def)
  have open_frame: "session_is_open ?app1 q = session_is_open app q" for q
    by (cases q) (simp_all add: session_is_open_def)
  have sub: "set (remove_first (\<lambda>q. q = r) (ap_sessions app)) \<subseteq> set (ap_sessions app)"
    by (rule set_remove_first_subset)
  have keyed: "keyed MAX_PEER_SESSIONS id (ap_sessions app)"
    using old by (simp add: sessions_ok_def keyed_def)
  have "sessions_ok ?app1"
    using old sub keyed_remove_first [OF keyed, of "\<lambda>q. q = r"]
    unfolding sessions_ok_def open_frame session_ok_frame keyed_def by auto
  then have ok: "node_ok host ?app1" using node_ok_sessions inv by blast
  show ?thesis
  proof (cases "as_peer_id (ap_store app r)")
    case None
    then show ?thesis using run True ok by (simp add: remove_session_def Let_def)
  next
    case (Some n)
    then have "deactivate_neighbor host ?app1 n w = (app', w')"
      using run True by (simp add: remove_session_def Let_def)
    from deactivate_neighbor_keeps [OF this] show ?thesis
      using ok node_ok_neighbor_change by (auto simp: node_ok_def)
  qed
qed

lemma activate_keeps_node:
  "activate_neighbor host app contact w = (ok, app', w') \<Longrightarrow> node_ok host app \<Longrightarrow> node_ok host app'"
  using activate_neighbor_keeps node_ok_neighbor_change by (metis node_ok_def)

lemma touch_keeps_node: "touch_neighbor host app n w = (app', w') \<Longrightarrow> node_ok host app \<Longrightarrow> node_ok host app'"
  using touch_neighbor_keeps node_ok_neighbor_change by (metis node_ok_def)

lemma rebuild_keeps_node:
  assumes "rebuild_routing_table host app w = (app', w')" "neighbors_ok app" "rest_ok host app"
  shows "node_ok host app'"
  using rebuild_keeps [OF assms(1,2)] rest_ok_neighbor_change [OF _ assms(3)] by (simp add: node_ok_def)

lemma drop_session_keeps:
  assumes "drop_session host app r w = (app', w')" "node_ok host app"
  shows "node_ok host app'"
proof -
  obtain app1 w1 where removed: "remove_session host app r w = (app1, w1)" by fastforce
  then have "close_session host app1 (Some r) w1 = (app', w')" using assms(1) by (simp add: drop_session_def)
  from node_ok_quiet [OF close_session_quiet [OF this] remove_session_keeps [OF removed assms(2)]]
  show ?thesis .
qed

lemma session_end_keeps:
  assumes "session_end host app r w = (app', w')" "node_ok host app"
  shows "node_ok host app'"
proof -
  obtain app1 w1 where closed: "close_session host app (Some r) w = (app1, w1)" by fastforce
  then have "remove_session host app1 r w1 = (app', w')" using assms(1) by (simp add: session_end_def)
  from remove_session_keeps [OF this node_ok_quiet [OF close_session_quiet [OF closed] assms(2)]]
  show ?thesis .
qed

lemma quiet_session_fields:
  "quiet app (set_session app r ((ap_store app r)\<lparr>as_contact := c\<rparr>))"
  "quiet app (set_session app r ((ap_store app r)\<lparr>as_worker_started := b\<rparr>))"
  by (simp_all add: quiet_def set_session_def kept_session_def)

lemma start_worker_quiet: "quiet app (start_session_worker app r)"
  by (simp add: start_session_worker_def Let_def quiet_session_fields)

lemma bind_session_keeps:
  assumes "bind_session host app r contact w = (ok, app', w')" "node_ok host app"
  shows "node_ok host app'"
  using assms node_ok_quiet [OF quiet_session_fields(1) assms(2)]
  by (auto simp: bind_session_def Let_def split: if_splits dest: activate_keeps_node)

lemma accept_round_keeps:
  assumes run: "accept_round host server r app w = (app', w')" and inv: "node_ok host app"
    and fresh: "r \<notin> set (ap_sessions app)"
  shows "node_ok host app'"
proof -
  obtain ok t err w1 where accept:
    "transport_accept (h_os host) (h_lib host) server new_session (Some 200) (Some []) w = (ok, t, err, w1)"
    by (metis prod_cases4)
  note unfolded = run [unfolded accept_round_def accept prod.case]
  show ?thesis
  proof (cases ok)
    case False
    then show ?thesis using unfolded inv by simp
  next
    case True
    show ?thesis
    proof (cases "if h_running host w1 then ss_peer_node_id t else None")
      case None
      then have "close_session host (set_session app r (new_peer_session\<lparr>as_transport := t\<rparr>)) (Some r) w1 = (app', w')"
        using unfolded True by simp
      from close_session_quiet [OF this] show ?thesis using node_ok_quiet node_ok_fresh [OF fresh] inv by blast
    next
      case (Some n)
      obtain now w2 where clock: "now_ms host w1 = (now, w2)" by fastforce
      define s where "s = new_peer_session\<lparr>as_transport := t, as_peer_id := Some n,
        as_contact := \<lparr>nc_id = n, nc_public_key = ts_peer_pubkey (ss_tls t),
          nc_virtual_address = virtual_address (cfg_network (ap_config app)) n,
          nc_endpoint = ss_remote_endpoint t, nc_last_seen_ms = now, nc_rtt_ms = 0, nc_failed_pings = 0\<rparr>\<rparr>"
      obtain ok2 app2 where reg: "register_session (set_session app r s) (Some r) = (ok2, app2)" by fastforce
      have "ss_peer_node_id t = Some n" using Some by (simp split: if_splits)
      then have "session_ok (set_session app r s) (ap_store (set_session app r s) r)"
        by (simp add: session_ok_frame) (simp add: session_ok_def set_session_def s_def new_peer_session_def)
      moreover have "r \<notin> set (ap_sessions (set_session app r s))" using fresh by (simp add: set_session_def)
      ultimately have ok: "node_ok host app2"
        using register_session_keeps [OF reg] node_ok_fresh [OF fresh] inv by blast
      have "(if ok2 then (start_session_worker app2 r, w2) else close_session host app2 (Some r) w2) = (app', w')"
        using unfolded True Some clock reg by (simp add: s_def Let_def split: bool.splits)
      then show ?thesis
        using node_ok_quiet [OF start_worker_quiet ok] node_ok_quiet [OF close_session_quiet ok]
        by (cases ok2) auto
    qed
  qed
qed

section \<open>Trust\<close>

lemma trust_contains_add:
  assumes "trust_add pton4 pton6 sha256 fs state peer err w = (True, state', err', w')"
    and "table_sorted (tr_peers state)"
  shows "table_sorted (tr_peers state')"
    and "trust_contains state' n \<longleftrightarrow> trust_contains state n \<or> n = tp_id peer"
proof -
  note result = trust_add_result(1) [OF assms(1)]
  show sorted: "table_sorted (tr_peers state')" using put_peer_facts [OF assms(2)] by (simp add: result)
  show "trust_contains state' n \<longleftrightarrow> trust_contains state n \<or> n = tp_id peer"
    using trust_find_map [OF sorted] trust_find_map [OF assms(2)] put_peer_map [OF assms(2)]
    by (simp add: trust_contains_def result)
qed

lemma node_ok_trust:
  assumes "node_ok host app" "table_sorted (tr_peers t)"
    and "\<And>n. trust_contains (ap_trust app) n \<Longrightarrow> trust_contains t n"
  shows "node_ok host (app\<lparr>ap_trust := t\<rparr>)"
  using assms
  by (auto simp: node_ok_def neighbors_ok_def routes_ok_def rest_ok_def sessions_ok_def contacts_ok_def
      session_ok_def neighbor_ok_def peer_is_trusted_def session_is_open_def)

lemma admit_peer_keeps:
  assumes run: "admit_peer host app request w = (ok, app', w')" and inv: "node_ok host app"
  shows "node_ok host app' \<and> ap_store app' = ap_store app \<and> (ok \<longrightarrow> peer_is_trusted app' (jr_node_id request))"
proof -
  obtain decision w1 where decide: "admission host app request w = (decision, w1)" by fastforce
  let ?peer = "\<lparr>tp_id = jr_node_id request, tp_public_key = jr_public_key request,
    tp_endpoint = jr_endpoint request\<rparr>"
  obtain added t err w2 where add: "trust_add (h_pton4 host) (h_pton6 host) (h_digest host) (h_fs host)
      (ap_trust app) ?peer (Some []) w1 = (added, t, err, w2)" by (metis prod_cases4)
  note unfolded = run [unfolded admit_peer_def decide prod.case add]
  show ?thesis
  proof (cases "decision \<and> added")
    case True
    have sorted: "table_sorted (tr_peers (ap_trust app))" using inv by (simp add: node_ok_def rest_ok_def)
    note facts = trust_contains_add [OF add [unfolded True [THEN conjunct2, THEN eqTrueI]] sorted]
    have "app' = app\<lparr>ap_trust := t\<rparr>" using unfolded True by simp
    then show ?thesis
      using node_ok_trust [OF inv facts(1)] facts(2) by (simp add: peer_is_trusted_def)
  next
    case False
    have "t = ap_trust app" if "\<not> added" using add that by (auto dest: trust_add_refused)
    then have "app' = app" "\<not> ok" using unfolded False by (cases decision; simp)+
    then show ?thesis using inv by simp
  qed
qed

lemma node_ok_trust_session:
  assumes "node_ok host app" "r \<in> set (ap_sessions app) \<Longrightarrow> peer_is_trusted app (the (as_peer_id (ap_store app r)))"
  shows "node_ok host (trust_session app r)"
proof (cases "r \<in> set (ap_sessions app)")
  case True
  have old: "sessions_ok app" using assms(1) by (simp add: node_ok_def rest_ok_def)
  have ok: "session_ok (trust_session app r) (ap_store (trust_session app r) q)" if "q \<in> set (ap_sessions app)" for q
    using old that assms(2) [OF True]
    by (cases "q = r") (simp_all add: sessions_ok_def session_ok_def trust_session_def set_session_def peer_is_trusted_def)
  have same: "session_is_open (trust_session app r) (Some q) = session_is_open app (Some q)"
    "as_peer_id (ap_store (trust_session app r) q) = as_peer_id (ap_store app q)"
    "ap_sessions (trust_session app r) = ap_sessions app" for q
    by (simp_all add: trust_session_def set_session_def session_is_open_def)
  have "sessions_ok (trust_session app r)"
    using old ok unfolding sessions_ok_def same by simp
  then show ?thesis
    using assms(1)
    by (simp add: trust_session_def node_ok_def app_frame rest_ok_def) (simp add: set_session_def contacts_ok_def)
next
  case False
  then show ?thesis using assms(1) by (simp add: trust_session_def node_ok_fresh)
qed

lemma receive_join_request_keeps:
  assumes run: "receive_join_request host app r incoming w = (ok, app', w')" and inv: "node_ok host app"
  shows "node_ok host app'"
proof (cases "checked_join_request host app (as_transport (ap_store app r)) (cm_payload incoming)")
  case None
  then show ?thesis using run inv by (simp add: receive_join_request_def)
next
  case (Some request)
  obtain admitted app1 w1 where admit: "admit_peer host app request w = (admitted, app1, w1)" by (metis prod_cases3)
  note kept = admit_peer_keeps [OF admit inv]
  obtain sent app2 err w2 where reject: "send_control host app1 (Some r) CT_JOIN_RESPONSE
      (cm_sequence_number incoming) (id_id (ap_identity app1)) (serialize_join_response (rejection app1)) None w1 =
      (sent, app2, err, w2)" by (metis prod_cases4)
  note unfolded = run [unfolded receive_join_request_def Some option.case admit prod.case reject]
  show ?thesis
  proof (cases admitted)
    case True
    have peer: "ss_peer_node_id (as_transport (ap_store app r)) = Some (jr_node_id request)"
      using Some by (auto simp: checked_join_request_def split: sum.splits if_splits)
    have "node_ok host (trust_session app1 r)"
    proof (rule node_ok_trust_session)
      show "node_ok host app1" using kept by blast
      assume "r \<in> set (ap_sessions app1)"
      moreover have "sessions_ok app1" using kept by (simp add: node_ok_def rest_ok_def)
      ultimately have "session_ok app1 (ap_store app1 r)" by (simp add: sessions_ok_def)
      then have "the (as_peer_id (ap_store app1 r)) = jr_node_id request"
        using peer kept by (auto simp: session_ok_def)
      then show "peer_is_trusted app1 (the (as_peer_id (ap_store app1 r)))" using kept True by simp
    qed
    then show ?thesis using unfolded True by simp
  next
    case False
    then show ?thesis
      using unfolded node_ok_quiet [OF send_control_quiet [OF reject] kept [THEN conjunct1]] by simp
  qed
qed

section \<open>Contacts\<close>

definition good_contact :: "('w, 'k, 's) host \<Rightarrow> ipv6 \<Rightarrow> node_contact \<Rightarrow> bool" where
  "good_contact host network c \<longleftrightarrow>
     bound_identity (h_digest host) c \<and> nc_virtual_address c = virtual_address network (nc_id c)"

lemma contacts_ok_iff:
  "contacts_ok host app \<longleftrightarrow>
     known_table (ap_kademlia app) \<and> kt_local_id (ap_kademlia app) = id_id (ap_identity app) \<and>
     (\<forall>c\<in>set (all_contacts (ap_kademlia app)). good_contact host (cfg_network (ap_config app)) c)"
  by (auto simp: contacts_ok_def good_contact_def)

lemma insert_good:
  assumes "known_table t" "contact_ok c" "good_contact host network c"
    "\<forall>d\<in>set (all_contacts t). good_contact host network d"
  shows "\<forall>d\<in>set (all_contacts (snd (kademlia_insert t c None))). good_contact host network d"
proof
  fix d assume d: "d \<in> set (all_contacts (snd (kademlia_insert t c None)))"
  have "kademlia_inv t" "is_node_id (nc_id c)" using assms(1,2) by (simp_all add: known_table_def contact_ok_def)
  from insert_sources [OF this d] show "good_contact host network d"
    using assms(3,4) by (auto simp: good_contact_def bound_identity_def)
qed

lemma insert_contacts_good:
  assumes "known_table t" "list_all contact_ok cs" "list_all (good_contact host network) cs"
    "\<forall>d\<in>set (all_contacts t). good_contact host network d"
  shows "\<forall>d\<in>set (all_contacts (insert_contacts t cs)). good_contact host network d"
  using assms
proof (induction t cs rule: insert_contacts.induct)
  case (2 t c cs)
  let ?t = "if nc_id c \<noteq> kt_local_id t then snd (kademlia_insert t c None) else t"
  have c: "contact_ok c" "good_contact host network c" using "2.prems"(2,3) by simp_all
  have known: "known_table ?t" using "2.prems"(1) known_table_insert [OF "2.prems"(1) c(1)] by simp
  have good: "\<forall>d\<in>set (all_contacts ?t). good_contact host network d"
    using "2.prems"(4) insert_good [OF "2.prems"(1) c "2.prems"(4)] by simp
  show ?case
    unfolding insert_contacts.simps by (rule "2.IH" [OF known _ _ good]) (use "2.prems"(2,3) in simp_all)
qed simp

lemma node_ok_kademlia:
  assumes "node_ok host app" "known_table t" "kt_local_id t = id_id (ap_identity app)"
    "\<forall>d\<in>set (all_contacts t). good_contact host (cfg_network (ap_config app)) d"
  shows "node_ok host (app\<lparr>ap_kademlia := t\<rparr>)"
  using assms
  by (auto simp: node_ok_def neighbors_ok_def routes_ok_def rest_ok_def sessions_ok_def contacts_ok_iff
      session_ok_def neighbor_ok_def peer_is_trusted_def session_is_open_def)

lemma valid_contact_good: "valid_node_contact host config c \<Longrightarrow> good_contact host (cfg_network config) c"
  by (auto simp: valid_node_contact_def good_contact_def bound_identity_def split: option.splits)

lemma receive_neighbors_keeps:
  assumes run: "receive_neighbors host app incoming w = (ok, app', w')" and inv: "node_ok host app"
  shows "node_ok host app'"
proof (cases "deserialize_neighbors (cm_payload incoming)")
  case (Inl e)
  then show ?thesis using run inv by (simp add: receive_neighbors_def)
next
  case (Inr neighbors)
  have peers: "list_all contact_ok (nm_peers neighbors)" using neighbors_canonical [OF Inr] by (simp add: peers_ok_def)
  have contacts: "contacts_ok host app" using inv by (simp add: node_ok_def rest_ok_def)
  show ?thesis
  proof (cases "list_all (valid_node_contact host (ap_config app)) (nm_peers neighbors)")
    case False
    then show ?thesis using run inv Inr by (simp add: receive_neighbors_def)
  next
    case True
    then have "list_all (good_contact host (cfg_network (ap_config app))) (nm_peers neighbors)"
      using valid_contact_good by (auto simp: list_all_iff)
    then have "node_ok host (app\<lparr>ap_kademlia := insert_contacts (ap_kademlia app) (nm_peers neighbors)\<rparr>)"
      using contacts peers
      by (intro node_ok_kademlia [OF inv] known_table_insert_contacts insert_contacts_good)
        (simp_all add: contacts_ok_iff)
    then show ?thesis using run True Inr by (simp add: receive_neighbors_def handle_neighbors_def)
  qed
qed

lemma process_join_good:
  assumes "known_table t" "join_request_ok req"
    "jr_virtual_address req = virtual_address network (jr_node_id req)"
    "\<forall>d\<in>set (all_contacts t). good_contact host network d"
    "process_join_request (h_digest host) t req resp l = (acc, t', resp')"
  shows "\<forall>d\<in>set (all_contacts t'). good_contact host network d"
proof (cases "identity_mismatch (h_digest host) (jr_public_key req) (jr_node_id req)")
  case True
  then show ?thesis using assms(4,5) by (simp add: process_join_request_def)
next
  case False
  have ok: "contact_ok (requested_contact req)"
    using assms(2) by (simp add: join_request_ok_def contact_ok_def requested_contact_def)
  have "good_contact host network (requested_contact req)"
    using False identity_mismatch_iff [of "jr_node_id req"] assms(2,3)
    by (auto simp: good_contact_def bound_identity_def requested_contact_def join_request_ok_def)
  from insert_good [OF assms(1) ok this assms(4)] show ?thesis
    using assms(5) False by (auto simp: process_join_request_def Let_def requested_contact_def)
qed

lemma node_announce_good:
  assumes "known_table t" "contact_ok (an_contact ann)"
    "nc_virtual_address (an_contact ann) = virtual_address network (nc_id (an_contact ann))"
    "\<forall>d\<in>set (all_contacts t). good_contact host network d"
    "handle_node_announce (h_digest host) t ann = (acc, t', ack)"
  shows "\<forall>d\<in>set (all_contacts t'). good_contact host network d"
proof (cases "identity_mismatch (h_digest host) (nc_public_key (an_contact ann)) (nc_id (an_contact ann))")
  case True
  then show ?thesis using assms(4,5) by (simp add: handle_node_announce_def Let_def)
next
  case False
  have "good_contact host network (an_contact ann)"
    using False identity_mismatch_iff [of "nc_id (an_contact ann)"] assms(2,3)
    by (auto simp: good_contact_def bound_identity_def contact_ok_def)
  from insert_good [OF assms(1,2) this assms(4)] show ?thesis
    using assms(4,5) False by (auto simp: handle_node_announce_def Let_def split: if_splits)
qed

text \<open>A join request that reaches the table was checked against its session.\<close>

definition join_checked :: "'k app_state \<Rightarrow> control_message \<Rightarrow> bool" where
  "join_checked app incoming \<longleftrightarrow>
     (cm_type incoming = CT_JOIN_REQUEST \<longrightarrow>
       (\<exists>req. deserialize_join_request (cm_payload incoming) = Inr req \<and>
          jr_virtual_address req = virtual_address (cfg_network (ap_config app)) (jr_node_id req)))"

lemma dispatch_keeps:
  assumes run: "dispatch_join_protocol_message (h_digest host) (ap_kademlia app) incoming out l True = (ok, t', reply)"
    and inv: "node_ok host app" and join: "join_checked app incoming"
    and announce: "cm_type incoming = CT_NODE_ANNOUNCE \<Longrightarrow> announcement_ok app transport (cm_payload incoming)"
  shows "node_ok host (app\<lparr>ap_kademlia := t'\<rparr>)"
proof (cases ok)
  case False
  then have "dispatch_join_protocol_message (h_digest host) (ap_kademlia app) incoming out l True = (False, t', reply)"
    using run by simp
  then have "t' = ap_kademlia app" using dispatch_refused by blast
  then show ?thesis using inv by simp
next
  case True
  have contacts: "known_table (ap_kademlia app)" "kt_local_id (ap_kademlia app) = id_id (ap_identity app)"
    "\<forall>d\<in>set (all_contacts (ap_kademlia app)). good_contact host (cfg_network (ap_config app)) d"
    using inv by (simp_all add: node_ok_def rest_ok_def contacts_ok_iff)
  have run': "dispatch_join_protocol_message (h_digest host) (ap_kademlia app) incoming out l True = (True, t', reply)"
    using run True by simp
  show ?thesis
  proof (rule dispatch_cases [OF run'])
    fix req acc resp
    assume m: "cm_type incoming = CT_JOIN_REQUEST" "deserialize_join_request (cm_payload incoming) = Inr req"
      and p: "process_join_request (h_digest host) (ap_kademlia app) req empty_join_response l = (acc, t', resp)"
    have ok: "join_request_ok req" using join_request_canonical [OF m(2)] by blast
    have address: "jr_virtual_address req = virtual_address (cfg_network (ap_config app)) (jr_node_id req)"
      using join m by (auto simp: join_checked_def)
    show ?thesis
      using node_ok_kademlia [OF inv _ _ process_join_good [OF contacts(1) ok address contacts(3) p]]
        process_join_request_table [OF contacts(1) ok p, THEN conjunct1]
        process_join_request_table [OF contacts(1) ok p, THEN conjunct2, THEN conjunct1] contacts(2) by simp
  next
    assume "t' = ap_kademlia app"
    then show ?thesis using inv by simp
  next
    fix req acc ack
    assume m: "cm_type incoming = CT_NODE_ANNOUNCE" "deserialize_node_announce (cm_payload incoming) = Inr req"
      and p: "handle_node_announce (h_digest host) (ap_kademlia app) req = (acc, t', ack)"
    have ok: "contact_ok (an_contact req)" using announce_canonical [OF m(2)] by blast
    have address: "nc_virtual_address (an_contact req) =
        virtual_address (cfg_network (ap_config app)) (nc_id (an_contact req))"
      using announce [OF m(1)] m(2) by (simp add: announcement_ok_def)
    show ?thesis
      using node_ok_kademlia [OF inv _ _ node_announce_good [OF contacts(1) ok address contacts(3) p]]
        handle_node_announce_table [OF contacts(1) ok p] contacts(2) by metis
  qed
qed

lemma after_reply_keeps:
  assumes "after_reply host app r incoming reply w = (ok, app', w')" "node_ok host app"
  shows "node_ok host app'"
  using assms unfolding after_reply_def
  by (auto split: if_splits sum.splits prod.splits dest: bind_session_keeps)

lemma answer_request_keeps:
  assumes run: "answer_request host app r incoming w = (ok, app', w')" and inv: "node_ok host app"
    and join: "join_checked app incoming"
  shows "node_ok host app'"
proof (cases "(cm_type incoming = CT_NODE_ANNOUNCE \<and>
      \<not> announcement_ok app (as_transport (ap_store app r)) (cm_payload incoming)) \<or>
    (cm_type incoming \<noteq> CT_JOIN_REQUEST \<and> cm_type incoming \<noteq> CT_FIND_NODE \<and> cm_type incoming \<noteq> CT_NODE_ANNOUNCE)")
  case True
  then show ?thesis using run inv by (auto simp: answer_request_def split: if_splits)
next
  case False
  obtain done' table reply where d: "dispatch_join_protocol_message (h_digest host) (ap_kademlia app) incoming
      (Some empty_control_message) (Some (ap_local_contact app)) True = (done', table, reply)" by (metis prod_cases3)
  have kept: "node_ok host (app\<lparr>ap_kademlia := table\<rparr>)"
    by (rule dispatch_keeps [OF d inv join, of "as_transport (ap_store app r)"]) (use False in blast)
  have rest: "(case (done', table, reply) of
        (False, table, _) \<Rightarrow> (False, app\<lparr>ap_kademlia := table\<rparr>, w)
      | (True, table, None) \<Rightarrow> (False, app\<lparr>ap_kademlia := table\<rparr>, w)
      | (True, table, Some reply) \<Rightarrow>
          (case send_on_session host (app\<lparr>ap_kademlia := table\<rparr>) (Some r) (make_control_wire reply) (Some []) w of
             (False, app1, _, w1) \<Rightarrow> (False, app1, w1)
           | (True, app1, _, w1) \<Rightarrow> after_reply host app1 r incoming reply w1)) = (ok, app', w')"
    using run False unfolding answer_request_def d by (simp split: if_splits)
  show ?thesis
  proof (cases "done' \<and> reply \<noteq> None")
    case False
    then show ?thesis using rest kept by (auto split: bool.splits option.splits)
  next
    case True
    then obtain m where m: "done' = True" "reply = Some m" by auto
    obtain sent app1 err w1 where send: "send_on_session host (app\<lparr>ap_kademlia := table\<rparr>) (Some r)
        (make_control_wire m) (Some []) w = (sent, app1, err, w1)" by (metis prod_cases4)
    have "node_ok host app1" using node_ok_quiet [OF send_on_session_quiet [OF send] kept] .
    then show ?thesis using rest by (cases sent) (auto simp: m send dest: after_reply_keeps)
  qed
qed

section \<open>Route advertisements\<close>

text \<open>An update that reports no change only refreshes times.\<close>

definition timeless :: "route \<Rightarrow> route" where
  "timeless r = r\<lparr>r_last_update := 0\<rparr>"

lemma timeless_fields [simp]:
  "r_destination_node (timeless r) = r_destination_node r" "route_fits network hops (timeless r) = route_fits network hops r"
  "timeless (r\<lparr>r_last_update := t\<rparr>) = timeless r"
  by (simp_all add: timeless_def route_fits_def)

lemma apply_one_unchanged:
  assumes "\<not> snd (apply_one nb now c (rs, ch) a)"
  shows "\<not> ch \<and> map timeless (fst (apply_one nb now c (rs, ch) a)) = map timeless rs"
proof -
  let ?hit = "\<lambda>r. same_destination r a"
  have refresh: "map timeless (update_first ?hit (\<lambda>e. e\<lparr>r_last_update := now\<rparr>) rs) = map timeless rs"
    by (rule map_update_first_same) simp
  show ?thesis
  proof (cases "r_destination_node a = nb")
    case True
    then show ?thesis using assms by (simp add: apply_one_def)
  next
    case other: False
    show ?thesis
    proof (cases "ROUTE_METRIC_INFINITY \<le> candidate_metric c (r_metric a)")
      case True
      show ?thesis
      proof (cases "find ?hit rs")
        case None
        then show ?thesis using assms other True by (simp add: apply_one_def Let_def)
      next
        case (Some e)
        then show ?thesis
          using assms other True
          by (cases "r_next_hop e = nb \<and> r_metric e \<noteq> ROUTE_METRIC_INFINITY") (auto simp: apply_one_def Let_def)
      qed
    next
      case False
      show ?thesis
      proof (cases "find ?hit rs")
        case None
        then show ?thesis
          using assms other False
          by (cases "length rs < MAX_ROUTE_TABLE_ENTRIES") (simp_all add: apply_one_def Let_def)
      next
        case (Some e)
        let ?m = "candidate_metric c (r_metric a)"
        let ?better = "?m < r_metric e \<or> ?m = r_metric e \<and> dv_node_id_less nb (r_next_hop e) \<or> r_next_hop e = nb"
        let ?new = "route_create (r_destination a) nb ?m now (r_destination_node a)"
        let ?differs = "r_destination e \<noteq> r_destination ?new \<or> r_destination_node e \<noteq> r_destination_node ?new \<or>
          r_next_hop e \<noteq> r_next_hop ?new \<or> r_metric e \<noteq> r_metric ?new"
        have one: "apply_one nb now c (rs, ch) a =
            (if ?better then if ?differs then (update_first ?hit (\<lambda>_. ?new) rs, True)
               else if r_next_hop e = nb then (update_first ?hit (\<lambda>e. e\<lparr>r_last_update := now\<rparr>) rs, ch)
               else (rs, ch) else (rs, ch))"
          using other False Some by (simp only: apply_one_def Let_def prod.case option.case if_False)
        have quiet_result: "\<not> flag \<and> (fst p = y \<or> fst p = z)"
          if "p = (if b then if d then (x, True) else if h then (y, flag) else (z, flag) else (z, flag))" "\<not> snd p"
          for p :: "route list \<times> bool" and b d h flag x y z
          using that by (auto split: if_splits)
        from quiet_result [OF one assms] refresh show ?thesis by metis
      qed
    qed
  qed
qed

lemma apply_routes_unchanged:
  assumes "\<not> fst (apply_routes t nb adv now c)"
  shows "map timeless (routes (snd (apply_routes t nb adv now c))) = map timeless (routes t)"
proof -
  have loop: "\<not> ch \<and> map timeless (fst (foldl (apply_one nb now c) (rs, ch) advertised)) = map timeless rs"
    if "\<not> snd (foldl (apply_one nb now c) (rs, ch) advertised)" for rs ch advertised
    using that
  proof (induction advertised arbitrary: rs ch)
    case (Cons a advertised)
    obtain rs1 ch1 where one: "apply_one nb now c (rs, ch) a = (rs1, ch1)" by fastforce
    have "\<not> snd (foldl (apply_one nb now c) (rs1, ch1) advertised)" using Cons.prems one by simp
    note rest = Cons.IH [OF this]
    have "\<not> ch \<and> map timeless rs1 = map timeless rs"
      using apply_one_unchanged [of nb now c rs ch a] one rest by simp
    then show ?case unfolding foldl.simps one using rest by metis
  qed simp
  let ?kept = "filter (\<lambda>r. \<not> withdrawn nb (ra_routes adv) r) (routes t)"
  define L where "L = foldl (apply_one nb now c) (?kept, length ?kept \<noteq> length (routes t)) (ra_routes adv)"
  have result: "apply_routes t nb adv now c = (snd L, t\<lparr>routes := fst L\<rparr>)"
    by (simp only: apply_routes_def Let_def case_prod_beta L_def)
  then have "\<not> snd L" using assms by simp
  from loop [OF this [unfolded L_def], folded L_def]
  have "length ?kept = length (routes t)" and same: "map timeless (fst L) = map timeless ?kept" by simp_all
  then have "?kept = routes t" by (intro filter_same_length)
  then have "map timeless (fst L) = map timeless (routes t)" using same by simp
  then show ?thesis by (simp add: result)
qed

lemma routes_ok_timeless:
  assumes "routes_ok app" "map timeless (routes t) = map timeless (routes (ap_routing_table app))"
  shows "routes_ok (app\<lparr>ap_routing_table := t\<rparr>)"
proof -
  have nodes: "map r_destination_node (routes t) = map r_destination_node (routes (ap_routing_table app))"
    using arg_cong [OF assms(2), of "map r_destination_node"] by (simp add: comp_def)
  have zero: "(\<forall>r\<in>set rs. r_destination_node r \<noteq> zero_node_id) \<longleftrightarrow> zero_node_id \<notin> set (map r_destination_node rs)"
    for rs by (force simp: image_iff)
  have "length (routes t) = length (routes (ap_routing_table app))"
    using arg_cong [OF assms(2), of length] by simp
  then have "table_inv t"
    using assms(1) unfolding routes_ok_def table_inv_def keyed_def zero nodes by simp
  moreover have "\<forall>r\<in>set (routes t). route_fits (cfg_network (ap_config app))
      (connected_ids (peers (ap_topology app))) r"
  proof
    fix r assume "r \<in> set (routes t)"
    then have "timeless r \<in> set (map timeless (routes (ap_routing_table app)))"
      by (simp add: assms(2) [symmetric])
    then obtain q where "q \<in> set (routes (ap_routing_table app))" "timeless r = timeless q" by auto
    then show "route_fits (cfg_network (ap_config app)) (connected_ids (peers (ap_topology app))) r"
      using assms(1) by (metis routes_ok_def timeless_fields(2))
  qed
  ultimately show ?thesis by (simp add: routes_ok_def)
qed

lemma update_advertisements_ok:
  assumes "advertisements_ok network ads" "advertisement_ok network (n, stored)"
  shows "advertisements_ok network (AList.update n stored ads)"
proof -
  have "set (AList.update n stored ads) \<subseteq> insert (n, stored) (set ads)" by (induction ads) auto
  then show ?thesis
    using assms by (auto simp: advertisements_ok_def list_all_iff intro: AList.distinct_update)
qed

lemma receive_hello_keeps:
  assumes run: "receive_hello host app incoming w = (ok, app', w')" and inv: "node_ok host app"
  shows "node_ok host app'"
proof -
  have hello: "node_ok host (app\<lparr>ap_topology := topo\<rparr>)"
    if heard: "heartbeat_process_hello (Some (ap_topology app)) h now = Some topo" for h now topo
  proof -
    obtain t where topo: "topo = modify_peer (ap_topology app) (h_sender h)
        (\<lambda>p. p\<lparr>p_last_seen := t, p_state := Connected\<rparr>)"
      using heard by (auto simp: heartbeat_process_hello_def Let_def split: option.splits)
    have "neighbors_ok (app\<lparr>ap_topology := topo\<rparr>)"
      unfolding topo by (rule neighbors_ok_modify) (use inv in \<open>auto simp: node_ok_def neighbor_ok_def\<close>)
    moreover have "routes_ok (app\<lparr>ap_topology := topo\<rparr>)"
      using inv connected_update_first
      by (intro routes_ok_topology) (simp_all add: node_ok_def topo modify_peer_def connected_update_first)
    ultimately show ?thesis using node_ok_neighbor_change neighbor_change_basic(3) inv by blast
  qed
  then show ?thesis
    using run inv by (auto simp: receive_hello_def split: sum.splits if_splits prod.splits option.splits)
qed

lemma routes_ok_ignores_advertisements: "routes_ok (app\<lparr>ap_route_advertisements := ads\<rparr>) = routes_ok app"
  by (simp add: routes_ok_def)

lemma quiet_origins: "quiet app (app'\<lparr>ap_route_origins := m\<rparr>) = quiet app app'"
  by (simp add: quiet_def)

lemma install_advertisement_keeps:
  assumes run: "install_advertisement host app sender adv w = (app', w')" and inv: "node_ok host app"
    and valid: "ra_sender adv = sender" "accepted (validate_route_advertisement adv (cfg_network (ap_config app)))"
  shows "node_ok host app'"
proof -
  obtain now w1 where clock: "steady_now_ms host w = (now, w1)" by fastforce
  obtain result origins where update: "distance_vector_update (ap_routing_table app) sender adv now 1
      (Some (ap_route_origins app)) = (result, origins)" by fastforce
  define app1 where "app1 = app\<lparr>ap_routing_table := dv_table result,
    ap_route_origins := (case origins of None \<Rightarrow> ap_route_origins app | Some o' \<Rightarrow> o')\<rparr>"
  obtain at w2 where clock2: "steady_now_ms host w1 = (at, w2)" by fastforce
  define stored where "stored = \<lparr>sa_advertisement = adv, sa_received_at_ms = at\<rparr>"
  define app2 where "app2 = app1\<lparr>ap_route_advertisements := AList.update sender stored (ap_route_advertisements app1)\<rparr>"
  have result: "dv_accepted result \<longrightarrow> \<not> dv_changed result \<longrightarrow>
        map timeless (routes (dv_table result)) = map timeless (routes (ap_routing_table app))"
    "\<not> dv_accepted result \<longrightarrow> dv_table result = ap_routing_table app"
    using update apply_routes_unchanged [of "ap_routing_table app" sender adv now 1]
    by (auto simp: distance_vector_update_def Let_def case_prod_beta split: if_splits option.splits)
  have "advertisement_ok (cfg_network (ap_config app1)) (sender, stored)"
    using valid by (auto simp: advertisement_ok_def stored_def accepted_iff app1_def)
  then have neighbors: "neighbors_ok app2"
    using inv update_advertisements_ok
    by (simp add: node_ok_def neighbors_ok_def app2_def app1_def) (simp add: neighbor_ok_def peer_is_trusted_def)
  have others: "rest_ok host app2"
    using inv by (simp add: node_ok_def rest_ok_def app2_def app1_def sessions_ok_def contacts_ok_def session_ok_def
      session_is_open_def peer_is_trusted_def)
  note unfolded = run [unfolded install_advertisement_def clock prod.case update Let_def, folded app1_def,
      unfolded clock2 prod.case, folded stored_def, folded app2_def]
  consider (stale) "\<not> dv_accepted result" | (same) "dv_accepted result" "\<not> dv_changed result"
    | (new) "dv_accepted result" "dv_changed result" by blast
  then show ?thesis
  proof cases
    case stale
    then have "quiet app app'" using unfolded result(2) by (auto simp: app1_def quiet_origins)
    then show ?thesis using node_ok_quiet inv by blast
  next
    case same
    then have "routes_ok (app\<lparr>ap_routing_table := dv_table result\<rparr>)"
      using result inv routes_ok_timeless by (auto simp: node_ok_def)
    then have "routes_ok app2" by (simp add: app2_def app1_def routes_ok_def)
    then show ?thesis using unfolded same neighbors others by (auto simp: node_ok_def)
  next
    case new
    obtain app3 w3 where rebuild: "rebuild_routing_table host app2 w2 = (app3, w3)" by fastforce
    have "node_ok host app3" by (rule rebuild_keeps_node [OF rebuild neighbors others])
    then show ?thesis using unfolded new rebuild node_ok_quiet [of app3 "mark_routing_dirty app3" host] by auto
  qed
qed

lemma receive_advertisement_keeps:
  assumes run: "receive_advertisement host app incoming w = (ok, app', w')" and inv: "node_ok host app"
  shows "node_ok host app'"
proof -
  have counted: "node_ok host (count_routing f app)" for f
    by (rule node_ok_quiet [OF _ inv]) simp
  show ?thesis
    using run counted
    by (auto simp: receive_advertisement_def Let_def app_frame split: sum.splits if_splits prod.splits
        intro: install_advertisement_keeps [OF _ counted])
qed

section \<open>Messages and rounds\<close>

lemma touch_config: "touch_neighbor host app n w = (app', w') \<Longrightarrow> node_ok host app \<Longrightarrow> ap_config app' = ap_config app"
  using touch_neighbor_keeps by (fastforce simp: node_ok_def neighbor_change_def)

lemma handle_trusted_keeps:
  assumes run: "handle_trusted host app r incoming w = (ok, app', w')" and inv: "node_ok host app"
    and join: "join_checked app incoming"
  shows "node_ok host app'"
proof -
  obtain app1 w1 where touch: "touch_neighbor host app (cm_sender incoming) w = (app1, w1)" by fastforce
  have "node_ok host app1" by (rule touch_keeps_node [OF touch inv])
  moreover have "join_checked app1 incoming" using join touch_config [OF touch inv] by (simp add: join_checked_def)
  ultimately show ?thesis
    using run unfolding handle_trusted_def touch
    by (auto split: if_splits dest: receive_hello_keeps receive_advertisement_keeps receive_neighbors_keeps
        answer_request_keeps)
qed

lemma handle_control_keeps:
  assumes run: "handle_control host app r wire w = (ok, app', w')" and inv: "node_ok host app"
  shows "node_ok host app'"
proof (cases "deserialize_control_message (m_payload wire)")
  case (Inl e)
  then show ?thesis using run inv by (simp add: handle_control_def)
next
  case (Inr incoming)
  show ?thesis
  proof (cases "ss_peer_node_id (as_transport (ap_store app r)) \<noteq> Some (cm_sender incoming) \<or>
      \<not> as_trusted (ap_store app r) \<and> cm_type incoming \<noteq> CT_JOIN_REQUEST")
    case True
    then show ?thesis using run inv Inr by (auto simp: handle_control_def Let_def split: if_splits)
  next
    case False
    obtain go app1 w1 where first: "(if cm_type incoming = CT_JOIN_REQUEST
        then receive_join_request host app r incoming w else (True, app, w)) = (go, app1, w1)" by (metis prod_cases3)
    have kept: "node_ok host app1"
      using first inv by (auto split: if_splits dest: receive_join_request_keeps)
    have join: "join_checked app1 incoming" if go
    proof (cases "cm_type incoming = CT_JOIN_REQUEST")
      case True
      then have "receive_join_request host app r incoming w = (True, app1, w1)" using first that by simp
      then obtain req app2 w2 where "checked_join_request host app (as_transport (ap_store app r)) (cm_payload incoming) =
          Some req" "admit_peer host app req w = (True, app2, w2)" "app1 = trust_session app2 r"
        by (auto simp: receive_join_request_def split: option.splits prod.splits bool.splits)
      moreover have "ap_config app2 = ap_config app"
        using calculation(2) by (auto simp: admit_peer_def split: prod.splits bool.splits)
      ultimately show ?thesis
        by (auto simp: join_checked_def checked_join_request_def trust_session_def set_session_def
            split: sum.splits if_splits)
    qed (simp add: join_checked_def)
    have rest: "(case (go, app1, w1) of (False, app1, w1) \<Rightarrow> (False, app1, w1)
        | (True, app1, w1) \<Rightarrow> if \<not> as_trusted (ap_store app1 r) then (False, app1, w1)
            else handle_trusted host app1 r incoming w1) = (ok, app', w')"
      using run Inr False first by (simp add: handle_control_def Let_def split: if_splits)
    show ?thesis
      using rest kept join by (cases go; cases "as_trusted (ap_store app1 r)") (auto dest: handle_trusted_keeps)
  qed
qed

lemma handle_wire_keeps:
  assumes run: "handle_wire host app r wire w = (ok, app', w')" and inv: "node_ok host app"
  shows "node_ok host app'"
proof (cases "m_type wire = MT_Data")
  case True
  obtain app1 w1 where touch: "(case ss_peer_node_id (as_transport (ap_store app r)) of
      None \<Rightarrow> (app, w) | Some peer_id \<Rightarrow> touch_neighbor host app peer_id w) = (app1, w1)" by fastforce
  have kept: "node_ok host app1" using touch inv by (auto split: option.splits dest: touch_keeps_node)
  obtain ok2 app2 err w2 where data: "handle_data_message host app1 wire (Some []) w1 = (ok2, app2, err, w2)"
    by (metis prod_cases4)
  have "node_ok host app2" by (rule node_ok_quiet [OF handle_data_message_quiet [OF data] kept])
  then show ?thesis using run True inv touch data by (auto simp: handle_wire_def split: if_splits)
next
  case False
  then show ?thesis using run inv by (auto simp: handle_wire_def split: if_splits dest: handle_control_keeps)
qed

lemma refresh_session_quiet:
  "refresh_session host sw app r w = (go, sw', app', w') \<Longrightarrow> quiet app app'"
  by (auto simp: refresh_session_def Let_def split: if_splits prod.splits bool.splits dest: send_control_quiet)

lemma session_step_keeps:
  assumes run: "session_step host sw app r w = Some (go, sw', app', w')" and inv: "node_ok host app"
  shows "node_ok host app'"
proof -
  obtain m closed app1 w1 where received: "receive_on_session host app r (Some 200) w = Some (m, closed, app1, w1)"
    using run by (auto simp: session_step_def split: option.splits)
  have kept: "node_ok host app1" by (rule node_ok_quiet [OF receive_on_session_quiet [OF received] inv])
  show ?thesis
  proof (cases m)
    case None
    then show ?thesis
      using run received kept
      by (auto simp: session_step_def split: if_splits dest: refresh_session_quiet node_ok_quiet)
  next
    case (Some wire)
    then show ?thesis
      using run received kept
      by (auto simp: session_step_def Let_def split: if_splits prod.splits dest: handle_wire_keeps)
  qed
qed

lemma session_round_keeps:
  "session_round host sw app r w = Some (go, sw', app', w') \<Longrightarrow> node_ok host app \<Longrightarrow> node_ok host app'"
  by (auto simp: session_round_def split: if_splits prod.splits dest: session_step_keeps)

lemma routing_round_keeps:
  assumes run: "routing_round host timers app w = (timers', app', w')" and inv: "node_ok host app"
  shows "node_ok host app'"
proof -
  let ?app0 = "app\<lparr>ap_routing_dirty := False\<rparr>"
  obtain now w1 where clock: "steady_now_ms host w = (now, w1)" by fastforce
  obtain changed app1 w2 where maintenance: "routing_maintenance host now ?app0 w1 = (changed, app1, w2)"
    by (metis prod_cases3)
  have "node_ok host ?app0" by (rule node_ok_quiet [OF _ inv]) simp
  then have kept: "node_ok host app1"
    using routing_maintenance_keeps [OF maintenance] node_ok_neighbor_change by (auto simp: node_ok_def)
  have "app' = app1 \<or> (\<exists>now hello adv rs v v'. send_to_sessions host now hello adv rs app1 v = (app', v'))"
    using run by (simp add: routing_round_def Let_def clock maintenance split: prod.splits if_splits) blast+
  then show ?thesis
  proof (elim disjE exE)
    fix now hello adv rs v v'
    assume "send_to_sessions host now hello adv rs app1 v = (app', v')"
    from node_ok_quiet [OF send_to_sessions_quiet [OF this] kept] show ?thesis .
  qed (use kept in simp)
qed

section \<open>Requests of the node\<close>

lemma connected_to:
  assumes "transport_connect_tls os lib s config address port (Some n) timeout err w = (True, t, err', w')"
  shows "ss_peer_node_id t = Some n"
  using connect_outcome [OF assms] by (auto simp: connect_outcome_def)

text \<open>Reconnecting leaves the trust as it is.\<close>

lemma quiet_trust: "quiet app app' \<Longrightarrow> ap_trust app' = ap_trust app" by (simp add: quiet_def)

lemma change_trust: "neighbor_change app app' \<Longrightarrow> ap_trust app' = ap_trust app"
  by (auto simp: neighbor_change_def)

lemma drop_session_trust:
  assumes "drop_session host app r w = (app', w')" "node_ok host app"
  shows "ap_trust app' = ap_trust app"
proof -
  obtain app1 w1 where removed: "remove_session host app r w = (app1, w1)" by fastforce
  then have closed: "close_session host app1 (Some r) w1 = (app', w')" using assms(1) by (simp add: drop_session_def)
  have "ap_trust app1 = ap_trust app"
  proof (cases "r \<in> set (ap_sessions app) \<and> as_peer_id (ap_store app r) \<noteq> None")
    case False
    then show ?thesis using removed by (auto simp: remove_session_def split: if_splits)
  next
    case True
    then obtain n where deactivate: "deactivate_neighbor host
        (app\<lparr>ap_sessions := remove_first (\<lambda>q. q = r) (ap_sessions app)\<rparr>) n w = (app1, w1)"
      using removed by (auto simp: remove_session_def)
    have "neighbors_ok (app\<lparr>ap_sessions := remove_first (\<lambda>q. q = r) (ap_sessions app)\<rparr>)"
      "routes_ok (app\<lparr>ap_sessions := remove_first (\<lambda>q. q = r) (ap_sessions app)\<rparr>)"
      using assms(2) by (simp_all add: node_ok_def app_frame)
    from deactivate_neighbor_keeps [OF deactivate this] show ?thesis using change_trust by fastforce
  qed
  then show ?thesis using quiet_trust [OF close_session_quiet [OF closed]] by simp
qed

text \<open>A new session that is adopted, or dropped.\<close>

lemma adopt_session_keeps:
  assumes run: "adopt_session host (set_session app r s) r contact w = (ok, app', w')" and inv: "node_ok host app"
    and fresh: "r \<notin> set (ap_sessions app)" and s: "session_ok app s"
  shows "node_ok host app' \<and> ap_trust app' = ap_trust app \<and> (ok \<longrightarrow> ap_config app' = ap_config app)"
proof -
  obtain reg app1 where register: "register_session (set_session app r s) (Some r) = (reg, app1)" by fastforce
  have "session_ok (set_session app r s) (ap_store (set_session app r s) r)"
    using s by (simp only: session_ok_frame) (simp add: set_session_def)
  moreover have "r \<notin> set (ap_sessions (set_session app r s))" using fresh by (simp add: set_session_def)
  ultimately have one: "node_ok host app1"
    using register_session_keeps [OF register] node_ok_fresh [OF fresh] inv by blast
  have trust1: "ap_trust app1 = ap_trust app" and config1: "ap_config app1 = ap_config app"
    using register by (auto simp: register_session_def set_session_def split: option.splits if_splits)
  obtain active app2 w2 where activate: "activate_neighbor host app1 contact w = (active, app2, w2)"
    by (metis prod_cases3)
  have two: "node_ok host app2" by (rule activate_keeps_node [OF activate one])
  have changed: "neighbor_change app1 app2" using activate_neighbor_keeps [OF activate] one by (auto simp: node_ok_def)
  then have config2: "ap_config app2 = ap_config app" using config1 by (auto simp: neighbor_change_def)
  from change_trust [OF changed] have trust2: "ap_trust app2 = ap_trust app" by (simp add: trust1)
  have dropping: "node_ok host a' \<and> ap_trust a' = ap_trust app"
    if "drop_session host a r v = (a', v')" "node_ok host a" "ap_trust a = ap_trust app" for a v a' v'
    using drop_session_keeps [OF that(1,2)] drop_session_trust [OF that(1,2)] that(3) by simp
  note unfolded = run [unfolded adopt_session_def register prod.case activate]
  show ?thesis
    using unfolded one trust1 two trust2 config2
    by (cases reg; cases active) (auto split: prod.splits dest: dropping)
qed

lemma open_query_session_keeps:
  assumes run: "open_query_session host app n r w = (ok, app', w')" and inv: "node_ok host app"
    and fresh: "r \<notin> set (ap_sessions app)"
  shows "node_ok host app' \<and> ap_trust app' = ap_trust app"
proof (cases "kademlia_find (ap_kademlia app) n")
  case None
  then show ?thesis using run inv by (simp add: open_query_session_def)
next
  case (Some contact)
  note found = Some
  show ?thesis
  proof (cases "parse_endpoint (h_pton4 host) (h_pton6 host) (nc_endpoint contact)")
    case None
    then show ?thesis using run inv found by (simp add: open_query_session_def)
  next
    case (Some endpoint)
    obtain address port where endpoint: "endpoint = (address, port)" by fastforce
    obtain connected t err w1 where connect: "transport_connect_tls (h_os host) (h_lib host) new_session
        (tls_config_for app) address port (Some n) 3000 (Some []) w = (connected, t, err, w1)" by (metis prod_cases4)
    note unfolded = run [unfolded open_query_session_def found option.case Some endpoint prod.case connect Let_def]
    show ?thesis
    proof (cases "(port = 0 \<or> \<not> peer_is_trusted app n) \<or> \<not> connected")
      case True
      then show ?thesis using unfolded inv by (cases connected) (auto split: if_splits)
    next
      case False
      let ?s = "new_peer_session\<lparr>as_transport := t, as_trusted := True, as_peer_id := Some n, as_contact := contact\<rparr>"
      have s: "session_ok app ?s"
        using connected_to [of _ _ _ _ _ _ n] connect False by (simp add: session_ok_def)
      have "adopt_session host (set_session app r ?s) r contact w1 = (ok, app', w')" using unfolded False by simp
      from adopt_session_keeps [OF this inv fresh s] show ?thesis by blast
    qed
  qed
qed

text \<open>A question keeps the invariant and the trust, and its answer has only contacts of the network.\<close>

definition asked :: "('w, 'k, 's) host \<Rightarrow> 'k app_state \<Rightarrow> node_contact list \<Rightarrow> 'k app_state \<Rightarrow> bool" where
  "asked host app contacts app' \<longleftrightarrow>
     node_ok host app' \<and> ap_trust app' = ap_trust app \<and> list_all contact_ok contacts \<and>
     list_all (good_contact host (cfg_network (ap_config app'))) contacts"

lemma drop_session_asked:
  assumes "drop_session host app r w = (app', w')" "node_ok host app"
  shows "asked host app [] app'"
  using drop_session_keeps [OF assms] drop_session_trust [OF assms] by (simp add: asked_def)

lemma ask_session_keeps:
  assumes run: "ask_session host app r n target sequence w = Some (contacts, app', w')" and inv: "node_ok host app"
  shows "asked host app contacts app'"
proof -
  obtain ok app1 err w1 where send: "send_control host app (Some r) CT_FIND_NODE sequence (id_id (ap_identity app))
      (serialize_find_node \<lparr>fn_target = target\<rparr>) (Some []) w = (ok, app1, err, w1)" by (metis prod_cases4)
  have sent: "node_ok host app1" by (rule node_ok_quiet [OF send_control_quiet [OF send] inv])
  have trust1: "ap_trust app1 = ap_trust app" by (rule quiet_trust [OF send_control_quiet [OF send]])
  show ?thesis
  proof (cases ok)
    case False
    then show ?thesis
      using run send sent trust1
      by (auto simp: ask_session_def Let_def asked_def split: prod.splits dest!: drop_session_asked)
  next
    case True
    then obtain m app2 w2 where received: "receive_control host app1 r 3000 w1 = Some (m, app2, w2)"
      using run send by (auto simp: ask_session_def Let_def split: option.splits)
    have two: "node_ok host app2" by (rule node_ok_quiet [OF receive_control_quiet [OF received] sent])
    have trust2: "ap_trust app2 = ap_trust app" using quiet_trust [OF receive_control_quiet [OF received]] trust1 by simp
    have dropping: "asked host app [] a" if "drop_session host app2 r w2 = (a, v)" for a v
      using drop_session_asked [OF that two] trust2 by (simp add: asked_def)
    have answered: "asked host app (nm_peers neighbors) app2"
      if "deserialize_neighbors payload = Inr neighbors"
        "list_all (valid_node_contact host (ap_config app2)) (nm_peers neighbors)" for payload neighbors
      using that neighbors_canonical [OF that(1)] two trust2 valid_contact_good
      by (auto simp: asked_def peers_ok_def list_all_iff)
    show ?thesis
      using run True send received
      by (auto simp: ask_session_def Let_def split: option.splits if_splits sum.splits prod.splits
          dest: dropping answered)
  qed
qed

lemma query_peer_keeps:
  assumes "query_peer host app n target sequence r w = Some (contacts, app', w')" "node_ok host app"
    "r \<notin> set (ap_sessions app)"
  shows "asked host app contacts app'"
proof (cases "find_idle_session app n")
  case None
  obtain ok app1 w1 where open_query: "open_query_session host app n r w = (ok, app1, w1)" by (metis prod_cases3)
  have "node_ok host app1 \<and> ap_trust app1 = ap_trust app" by (rule open_query_session_keeps [OF open_query assms(2,3)])
  then show ?thesis
    using assms(1) None open_query ask_session_keeps [of host app1]
    by (cases ok) (auto simp: query_peer_def asked_def)
qed (use assms ask_session_keeps in \<open>simp add: query_peer_def\<close>)

lemma query_peer_node: "query_peer host app n target sequence r w = Some (contacts, app', w') \<Longrightarrow> node_ok host app \<Longrightarrow>
    r \<notin> set (ap_sessions app) \<Longrightarrow> node_ok host app'"
  using query_peer_keeps by (fastforce simp: asked_def)

lemma announce_to_peer_quiet:
  assumes run: "announce_to_peer host app r sequence w = Some (ok, app', w')"
  shows "quiet app app'"
proof -
  obtain sent app1 err w1 where send: "send_control host app (Some r) CT_NODE_ANNOUNCE sequence (id_id (ap_identity app))
      (serialize_node_announce \<lparr>an_contact = ap_local_contact app, an_nonce = sequence\<rparr>) (Some []) w =
      (sent, app1, err, w1)" by (metis prod_cases4)
  show ?thesis
  proof (cases sent)
    case False
    then show ?thesis using run send send_control_quiet [OF send] by (simp add: announce_to_peer_def)
  next
    case True
    then obtain m app2 w2 where received: "receive_control host app1 r 3000 w1 = Some (m, app2, w2)"
      using run send by (auto simp: announce_to_peer_def split: option.splits)
    have "app' = app2" using run True send received by (auto simp: announce_to_peer_def split: option.splits)
    then show ?thesis
      using quiet_trans [OF send_control_quiet [OF send] receive_control_quiet [OF received]] by simp
  qed
qed

lemma rejoin_quiet:
  assumes run: "rejoin host app r target n w = Some (contact, app', w')"
  shows "quiet app app'"
proof -
  obtain now w1 where clock: "now_ms host w = (now, w1)" by fastforce
  let ?app1 = "app\<lparr>ap_next_control_sequence := ap_next_control_sequence app + 1\<rparr>"
  let ?request = "\<lparr>jr_node_id = id_id (ap_identity app), jr_public_key = nc_public_key (ap_local_contact app),
    jr_virtual_address = nc_virtual_address (ap_local_contact app), jr_endpoint = nc_endpoint (ap_local_contact app),
    jr_timestamp = now, jr_nonce = 1001, jr_invite_token = []\<rparr>"
  obtain sent app2 err w2 where send: "send_control host ?app1 (Some r) CT_JOIN_REQUEST (ap_next_control_sequence app)
      (id_id (ap_identity app)) (serialize_join_request ?request) (Some []) w1 = (sent, app2, err, w2)"
    by (metis prod_cases4)
  have first: "quiet app app2" using quiet_trans [OF _ send_control_quiet [OF send]] by simp
  note unfolded = run [unfolded rejoin_def clock prod.case Let_def send]
  show ?thesis
  proof (cases sent)
    case False
    then show ?thesis using unfolded first by simp
  next
    case True
    then obtain m app3 w3 where received: "receive_control host app2 r 1500 w2 = Some (m, app3, w3)"
      using unfolded by (auto split: option.splits)
    have "app' = app3" using unfolded True received by (auto split: option.splits)
    then show ?thesis using quiet_trans [OF first receive_control_quiet [OF received]] by simp
  qed
qed

lemma reconnect_peer_keeps:
  assumes run: "reconnect_peer host app target r w = Some (app', w')" and inv: "node_ok host app"
    and fresh: "r \<notin> set (ap_sessions app)" and trusted: "peer_is_trusted app (tp_id target)"
  shows "node_ok host app' \<and> ap_trust app' = ap_trust app"
proof (cases "parse_endpoint (h_pton4 host) (h_pton6 host) (tp_endpoint target)")
  case None
  then show ?thesis using run inv by (simp add: reconnect_peer_def)
next
  case (Some endpoint)
  obtain address port where endpoint: "endpoint = (address, port)" by fastforce
  obtain connected t err w1 where connect: "transport_connect_tls (h_os host) (h_lib host) new_session
      (tls_config_for app) address port (Some (tp_id target)) 1000 (Some []) w = (connected, t, err, w1)"
    by (metis prod_cases4)
  define app1 where "app1 = set_session app r (new_peer_session\<lparr>as_transport := t\<rparr>)"
  have one: "node_ok host app1" "ap_trust app1 = ap_trust app" "ap_sessions app1 = ap_sessions app"
    using inv by (simp_all add: app1_def node_ok_fresh [OF fresh]) (simp_all add: set_session_def)
  have closing: "node_ok host a' \<and> ap_trust a' = ap_trust app"
    if "close_session host a q v = (a', v')" "node_ok host a" "ap_trust a = ap_trust app" for a q v a' v'
    using that node_ok_quiet [OF close_session_quiet [OF that(1)] that(2)] quiet_trust [OF close_session_quiet [OF that(1)]]
    by simp
  note unfolded = run [unfolded reconnect_peer_def Some option.case endpoint prod.case connect Let_def,
      folded app1_def]
  show ?thesis
  proof (cases "(\<not> id_id (ap_identity app) < tp_id target \<or> port = 0 \<or> already_connected app target) \<or> \<not> connected")
    case True
    then show ?thesis using unfolded inv by (cases connected) (auto split: if_splits)
  next
    case joined: False
    show ?thesis
    proof (cases "ss_peer_node_id t \<noteq> Some (tp_id target) \<or> ts_peer_pubkey (ss_tls t) \<noteq> tp_public_key target \<or>
        has_open_session app1 (tp_id target)")
      case True
      then have "close_session host app1 (Some r) w1 = (app', w')" using unfolded joined by simp
      from closing [OF this one(1,2)] show ?thesis .
    next
      case False
      then obtain contact app2 w2 where rejoined: "rejoin host app1 r target (tp_id target) w1 = Some (contact, app2, w2)"
        using unfolded joined by (auto split: option.splits)
      note silent = rejoin_quiet [OF rejoined]
      have two: "node_ok host app2" "ap_trust app2 = ap_trust app"
        using node_ok_quiet [OF silent one(1)] quiet_trust [OF silent] one(2) by simp_all
      have unregistered: "r \<notin> set (ap_sessions app2)" using silent one(3) fresh by (simp add: quiet_def)
      have peer: "ss_peer_node_id (as_transport (ap_store app2 r)) = Some (tp_id target)"
        using silent False by (auto simp: quiet_def kept_session_def same_link_def app1_def set_session_def)
      show ?thesis
      proof (cases contact)
        case None
        then have "close_session host app2 (Some r) w2 = (app', w')" using unfolded joined False rejoined by simp
        from closing [OF this two] show ?thesis .
      next
        case (Some c)
        let ?s = "(ap_store app2 r)\<lparr>as_trusted := True, as_peer_id := Some (tp_id target), as_contact := c\<rparr>"
        have s: "session_ok app2 ?s" using peer trusted two(2) by (simp add: session_ok_def peer_is_trusted_def)
        obtain ok app3 w3 where adopt: "adopt_session host (set_session app2 r ?s) r c w2 = (ok, app3, w3)"
          by (metis prod_cases3)
        note three = adopt_session_keeps [OF adopt two(1) unregistered s]
        have started: "quiet app3 (mark_routing_dirty (start_session_worker app3 r))"
          using start_worker_quiet by simp
        have rest: "app' = (if ok then mark_routing_dirty (start_session_worker app3 r) else app3)"
          using unfolded joined False rejoined adopt Some by (simp split: bool.splits)
        show ?thesis
          using three two(2) node_ok_quiet [OF started three [THEN conjunct1]] quiet_trust [OF started]
          by (cases ok) (simp_all add: rest)
      qed
    qed
  qed
qed

lemma reconnect_peers_keeps:
  assumes "reconnect_peers host fresh targets app w = Some (app', w')" "node_ok host app"
    and "\<And>a. fresh a \<notin> set (ap_sessions a)" "\<forall>p\<in>set targets. peer_is_trusted app (tp_id p)"
  shows "node_ok host app'"
  using assms(1,2,4)
proof (induction targets arbitrary: app w)
  case (Cons target targets)
  show ?case
  proof (cases "id_id (ap_identity app) < tp_id target \<and> \<not> goes_on host w")
    case True
    then show ?thesis using Cons.prems(1,2) by simp
  next
    case False
    then obtain app1 w1 where first: "reconnect_peer host app target (fresh app) w = Some (app1, w1)"
      and rest: "reconnect_peers host fresh targets app1 w1 = Some (app', w')"
      using Cons.prems(1) by (auto split: option.splits if_splits)
    have kept: "node_ok host app1" "ap_trust app1 = ap_trust app"
      using reconnect_peer_keeps [OF first Cons.prems(2) assms(3)] Cons.prems(3) by simp_all
    show ?thesis
      by (rule Cons.IH [OF rest kept(1)]) (use Cons.prems(3) kept(2) in \<open>simp add: peer_is_trusted_def\<close>)
  qed
qed simp

lemma reconnect_step_keeps:
  assumes "reconnect_step host fresh app w = Some (app', w')" "node_ok host app"
    and "\<And>a. fresh a \<notin> set (ap_sessions a)"
  shows "node_ok host app'"
proof -
  have sorted: "table_sorted (tr_peers (ap_trust app))" using assms(2) by (simp add: node_ok_def rest_ok_def)
  have "\<forall>p\<in>set (tr_peers (ap_trust app)). peer_is_trusted app (tp_id p)"
    using trust_find_map [OF sorted] table_map_mem [OF sorted]
    by (auto simp: peer_is_trusted_def trust_contains_def)
  from reconnect_peers_keeps [OF _ assms(2,3) this] show ?thesis
    using assms(1,2) by (auto simp: reconnect_step_def split: if_splits)
qed

section \<open>The steps of a node\<close>

text \<open>
  A state is the state of the process and the world. \<open>server\<close> is the server socket of the node. What a
  worker keeps for itself (timers, counters, the address of its session) may be anything.
\<close>

inductive worker_step ::
  "('w, 'k, 's) host \<Rightarrow> 'k transport_server \<Rightarrow> 'k app_state \<times> 'w \<Rightarrow> 'k app_state \<times> 'w \<Rightarrow> bool"
  for host :: "('w, 'k, 's) host" and server :: "'k transport_server" where
  step_accept: "r \<notin> set (ap_sessions app) \<Longrightarrow> accept_round host server r app w = (app', w') \<Longrightarrow>
    worker_step host server (app, w) (app', w')"
| step_session: "session_round host sw app r w = Some (go, sw', app', w') \<Longrightarrow> worker_step host server (app, w) (app', w')"
| step_session_end: "session_end host app r w = (app', w') \<Longrightarrow> worker_step host server (app, w) (app', w')"
| step_routing: "routing_round host timers app w = (timers', app', w') \<Longrightarrow> worker_step host server (app, w) (app', w')"
| step_tun: "data_plane_round host app w = (app', w') \<Longrightarrow> worker_step host server (app, w) (app', w')"
| step_reconnect: "(\<And>a. fresh a \<notin> set (ap_sessions a)) \<Longrightarrow> reconnect_step host fresh app w = Some (app', w') \<Longrightarrow>
    worker_step host server (app, w) (app', w')"
| step_query: "r \<notin> set (ap_sessions app) \<Longrightarrow> query_peer host app n target sequence r w = Some (contacts, app', w') \<Longrightarrow>
    worker_step host server (app, w) (app', w')"
| step_announce: "announce_to_peer host app r sequence w = Some (ok, app', w') \<Longrightarrow>
    worker_step host server (app, w) (app', w')"
| step_drop: "drop_session host app r w = (app', w') \<Longrightarrow> worker_step host server (app, w) (app', w')"
| step_world: "worker_step host server (app, w) (app, w')"

text \<open>A node that has just been started.\<close>

definition node_start :: "('w, 'k, 's) host \<Rightarrow> 'k app_state \<times> 'w \<Rightarrow> bool" where
  "node_start host s \<longleftrightarrow>
     (let app = fst s in
      ap_topology app = \<lparr>peers = []\<rparr> \<and> ap_routing_table app = \<lparr>routes = []\<rparr> \<and> ap_route_advertisements app = [] \<and>
      ap_sessions app = [] \<and> contacts_ok host app \<and> table_sorted (tr_peers (ap_trust app)) \<and>
      vn_address (ap_vnet app) = virtual_address (cfg_network (ap_config app)) (id_id (ap_identity app)))"

lemma node_start_ok: "node_start host (app, w) \<Longrightarrow> node_ok host app"
  by (simp add: node_start_def node_ok_def neighbors_ok_def routes_ok_def rest_ok_def sessions_ok_def
      topology_inv_def advertisements_ok_def table_inv_def)

lemma worker_step_ok: "worker_step host server s s' \<Longrightarrow> node_ok host (fst s) \<Longrightarrow> node_ok host (fst s')"
  by (induction rule: worker_step.induct)
    (auto intro: accept_round_keeps session_round_keeps session_end_keeps routing_round_keeps reconnect_step_keeps
      query_peer_node drop_session_keeps node_ok_quiet [OF data_plane_round_quiet] node_ok_quiet [OF announce_to_peer_quiet])

interpretation node: invariant_system "node_start host" "worker_step host server" "\<lambda>s. node_ok host (fst s)"
  by unfold_locales (auto intro: node_start_ok worker_step_ok)

end
