(* ===== verification/Node_Properties.thy ===== *)
theory Node_Properties
  imports Node_Invariant
begin

text \<open>
  What the invariant of a running node says of its neighbours, routes, sessions and contacts, for every state
  that the steps of its workers reach.
\<close>

section \<open>A sample run\<close>

text \<open>
  A node that trusts the peer 8 reconnects to it: over a new TLS session it sends its join request and reads the
  answer, which is all that the library ever delivers.
\<close>

definition sample_answer :: message where
  "sample_answer =
     make_control_wire (control_message_create CT_JOIN_RESPONSE 1 (replicate 32 8)
       (serialize_join_response (empty_join_response\<lparr>js_accepted := True\<rparr>)))"

definition answering_lib :: "('w, byte, byte) ssl_lib" where
  "answering_lib = sample_lib\<lparr>ssl_read := (\<lambda>_ _ w. (Inr (frame sample_answer), w))\<rparr>"

definition answering_host :: "(int list, byte, byte) host" where
  "answering_host = sample_host\<lparr>h_lib := answering_lib\<rparr>"

definition known_peer :: trusted_peer where
  "known_peer = \<lparr>tp_id = replicate 32 8, tp_public_key = replicate 32 7, tp_endpoint = ''[::1]:80''\<rparr>"

definition started_app :: "byte app_state" where
  "started_app = sample_app\<lparr>ap_topology := \<lparr>peers = []\<rparr>, ap_trust := \<lparr>tr_directory = ''/d.state'', tr_peers = [known_peer]\<rparr>\<rparr>"

definition reconnected_session :: transport_session where
  "reconnected_session = connected_session\<lparr>ss_remote_endpoint := ''[::1]:80''\<rparr>"

lemma text80: "to_string 80 = ''80''"
  by (simp add: to_string.simps char_of_def bit_simps)

lemma sample_reconnect:
  "transport_connect_tls sample_os answering_lib new_session (tls_config_for started_app) ''::1'' 80
     (Some (replicate 32 8)) 1000 (Some []) [] = (True, reconnected_session, Some [], [3])"
  by (simp add: transport_connect_tls_def tls_config_for_def started_app_def sample_app_def new_session_def
      reconnected_session_def connected_session_def answering_lib_def
      transport_close_def socket_close_def socket_is_valid_def INVALID_SOCKET_HANDLE_def socket_connect_def
      sample_os_def sample_lib_def tls_context_init_def tls_context_destroy_def enforce_tls13_def
      make_self_signed_certificate_def configure_certificate_def tls_session_init_def tls_destroy_def
      tls_close_def empty_tls_session_def empty_tls_context_def tls_handshake_def peer_identity_def
      sample_certificate_def X509_V_OK_def format_endpoint_def find_char_def socket_set_timeout_def
      text80 Let_def)

text \<open>The library takes everything that is written at once.\<close>

lemma answering_write: "tls_write_loop answering_lib ssl data w = (Inr (), w)"
  by (simp add: tls_write_loop.simps answering_lib_def sample_lib_def)

definition sample_welcome :: join_response where
  "sample_welcome = empty_join_response\<lparr>js_accepted := True\<rparr>"

lemma sample_welcome_ok: "contact_ok (boot_contact sample_welcome)" "peers_ok (js_peers sample_welcome)"
  by (simp_all add: sample_welcome_def empty_join_response_def boot_contact_def contact_ok_def empty_contact_def
      peers_ok_def zero_node_id_def zero_public_key_def zero_ipv6_def)

lemma sample_payload: "length (serialize_join_response sample_welcome) \<le> 200"
  unfolding serialize_join_response_ok [OF sample_welcome_ok]
  by (simp add: serialize_node_contact_def encode_counted_def
      sample_welcome_def empty_join_response_def boot_contact_def empty_contact_def zero_node_id_def
      zero_public_key_def zero_ipv6_def)

lemma sample_control:
  "deserialize_control_message (m_payload sample_answer) =
     Inr (control_message_create CT_JOIN_RESPONSE 1 (replicate 32 8) (serialize_join_response sample_welcome))"
  using sample_payload
  by (simp add: sample_answer_def make_control_wire_def control_roundtrip control_message_ok_iff
      control_message_create_def known_control_type_def control_type_defs flip: sample_welcome_def)

lemma sample_answer_size: "length (m_payload sample_answer) \<le> 300"
  using sample_payload
  by (simp add: sample_answer_def make_control_wire_def serialize_control_message_def control_message_create_def
      flip: sample_welcome_def)

lemma sample_answer_ok: "message_ok sample_answer"
  using sample_answer_size
  by (simp add: message_ok_def frame_sizes) (simp add: sample_answer_def make_control_wire_def known_message_type_def)

lemma sample_answer_length: "length (frame sample_answer) \<le> 1024" "frame sample_answer \<noteq> []"
  using sample_answer_size by (simp add: length_frame frame_sizes) (simp add: frame_def)

lemma sample_receive:
  "transport_receive sample_os answering_lib reconnected_session (Some 1500) (Some []) [3] =
     Some \<lparr>rc_message = Some sample_answer, rc_session = reconnected_session, rc_closed = False, rc_error = Some [],
           rc_world = [3]\<rparr>"
proof -
  have size: "length (frame sample_answer) \<le> 1024" "frame sample_answer \<noteq> []" by (fact sample_answer_length)+
  have unread: "take_frame sample_os answering_lib reconnected_session (Some []) [3] = None"
    by (simp add: take_frame_def reconnected_session_def connected_session_def HEADER_SIZE_def)
  have read: "read_chunk sample_os answering_lib reconnected_session (Some []) [3] =
      Inr (reconnected_session\<lparr>ss_recv_buffer := frame sample_answer\<rparr>, Some [], [3])"
    using size
    by (simp add: read_chunk_def reconnected_session_def connected_session_def MAX_RECV_BUFFER_SIZE_def
        RECV_CHUNK_SIZE_def tls_receive_def answering_lib_def)
  have "take_frame sample_os answering_lib (reconnected_session\<lparr>ss_recv_buffer := frame sample_answer\<rparr>) (Some []) [3] =
      Some \<lparr>rc_message = Some sample_answer, rc_session = reconnected_session, rc_closed = False, rc_error = Some [],
           rc_world = [3]\<rparr>"
    by (subst take_frame_complete [OF sample_answer_ok, where rest = "[]"])
      (simp_all add: reconnected_session_def connected_session_def)
  then have "receive_loop sample_os answering_lib reconnected_session (Some []) [3] =
      Some \<lparr>rc_message = Some sample_answer, rc_session = reconnected_session, rc_closed = False, rc_error = Some [],
           rc_world = [3]\<rparr>"
    by (subst receive_loop.simps) (simp add: unread read, subst receive_loop.simps, simp)
  then show ?thesis
    by (simp add: transport_receive_def socket_set_timeout_def sample_os_def)
      (simp add: reconnected_session_def connected_session_def)
qed

lemma reconnected_fields [simp]:
  "ss_is_open reconnected_session" "ss_is_tls reconnected_session" "ss_socket reconnected_session = 3"
  "ts_ssl (ss_tls reconnected_session) = Some 2" "ts_established (ss_tls reconnected_session)"
  "ts_peer_pubkey (ss_tls reconnected_session) = replicate 32 7"
  "ss_peer_node_id reconnected_session = Some (replicate 32 8)"
  by (simp_all add: reconnected_session_def connected_session_def)

lemma sample_send:
  assumes "message_ok m"
  shows "transport_send sample_os answering_lib reconnected_session m err [3] = (True, reconnected_session, err, [3])"
proof -
  have "message_encode m = Inr (frame m)" using assms by (simp add: message_encode_frame)
  then show ?thesis by (simp add: transport_send_def tls_send_def answering_write)
qed

text \<open>The session, its node and the neighbour after the join.\<close>

definition peer_contact :: node_contact where
  "peer_contact = empty_contact\<lparr>nc_id := replicate 32 8, nc_public_key := replicate 32 7,
     nc_endpoint := ''[::1]:80'', nc_virtual_address := virtual_address sample_network (replicate 32 8)\<rparr>"

definition connecting_app :: "byte app_state" where
  "connecting_app = set_session started_app 5 (new_peer_session\<lparr>as_transport := reconnected_session\<rparr>)"

lemma sample_rejoin:
  "rejoin answering_host connecting_app 5 known_peer (replicate 32 8) [3] =
     Some (Some peer_contact, connecting_app\<lparr>ap_next_control_sequence := 2\<rparr>, [3])"
proof -
  let ?app = "connecting_app\<lparr>ap_next_control_sequence := 2\<rparr>"
  have same: "set_session ?app 5 ((ap_store connecting_app 5)\<lparr>as_transport := reconnected_session\<rparr>) = ?app"
    by (simp add: connecting_app_def set_session_def)
  have transport: "as_transport (ap_store connecting_app 5) = reconnected_session"
    by (simp add: connecting_app_def set_session_def)
  have host: "h_os answering_host = sample_os" "h_lib answering_host = answering_lib"
    "now_ms answering_host w = (7, w)" for w
    by (simp_all add: answering_host_def sample_host_def now_ms_def)
  have sent: "send_control answering_host ?app (Some 5) CT_JOIN_REQUEST 1 (replicate 32 1)
      (serialize_join_request r) (Some []) [3] = (True, ?app, Some [], [3])"
    if "length (serialize_join_request r) \<le> 300" for r
  proof -
    have "message_ok (make_control_wire (control_message_create CT_JOIN_REQUEST 1 (replicate 32 1)
        (serialize_join_request r)))"
      using that by (simp add: message_ok_def make_control_wire_def known_message_type_def frame_sizes
          serialize_control_message_def control_message_create_def)
    from sample_send [OF this] show ?thesis
      by (simp add: send_control_def send_on_session_def host transport same)
  qed
  have received: "receive_control answering_host ?app 5 1500 [3] =
      Some (Some (control_message_create CT_JOIN_RESPONSE 1 (replicate 32 8) (serialize_join_response sample_welcome)),
        ?app, [3])"
    using sample_control
    by (simp add: receive_control_def receive_on_session_def host transport sample_receive same)
      (simp add: sample_answer_def make_control_wire_def)
  have answer: "deserialize_join_response (serialize_join_response sample_welcome) = Inr sample_welcome"
    using join_response_received [OF sample_welcome_ok]
    by (simp add: sample_welcome_def empty_join_response_def boot_contact_def empty_contact_def)
  have contact: "reconnected_contact ?app known_peer (replicate 32 8) sample_welcome = Some peer_contact"
    by (simp add: reconnected_contact_def sample_welcome_def empty_join_response_def empty_contact_def peer_contact_def
        known_peer_def connecting_app_def set_session_def started_app_def sample_app_def Let_def)
  have fields: "ap_next_control_sequence connecting_app = 1" "id_id (ap_identity connecting_app) = replicate 32 1"
    "ap_local_contact connecting_app = bare_contact (replicate 32 1)"
    by (simp_all add: connecting_app_def set_session_def started_app_def sample_app_def)
  have request: "length (serialize_join_request
      \<lparr>jr_node_id = replicate 32 1, jr_public_key = zero_public_key, jr_virtual_address = zero_ipv6, jr_endpoint = [],
       jr_timestamp = 7, jr_nonce = 1001, jr_invite_token = []\<rparr>) \<le> 300"
    by (simp add: serialize_join_request_def zero_public_key_def zero_ipv6_def)
  show ?thesis
    using sent [OF request] received answer contact
    by (simp add: rejoin_def host fields Let_def bare_contact_def empty_contact_def)
      (simp add: control_message_create_def sample_welcome_def)
qed

definition sample_fresh :: "byte app_state \<Rightarrow> session_ref" where
  "sample_fresh a = sum_list (ap_sessions a) + 5"

definition joined_app :: "byte app_state" where
  "joined_app = connecting_app\<lparr>ap_next_control_sequence := 2, ap_sessions := [5],
     ap_store := (ap_store started_app)(5 := \<lparr>as_transport = reconnected_session, as_contact = peer_contact,
       as_peer_id = Some (replicate 32 8), as_worker_started = True, as_trusted = True\<rparr>),
     ap_topology := \<lparr>peers = [peer_create (replicate 32 8) (virtual_address sample_network (replicate 32 8))
       ''[::1]:80'' Connected 5]\<rparr>,
     ap_routing_table := \<lparr>routes = [route_create (virtual_address sample_network (replicate 32 8)) (replicate 32 8) 1 5
       (replicate 32 8)]\<rparr>,
     ap_routing_metrics := zero_routing_metrics\<lparr>rm_neighbor_up := 1, rm_routes_installed := 1\<rparr>,
     ap_routing_dirty := True\<rparr>"

text \<open>The peer becomes a neighbour.\<close>

lemma sample_adopt:
  assumes "app = connecting_app\<lparr>ap_next_control_sequence := 2,
     ap_store := (ap_store started_app)(5 := \<lparr>as_transport = reconnected_session, as_contact = peer_contact,
       as_peer_id = Some (replicate 32 8), as_worker_started = False, as_trusted = True\<rparr>)\<rparr>"
  shows "adopt_session answering_host app 5 peer_contact [3] =
    (True, joined_app\<lparr>ap_store := ap_store app, ap_routing_dirty := True\<rparr>, [3])"
proof -
  have register: "register_session app (Some 5) = (True, app\<lparr>ap_sessions := [5]\<rparr>)"
    by (simp add: assms register_session_def connecting_app_def set_session_def started_app_def sample_app_def
        MAX_PEER_SESSIONS_def)
  have clock: "steady_now_ms answering_host w = (5, w)" for w
    by (simp add: steady_now_ms_def answering_host_def sample_host_def)
  have trusted: "trust_contains \<lparr>tr_directory = d, tr_peers = [known_peer]\<rparr> (replicate 32 8)" for d
    by (simp add: trust_contains_def trust_find_map table_map_def) (simp add: known_peer_def)
  have fields: "ap_topology app = \<lparr>peers = []\<rparr>" "ap_trust app = \<lparr>tr_directory = ''/d.state'', tr_peers = [known_peer]\<rparr>"
    "id_id (ap_identity app) = replicate 32 1" "cfg_network (ap_config app) = sample_network"
    "ap_routing_table app = \<lparr>routes = []\<rparr>" "ap_route_advertisements app = []"
    "ap_routing_metrics app = zero_routing_metrics"
    by (simp_all add: assms connecting_app_def set_session_def started_app_def sample_app_def)
  have contact: "nc_id peer_contact = replicate 32 8" "nc_endpoint peer_contact = ''[::1]:80''"
    "nc_virtual_address peer_contact = virtual_address sample_network (replicate 32 8)"
    by (simp_all add: peer_contact_def)
  have activate: "activate_neighbor answering_host (app\<lparr>ap_sessions := [5]\<rparr>) peer_contact [3] =
      (True, joined_app\<lparr>ap_store := ap_store app, ap_routing_dirty := True\<rparr>, [3])"
    by (simp add: activate_neighbor_def rebuild_routing_table_def clock trusted fields contact zero_node_id_def
        peer_is_trusted_def topology_find_peer_def topology_add_peer_def MAX_TOPOLOGY_PEERS_def routing_clear_def
        peer_create_def peer_is_alive_def direct_route_def routing_add_route_def MAX_ROUTE_TABLE_ENTRIES_def
        advertising_neighbors_def count_routing_def mark_routing_dirty_def joined_app_def route_create_def
        zero_routing_metrics_def Let_def)
      (simp add: assms)
  show ?thesis by (simp add: adopt_session_def register activate)
qed


lemma sample_reconnect_step:
  "reconnect_step answering_host sample_fresh started_app [] = Some (joined_app, [3])"
proof -
  have endpoint: "parse_endpoint (h_pton4 answering_host) (h_pton6 answering_host) (tp_endpoint known_peer) =
      Some (''::1'', 80)"
    by (simp add: answering_host_def sample_host_def known_peer_def parse_endpoint_def sample_endpoint_pton6_def
        find_char_def c_str_def parse_port_def from_chars_def is_digit_def digits_value_def)
  have host: "h_os answering_host = sample_os" "h_lib answering_host = answering_lib"
    by (simp_all add: answering_host_def sample_host_def)
  have fields: "ap_sessions started_app = []" "id_id (ap_identity started_app) = replicate 32 1"
    "tr_peers (ap_trust started_app) = [known_peer]"
    by (simp_all add: started_app_def sample_app_def)
  have target: "tp_id known_peer = replicate 32 8" "tp_public_key known_peer = replicate 32 7"
    by (simp_all add: known_peer_def)
  have quiet_start: "ap_sessions connecting_app = []" by (simp add: connecting_app_def set_session_def fields)
  have "replicate 32 x = x # replicate 31 x" for x :: byte by (simp add: numeral_eq_Suc)
  then have below: "(replicate 32 1 :: byte list) < replicate 32 8" by simp
  let ?app = "connecting_app\<lparr>ap_next_control_sequence := 2\<rparr>"
  define app where "app = set_session ?app 5 ((ap_store ?app 5)\<lparr>as_trusted := True, as_peer_id := Some (replicate 32 8),
      as_contact := peer_contact\<rparr>)"
  have "app = connecting_app\<lparr>ap_next_control_sequence := 2,
     ap_store := (ap_store started_app)(5 := \<lparr>as_transport = reconnected_session, as_contact = peer_contact,
       as_peer_id = Some (replicate 32 8), as_worker_started = False, as_trusted = True\<rparr>)\<rparr>"
    by (simp add: app_def connecting_app_def set_session_def new_peer_session_def)
  note adopt = sample_adopt [OF this] this
  have "mark_routing_dirty (start_session_worker (joined_app\<lparr>ap_store := ap_store app, ap_routing_dirty := True\<rparr>) 5) =
      joined_app"
    by (simp add: adopt(2) mark_routing_dirty_def start_session_worker_def set_session_def joined_app_def)
  then have "reconnect_peer answering_host started_app known_peer 5 [] = Some (joined_app, [3])"
    unfolding reconnect_peer_def endpoint option.case prod.case host target fields sample_reconnect
      bool.case Let_def connecting_app_def [symmetric] sample_rejoin app_def [symmetric] adopt(1)
    by (simp add: already_connected_def has_open_session_def fields quiet_start below)
  moreover have "goes_on answering_host []" by (simp add: goes_on_def answering_host_def sample_host_def)
  ultimately show ?thesis by (simp add: reconnect_step_def fields sample_fresh_def)
qed

text \<open>The node starts with what it trusts, and reaches the state after the join.\<close>

lemma sample_empty_kademlia:
  "known_table (sample_kademlia\<lparr>kt_local_id := replicate 32 1\<rparr>)"
  "all_contacts (sample_kademlia\<lparr>kt_local_id := replicate 32 1\<rparr>) = []"
proof -
  have cleared: "sample_kademlia\<lparr>kt_local_id := replicate 32 1\<rparr> =
      kademlia_clear (empty_kademlia_table\<lparr>kt_local_id := replicate 32 1\<rparr>)"
    by (simp add: sample_kademlia_def kademlia_clear_def)
  show none: "all_contacts (sample_kademlia\<lparr>kt_local_id := replicate 32 1\<rparr>) = []"
    unfolding cleared by (simp add: all_contacts_def kademlia_clear_def)
  have "kademlia_inv (kademlia_clear (empty_kademlia_table\<lparr>kt_local_id := replicate 32 1\<rparr>))"
    by (rule kademlia_inv_clear) (simp_all add: empty_kademlia_table_def)
  with none show "known_table (sample_kademlia\<lparr>kt_local_id := replicate 32 1\<rparr>)"
    by (simp add: known_table_def cleared)
qed

lemma sample_node_start: "node_start answering_host (started_app, [])"
  using sample_empty_kademlia
  by (simp add: node_start_def contacts_ok_def started_app_def sample_app_def)

lemma sample_reachable:
  "reachable (node_start answering_host) (worker_step answering_host sample_server) (joined_app, [3])"
proof (rule reachable_step)
  show "reachable (node_start answering_host) (worker_step answering_host sample_server) (started_app, [])"
    by (rule reachable_start) (rule sample_node_start)
  have "sample_fresh a \<notin> set (ap_sessions a)" for a
    using member_le_sum_list [of "sample_fresh a" "ap_sessions a"] by (auto simp: sample_fresh_def)
  from step_reconnect [OF this sample_reconnect_step]
  show "worker_step answering_host sample_server (started_app, []) (joined_app, [3])" .
qed

lemma joined_fields:
  "peers (ap_topology joined_app) = [peer_create (replicate 32 8) (virtual_address sample_network (replicate 32 8))
     ''[::1]:80'' Connected 5]"
  "routes (ap_routing_table joined_app) =
     [route_create (virtual_address sample_network (replicate 32 8)) (replicate 32 8) 1 5 (replicate 32 8)]"
  "ap_sessions joined_app = [5]"
  "ap_store joined_app 5 = \<lparr>as_transport = reconnected_session, as_contact = peer_contact,
     as_peer_id = Some (replicate 32 8), as_worker_started = True, as_trusted = True\<rparr>"
  by (simp_all add: joined_app_def)

section \<open>Properties\<close>

text \<open>What a reachable node satisfies.\<close>

lemma reachable_node_ok:
  "reachable (node_start host) (worker_step host server) (app, w) \<Longrightarrow> node_ok host app"
  using node.reachable_inv [of host server "(app, w)"] by simp

text \<open>
  C3. In every state that a node reaches, by any interleaving of its workers' rounds and whatever its peers
  send, it has at most sixteen neighbours, all different; each is trusted, is not the node itself, and is known under
  the virtual address that belongs to its identifier.
\<close>

theorem only_trusted_neighbors:
  assumes "reachable (node_start host) (worker_step host server) (app, w)"
  shows "length (peers (ap_topology app)) \<le> 16 \<and> distinct (map p_id (peers (ap_topology app))) \<and>
    list_all (\<lambda>p. peer_is_trusted app (p_id p) \<and> p_id p \<noteq> id_id (ap_identity app) \<and>
        p_virtual_address p = virtual_address (cfg_network (ap_config app)) (p_id p)) (peers (ap_topology app))"
  using reachable_node_ok [OF assms]
  by (simp add: node_ok_def neighbors_ok_def neighbor_ok_def topology_inv_def keyed_def MAX_TOPOLOGY_PEERS_def
      list_all_iff)

lemma only_trusted_neighbors_witness:
  "map p_id (peers (ap_topology joined_app)) = [replicate 32 8] \<and> peer_is_trusted joined_app (replicate 32 8)"
  using only_trusted_neighbors [OF sample_reachable]
  by (simp add: joined_fields peer_create_def)

text \<open>
  C8. In every state that a node reaches, its routing table has at most sixteen routes, one for each destination.
  Each goes through a neighbour that is connected and trusted, to the virtual address of its destination node, with a
  metric of at most 16.
\<close>

theorem routes_lead_through_trusted_neighbors:
  assumes "reachable (node_start host) (worker_step host server) (app, w)"
  shows "length (routes (ap_routing_table app)) \<le> 16 \<and>
    distinct (map r_destination_node (routes (ap_routing_table app))) \<and>
    list_all (\<lambda>r. peer_is_trusted app (r_next_hop r) \<and>
        list_ex (\<lambda>p. p_id p = r_next_hop r \<and> p_state p = Connected) (peers (ap_topology app)) \<and>
        r_destination r = virtual_address (cfg_network (ap_config app)) (r_destination_node r) \<and>
        r_metric r \<le> 16) (routes (ap_routing_table app))"
proof -
  have ok: "neighbors_ok app" "routes_ok app" using reachable_node_ok [OF assms] by (simp_all add: node_ok_def)
  have hop: "peer_is_trusted app n \<and>
      list_ex (\<lambda>p. p_id p = n \<and> p_state p = Connected) (peers (ap_topology app))"
    if "n \<in> connected_ids (peers (ap_topology app))" for n
    using that ok(1) by (auto simp: connected_ids_def neighbors_ok_def neighbor_ok_def list_ex_iff)
  show ?thesis
    using ok(2) hop
    by (auto simp: routes_ok_def table_inv_def keyed_def MAX_ROUTE_TABLE_ENTRIES_def list_all_iff route_fits_def
        ROUTE_METRIC_INFINITY_def)
qed

lemma routes_lead_through_trusted_neighbors_witness:
  "map r_next_hop (routes (ap_routing_table joined_app)) = [replicate 32 8] \<and>
   peer_is_trusted joined_app (replicate 32 8)"
  using routes_lead_through_trusted_neighbors [OF sample_reachable]
  by (simp add: joined_fields route_create_def)

text \<open>
  C9. In every state that a node reaches, it has at most sixteen registered sessions, and at most one open session with
  each peer. A session belongs to the peer that its TLS handshake authenticated, and it is trusted only if the node
  trusts this peer.
\<close>

theorem sessions_are_authenticated:
  assumes "reachable (node_start host) (worker_step host server) (app, w)"
  shows "length (ap_sessions app) \<le> 16 \<and>
    distinct (map (\<lambda>r. as_peer_id (ap_store app r)) (filter (\<lambda>r. session_is_open app (Some r)) (ap_sessions app))) \<and>
    list_all (\<lambda>r. case as_peer_id (ap_store app r) of
          None \<Rightarrow> False
        | Some n \<Rightarrow> ss_peer_node_id (as_transport (ap_store app r)) = Some n \<and>
            (as_trusted (ap_store app r) \<longrightarrow> peer_is_trusted app n)) (ap_sessions app)"
proof -
  have ok: "sessions_ok app" using reachable_node_ok [OF assms] by (simp add: node_ok_def rest_ok_def)
  then show ?thesis
    by (auto simp: sessions_ok_def session_ok_def MAX_PEER_SESSIONS_def distinct_map inj_on_def list_all_iff
        split: option.split)
qed

lemma sessions_are_authenticated_witness:
  "ap_sessions joined_app = [5] \<and> as_trusted (ap_store joined_app 5) \<and>
   peer_is_trusted joined_app (replicate 32 8)"
  using sessions_are_authenticated [OF sample_reachable]
  by (simp add: joined_fields)

text \<open>
  C18. When a node in a reachable state rebuilds its routing table, every neighbour that is connected and was heard within
  five seconds is reached directly, with metric 1, provided no stored advertisement has a metric of zero.
\<close>

theorem live_neighbors_reached_directly:
  assumes "reachable (node_start host) (worker_step host server) (app, w0)"
    and "positive_metrics (ap_route_advertisements app)"
    and "rebuild_routing_table host app w = (app', w')"
    and "p \<in> set (peers (ap_topology app))" "peer_is_alive p (fst (steady_now_ms host w)) 5000"
  shows "map_option (\<lambda>r. (r_next_hop r, r_metric r))
      (find (\<lambda>r. r_destination_node r = p_id p) (routes (ap_routing_table app'))) = Some (p_id p, 1)"
proof -
  have ok: "neighbors_ok app" using reachable_node_ok [OF assms(1)] by (simp add: node_ok_def)
  have facts: "keyed 16 p_id (peers (ap_topology app))"
    "\<forall>p\<in>set (peers (ap_topology app)). p_id p \<noteq> zero_node_id \<and>
       p_virtual_address p = virtual_address (cfg_network (ap_config app)) (p_id p)"
    "advertisements_ok (cfg_network (ap_config app)) (ap_route_advertisements app)"
    using ok by (simp_all add: neighbors_ok_def neighbor_ok_def topology_inv_def MAX_TOPOLOGY_PEERS_def)
  obtain f where "app' = count_routing f (app\<lparr>ap_routing_table :=
      rebuilt_table (peers (ap_topology app)) (ap_route_advertisements app) (fst (steady_now_ms host w))
        (ap_routing_table app)\<rparr>)" using rebuild_result [OF assms(3)] by blast
  then show ?thesis
    using rebuilt_table_facts(3) [OF facts assms(2,4,5)] by (simp add: count_routing_def view_def hop_def)
qed

lemma live_neighbors_reached_directly_witness:
  "map_option (\<lambda>r. (r_next_hop r, r_metric r))
      (find (\<lambda>r. r_destination_node r = replicate 32 8)
        (routes (ap_routing_table (fst (rebuild_routing_table answering_host joined_app []))))) =
    Some (replicate 32 8, 1)"
proof -
  let ?p = "peer_create (replicate 32 8) (virtual_address sample_network (replicate 32 8)) ''[::1]:80'' Connected 5"
  have "ap_route_advertisements joined_app = []"
    by (simp add: joined_app_def connecting_app_def set_session_def started_app_def sample_app_def)
  then have positive: "positive_metrics (ap_route_advertisements joined_app)" by (simp add: positive_metrics_def)
  have alive: "peer_is_alive ?p (fst (steady_now_ms answering_host [])) 5000"
    by (simp add: peer_is_alive_def peer_create_def steady_now_ms_def answering_host_def sample_host_def)
  have known: "?p \<in> set (peers (ap_topology joined_app))" by (simp add: joined_fields)
  from live_neighbors_reached_directly [OF sample_reachable positive surjective_pairing known alive]
  show ?thesis by (simp add: peer_create_def)
qed

text \<open>
  C19. An advertised metric of zero diverts a direct route: from a neighbour with a smaller identifier, an advertisement
  that gives metric 0 to a directly connected node is valid, and applying it replaces the direct route by one through
  the advertising neighbour. No node announces metric 0 for another node itself, but none is refused for it.
\<close>

theorem zero_metric_diverts:
  assumes "table_inv t" "view (routes t) d = Some (d, 1)" "neighbor < d"
    and "ra_routes adv = [route_create (virtual_address network d) zero_node_id 0 0 d]"
    and "ra_sender adv = neighbor" "neighbor \<noteq> zero_node_id"
  shows "accepted (validate_route_advertisement adv network) \<and>
    view (routes (dv_table (fst (distance_vector_update t neighbor adv now 1 None)))) d = Some (neighbor, 1)"
proof -
  have find_d: "find (for_node d) (routes t) \<noteq> None" using assms(2) by (auto simp: view_def)
  then have d: "d \<noteq> zero_node_id" using assms(1) by (auto simp: table_inv_def dest: find_SomeD)
  have destinations: "\<forall>a\<in>set (ra_routes adv). r_destination_node a \<noteq> zero_node_id"
    using d by (simp add: assms(4) route_create_def)
  have valid: "accepted (validate_route_advertisement adv network)"
    using assms(6) d
    by (simp add: validate_route_advertisement_def assms(4,5) route_create_def MAX_ROUTE_TABLE_ENTRIES_def)
  have metric: "candidate_metric 1 0 = 1" by (simp add: candidate_metric_def ROUTE_METRIC_INFINITY_def)
  have "relax_all neighbor 1 (ra_routes adv) d (view (routes t) d) = Some (neighbor, 1)"
    using assms(3) by (simp add: relax_all_def assms(2,4) route_create_def relax_def metric ROUTE_METRIC_INFINITY_def)
  moreover have "find (for_node d) (ra_routes adv) \<noteq> None" by (simp add: assms(4) route_create_def)
  ultimately have "view (routes (snd (apply_routes t neighbor adv now 1))) d = Some (neighbor, 1)"
    using apply_routes_view [OF assms(1) destinations refl, of neighbor now 1 d] assms(2) by auto
  then show ?thesis using valid by (simp add: dv_table_no_origins assms(5))
qed

lemma zero_metric_diverts_witness:
  "view (routes (dv_table (fst (distance_vector_update
      \<lparr>routes = [route_create (virtual_address sample_network (replicate 32 8)) (replicate 32 8) 1 5 (replicate 32 8)]\<rparr>
      (replicate 32 2)
      \<lparr>ra_sender = replicate 32 2, ra_generation = 1, ra_sequence_number = 1,
       ra_routes = [route_create (virtual_address sample_network (replicate 32 8)) zero_node_id 0 0 (replicate 32 8)]\<rparr>
      5 1 None)))) (replicate 32 8) = Some (replicate 32 2, 1)"
proof -
  have "replicate 32 x = x # replicate 31 x" for x :: byte by (simp add: numeral_eq_Suc)
  then have below: "(replicate 32 2 :: byte list) < replicate 32 8" by simp
  show ?thesis
    by (rule zero_metric_diverts [where network = sample_network, THEN conjunct2])
      (use below in \<open>simp_all add: table_inv_def keyed_def MAX_ROUTE_TABLE_ENTRIES_def route_create_def view_def hop_def
        zero_node_id_def\<close>)
qed

end
