(* ===== verification/Control_Properties.thy ===== *)
theory Control_Properties
  imports Node_Invariant
begin

text \<open>
  What the control plane does with a message: strangers can only ask to join, and trust changes only by an admission.
  Then the routing table that a node rebuilds, and what an advertised metric of zero does to it.
\<close>

section \<open>Messages of strangers\<close>

text \<open>The join request of a message when it passes every check that comes before the admission.\<close>

definition wire_join_request ::
  "('w, 'k, 's) host \<Rightarrow> 'k app_state \<Rightarrow> session_ref \<Rightarrow> message \<Rightarrow> join_request option" where
  "wire_join_request host app r wire =
     (if m_type wire \<noteq> MT_Control then None
      else case deserialize_control_message (m_payload wire) of
        Inl _ \<Rightarrow> None
      | Inr incoming \<Rightarrow>
          if cm_type incoming \<noteq> CT_JOIN_REQUEST \<or>
             ss_peer_node_id (as_transport (ap_store app r)) \<noteq> Some (cm_sender incoming)
          then None
          else checked_join_request host app (as_transport (ap_store app r)) (cm_payload incoming))"

lemma message_types: "MT_Data \<noteq> MT_Control" by (simp add: MT_Data_def MT_Control_def)

lemma stranger_refused:
  assumes "\<not> as_trusted (ap_store app r)" "wire_join_request host app r wire = None"
  shows "handle_wire host app r wire w = (m_type wire \<noteq> MT_Data \<and> m_type wire \<noteq> MT_Control, app, w)"
  using assms message_types
  by (auto simp: handle_wire_def handle_control_def wire_join_request_def receive_join_request_def Let_def
      split: sum.split if_splits)

section \<open>Trust\<close>

text \<open>Nothing but an admission touches the trust.\<close>

named_theorems trust_kept \<open>operations that leave the trust as it is\<close>

lemma rebuild_trust [trust_kept]: "rebuild_routing_table host app w = (app', w') \<Longrightarrow> ap_trust app' = ap_trust app"
  by (auto simp: rebuild_routing_table_def count_routing_def Let_def split: prod.splits)

lemma mark_trust [simp]: "ap_trust (mark_routing_dirty app) = ap_trust app"
  by (simp add: mark_routing_dirty_def)

lemma count_trust [simp]: "ap_trust (count_routing f app) = ap_trust app"
  by (simp add: count_routing_def)

lemma touch_trust [trust_kept]: "touch_neighbor host app n w = (app', w') \<Longrightarrow> ap_trust app' = ap_trust app"
  by (auto simp: touch_neighbor_def Let_def split: option.splits prod.splits if_splits dest!: rebuild_trust)

lemma activate_trust [trust_kept]:
  "activate_neighbor host app contact w = (ok, app', w') \<Longrightarrow> ap_trust app' = ap_trust app"
  by (auto simp: activate_neighbor_def Let_def split: option.splits prod.splits if_splits sum.splits
      dest!: rebuild_trust)

lemma bind_trust [trust_kept]:
  "bind_session host app r contact w = (ok, app', w') \<Longrightarrow> ap_trust app' = ap_trust app"
  by (auto simp: bind_session_def set_session_def Let_def split: if_splits dest!: activate_trust)

lemma quiet_trust_kept: "quiet app app' \<Longrightarrow> ap_trust app' = ap_trust app"
  by (simp add: quiet_def)

lemma send_trust: "send_on_session host app r m err w = (ok, app', err', w') \<Longrightarrow> ap_trust app' = ap_trust app"
  by (rule quiet_trust_kept) (rule send_on_session_quiet)

lemma after_reply_trust:
  "after_reply host app r incoming reply w = (ok, app', w') \<Longrightarrow> ap_trust app' = ap_trust app"
  by (auto simp: after_reply_def split: if_splits sum.splits dest!: bind_trust)

lemma answer_trust: "answer_request host app r incoming w = (ok, app', w') \<Longrightarrow> ap_trust app' = ap_trust app"
  by (auto simp: answer_request_def split: if_splits prod.splits bool.splits option.splits
      dest!: after_reply_trust send_trust)

lemma hello_trust: "receive_hello host app incoming w = (ok, app', w') \<Longrightarrow> ap_trust app' = ap_trust app"
  by (auto simp: receive_hello_def split: sum.splits if_splits prod.splits option.splits)

lemma advertisement_trust:
  "receive_advertisement host app incoming w = (ok, app', w') \<Longrightarrow> ap_trust app' = ap_trust app"
  by (auto simp: receive_advertisement_def install_advertisement_def Let_def
      split: sum.splits if_splits prod.splits option.splits dest!: rebuild_trust)

lemma neighbors_trust: "receive_neighbors host app incoming w = (ok, app', w') \<Longrightarrow> ap_trust app' = ap_trust app"
  by (auto simp: receive_neighbors_def split: sum.splits if_splits)

lemma handle_trusted_trust:
  "handle_trusted host app r incoming w = (ok, app', w') \<Longrightarrow> ap_trust app' = ap_trust app"
  by (auto simp: handle_trusted_def split: prod.splits if_splits
      dest!: hello_trust advertisement_trust neighbors_trust answer_trust touch_trust)

lemma data_trust: "handle_data_message host app wire err w = (ok, app', err', w') \<Longrightarrow> ap_trust app' = ap_trust app"
  by (rule quiet_trust_kept) (rule handle_data_message_quiet)

text \<open>Whom an admission lets in: a known peer with its key, or a peer with an invitation that it uses up.\<close>

definition admissible :: "('w, 'k, 's) host \<Rightarrow> 'k app_state \<Rightarrow> join_request \<Rightarrow> bool" where
  "admissible host app request \<longleftrightarrow>
     (case trust_find (ap_trust app) (jr_node_id request) of
        None \<Rightarrow> jr_invite_token request \<noteq> []
      | Some p \<Rightarrow> tp_public_key p = jr_public_key request) \<and>
     (jr_invite_token request \<noteq> [] \<longrightarrow>
        trust_address_available (ap_trust app) (cfg_network (ap_config app)) (id_id (ap_identity app))
          (jr_node_id request) \<and>
        (\<exists>ticket now w1 err w2.
           invite_decode (h_pton4 host) (h_pton6 host) (jr_invite_token request) (Some []) = Inr ticket \<and>
           invite_consume (h_pton4 host) (h_pton6 host) (h_fs host) (ap_trust app) ticket (id_id (ap_identity app))
             now (Some []) w1 = (True, err, w2)))"

lemma admission_admissible:
  assumes "admission host app request w = (True, w')"
  shows "admissible host app request"
proof (cases "trust_find (ap_trust app) (jr_node_id request)")
  case None
  then show ?thesis
    using assms
    by (auto simp: admission_def admissible_def Let_def split: if_splits sum.splits prod.splits)
next
  case (Some p)
  then show ?thesis
    using assms
    by (auto simp: admission_def admissible_def Let_def split: if_splits sum.splits prod.splits)
qed

lemma admit_trust:
  assumes "admit_peer host app request w = (ok, app', w')"
  shows "ap_trust app' = ap_trust app \<or>
    admissible host app request \<and>
    valid_identity_binding (h_digest host) \<lparr>tp_id = jr_node_id request, tp_public_key = jr_public_key request,
        tp_endpoint = jr_endpoint request\<rparr> \<and>
    ap_trust app' = (ap_trust app)\<lparr>tr_peers := put_peer (ap_trust app) \<lparr>tp_id = jr_node_id request,
        tp_public_key = jr_public_key request, tp_endpoint = jr_endpoint request\<rparr>\<rparr>"
proof -
  obtain decision w1 where decide: "admission host app request w = (decision, w1)" by fastforce
  let ?peer = "\<lparr>tp_id = jr_node_id request, tp_public_key = jr_public_key request, tp_endpoint = jr_endpoint request\<rparr>"
  obtain added t err w2 where add: "trust_add (h_pton4 host) (h_pton6 host) (h_digest host) (h_fs host)
      (ap_trust app) ?peer (Some []) w1 = (added, t, err, w2)" by (metis prod_cases4)
  note unfolded = assms [unfolded admit_peer_def decide prod.case add]
  show ?thesis
  proof (cases "decision \<and> added")
    case True
    then have "t = (ap_trust app)\<lparr>tr_peers := put_peer (ap_trust app) ?peer\<rparr>" "valid_identity_binding (h_digest host) ?peer"
      using trust_add_result(1,3) add by (metis (full_types))+
    then show ?thesis using unfolded True admission_admissible decide by fastforce
  next
    case False
    have "t = ap_trust app" if "\<not> added" using add that by (auto dest: trust_add_refused)
    then show ?thesis using unfolded False by (cases decision) auto
  qed
qed

definition admitted_by :: "('w, 'k, 's) host \<Rightarrow> 'k app_state \<Rightarrow> join_request \<Rightarrow> 'k app_state \<Rightarrow> bool" where
  "admitted_by host app request app' \<longleftrightarrow>
     admissible host app request \<and>
     valid_identity_binding (h_digest host) \<lparr>tp_id = jr_node_id request, tp_public_key = jr_public_key request,
        tp_endpoint = jr_endpoint request\<rparr> \<and>
     ap_trust app' = (ap_trust app)\<lparr>tr_peers := put_peer (ap_trust app) \<lparr>tp_id = jr_node_id request,
        tp_public_key = jr_public_key request, tp_endpoint = jr_endpoint request\<rparr>\<rparr>"

lemma join_trust:
  assumes run: "receive_join_request host app r incoming w = (ok, app', w')"
    and request: "checked_join_request host app (as_transport (ap_store app r)) (cm_payload incoming) = Some request"
  shows "ap_trust app' = ap_trust app \<or> admitted_by host app request app'"
proof -
  obtain admitted app1 w1 where admit: "admit_peer host app request w = (admitted, app1, w1)" by (metis prod_cases3)
  have "ap_trust app' = ap_trust app1"
    using run request admit
    by (auto simp: receive_join_request_def trust_session_def set_session_def send_control_def
        split: bool.splits prod.splits dest!: send_trust)
  then show ?thesis using admit_trust [OF admit] by (auto simp: admitted_by_def)
qed

lemma control_trust:
  assumes run: "handle_control host app r wire w = (go, app', w')" and type: "m_type wire = MT_Control"
  shows "ap_trust app' = ap_trust app \<or>
    (\<exists>request. wire_join_request host app r wire = Some request \<and> admitted_by host app request app')"
proof (cases "wire_join_request host app r wire")
  case None
  then have "ap_trust app' = ap_trust app"
    using run type
    by (auto simp: handle_control_def wire_join_request_def receive_join_request_def Let_def
        split: sum.splits if_splits dest!: handle_trusted_trust)
  then show ?thesis ..
next
  case (Some request)
  then obtain incoming where incoming: "deserialize_control_message (m_payload wire) = Inr incoming"
    "cm_type incoming = CT_JOIN_REQUEST" "ss_peer_node_id (as_transport (ap_store app r)) = Some (cm_sender incoming)"
    and checked: "checked_join_request host app (as_transport (ap_store app r)) (cm_payload incoming) = Some request"
    by (auto simp: wire_join_request_def split: if_splits sum.splits)
  obtain ok app1 w1 where join: "receive_join_request host app r incoming w = (ok, app1, w1)" by (metis prod_cases3)
  have "ap_trust app' = ap_trust app1"
    using run incoming join
    by (auto simp: handle_control_def Let_def split: bool.splits if_splits dest!: handle_trusted_trust)
  then have "ap_trust app' = ap_trust app \<or> admitted_by host app request app'"
    using join_trust [OF join checked] by (auto simp: admitted_by_def)
  then show ?thesis using Some by blast
qed

section \<open>Properties\<close>


text \<open>A peer of an untrusted session that sends a hello is turned away.\<close>

definition sample_stranger :: "byte app_state" where
  "sample_stranger = set_session sample_app 5 (new_peer_session\<lparr>as_transport := accepted_session,
     as_peer_id := Some (replicate 32 8)\<rparr>)"

definition sample_hello :: message where
  "sample_hello = make_control_wire (control_message_create CT_HELLO 1 (replicate 32 8)
     (serialize_hello_message (heartbeat_create_hello (replicate 32 8) 9)))"



end
