(* ===== verification/Random_Bytes.thy ===== *)
theory Random_Bytes
  imports Wire
begin

text \<open>
  Random bytes: the Linux branch of \<open>random_bytes\<close> in \<open>src/platform/random.cpp\<close>, a loop over \<open>getrandom\<close>. The
  loop repeats an interrupted call, so it has no bound of its own: \<open>None\<close> is a loop that never ends. Shown: a call
  that succeeds has filled the whole buffer, and the loop ends when interruptions do.
\<close>

text \<open>What a call of \<open>getrandom\<close> for \<open>n\<close> bytes gives: bytes, \<open>EINTR\<close>, or another error with its text.\<close>

datatype getrandom = Got "byte list" | Interrupted | Refused string

partial_function (option) random_loop ::
  "(nat \<Rightarrow> 'w \<Rightarrow> getrandom \<times> 'w) \<Rightarrow> nat \<Rightarrow> byte list \<Rightarrow> 'w \<Rightarrow> (((string \<times> byte list) + byte list) \<times> 'w) option" where
  "random_loop rng n filled w =
     (if n \<le> length filled then Some (Inr filled, w)
      else case rng (n - length filled) w of
        (Interrupted, w1) \<Rightarrow> random_loop rng n filled w1
      | (Refused text, w1) \<Rightarrow> Some (Inl (''getrandom failed: '' @ text, filled), w1)
      | (Got [], w1) \<Rightarrow> Some (Inl (''getrandom returned no data'', filled), w1)
      | (Got (b # bs), w1) \<Rightarrow> random_loop rng n (filled @ b # bs) w1)"

text \<open>The bytes written to \<open>output\<close>, or the error and the bytes that were written before it.\<close>

definition random_bytes ::
  "(nat \<Rightarrow> 'w \<Rightarrow> getrandom \<times> 'w) \<Rightarrow> nat \<Rightarrow> 'w \<Rightarrow> (((string \<times> byte list) + byte list) \<times> 'w) option" where
  "random_bytes rng n w = (if n = 0 then Some (Inr [], w) else random_loop rng n [] w)"

text \<open>A call gives at most the bytes asked for.\<close>

definition bounded_rng :: "(nat \<Rightarrow> 'w \<Rightarrow> getrandom \<times> 'w) \<Rightarrow> bool" where
  "bounded_rng rng \<longleftrightarrow> (\<forall>n w bs w'. rng n w = (Got bs, w') \<longrightarrow> length bs \<le> n)"

definition fills :: "nat \<Rightarrow> byte list \<Rightarrow> ((string \<times> byte list) + byte list) \<times> 'w \<Rightarrow> bool" where
  "fills n filled out \<longleftrightarrow>
     (case fst out of Inl (_, bytes) \<Rightarrow> length bytes \<le> n | Inr bytes \<Rightarrow> length bytes = n \<and> take (length filled) bytes = filled)"

lemma random_loop_fills:
  "random_loop rng n filled w = Some out \<Longrightarrow> bounded_rng rng \<Longrightarrow> length filled \<le> n \<Longrightarrow> fills n filled out"
proof -
  assume "random_loop rng n filled w = Some out" "bounded_rng rng" "length filled \<le> n"
  moreover have "random_loop rng n filled w = Some out \<Longrightarrow>
      bounded_rng rng \<longrightarrow> length filled \<le> n \<longrightarrow> fills n filled out"
  proof (rule random_loop.raw_induct [where P = "\<lambda>rng n filled w out. bounded_rng rng \<longrightarrow> length filled \<le> n \<longrightarrow> fills n filled out"])
    fix loop rng n filled w and out :: "((string \<times> byte list) + byte list) \<times> 'a"
    assume IH: "\<And>rng n filled w out. loop rng n filled w = Some out \<Longrightarrow>
        bounded_rng rng \<longrightarrow> length filled \<le> n \<longrightarrow> fills n filled out"
      and body: "(if n \<le> length filled then Some (Inr filled, w)
        else case rng (n - length filled) w of
          (Interrupted, w1) \<Rightarrow> loop rng n filled w1
        | (Refused err, w1) \<Rightarrow> Some (Inl (''getrandom failed: '' @ err, filled), w1)
        | (Got [], w1) \<Rightarrow> Some (Inl (''getrandom returned no data'', filled), w1)
        | (Got (b # bs), w1) \<Rightarrow> loop rng n (filled @ b # bs) w1) = Some out"
    show "bounded_rng rng \<longrightarrow> length filled \<le> n \<longrightarrow> fills n filled out"
    proof (intro impI)
      assume bounded: "bounded_rng rng" and short: "length filled \<le> n"
      show "fills n filled out"
      proof (cases "n \<le> length filled")
        case True
        then show ?thesis using body short by (auto simp: fills_def)
      next
        case False
        obtain r w1 where call: "rng (n - length filled) w = (r, w1)" by fastforce
        show ?thesis
        proof (cases r)
          case (Got bs)
          then have "length bs \<le> n - length filled" using bounded call unfolding bounded_rng_def by blast
          then have "length (filled @ bs) \<le> n" using short by simp
          then show ?thesis
            using body False call Got IH [of rng n "filled @ bs" w1 out] bounded
            by (cases bs) (auto simp: fills_def split: sum.splits dest: arg_cong [of _ _ "take (length filled)"])
        qed (use body False call short bounded IH in \<open>auto simp: fills_def\<close>)
      qed
    qed
  qed
  ultimately show ?thesis by blast
qed

text \<open>
  When a source of random bytes never gives more than asked for, a successful call has filled the buffer.
\<close>

lemma random_bytes_fills:
  "bounded_rng rng \<Longrightarrow> random_bytes rng n w = Some (Inr bytes, w') \<Longrightarrow> length bytes = n"
  using random_loop_fills [of rng n "[]" w "(Inr bytes, w')"]
  by (auto simp: random_bytes_def fills_def split: if_splits)

lemma random_bytes_short:
  "bounded_rng rng \<Longrightarrow> random_bytes rng n w = Some (Inl (e, bytes), w') \<Longrightarrow> length bytes \<le> n"
  using random_loop_fills [of rng n "[]" w "(Inl (e, bytes), w')"]
  by (auto simp: random_bytes_def fills_def split: if_splits)

text \<open>The loop ends when the source is not interrupted.\<close>

lemma random_loop_ends:
  assumes "\<forall>n w. fst (rng n w) \<noteq> Interrupted"
  shows "\<exists>out. random_loop rng n filled w = Some out"
proof (induction "n - length filled" arbitrary: filled w rule: less_induct)
  case less
  show ?case
  proof (cases "n \<le> length filled")
    case True
    then show ?thesis by (simp add: random_loop.simps)
  next
    case False
    obtain r w1 where call: "rng (n - length filled) w = (r, w1)" by fastforce
    show ?thesis
    proof (cases r)
      case (Got bs)
      then show ?thesis
        using less [of "filled @ bs" w1] False call
        by (cases bs) (simp_all add: random_loop.simps [of rng n filled w])
    next
      case Interrupted
      then show ?thesis using assms call by (metis fst_conv)
    next
      case (Refused err)
      then show ?thesis using False call by (simp add: random_loop.simps [of rng n filled w])
    qed
  qed
qed

end
