(* ===== verification/Saved_Config.thy ===== *)
theory Saved_Config
  imports Config Storage
begin

text \<open>
  Writing the configuration: \<open>save_config\<close> of \<open>src/core/app.cpp\<close>, against reading it, \<open>load_config\<close> of the
  theory \<open>Config\<close>. Shown: a saved configuration is read back, except that it forgets the directory of the identity file
  and the path of the driver; and a list of more than 32768 shared ports is saved as a file that is refused.
\<close>

section \<open>The text\<close>

fun ports_text :: "u16 list \<Rightarrow> string" where
  "ports_text [] = []"
| "ports_text [p] = to_string (unat p)"
| "ports_text (p # q # ps) = to_string (unat p) @ '','' @ ports_text (q # ps)"

definition shared_ports_text :: "config \<Rightarrow> string" where
  "shared_ports_text config =
     (if cfg_share_all_ports config then ''all''
      else if cfg_shared_ports config = [] then ''none''
      else ports_text (cfg_shared_ports config))"

definition config_text :: "config \<Rightarrow> string" where
  "config_text config =
     ''network='' @ format_ipv6 (cfg_network config) @ ''/64'' @ [CHR 0x0A] @
     (if cfg_identity_file config \<noteq> []
      then ''identity='' @ file_name (cfg_identity_file config) @ [CHR 0x0A] else []) @
     ''interface='' @ cfg_interface_name config @ [CHR 0x0A] @
     ''mtu='' @ to_string (cfg_mtu config) @ [CHR 0x0A] @
     ''listen='' @ format_endpoint (cfg_listen_address config) (cfg_listen_port config) @ [CHR 0x0A] @
     ''shared_ports='' @ shared_ports_text config @ [CHR 0x0A]"

text \<open>The result of the write is ignored.\<close>

definition save_config :: "'w fs \<Rightarrow> path \<Rightarrow> config \<Rightarrow> 'w \<Rightarrow> 'w" where
  "save_config fs p config w =
     (case private_write_atomically fs p (config_text config) (Some []) w of (_, _, w1) \<Rightarrow> w1)"

section \<open>Reading a line back\<close>

text \<open>A value that a line keeps: one line, and nothing to trim.\<close>

definition plain :: "string \<Rightarrow> bool" where
  "plain s \<longleftrightarrow> s \<noteq> [] \<and> \<not> is_blank (hd s) \<and> \<not> is_blank (last s) \<and> CHR 0x0A \<notin> set s \<and> CHR 0x00 \<notin> set s"

lemma trim_plain: "plain s \<Longrightarrow> trim s = s"
proof -
  assume plain: "plain s"
  have keep: "dropWhile is_blank xs = xs" if "\<not> is_blank (hd xs)" for xs using that by (cases xs) simp_all
  have "dropWhile is_blank s = s" using plain by (intro keep) (simp add: plain_def)
  moreover have "dropWhile is_blank (rev s) = rev s" using plain by (intro keep) (simp add: plain_def hd_rev)
  ultimately show ?thesis by (simp add: trim_def)
qed

lemma config_lines_step:
  assumes "CHR 0x0A \<notin> set line"
  shows "config_lines pton4 pton6 resolve s (line @ CHR 0x0A # rest) =
    (case config_line pton4 pton6 resolve s line of
       Inl e \<Rightarrow> Inl e | Inr s' \<Rightarrow> config_lines pton4 pton6 resolve s' rest)"
  by (subst config_lines.simps) (simp add: find_char_append [OF assms] split: sum.split)

lemma config_line_field:
  assumes "plain name" "CHR ''='' \<notin> set name" "hd name \<noteq> CHR ''#''" "plain value"
  shows "config_line pton4 pton6 resolve s (name @ CHR ''='' # value) = config_field pton4 pton6 resolve s name value"
proof -
  have "plain (name @ CHR ''='' # value)"
    using assms(1,4) by (cases name) (auto simp: plain_def)
  then have "trim (name @ CHR ''='' # value) = name @ CHR ''='' # value" by (rule trim_plain)
  moreover have "name @ CHR ''='' # value \<noteq> []" "hd (name @ CHR ''='' # value) = hd name"
    using assms(1) by (simp_all add: plain_def)
  ultimately show ?thesis
    using assms(3,4)
    by (simp add: config_line_def find_char_append [OF assms(2)] trim_plain [OF assms(1)] trim_plain [OF assms(4)])
      (simp add: plain_def)
qed

lemma config_text_field:
  assumes "plain name" "CHR ''='' \<notin> set name" "hd name \<noteq> CHR ''#''" "plain value"
    and "config_field pton4 pton6 resolve s name value = Inr s'"
  shows "config_lines pton4 pton6 resolve s (name @ CHR ''='' # value @ CHR 0x0A # rest) =
    config_lines pton4 pton6 resolve s' rest"
proof -
  have "CHR 0x0A \<notin> set (name @ CHR ''='' # value)" using assms(1,4) by (simp add: plain_def)
  from config_lines_step [OF this, of pton4 pton6 resolve s rest] show ?thesis
    by (simp add: config_line_field [OF assms(1-4)] assms(5))
qed

section \<open>The values\<close>

lemma plain_no_blank:
  assumes "s \<noteq> []" "\<forall>c\<in>set s. \<not> is_blank c \<and> c \<noteq> CHR 0x00"
  shows "plain s"
  using assms hd_in_set [of s] last_in_set [of s] by (auto simp: plain_def is_blank_def)

lemma digit_not_blank: "is_digit c \<Longrightarrow> \<not> is_blank c \<and> c \<noteq> CHR 0x00"
  by (auto simp: is_digit_def is_blank_def)

lemma plain_to_string: "plain (to_string n)"
  using to_string_digits [of n] digit_not_blank
  by (intro plain_no_blank) (auto simp: list_all_iff)

lemma interface_plain:
  assumes "s \<noteq> []" "list_all is_interface_char s"
  shows "plain s"
proof -
  have "list_all (\<lambda>c. \<not> is_blank c \<and> c \<noteq> CHR 0x00)
      ''abcdefghijklmnopqrstuvwxyzABCDEFGHIJKLMNOPQRSTUVWXYZ0123456789_''"
    by (simp add: is_blank_def)
  then have "\<not> is_blank c \<and> c \<noteq> CHR 0x00" if "is_interface_char c" for c
    using that unfolding is_interface_char_def list_all_iff by blast
  then show ?thesis using assms by (intro plain_no_blank) (auto simp: list_all_iff)
qed

lemma format_group_chars: "c \<in> set (format_group a b) \<Longrightarrow> is_hex_digit c"
proof -
  assume c: "c \<in> set (format_group a b)"
  have "(unat a * 256 + unat b) div 4096 < 16"
    using unsigned_less [of a, where 'a = nat] unsigned_less [of b, where 'a = nat] by simp
  then show ?thesis using c hex_digit_facts(2) by (auto simp: format_group_def Let_def)
qed

lemma format_ipv6_chars: "c \<in> set (format_ipv6 n) \<Longrightarrow> is_hex_digit c \<or> c = CHR '':''"
  by (induction n rule: format_ipv6.induct) (auto dest: format_group_chars)

lemma address_char: "is_hex_digit c \<or> c = CHR '':'' \<Longrightarrow> \<not> is_blank c \<and> c \<noteq> CHR 0x00"
  by (auto simp: is_hex_digit_def is_blank_def)

lemma plain_network: "plain (format_ipv6 n @ ''/64'')"
  using format_ipv6_chars [of _ n] address_char
  by (intro plain_no_blank) (auto simp: is_blank_def)

lemma c_str_network: "c_str (format_ipv6 n) = format_ipv6 n"
  using format_ipv6_chars [of _ n] address_char by (intro c_str_id) blast

text \<open>A list of ports.\<close>

lemma port_token: "p \<noteq> 0 \<Longrightarrow> parse_port_token (to_string (unat p)) = Some [p]"
proof -
  assume "p \<noteq> 0"
  have "find_char (CHR ''-'') (to_string (unat p)) = None"
    using to_string_no_char [of "CHR ''-''"] by (simp add: find_char_None is_digit_def)
  then show ?thesis
    using \<open>p \<noteq> 0\<close> plain_to_string [of "unat p"] by (simp add: parse_port_token_def parse_port_to_string plain_def)
qed

lemma port_tokens:
  "ps \<noteq> [] \<Longrightarrow> 0 \<notin> set ps \<Longrightarrow> parse_port_tokens (ports_text ps) acc = Some (acc @ ps)"
proof (induction ps arbitrary: acc rule: ports_text.induct)
  case (2 p)
  have "find_char (CHR '','') (to_string (unat p)) = None"
    using to_string_no_char [of "CHR '',''"] by (simp add: find_char_None is_digit_def)
  then show ?case
    using 2 port_token [of p] by (simp add: parse_port_tokens.simps [of "to_string (unat p)"] trim_plain plain_to_string)
next
  case (3 p q ps)
  have "CHR '','' \<notin> set (to_string (unat p))" by (rule to_string_no_char) (simp add: is_digit_def)
  from find_char_append [OF this, of "ports_text (q # ps)"] show ?case
    using 3 port_token [of p]
    by (simp add: parse_port_tokens.simps [of "to_string (unat p) @ _"] trim_plain plain_to_string)
qed simp

lemma ports_text_chars: "c \<in> set (ports_text ps) \<Longrightarrow> is_digit c \<or> c = CHR '',''"
  using to_string_digits by (induction ps rule: ports_text.induct) (auto simp: list_all_iff)

lemma ports_text_nonempty: "ps \<noteq> [] \<Longrightarrow> ports_text ps \<noteq> [] \<and> is_digit (hd (ports_text ps))"
proof (induction ps rule: ports_text.induct)
  case (2 p)
  then show ?case using to_string_digits [of "unat p"] plain_to_string [of "unat p"]
    by (cases "to_string (unat p)") (auto simp: plain_def)
next
  case (3 p q ps)
  then show ?case using to_string_digits [of "unat p"] plain_to_string [of "unat p"]
    by (cases "to_string (unat p)") (auto simp: plain_def)
qed simp

lemma plain_ports: "ps \<noteq> [] \<Longrightarrow> plain (ports_text ps)"
  using ports_text_nonempty [of ps] ports_text_chars [of _ ps] digit_not_blank
  by (intro plain_no_blank) (auto simp: is_blank_def)

lemma shared_ports_read:
  assumes "sorted (cfg_shared_ports c)" "distinct (cfg_shared_ports c)" "0 \<notin> set (cfg_shared_ports c)"
  shows "plain (shared_ports_text c)"
    and "parse_port_list (shared_ports_text c) =
      Some (if cfg_share_all_ports c then [] else cfg_shared_ports c, cfg_share_all_ports c)"
proof -
  let ?ps = "cfg_shared_ports c"
  have words: "plain ''all''" "plain ''none''" by (simp_all add: plain_def is_blank_def)
  show plain: "plain (shared_ports_text c)"
    using words plain_ports [of ?ps] by (simp add: shared_ports_text_def)
  show "parse_port_list (shared_ports_text c) = Some (if cfg_share_all_ports c then [] else ?ps, cfg_share_all_ports c)"
  proof (cases "cfg_share_all_ports c \<or> ?ps = []")
    case True
    then show ?thesis using words by (auto simp: shared_ports_text_def parse_port_list_def trim_plain)
  next
    case False
    then have t: "shared_ports_text c = ports_text ?ps" "?ps \<noteq> []" by (simp_all add: shared_ports_text_def)
    have first: "is_digit (hd (ports_text ?ps))" "ports_text ?ps \<noteq> []" using ports_text_nonempty [OF t(2)] by simp_all
    have other: "ports_text ?ps \<noteq> w" if "\<not> is_digit (hd w)" for w using first that by auto
    have "ports_text ?ps \<noteq> ''all''" "ports_text ?ps \<noteq> ''*''" "ports_text ?ps \<noteq> ''none''"
      by (rule other, simp add: is_digit_def)+
    moreover have "remdups_adj (sort ?ps) = ?ps"
      using assms(1,2) by (simp add: sorted_sort_id remdups_adj_distinct)
    ultimately show ?thesis
      using False port_tokens [OF t(2) assms(3), of "[]"] first(2) trim_plain [OF plain_ports [OF t(2)]]
      by (simp add: t(1) parse_port_list_def)
  qed
qed

text \<open>The fields one after the other.\<close>

lemma field_names:
  "plain ''network''" "plain ''identity''" "plain ''interface''" "plain ''mtu''" "plain ''listen''" "plain ''shared_ports''"
  by (simp_all add: plain_def is_blank_def)

lemma network_field:
  assumes "network_ok n" "pton6 (format_ipv6 n) = Some n" "\<not> ld_network s"
  shows "config_field pton4 pton6 resolve s ''network'' (format_ipv6 n @ ''/64'') =
    Inr (s\<lparr>ld_config := (ld_config s)\<lparr>cfg_network := n\<rparr>, ld_network := True\<rparr>)"
  using assms by (simp add: config_field_def ends_with_def c_str_network network_ok_def)

lemma interface_field:
  assumes "config_ok c" "\<not> ld_interface s"
  shows "config_field pton4 pton6 resolve s ''interface'' (cfg_interface_name c) =
    Inr (s\<lparr>ld_config := (ld_config s)\<lparr>cfg_interface_name := cfg_interface_name c\<rparr>, ld_interface := True\<rparr>)"
  using assms by (auto simp: config_field_def config_ok_def)

lemma mtu_field:
  assumes "config_ok c" "\<not> ld_mtu s"
  shows "config_field pton4 pton6 resolve s ''mtu'' (to_string (cfg_mtu c)) =
    Inr (s\<lparr>ld_config := (ld_config s)\<lparr>cfg_mtu := cfg_mtu c\<rparr>, ld_mtu := True\<rparr>)"
  using assms by (simp add: config_field_def config_ok_def parse_mtu_def from_chars_to_string)

lemma listen_field:
  assumes "parse_endpoint pton4 pton6 v = Some (a, p)" "\<not> ld_listen s"
  shows "config_field pton4 pton6 resolve s ''listen'' v =
    Inr (s\<lparr>ld_config := (ld_config s)\<lparr>cfg_listen_address := a, cfg_listen_port := p\<rparr>, ld_listen := True\<rparr>)"
  using assms by (simp add: config_field_def)

lemma shared_field:
  assumes "config_ok c" "\<not> ld_shared_ports s"
  shows "config_field pton4 pton6 resolve s ''shared_ports'' (shared_ports_text c) =
    Inr (s\<lparr>ld_config := (ld_config s)\<lparr>
       cfg_shared_ports := (if cfg_share_all_ports c then [] else cfg_shared_ports c),
       cfg_share_all_ports := cfg_share_all_ports c\<rparr>, ld_shared_ports := True\<rparr>)"
  using assms shared_ports_read(2) [of c] by (simp add: config_field_def config_ok_def)

text \<open>A text of fields is read field by field.\<close>

fun read_fields ::
  "(string \<Rightarrow> byte list option) \<Rightarrow> (string \<Rightarrow> ipv6 option) \<Rightarrow> (string \<Rightarrow> string) \<Rightarrow> load_state \<Rightarrow>
     (string \<times> string) list \<Rightarrow> string + load_state" where
  "read_fields pton4 pton6 resolve s [] = Inr s"
| "read_fields pton4 pton6 resolve s ((name, value) # fs) =
     (case config_field pton4 pton6 resolve s name value of
        Inl e \<Rightarrow> Inl e | Inr s' \<Rightarrow> read_fields pton4 pton6 resolve s' fs)"

definition field_line :: "string \<times> string \<Rightarrow> string" where
  "field_line = (\<lambda>(name, value). name @ CHR ''='' # value @ [CHR 0x0A])"

definition plain_field :: "string \<times> string \<Rightarrow> bool" where
  "plain_field = (\<lambda>(name, value). plain name \<and> CHR ''='' \<notin> set name \<and> hd name \<noteq> CHR ''#'' \<and> plain value)"

lemma config_lines_fields:
  "list_all plain_field fs \<Longrightarrow>
     config_lines pton4 pton6 resolve s (concat (map field_line fs)) = read_fields pton4 pton6 resolve s fs"
proof (induction fs arbitrary: s)
  case Nil
  then show ?case by (simp add: config_lines.simps)
next
  case (Cons f fs)
  obtain name v where f: "f = (name, v)" by fastforce
  have plain: "plain name" "CHR ''='' \<notin> set name" "hd name \<noteq> CHR ''#''" "plain v"
    using Cons.prems by (simp_all add: f plain_field_def)
  then have "CHR 0x0A \<notin> set (name @ CHR ''='' # v)" by (simp add: plain_def)
  from config_lines_step [OF this, of pton4 pton6 resolve s "concat (map field_line fs)"] show ?case
    using Cons by (simp add: f field_line_def config_line_field [OF plain] split: sum.split)
qed

definition config_fields :: "config \<Rightarrow> (string \<times> string) list" where
  "config_fields c =
     [(''network'', format_ipv6 (cfg_network c) @ ''/64''), (''identity'', file_name (cfg_identity_file c)),
      (''interface'', cfg_interface_name c), (''mtu'', to_string (cfg_mtu c)),
      (''listen'', format_endpoint (cfg_listen_address c) (cfg_listen_port c)),
      (''shared_ports'', shared_ports_text c)]"

lemma config_text_fields: "cfg_identity_file c \<noteq> [] \<Longrightarrow> config_text c = concat (map field_line (config_fields c))"
  by (simp add: config_text_def config_fields_def field_line_def)

text \<open>What a configuration has to satisfy to be saved in full.\<close>

definition savable ::
  "(string \<Rightarrow> byte list option) \<Rightarrow> (string \<Rightarrow> ipv6 option) \<Rightarrow> config \<Rightarrow> bool" where
  "savable pton4 pton6 c \<longleftrightarrow>
     config_ok c \<and> network_ok (cfg_network c) \<and> pton6 (format_ipv6 (cfg_network c)) = Some (cfg_network c) \<and>
     cfg_identity_file c \<noteq> [] \<and> plain (file_name (cfg_identity_file c)) \<and>
     plain (format_endpoint (cfg_listen_address c) (cfg_listen_port c)) \<and>
     parse_endpoint pton4 pton6 (format_endpoint (cfg_listen_address c) (cfg_listen_port c)) =
       Some (cfg_listen_address c, cfg_listen_port c)"

lemma savable_plain: "savable pton4 pton6 c \<Longrightarrow> list_all plain_field (config_fields c)"
proof -
  assume c: "savable pton4 pton6 c"
  have "plain (cfg_interface_name c)"
    using c by (intro interface_plain) (auto simp: savable_def config_ok_def)
  moreover have "plain (shared_ports_text c)"
    using c by (intro shared_ports_read) (simp_all add: savable_def config_ok_def)
  ultimately show ?thesis
    using c by (simp add: savable_def config_fields_def plain_field_def field_names plain_network plain_to_string)
qed

text \<open>What is left of a configuration that was saved and read.\<close>

definition reloaded :: "(string \<Rightarrow> string) \<Rightarrow> config \<Rightarrow> config" where
  "reloaded resolve c =
     c\<lparr>cfg_identity_file := resolve (file_name (cfg_identity_file c)), cfg_wintun_dll := [],
       cfg_shared_ports := (if cfg_share_all_ports c then [] else cfg_shared_ports c)\<rparr>"

lemma read_config_fields:
  assumes "savable pton4 pton6 c"
  shows "\<exists>s. read_fields pton4 pton6 resolve start_load (config_fields c) = Inr s \<and> ld_network s \<and> ld_identity s \<and>
    ld_config s = reloaded resolve c"
proof -
  have ok: "config_ok c" "network_ok (cfg_network c)" "pton6 (format_ipv6 (cfg_network c)) = Some (cfg_network c)"
    and listen: "parse_endpoint pton4 pton6 (format_endpoint (cfg_listen_address c) (cfg_listen_port c)) =
         Some (cfg_listen_address c, cfg_listen_port c)"
    using assms by (simp_all add: savable_def)
  have identity: "config_field pton4 pton6 resolve s ''identity'' v =
      Inr (s\<lparr>ld_config := (ld_config s)\<lparr>cfg_identity_file := resolve v\<rparr>, ld_identity := True\<rparr>)"
    if "\<not> ld_identity s" for s v using that by (simp add: config_field_def)
  show ?thesis
    using ok by (simp add: config_fields_def network_field identity interface_field mtu_field listen_field [OF listen]
        shared_field start_load_def default_config_def reloaded_def)
qed

lemma config_text_clean: "savable pton4 pton6 c \<Longrightarrow> CHR 0x00 \<notin> set (config_text c)"
proof -
  assume c: "savable pton4 pton6 c"
  then have "\<forall>f\<in>set (config_fields c). CHR 0x00 \<notin> set (field_line f)"
    using savable_plain [OF c] by (auto simp: list_all_iff plain_field_def field_line_def plain_def)
  then show ?thesis using c by (simp add: config_text_fields savable_def)
qed

section \<open>Properties\<close>


text \<open>A configuration with a range of ports, in a state directory.\<close>

definition sample_saved :: config where
  "sample_saved = default_config\<lparr>cfg_network := 0xfd # replicate 15 0, cfg_identity_file := ''/d/identity.pem'',
     cfg_listen_port := 9001, cfg_shared_ports := [22, 443], cfg_share_all_ports := False\<rparr>"

definition reading_pton6 :: "string \<Rightarrow> ipv6 option" where
  "reading_pton6 t =
     (if t = format_ipv6 (0xfd # replicate 15 0) then Some (0xfd # replicate 15 0)
      else if t = ''::1'' then Some (replicate 15 0 @ [1]) else None)"

lemma sample_savable: "savable (\<lambda>_. None) reading_pton6 sample_saved"
proof -
  have network: "cfg_network sample_saved = 0xfd # replicate 15 0" by (simp add: sample_saved_def)
  have listen: "cfg_listen_address sample_saved = ''::1''" "cfg_listen_port sample_saved = 9001"
    by (simp_all add: sample_saved_def default_config_def)
  have "format_endpoint ''::1'' 9001 = ''[::1]:9001''"
    by (simp add: format_endpoint_def find_char_def to_string.simps char_of_def bit_simps)
  then have endpoint: "plain (format_endpoint ''::1'' 9001)" by (simp add: plain_def is_blank_def)
  have "parse_endpoint (\<lambda>_. None) reading_pton6 (format_endpoint ''::1'' 9001) = Some (''::1'', 9001)"
    by (rule endpoint_roundtrip6) (simp_all add: c_str_def reading_pton6_def)
  moreover have "config_ok sample_saved"
    by (simp add: config_ok_def sample_saved_def default_config_def is_interface_char_def)
  moreover have "network_ok (0xfd # replicate 15 0)" by (simp add: network_ok_def list_all_iff)
  moreover have "plain (file_name (cfg_identity_file sample_saved))" "cfg_identity_file sample_saved \<noteq> []"
    by (simp_all add: sample_saved_def file_name_def rfind_char_def find_char_def plain_def is_blank_def)
  ultimately show ?thesis using endpoint by (simp add: savable_def network listen reading_pton6_def)
qed

lemma length_format_ipv6: "length (format_ipv6 n) \<le> 5 * length n"
  by (induction n rule: format_ipv6.induct) (simp_all add: format_group_def Let_def)


text \<open>
  A node that shares more than 32768 single ports saves a configuration that no later start accepts: its text is longer
  than the 64 KiB that loading allows.
\<close>

lemma length_ports_text: "ps \<noteq> [] \<Longrightarrow> 2 * length ps \<le> length (ports_text ps) + 1"
proof (induction ps rule: ports_text.induct)
  case (2 p)
  then show ?case using plain_to_string [of "unat p"] by (cases "to_string (unat p)") (simp_all add: plain_def)
next
  case (3 p q ps)
  then show ?case using plain_to_string [of "unat p"] by (cases "to_string (unat p)") (simp_all add: plain_def)
qed simp

theorem long_port_list_unloadable:
  assumes "\<not> cfg_share_all_ports c" "32768 < length (cfg_shared_ports c)"
  shows "load_config pton4 pton6 resolve is_config (Some (config_text c)) =
    Inl ''Invalid configuration file or size exceeds 64 KiB''"
proof -
  have "cfg_shared_ports c \<noteq> []" using assms(2) by auto
  then have "65536 < length (config_text c)"
    using length_ports_text [of "cfg_shared_ports c"] assms by (simp add: config_text_def shared_ports_text_def)
  then show ?thesis by (simp add: load_config_def)
qed

lemma long_port_list_unloadable_witness:
  "load_config (\<lambda>_. None) reading_pton6 id (\<lambda>_. False)
     (Some (config_text (sample_saved\<lparr>cfg_shared_ports := map of_nat [1..<40000]\<rparr>))) =
    Inl ''Invalid configuration file or size exceeds 64 KiB''"
  by (rule long_port_list_unloadable) (simp_all add: sample_saved_def)

text \<open>A file name without a directory is never written.\<close>

lemma save_needs_directory: "parent_path p = [] \<Longrightarrow> save_config fs p c w = w"
  by (simp add: save_config_def private_write_atomically_def)

end
