(* ===== verification/Runtime.thy ===== *)
theory Runtime
  imports Control Node_State Random_Bytes Saved_Config
begin

text \<open>
  Starting and stopping a node: the virtual network, \<open>vnet_init\<close> and \<open>vnet_shutdown\<close> of \<open>src/core/app.cpp\<close>,
  \<open>start_runtime\<close> of \<open>src/core/daemon.cpp\<close> and \<open>app_shutdown\<close>. A process is the state of the node with what only the
  start and the end use. Starting and joining threads is not modelled: the rounds of the workers are the steps of the
  theory \<open>Node_Invariant\<close>.
\<close>

section \<open>The process\<close>

record 'k process =
  pr_app :: "'k app_state"
  pr_server :: "'k transport_server"
  pr_state :: node_state
  pr_running :: bool
  pr_check_only :: bool
  pr_status_mode :: bool
  pr_join_mode :: bool
  pr_invite_mode :: bool
  pr_invite_lifetime :: u64
  pr_join_invite :: invite_ticket
  pr_join_token :: string
  pr_bootstrap_endpoint :: string
  pr_config_path :: path

text \<open>
  The machine: the host of a running node, the calls that set a network device up, the key store and the source of
  random bytes. Further what only the start of the program uses: a UDP socket, the environment variables, the content
  of a configuration file, the absolute path of a file beside a path, whether two paths are the same file, and whether the
  handler of a signal could be set.
\<close>

record ('w, 'k, 's) machine =
  mc_host :: "('w, 'k, 's) host"
  mc_tun :: "'w tun_setup"
  mc_keys :: "('w, 'k) key_store"
  mc_random :: "nat \<Rightarrow> 'w \<Rightarrow> getrandom \<times> 'w"
  mc_udp_socket :: "'w \<Rightarrow> fd \<times> 'w"
  mc_getenv :: "string \<Rightarrow> string option"
  mc_config_file :: "path \<Rightarrow> 'w \<Rightarrow> string option"
  mc_resolve :: "path \<Rightarrow> string \<Rightarrow> path"
  mc_same_file :: "path \<Rightarrow> path \<Rightarrow> bool"
  mc_signal :: "nat \<Rightarrow> 'w \<Rightarrow> bool \<times> 'w"

section \<open>The virtual network\<close>

definition vnet_shutdown :: "'w os \<Rightarrow> virtual_network_state \<Rightarrow> 'w \<Rightarrow> virtual_network_state \<times> 'w" where
  "vnet_shutdown os vnet w =
     (if vn_is_up vnet
      then (case tun_close os (vn_tun vnet) w of (dev, w1) \<Rightarrow> (vnet\<lparr>vn_tun := dev, vn_is_up := False\<rparr>, w1))
      else (vnet, w))"

definition vnet_init ::
  "'w tun_setup \<Rightarrow> 'w os \<Rightarrow> virtual_network_state \<Rightarrow> config \<Rightarrow> node_id \<Rightarrow> string option \<Rightarrow> 'w \<Rightarrow>
     bool \<times> virtual_network_state \<times> string option \<times> 'w" where
  "vnet_init ts os vnet0 config local_id err w0 =
     (case vnet_shutdown os vnet0 w0 of (vnet1, w1) \<Rightarrow>
      let address = virtual_address (cfg_network config) local_id;
          vnet = vnet1\<lparr>vn_address := address, vn_mtu := cfg_mtu config, vn_packets_received := 0,
                       vn_packets_transmitted := 0\<rparr>;
          tun_cfg = \<lparr>tn_name = cfg_interface_name config, tn_ipv6 = address, tn_prefix_length = 64,
                     tn_mtu = cfg_mtu config\<rparr>
      in case tun_open ts os (vn_tun vnet) tun_cfg err w1 of
           (False, dev, err1, w2) \<Rightarrow> (False, vnet\<lparr>vn_tun := dev\<rparr>, err1, w2)
         | (True, dev, err1, w2) \<Rightarrow> (True, vnet\<lparr>vn_tun := dev, vn_is_up := True\<rparr>, err1, w2))"

section \<open>Starting\<close>

definition close_server :: "('w, 'k, 's) machine \<Rightarrow> 'k process \<Rightarrow> 'w \<Rightarrow> 'k process \<times> 'w" where
  "close_server m pr w =
     (case transport_server_close (h_os (mc_host m)) (h_lib (mc_host m)) (pr_server pr) w of
        (server, w1) \<Rightarrow> (pr\<lparr>pr_server := server\<rparr>, w1))"

definition stop_network :: "('w, 'k, 's) machine \<Rightarrow> 'k process \<Rightarrow> 'w \<Rightarrow> 'k process \<times> 'w" where
  "stop_network m pr w =
     (case vnet_shutdown (h_os (mc_host m)) (ap_vnet (pr_app pr)) w of
        (vnet, w1) \<Rightarrow> (pr\<lparr>pr_app := (pr_app pr)\<lparr>ap_vnet := vnet\<rparr>\<rparr>, w1))"

text \<open>A failure closes the server, and the network when it is up.\<close>

definition give_up ::
  "('w, 'k, 's) machine \<Rightarrow> bool \<Rightarrow> 'k process \<Rightarrow> string option \<Rightarrow> 'w \<Rightarrow>
     bool \<times> 'k process \<times> string option \<times> 'w" where
  "give_up m network pr err w =
     (case close_server m pr w of (pr1, w1) \<Rightarrow>
      case (if network then stop_network m pr1 w1 else (pr1, w1)) of (pr2, w2) \<Rightarrow> (False, pr2, err, w2))"

definition own_contact :: "('w, 'k, 's) machine \<Rightarrow> 'k process \<Rightarrow> public_key \<Rightarrow> 'w \<Rightarrow> node_contact \<times> 'w" where
  "own_contact m pr public_key w =
     (let app = pr_app pr;
          port = transport_server_local_port (h_os (mc_host m)) (pr_server pr) w
      in case now_ms (mc_host m) w of (now, w1) \<Rightarrow>
           (\<lparr>nc_id = id_id (ap_identity app), nc_public_key = public_key, nc_virtual_address = vn_address (ap_vnet app),
             nc_endpoint = format_endpoint (cfg_listen_address (ap_config app)) port, nc_last_seen_ms = now,
             nc_rtt_ms = 0, nc_failed_pings = 0\<rparr>, w1))"

text \<open>The second half: the server listens and the node knows its own contact.\<close>

definition start_listening ::
  "('w, 'k, 's) machine \<Rightarrow> 'k process \<Rightarrow> string option \<Rightarrow> 'w \<Rightarrow> bool \<times> 'k process \<times> string option \<times> 'w" where
  "start_listening m pr err w =
     (case transport_server_start (h_os (mc_host m)) (pr_server pr) err w of
        (False, server, err1, w1) \<Rightarrow> give_up m True (pr\<lparr>pr_server := server\<rparr>) err1 w1
      | (True, server, err1, w1) \<Rightarrow>
          let pr1 = pr\<lparr>pr_server := server\<rparr> in
          (case extract_public_key (mc_host m) (ap_identity (pr_app pr1)) of
             None \<Rightarrow> give_up m True pr1 (put_error ''Failed to export Ed25519 public key.'' err1) w1
           | Some public_key \<Rightarrow>
               (case own_contact m pr1 public_key w1 of
                  (contact, w2) \<Rightarrow>
                    (True, pr1\<lparr>pr_app := (pr_app pr1)\<lparr>ap_local_contact := contact\<rparr>\<rparr>, err1, w2))))"

definition start_runtime ::
  "('w, 'k, 's) machine \<Rightarrow> 'k process \<Rightarrow> string option \<Rightarrow> 'w \<Rightarrow> bool \<times> 'k process \<times> string option \<times> 'w" where
  "start_runtime m pr err w =
     (let host = mc_host m; app = pr_app pr; config = ap_config app in
      if MAX_PAYLOAD_SIZE - DATA_PACKET_HEADER_SIZE < cfg_mtu config
      then (False, pr, put_error ''MTU is too large for a framed Data message'' err, w)
      else case transport_server_init_tls (h_os host) (h_lib host) (pr_server pr) (tls_config_for app)
                  (cfg_listen_port config) (cfg_listen_address config) None err w of
        (False, server, err1, w1) \<Rightarrow> (False, pr\<lparr>pr_server := server\<rparr>, err1, w1)
      | (True, server, err1, w1) \<Rightarrow>
          let pr1 = pr\<lparr>pr_server := server\<rparr> in
          (case tls_context_matches_identity (h_lib host) (sv_tls_ctx server) (id_id (ap_identity app)) w1 of
             Inl e \<Rightarrow> give_up m False pr1 (put_error e err1) w1
           | Inr _ \<Rightarrow>
               (case identity_bump_generation (h_fs host) (mc_keys m) (ap_identity app) err1 w1 of
                  (False, ident, err2, w2) \<Rightarrow>
                    give_up m False (pr1\<lparr>pr_app := app\<lparr>ap_identity := ident\<rparr>\<rparr>) err2 w2
                | (True, ident, err2, w2) \<Rightarrow>
                    (case vnet_init (mc_tun m) (h_os host) (ap_vnet app) config (id_id ident) err2 w2 of
                       (ok, vnet, err3, w3) \<Rightarrow>
                         let pr2 = pr1\<lparr>pr_app := app\<lparr>ap_identity := ident, ap_vnet := vnet\<rparr>\<rparr> in
                         if \<not> ok then give_up m False pr2 err3 w3 else start_listening m pr2 err3 w3))))"

section \<open>Stopping\<close>

text \<open>All registered sessions are closed, then forgotten.\<close>

fun close_sessions :: "('w, 'k, 's) host \<Rightarrow> session_ref list \<Rightarrow> 'k app_state \<Rightarrow> 'w \<Rightarrow> 'k app_state \<times> 'w" where
  "close_sessions host [] app w = (app, w)"
| "close_sessions host (r # rs) app w =
     (case close_session host app (Some r) w of (app1, w1) \<Rightarrow> close_sessions host rs app1 w1)"

definition app_shutdown :: "('w, 'k, 's) machine \<Rightarrow> 'k process \<Rightarrow> 'w \<Rightarrow> 'k process \<times> 'w" where
  "app_shutdown m pr w =
     (let host = mc_host m in
      case close_server m (pr\<lparr>pr_running := False\<rparr>) w of (pr1, w1) \<Rightarrow>
      case close_sessions host (ap_sessions (pr_app pr1)) (pr_app pr1) w1 of (app, w2) \<Rightarrow>
      case stop_network m (pr1\<lparr>pr_app := app\<lparr>ap_sessions := []\<rparr>\<rparr>) w2 of (pr2, w3) \<Rightarrow>
      case identity_close (h_fs host) (ap_identity (pr_app pr2)) w3 of (ident, w4) \<Rightarrow>
        (pr2\<lparr>pr_app := (pr_app pr2)\<lparr>ap_identity := ident\<rparr>\<rparr>,
         if pr_config_path pr2 \<noteq> [] then snd (fs_remove (h_fs host) (pr_config_path pr2 @ ''.status'') w4) else w4))"

end
