(* ===== verification/Status.thy ===== *)
theory Status
  imports Runtime
begin

text \<open>
  The status file: \<open>update_status_file\<close> of \<open>src/core/daemon.cpp\<close>, which a running node writes, and what \<open>src/core/app.cpp\<close>
  reads from it in another process, \<open>read_live_identity\<close> for \<open>madoka invite\<close> and the listing of \<open>madoka status\<close>. The
  text of the loss rate, a rounded binary fraction, is a parameter. Shown: an invitation that is created while the status
  is fresh names the running node, its endpoint and its network, and none is created from a stale one.
\<close>

section \<open>Writing\<close>

definition peer_line :: "peer \<Rightarrow> string" where
  "peer_line p = ''PEER='' @ hex (p_id p) @ '' connected Trusted''"

definition route_line :: "route \<Rightarrow> string" where
  "route_line r =
     ''ROUTE='' @ hex (r_destination_node r) @ '' via '' @ hex (r_next_hop r) @ '' metric '' @ to_string (unat (r_metric r))"

definition total_packets :: "'k app_state \<Rightarrow> u64" where
  "total_packets app = dm_tun_packets_read (ap_data_metrics app) + dm_tun_packets_written (ap_data_metrics app)"

definition dropped_packets :: "'k app_state \<Rightarrow> u64" where
  "dropped_packets app =
     rm_drop_no_route (ap_routing_metrics app) + rm_drop_ttl_expired (ap_routing_metrics app) +
     dm_drop_transport_error (ap_data_metrics app)"

text \<open>\<open>loss dropped all\<close> is the text of \<open>dropped\<close> in percent of \<open>all\<close>.\<close>

definition status_lines :: "(u64 \<Rightarrow> u64 \<Rightarrow> string) \<Rightarrow> 'k app_state \<Rightarrow> u64 \<Rightarrow> string list" where
  "status_lines loss app now =
     [''NODE_ID='' @ hex (id_id (ap_identity app)),
      ''UPDATED='' @ to_string (unat now),
      ''NETWORK='' @ format_ipv6 (cfg_network (ap_config app)) @ ''/64'',
      ''LISTEN='' @ nc_endpoint (ap_local_contact app),
      ''TRUSTED='' @ to_string (length (tr_peers (ap_trust app)))] @
     map peer_line (filter (\<lambda>p. p_state p = Connected) (peers (ap_topology app))) @
     map route_line (filter (\<lambda>r. r_destination_node r \<noteq> zero_node_id) (routes (ap_routing_table app))) @
     [''PACKETS='' @ to_string (unat (total_packets app)),
      ''LOSS='' @ (if total_packets app + dropped_packets app > 0
                   then loss (dropped_packets app) (total_packets app + dropped_packets app) else ''0.0'') @ ''%'',
      ''SHARED_PORTS='' @ shared_ports_text (ap_config app)]"

definition status_text :: "(u64 \<Rightarrow> u64 \<Rightarrow> string) \<Rightarrow> 'k app_state \<Rightarrow> u64 \<Rightarrow> string" where
  "status_text loss app now = concat (map (\<lambda>line. line @ [CHR 0x0A]) (status_lines loss app now))"

definition status_path :: "path \<Rightarrow> path" where
  "status_path config_path = config_path @ ''.status''"

definition update_status_file ::
  "(u64 \<Rightarrow> u64 \<Rightarrow> string) \<Rightarrow> ('w, 'k, 's) host \<Rightarrow> path \<Rightarrow> 'k app_state \<Rightarrow> 'w \<Rightarrow> 'w" where
  "update_status_file loss host config_path app w =
     (if config_path = [] then w
      else case now_ms host w of (now, w1) \<Rightarrow>
        snd (snd (private_write_atomically (h_fs host) (status_path config_path) (status_text loss app now) (Some []) w1)))"

section \<open>Reading\<close>

text \<open>The lines that \<open>std::getline\<close> gives.\<close>

function getlines :: "string \<Rightarrow> string list" where
  "getlines s =
     (if s = [] then []
      else case find_char (CHR 0x0A) s of
        None \<Rightarrow> [s]
      | Some i \<Rightarrow> take i s # getlines (drop (i + 1) s))"
  by pat_completeness auto

termination getlines
  by (relation "measure length") auto

declare getlines.simps [simp del]

text \<open>The value of the last line that starts with the name, or the default.\<close>

definition last_value :: "string \<Rightarrow> string \<Rightarrow> string list \<Rightarrow> string" where
  "last_value name initial xs =
     foldl (\<lambda>value line. if starts_with line name then drop (length name) line else value) initial xs"

definition all_values :: "string \<Rightarrow> string list \<Rightarrow> string list" where
  "all_values name xs = map (drop (length name)) (filter (\<lambda>line. starts_with line name) xs)"

text \<open>The text \<open>network\<close> of a status file without a network stays the zero address of the caller.\<close>

definition parse_network :: "(string \<Rightarrow> ipv6 option) \<Rightarrow> string \<Rightarrow> ipv6 option" where
  "parse_network pton6 value =
     (if value = [] then Some zero_ipv6
      else pton6 (c_str (if ends_with value ''/64'' then take (length value - 3) value else value)))"

definition stale :: "u64 \<Rightarrow> u64 \<Rightarrow> bool" where
  "stale updated current \<longleftrightarrow> current < updated \<or> 5000 < current - updated"

definition read_live_identity ::
  "('w, 'k, 's) host \<Rightarrow> path \<Rightarrow> 'w \<Rightarrow> (string + (node_id \<times> string \<times> ipv6)) \<times> 'w" where
  "read_live_identity host p w =
     (case private_read_file (h_fs host) p 65536 None w of
        (None, _, w1) \<Rightarrow> (Inl ''The node is not running; start madoka before creating an invitation'', w1)
      | (Some contents, _, w1) \<Rightarrow>
          let xs = getlines contents;
              node = last_value ''NODE_ID='' [] xs;
              endpoint = last_value ''LISTEN='' [] xs;
              updated = parse_generation (last_value ''UPDATED='' [] xs)
          in (case now_ms host w1 of (current, w2) \<Rightarrow>
                if (case updated of None \<Rightarrow> True | Some t \<Rightarrow> stale t current)
                then (Inl ''The node status is stale; start madoka before creating an invitation'', w2)
                else case parse_node_id node of
                  None \<Rightarrow> (Inl ''The running node status has an invalid Node ID'', w2)
                | Some nid \<Rightarrow>
                    (case parse_endpoint (h_pton4 host) (h_pton6 host) endpoint of
                       None \<Rightarrow> (Inl ''The running node has no usable listen endpoint'', w2)
                     | Some (address, port) \<Rightarrow>
                         if port = 0 then (Inl ''The running node has no usable listen endpoint'', w2)
                         else case parse_network (h_pton6 host) (last_value ''NETWORK='' [] xs) of
                           None \<Rightarrow> (Inl ''The running node status has an invalid network prefix'', w2)
                         | Some network \<Rightarrow> (Inr (nid, endpoint, network), w2))))"

section \<open>The two commands\<close>

definition line_feed :: string where "line_feed = [CHR 0x0A]"

text \<open>The exit code, the standard output and the standard error of \<open>madoka invite\<close>.\<close>

definition run_invite ::
  "('w, 'k, 's) host \<Rightarrow> 'k process \<Rightarrow> 'w \<Rightarrow> (nat \<times> string \<times> string) \<times> 'w" where
  "run_invite host pr w =
     (case read_live_identity host (status_path (pr_config_path pr)) w of
        (Inl e, w1) \<Rightarrow> ((1, [], e @ line_feed), w1)
      | (Inr (nid, endpoint, network), w1) \<Rightarrow>
          (case now_ms host w1 of (now, w2) \<Rightarrow>
           case invite_generate (h_pton4 host) (h_pton6 host) (fs_random (h_fs host)) nid endpoint network (now div 1000)
                  (pr_invite_lifetime pr) w2 of
             (Inl e, w3) \<Rightarrow> ((1, [], ''Cannot create invitation: '' @ e @ line_feed), w3)
           | (Inr ticket, w3) \<Rightarrow>
               (case invite_store (h_pton4 host) (h_pton6 host) (h_fs host) (ap_trust (pr_app pr)) ticket (Some []) w3 of
                  (False, err, w4) \<Rightarrow>
                    ((1, [], ''Cannot create invitation: '' @ (case err of None \<Rightarrow> [] | Some e \<Rightarrow> e) @ line_feed), w4)
                | (True, _, w4) \<Rightarrow>
                    ((0, invite_encode (h_pton4 host) (h_pton6 host) ticket @ line_feed, []), w4))))"

text \<open>At most \<open>n\<close> attempts to read a status that is not empty; the pauses between them leave no trace.\<close>

fun read_attempts :: "'w fs \<Rightarrow> path \<Rightarrow> nat \<Rightarrow> 'w \<Rightarrow> string \<times> 'w" where
  "read_attempts fs p 0 w = ([], w)"
| "read_attempts fs p (Suc n) w =
     (case private_read_file fs p 65536 None w of
        (Some (c # cs), _, w1) \<Rightarrow> (c # cs, w1)
      | (_, _, w1) \<Rightarrow> read_attempts fs p n w1)"

definition or_none :: "string list \<Rightarrow> string" where
  "or_none xs = (if xs = [] then ''(none)'' @ line_feed else concat (map (\<lambda>x. x @ line_feed) xs))"

definition status_listing :: "'k app_state \<Rightarrow> string \<Rightarrow> string" where
  "status_listing app contents =
     (let xs = getlines contents in
      ''Madoka Mesh'' @ line_feed @ line_feed @
      ''Node:'' @ line_feed @ last_value ''NODE_ID='' (hex (id_id (ap_identity app))) xs @ line_feed @ line_feed @
      ''Network:'' @ line_feed @ last_value ''NETWORK='' (format_ipv6 (cfg_network (ap_config app)) @ ''/64'') xs @
      line_feed @ line_feed @ line_feed @
      ''Peers:'' @ line_feed @ line_feed @ or_none (all_values ''PEER='' xs) @
      line_feed @ line_feed @ ''Routes:'' @ line_feed @ line_feed @ or_none (all_values ''ROUTE='' xs) @
      line_feed @ line_feed @ ''Statistics:'' @ line_feed @ line_feed @
      ''Trusted peers:'' @ line_feed @ last_value ''TRUSTED='' ''0'' xs @ line_feed @ line_feed @
      ''Packets:'' @ line_feed @ last_value ''PACKETS='' ''0'' xs @ line_feed @ line_feed @
      ''Loss:'' @ line_feed @ last_value ''LOSS='' ''0.0%'' xs @ line_feed)"

definition stopped_listing :: "'k app_state \<Rightarrow> string" where
  "stopped_listing app =
     ''Madoka Mesh'' @ line_feed @ line_feed @ ''State:'' @ line_feed @ ''stopped'' @ line_feed @ line_feed @
     ''Node:'' @ line_feed @ hex (id_id (ap_identity app)) @ line_feed @ line_feed @
     ''Network:'' @ line_feed @ format_ipv6 (cfg_network (ap_config app)) @ ''/64'' @ line_feed"

text \<open>The exit code and the output of \<open>madoka status\<close>; the identity is closed.\<close>

definition run_status :: "('w, 'k, 's) host \<Rightarrow> 'k process \<Rightarrow> 'w \<Rightarrow> (nat \<times> string) \<times> 'k process \<times> 'w" where
  "run_status host pr w =
     (let app = pr_app pr;
          (contents, w1) = (if pr_config_path pr = [] then ([], w)
                            else read_attempts (h_fs host) (status_path (pr_config_path pr)) 20 w)
      in case identity_close (h_fs host) (ap_identity app) w1 of (ident, w2) \<Rightarrow>
           (if contents \<noteq> [] then (0, status_listing app contents) else (1, stopped_listing app),
            pr\<lparr>pr_app := app\<lparr>ap_identity := ident\<rparr>\<rparr>, w2))"

section \<open>Facts\<close>

lemma getlines_line: "CHR 0x0A \<notin> set line \<Longrightarrow> getlines (line @ CHR 0x0A # rest) = line # getlines rest"
  by (subst getlines.simps) (simp add: find_char_append)

lemma getlines_concat:
  "list_all (\<lambda>line. CHR 0x0A \<notin> set line) xs \<Longrightarrow> getlines (concat (map (\<lambda>line. line @ [CHR 0x0A]) xs)) = xs"
  by (induction xs) (simp_all add: getlines_line getlines.simps [of "[]"])

lemma last_value_append: "last_value name initial (xs @ ys) = last_value name (last_value name initial xs) ys"
  by (simp add: last_value_def)

lemma last_value_skip: "list_all (\<lambda>line. \<not> starts_with line name) xs \<Longrightarrow> last_value name initial xs = initial"
  by (induction xs) (simp_all add: last_value_def)

lemma last_value_Cons:
  "last_value name initial (line # xs) =
     last_value name (if starts_with line name then drop (length name) line else initial) xs"
  by (simp add: last_value_def)

lemma hex_no_newline: "CHR 0x0A \<notin> set (hex bs)"
proof
  assume "CHR 0x0A \<in> set (hex bs)"
  then have "is_hex_digit (CHR 0x0A)" using hex_facts [of bs] by (simp add: list_all_iff del: One_nat_def)
  then show False by (simp add: is_hex_digit_def)
qed

lemma to_string_no_newline: "CHR 0x0A \<notin> set (to_string n)"
  by (rule to_string_no_char) (simp add: is_digit_def)

lemma ipv6_no_newline: "CHR 0x0A \<notin> set (format_ipv6 n)"
  using format_ipv6_chars [of "CHR 0x0A" n] by (auto simp: is_hex_digit_def)

lemma ports_no_newline: "CHR 0x0A \<notin> set (shared_ports_text c)"
  using ports_text_chars [of "CHR 0x0A" "cfg_shared_ports c"] by (auto simp: shared_ports_text_def is_digit_def)

text \<open>The lines of a status are lines, and the five names at its head are not used again.\<close>

lemma status_lines_read:
  assumes "CHR 0x0A \<notin> set (nc_endpoint (ap_local_contact app))" "\<forall>d n. CHR 0x0A \<notin> set (loss d n)"
  shows "getlines (status_text loss app now) = status_lines loss app now"
  unfolding status_text_def using assms
  by (intro getlines_concat)
    (auto simp: status_lines_def peer_line_def route_line_def hex_no_newline to_string_no_newline ipv6_no_newline
      ports_no_newline list_all_iff)

lemma status_head:
  assumes "name \<in> {''NODE_ID='', ''UPDATED='', ''NETWORK='', ''LISTEN=''}"
  shows "last_value name initial (status_lines loss app now) =
    last_value name initial (take 4 (status_lines loss app now))"
proof -
  have "list_all (\<lambda>line. \<not> starts_with line name) (drop 4 (status_lines loss app now))"
    using assms by (auto simp: status_lines_def starts_with_def peer_line_def route_line_def list_all_iff)
  then show ?thesis
    using last_value_append [of name initial "take 4 (status_lines loss app now)" "drop 4 (status_lines loss app now)"]
    by (simp add: last_value_skip)
qed

lemma status_values:
  "last_value ''NODE_ID='' initial (status_lines loss app now) = hex (id_id (ap_identity app))"
  "last_value ''UPDATED='' initial (status_lines loss app now) = to_string (unat now)"
  "last_value ''NETWORK='' initial (status_lines loss app now) = format_ipv6 (cfg_network (ap_config app)) @ ''/64''"
  "last_value ''LISTEN='' initial (status_lines loss app now) = nc_endpoint (ap_local_contact app)"
  by (simp_all add: status_head) (simp_all add: status_lines_def last_value_Cons starts_with_def last_value_def)


text \<open>A status that a node has written, read within its time and after it.\<close>

lemma read_status_file:
  assumes laws: "fs_laws (h_fs host) files"
    and on_disk: "files w p = Some (status_text loss app stamp)"
    and read: "private_read_file (h_fs host) p 65536 None w = (Some contents, e, w1)" and now: "now_ms host w1 = (current, w2)"
    and lines: "CHR 0x0A \<notin> set (nc_endpoint (ap_local_contact app))" "\<forall>d n. CHR 0x0A \<notin> set (loss d n)"
    and nid: "is_node_id (id_id (ap_identity app))"
    and endpoint: "parse_endpoint (h_pton4 host) (h_pton6 host) (nc_endpoint (ap_local_contact app)) = Some (address, port)"
      "port \<noteq> 0"
    and network: "h_pton6 host (format_ipv6 (cfg_network (ap_config app))) = Some (cfg_network (ap_config app))"
  shows "read_live_identity host p w =
    (if stale stamp current then Inl ''The node status is stale; start madoka before creating an invitation''
     else Inr (id_id (ap_identity app), nc_endpoint (ap_local_contact app), cfg_network (ap_config app)), w2)"
proof -
  have contents: "contents = status_text loss app stamp"
    using private_read_contents [OF laws read] on_disk by simp
  have parsed: "parse_node_id (hex (id_id (ap_identity app))) = Some (id_id (ap_identity app))"
    using nid hex_facts [of "id_id (ap_identity app)"] by (simp add: parse_node_id_def)
  have net: "parse_network (h_pton6 host) (format_ipv6 (cfg_network (ap_config app)) @ ''/64'') = Some (cfg_network (ap_config app))"
    using network by (simp add: parse_network_def ends_with_def c_str_network)
  show ?thesis
    by (simp add: read_live_identity_def read now contents status_lines_read [OF lines] status_values parse_generation_to_string
        parsed endpoint net)
qed


text \<open>A host whose world is the file system in memory, and a node that listens.\<close>

definition idle_os :: "'w os" where
  "idle_os =
     \<lparr>os_socket = (\<lambda>_ w. (INVALID_SOCKET_HANDLE, w)), os_setsockopt = (\<lambda>_ _ w. (False, w)), os_bind = (\<lambda>_ _ w. (False, w)),
      os_listen = (\<lambda>_ _ w. (False, w)), os_select = (\<lambda>_ _ w. (False, w)),
      os_accept = (\<lambda>_ w. ((INVALID_SOCKET_HANDLE, AF_INET, [], 0), w)), os_getaddrinfo = (\<lambda>_ _ w. (Inr [], w)),
      os_connect = (\<lambda>_ _ w. (False, w)), os_send = (\<lambda>_ _ w. (-1, w)), os_recv = (\<lambda>_ _ w. (None, w)),
      os_close = (\<lambda>_ w. w), os_getsockname = (\<lambda>_ _. None), os_errno = (\<lambda>_. 0), os_strerror = (\<lambda>_. []),
      os_pton = (\<lambda>_ _. None), os_ntop = (\<lambda>_ _. [])\<rparr>"

definition file_host :: "(path \<Rightarrow> string option, byte, byte) host" where
  "file_host =
     \<lparr>h_os = idle_os, h_lib = sample_lib, h_tun = sample_tun_os, h_fs = memory_fs, h_steady = (\<lambda>w. (0, w)),
      h_system = (\<lambda>w. (7000000, w)), h_digest = (\<lambda>k. Some k), h_pton4 = (\<lambda>_. None),
      h_pton6 = (\<lambda>t. if t = ''::1'' then Some (replicate 15 0 @ [1])
                     else if t = format_ipv6 sample_network then Some sample_network else None),
      h_running = (\<lambda>_. True), h_stop_requested = (\<lambda>_. False)\<rparr>"

definition listening_app :: "byte app_state" where
  "listening_app = sample_app\<lparr>ap_local_contact := (bare_contact (replicate 32 1))\<lparr>nc_endpoint := ''[::1]:80''\<rparr>\<rparr>"

lemma sample_network_text: "format_ipv6 sample_network \<noteq> ''::1''" "length (format_ipv6 sample_network) \<le> 80"
proof -
  have r: "replicate 15 (0 :: byte) = 0 # 0 # 0 # replicate 12 0" by (simp add: numeral_eq_Suc)
  have "hd (format_ipv6 sample_network) = hex_digit ((253 * 256) div 4096)"
    by (simp add: sample_network_def r format_group_def Let_def)
  then have "hd (format_ipv6 sample_network) = CHR ''f''" by (simp add: hex_digit_def)
  then show "format_ipv6 sample_network \<noteq> ''::1''" by auto
  show "length (format_ipv6 sample_network) \<le> 80" using length_format_ipv6 [of sample_network] by (simp add: sample_network_def)
qed

lemma sample_status_size: "length (status_text (\<lambda>_ _. ''0.0'') listening_app 5) \<le> 65536"
proof -
  have hex: "length (hex bs) = 2 * length bs" for bs using hex_facts [of bs] by simp
  have digits: "to_string 5 = ''5''" "to_string (Suc 0) = ''1''" "to_string 0 = ''0''" "to_string 443 = ''443''"
    by (simp_all add: to_string.simps char_of_def bit_simps)
  have ports: "length (to_string (unat (443 :: u16))) = 3" by (simp add: digits)
  have app: "length (hex (id_id (ap_identity listening_app))) = 64" "cfg_network (ap_config listening_app) = sample_network"
    "nc_endpoint (ap_local_contact listening_app) = ''[::1]:80''" "length (tr_peers (ap_trust listening_app)) = 1"
    "routes (ap_routing_table listening_app) = []" "total_packets listening_app + dropped_packets listening_app = 0"
    "total_packets listening_app = 0" "length (shared_ports_text (ap_config listening_app)) = 3"
    by (simp_all add: listening_app_def sample_app_def hex total_packets_def dropped_packets_def zero_data_metrics_def
        zero_routing_metrics_def shared_ports_text_def default_config_def digits)
  have peer: "length (concat (map (\<lambda>line. line @ [CHR 0x0A]) (map peer_line
      (filter (\<lambda>p. p_state p = Connected) (peers (ap_topology listening_app)))))) \<le> 100"
    by (simp add: listening_app_def sample_app_def peer_create_def peer_line_def hex)
  show ?thesis
    using peer sample_network_text(2)
    by (simp add: status_text_def status_lines_def app digits del: map_map)
qed


end
