(* ===== verification/Bootstrap.thy ===== *)
theory Bootstrap
  imports Status
begin

text \<open>
  Running a node: \<open>run_join\<close>, \<open>daemon_run\<close> and \<open>wait_for_shutdown\<close> of \<open>src/core/daemon.cpp\<close> and \<open>app_run\<close> of
  \<open>src/core/app.cpp\<close>. A node that joins proves its invitation to the inviter, keeps identity, configuration and trust on
  the disk before it becomes a neighbour of the inviter, looks itself up and announces itself. What is printed is not
  modelled, nor are the texts of the errors that are only printed. The rounds of the workers between the start and the
  shutdown are the steps of \<open>Node_Invariant\<close>.
\<close>

section \<open>How a run goes on\<close>

text \<open>The program ends with an exit code, or its workers serve. \<open>None\<close> around it is a receive loop that never ends.\<close>

datatype 'k run_end = Ended nat "'k process" | Serving "'k process"

definition change_state :: "'k process \<Rightarrow> node_state \<Rightarrow> 'k process option" where
  "change_state pr target =
     (case node_state_transition (pr_state pr) target of Inl _ \<Rightarrow> None | Inr s \<Rightarrow> Some (pr\<lparr>pr_state := s\<rparr>))"

definition set_app :: "'k process \<Rightarrow> 'k app_state \<Rightarrow> 'k process" where
  "set_app pr app = pr\<lparr>pr_app := app\<rparr>"

text \<open>Shutting down with exit code 1, after closing a session.\<close>

definition give_up_run :: "('w, 'k, 's) machine \<Rightarrow> 'k process \<Rightarrow> 'w \<Rightarrow> 'k run_end \<times> 'w" where
  "give_up_run m pr w = (case app_shutdown m pr w of (pr1, w1) \<Rightarrow> (Ended 1 pr1, w1))"

definition abandon_join ::
  "('w, 'k, 's) machine \<Rightarrow> session_ref \<Rightarrow> 'k process \<Rightarrow> 'w \<Rightarrow> 'k run_end \<times> 'w" where
  "abandon_join m r pr w =
     (case close_session (mc_host m) (pr_app pr) (Some r) w of (app, w1) \<Rightarrow> give_up_run m (set_app pr app) w1)"

section \<open>The answer of the inviter\<close>

text \<open>The contact of the inviter, when the answer agrees with the TLS session and contains only valid contacts.\<close>

definition bootstrap_contact ::
  "('w, 'k, 's) host \<Rightarrow> 'k app_state \<Rightarrow> transport_session \<Rightarrow> string \<Rightarrow> node_id \<Rightarrow> join_response \<Rightarrow> node_contact option" where
  "bootstrap_contact host app t endpoint sender response =
     (let contact = js_bootstrap_contact response; config = ap_config app;
          own = virtual_address (cfg_network config) sender
      in if ss_peer_node_id t \<noteq> Some sender \<or>
            (nc_id contact \<noteq> zero_node_id \<and> nc_id contact \<noteq> sender) \<or>
            (js_bootstrap_id response \<noteq> zero_node_id \<and> js_bootstrap_id response \<noteq> sender) \<or>
            (nc_virtual_address contact \<noteq> zero_ipv6 \<and> nc_virtual_address contact \<noteq> own)
         then None
         else
           let c1 = contact\<lparr>nc_id := (if nc_id contact = zero_node_id then sender else nc_id contact),
                            nc_endpoint := (if nc_endpoint contact = [] then endpoint else nc_endpoint contact)\<rparr>
           in if nc_id c1 \<noteq> sender \<or> nc_id c1 = id_id (ap_identity app) \<or>
                 (nc_public_key c1 \<noteq> zero_public_key \<and> nc_public_key c1 \<noteq> ts_peer_pubkey (ss_tls t))
              then None
              else
                let c2 = c1\<lparr>nc_public_key := (if nc_public_key c1 = zero_public_key then ts_peer_pubkey (ss_tls t)
                                              else nc_public_key c1),
                            nc_virtual_address := (if nc_virtual_address c1 = zero_ipv6
                                                   then virtual_address (cfg_network config) (nc_id c1)
                                                   else nc_virtual_address c1)\<rparr>
                in if nc_endpoint c2 \<noteq> endpoint \<or> \<not> valid_node_contact host config c2 \<or>
                      \<not> list_all (valid_node_contact host config) (js_peers response)
                   then None else Some c2)"

text \<open>The request with the invitation, and the accepted answer with its sender.\<close>

definition ask_to_join ::
  "('w, 'k, 's) host \<Rightarrow> 'k process \<Rightarrow> public_key \<Rightarrow> session_ref \<Rightarrow> 'w \<Rightarrow>
     ((node_id \<times> join_response) option \<times> 'k app_state \<times> 'w) option" where
  "ask_to_join host pr public_key r w =
     (let app = pr_app pr in
      case now_ms host w of (now, w1) \<Rightarrow>
      let request = \<lparr>jr_node_id = id_id (ap_identity app), jr_public_key = public_key,
            jr_virtual_address = nc_virtual_address (ap_local_contact app),
            jr_endpoint = nc_endpoint (ap_local_contact app), jr_timestamp = now, jr_nonce = 1001,
            jr_invite_token = pr_join_token pr\<rparr>
      in case send_control host app (Some r) CT_JOIN_REQUEST 1 (id_id (ap_identity app))
                (serialize_join_request request) (Some []) w1 of
           (False, app1, _, w2) \<Rightarrow> Some (None, app1, w2)
         | (True, app1, _, w2) \<Rightarrow>
             (case receive_control host app1 r 5000 w2 of
                None \<Rightarrow> None
              | Some (None, app2, w3) \<Rightarrow> Some (None, app2, w3)
              | Some (Some reply, app2, w3) \<Rightarrow>
                  Some ((if cm_type reply \<noteq> CT_JOIN_RESPONSE then None
                         else case deserialize_join_response (cm_payload reply) of
                           Inl _ \<Rightarrow> None
                         | Inr response \<Rightarrow>
                             if \<not> js_accepted response then None else Some (cm_sender reply, response)), app2, w3)))"

section \<open>What is kept on the disk\<close>

text \<open>An identity that is not stored yet is stored, with the directories and the configuration.\<close>

definition persist_identity :: "('w, 'k, 's) machine \<Rightarrow> 'k process \<Rightarrow> 'w \<Rightarrow> bool \<times> 'k process \<times> 'w" where
  "persist_identity m pr w =
     (let fs = h_fs (mc_host m); app = pr_app pr; config = ap_config app in
      if id_storage_path (ap_identity app) \<noteq> [] then (True, pr, w)
      else case private_ensure_directory fs (parent_path (cfg_identity_file config)) (Some []) w of
        (False, _, w1) \<Rightarrow> (False, pr, w1)
      | (True, _, w1) \<Rightarrow>
          (case private_ensure_directory fs (tr_directory (ap_trust app)) (Some []) w1 of
             (False, _, w2) \<Rightarrow> (False, pr, w2)
           | (True, _, w2) \<Rightarrow>
               (case identity_save fs (mc_keys m) (ap_identity app) (cfg_identity_file config) (Some []) w2 of
                  (False, ident, _, w3) \<Rightarrow> (False, set_app pr (app\<lparr>ap_identity := ident\<rparr>), w3)
                | (True, ident, _, w3) \<Rightarrow>
                    (True, set_app pr (app\<lparr>ap_identity := ident\<rparr>), save_config fs (pr_config_path pr) config w3))))"

definition persist_join ::
  "('w, 'k, 's) machine \<Rightarrow> 'k process \<Rightarrow> public_key \<Rightarrow> node_contact \<Rightarrow> 'w \<Rightarrow> bool \<times> 'k process \<times> 'w" where
  "persist_join m pr peer_key contact w =
     (let host = mc_host m; app = pr_app pr in
      if \<not> trust_address_available (ap_trust app) (cfg_network (ap_config app)) (id_id (ap_identity app)) (nc_id contact)
      then (False, pr, w)
      else case persist_identity m pr w of
        (False, pr1, w1) \<Rightarrow> (False, pr1, w1)
      | (True, pr1, w1) \<Rightarrow>
          (case trust_add (h_pton4 host) (h_pton6 host) (h_digest host) (h_fs host) (ap_trust (pr_app pr1))
                  \<lparr>tp_id = nc_id contact, tp_public_key = peer_key, tp_endpoint = nc_endpoint contact\<rparr> (Some []) w1 of
             (added, trust, _, w2) \<Rightarrow> (added, set_app pr1 ((pr_app pr1)\<lparr>ap_trust := trust\<rparr>), w2)))"

section \<open>Looking itself up\<close>

text \<open>
  The self lookup of \<open>join.cpp\<close> with \<open>query_peer\<close>, which reads the table that the lookup fills. \<open>fresh\<close> gives the address
  of a new session; the third component counts the queries.
\<close>

type_synonym ('w, 'k) lookup_state = "'k app_state \<times> u64 \<times> 'w"

definition ask_contact ::
  "('w, 'k, 's) host \<Rightarrow> ('k app_state \<Rightarrow> session_ref) \<Rightarrow> node_id \<Rightarrow> ('w, 'k) lookup_state \<Rightarrow> ('w, 'k) lookup_state option"
  where
  "ask_contact host fresh peer_id s =
     (case s of (app, sequence, w) \<Rightarrow>
      case query_peer host app peer_id (kt_local_id (ap_kademlia app)) sequence (fresh app) w of
        None \<Rightarrow> None
      | Some (contacts, app1, w1) \<Rightarrow>
          Some (app1\<lparr>ap_kademlia := insert_contacts (ap_kademlia app1) contacts\<rparr>, sequence + 1, w1))"

fun ask_contacts ::
  "('w, 'k, 's) host \<Rightarrow> ('k app_state \<Rightarrow> session_ref) \<Rightarrow> node_contact list \<Rightarrow> ('w, 'k) lookup_state \<Rightarrow>
     ('w, 'k) lookup_state option" where
  "ask_contacts host fresh [] s = Some s"
| "ask_contacts host fresh (c # cs) s =
     (case ask_contact host fresh (nc_id c) s of None \<Rightarrow> None | Some s1 \<Rightarrow> ask_contacts host fresh cs s1)"

fun self_lookup ::
  "nat \<Rightarrow> ('w, 'k, 's) host \<Rightarrow> ('k app_state \<Rightarrow> session_ref) \<Rightarrow> node_id list \<Rightarrow> ('w, 'k) lookup_state \<Rightarrow>
     ('w, 'k) lookup_state option" where
  "self_lookup 0 host fresh queried s = Some s"
| "self_lookup (Suc rounds) host fresh queried s =
     (let table = ap_kademlia (fst s);
          to_query = choose_queries 3 queried (kademlia_find_closest table (kt_local_id table) KADEMLIA_K) []
      in if to_query = [] then Some s
         else case ask_contacts host fresh to_query s of
           None \<Rightarrow> None
         | Some s1 \<Rightarrow> self_lookup rounds host fresh (queried @ map nc_id to_query) s1)"

text \<open>The contacts that have an idle session are told; a session whose announcement fails is dropped.\<close>

definition announce_contact ::
  "('w, 'k, 's) host \<Rightarrow> node_contact \<Rightarrow> ('w, 'k) lookup_state \<Rightarrow> ('w, 'k) lookup_state option" where
  "announce_contact host contact s =
     (case s of (app, sequence, w) \<Rightarrow>
      if nc_id contact = id_id (ap_identity app) then Some s
      else case find_idle_session app (nc_id contact) of
        None \<Rightarrow> Some s
      | Some r \<Rightarrow>
          (case announce_to_peer host app r sequence w of
             None \<Rightarrow> None
           | Some (True, app1, w1) \<Rightarrow> Some (app1, sequence + 1, w1)
           | Some (False, app1, w1) \<Rightarrow>
               (case drop_session host app1 r w1 of (app2, w2) \<Rightarrow> Some (app2, sequence + 1, w2))))"

fun announce_contacts ::
  "('w, 'k, 's) host \<Rightarrow> node_contact list \<Rightarrow> ('w, 'k) lookup_state \<Rightarrow> ('w, 'k) lookup_state option" where
  "announce_contacts host [] s = Some s"
| "announce_contacts host (c # cs) s =
     (case announce_contact host c s of None \<Rightarrow> None | Some s1 \<Rightarrow> announce_contacts host cs s1)"

definition make_known ::
  "('w, 'k, 's) host \<Rightarrow> ('k app_state \<Rightarrow> session_ref) \<Rightarrow> 'k app_state \<Rightarrow> 'w \<Rightarrow> ('k app_state \<times> 'w) option" where
  "make_known host fresh app w =
     (case self_lookup 10 host fresh [] (app, 2, w) of
        None \<Rightarrow> None
      | Some (app1, sequence, w1) \<Rightarrow>
          (case announce_contacts host
                  (kademlia_find_closest (ap_kademlia app1) (id_id (ap_identity app1)) KADEMLIA_K) (app1, sequence, w1) of
             None \<Rightarrow> None
           | Some (app2, _, w2) \<Rightarrow> Some (app2, w2)))"

section \<open>Joining\<close>

text \<open>The bootstrap session becomes a trusted session and its peer a neighbour.\<close>

definition adopt_bootstrap ::
  "('w, 'k, 's) machine \<Rightarrow> session_ref \<Rightarrow> node_contact \<Rightarrow> 'k process \<Rightarrow> 'w \<Rightarrow> bool \<times> 'k process \<times> 'w" where
  "adopt_bootstrap m r contact pr w =
     (let app = pr_app pr;
          session = (ap_store app r)\<lparr>as_trusted := True, as_peer_id := Some (nc_id contact), as_contact := contact\<rparr>
      in case adopt_session (mc_host m) (set_session app r session) r contact w of (ok, app1, w1) \<Rightarrow> (ok, set_app pr app1, w1))"

text \<open>After the inviter has become a neighbour: the contacts it gave, the lookup, and the state \<open>ACTIVE\<close>.\<close>

definition finish_join ::
  "(u64 \<Rightarrow> u64 \<Rightarrow> string) \<Rightarrow> ('w, 'k, 's) machine \<Rightarrow> ('k app_state \<Rightarrow> session_ref) \<Rightarrow> join_response \<Rightarrow> node_contact \<Rightarrow>
     'k process \<Rightarrow> 'w \<Rightarrow> ('k run_end \<times> 'w) option" where
  "finish_join loss m fresh response contact pr w =
     (let host = mc_host m; app = pr_app pr;
          app1 = app\<lparr>ap_kademlia := snd (handle_join_response (ap_kademlia app) response contact)\<rparr>
      in case make_known host fresh app1 w of
           None \<Rightarrow> None
         | Some (app2, w1) \<Rightarrow>
             (case change_state (set_app pr app2) ACTIVE of
                None \<Rightarrow> Some (give_up_run m (set_app pr app2) w1)
              | Some pr1 \<Rightarrow>
                  let app3 = fold (\<lambda>r app. start_session_worker app r) (ap_sessions app2) app2
                  in Some (Serving (set_app pr1 app3),
                           update_status_file loss host (pr_config_path pr1) app3 w1)))"

text \<open>With a session to the inviter.\<close>

definition join_over_session ::
  "(u64 \<Rightarrow> u64 \<Rightarrow> string) \<Rightarrow> ('w, 'k, 's) machine \<Rightarrow> ('k app_state \<Rightarrow> session_ref) \<Rightarrow> public_key \<Rightarrow> session_ref \<Rightarrow>
     'k process \<Rightarrow> 'w \<Rightarrow> ('k run_end \<times> 'w) option" where
  "join_over_session loss m fresh public_key r pr w =
     (let host = mc_host m in
      case ask_to_join host pr public_key r w of
        None \<Rightarrow> None
      | Some (None, app1, w1) \<Rightarrow> Some (abandon_join m r (set_app pr app1) w1)
      | Some (Some (sender, response), app1, w1) \<Rightarrow>
          let pr1 = set_app pr app1; t = as_transport (ap_store app1 r) in
          (case bootstrap_contact host app1 t (pr_bootstrap_endpoint pr1) sender response of
             None \<Rightarrow> Some (abandon_join m r pr1 w1)
           | Some contact \<Rightarrow>
               (case persist_join m pr1 (ts_peer_pubkey (ss_tls t)) contact w1 of
                  (False, pr2, w2) \<Rightarrow> Some (abandon_join m r pr2 w2)
                | (True, pr2, w2) \<Rightarrow>
                    (case adopt_bootstrap m r contact pr2 w2 of
                       (False, pr3, w3) \<Rightarrow> Some (give_up_run m pr3 w3)
                     | (True, pr3, w3) \<Rightarrow> finish_join loss m fresh response contact pr3 w3))))"

definition run_join ::
  "(u64 \<Rightarrow> u64 \<Rightarrow> string) \<Rightarrow> ('w, 'k, 's) machine \<Rightarrow> ('k app_state \<Rightarrow> session_ref) \<Rightarrow> 'k process \<Rightarrow> 'w \<Rightarrow>
     ('k run_end \<times> 'w) option" where
  "run_join loss m fresh pr w =
     (let host = mc_host m in
      case change_state pr DISCOVERING of
        None \<Rightarrow> Some (Ended 1 pr, w)
      | Some pr1 \<Rightarrow>
          (case parse_endpoint (h_pton4 host) (h_pton6 host) (pr_bootstrap_endpoint pr1) of
             None \<Rightarrow> Some (Ended 1 pr1, w)
           | Some (address, port) \<Rightarrow>
               if port = 0 then Some (Ended 1 pr1, w)
               else case extract_public_key host (ap_identity (pr_app pr1)) of
                 None \<Rightarrow> Some (Ended 1 pr1, w)
               | Some public_key \<Rightarrow>
                   (case start_runtime m pr1 (Some []) w of
                      (False, pr2, _, w1) \<Rightarrow> Some (give_up_run m pr2 w1)
                    | (True, pr2, _, w1) \<Rightarrow>
                        (case change_state pr2 JOINING_NETWORK of
                           None \<Rightarrow> Some (give_up_run m pr2 w1)
                         | Some pr3 \<Rightarrow>
                             let inviter = it_inviter_id (pr_join_invite pr3); app = pr_app pr3; r = fresh app in
                             (case transport_connect_tls (h_os host) (h_lib host) new_session (tls_config_for app) address port
                                     (Some inviter) 5000 (Some []) w1 of
                                (False, _, _, w2) \<Rightarrow> Some (give_up_run m pr3 w2)
                              | (True, t, _, w2) \<Rightarrow>
                                  let pr4 = set_app pr3 (set_session app r (new_peer_session\<lparr>as_transport := t\<rparr>)) in
                                  if ss_peer_node_id t \<noteq> Some inviter then Some (abandon_join m r pr4 w2)
                                  else join_over_session loss m fresh public_key r pr4 w2)))))"

section \<open>Starting and ending\<close>

definition daemon_run ::
  "(u64 \<Rightarrow> u64 \<Rightarrow> string) \<Rightarrow> ('w, 'k, 's) machine \<Rightarrow> ('k app_state \<Rightarrow> session_ref) \<Rightarrow> 'k process \<Rightarrow> 'w \<Rightarrow>
     ('k run_end \<times> 'w) option" where
  "daemon_run loss m fresh pr w =
     (if pr_join_mode pr then run_join loss m fresh pr w
      else case change_state pr DISCOVERING of
        None \<Rightarrow> Some (give_up_run m pr w)
      | Some pr1 \<Rightarrow>
          (case start_runtime m pr1 (Some []) w of
             (False, pr2, _, w1) \<Rightarrow> Some (give_up_run m pr2 w1)
           | (True, pr2, _, w1) \<Rightarrow>
               (case change_state pr2 ACTIVE of
                  None \<Rightarrow> Some (give_up_run m pr2 w1)
                | Some pr3 \<Rightarrow>
                    Some (Serving pr3, update_status_file loss (mc_host m) (pr_config_path pr3) (pr_app pr3) w1))))"

text \<open>What \<open>wait_for_shutdown\<close> does when the node is told to stop.\<close>

definition end_service :: "('w, 'k, 's) machine \<Rightarrow> 'k process \<Rightarrow> 'w \<Rightarrow> nat \<times> 'k process \<times> 'w" where
  "end_service m pr w =
     (let pr1 = (if pr_state pr = ACTIVE then (case change_state pr LEAVING of None \<Rightarrow> pr | Some p \<Rightarrow> p) else pr)
      in case app_shutdown m pr1 w of (pr2, w1) \<Rightarrow> (0, pr2, w1))"

definition app_run ::
  "(u64 \<Rightarrow> u64 \<Rightarrow> string) \<Rightarrow> ('w, 'k, 's) machine \<Rightarrow> ('k app_state \<Rightarrow> session_ref) \<Rightarrow> 'k process \<Rightarrow> 'w \<Rightarrow>
     ('k run_end \<times> 'w) option" where
  "app_run loss m fresh pr w =
     (if \<not> pr_running pr then Some (Ended 1 pr, w)
      else if pr_invite_mode pr
      then (case run_invite (mc_host m) pr w of ((code, _, _), w1) \<Rightarrow> Some (Ended code pr, w1))
      else if pr_status_mode pr
      then (case run_status (mc_host m) pr w of ((code, _), pr1, w1) \<Rightarrow> Some (Ended code pr1, w1))
      else if pr_check_only pr
      then (case identity_close (h_fs (mc_host m)) (ap_identity (pr_app pr)) w of
              (ident, w1) \<Rightarrow> Some (Ended 0 (set_app pr ((pr_app pr)\<lparr>ap_identity := ident\<rparr>)), w1))
      else daemon_run loss m fresh pr w)"

end
