(* ===== verification/App_Init.thy ===== *)
theory App_Init
  imports Runtime
begin

text \<open>
  The start of the program, \<open>app_init\<close> of \<open>src/core/app.cpp\<close>: the command line, the choice of the configuration,
  the identity and the trusted peers, and the empty tables. Further the default state directory of
  \<open>src/core/config.cpp\<close>, the local address of \<open>src/platform/socket.cpp\<close> and \<open>generate_ula_prefix\<close>. Branches for
  Windows are left out. Shown: a start that succeeds gives a node in the state from which \<open>Node_Invariant\<close> starts.
\<close>

section \<open>The command line\<close>

record cli_options =
  co_config :: string
  co_share_ports :: string
  co_listen :: string
  co_check :: bool
  co_status :: bool
  co_invite :: bool
  co_join :: bool
  co_expires :: bool
  co_lifetime :: u64
  co_token :: string
  co_ticket :: invite_ticket

text \<open>The program ends with a code after it printed its usage, or the options, or an error.\<close>

datatype cli_result = Cli_Exit nat | Cli_Error "string option" | Cli_Options cli_options

definition empty_ticket :: invite_ticket where
  "empty_ticket =
     \<lparr>it_network = zero_ipv6, it_secret = zero_secret, it_inviter_id = zero_node_id, it_inviter_endpoint = [],
      it_created_at = 0, it_expires_at = 0, it_consumed = False\<rparr>"

definition no_options :: cli_options where
  "no_options =
     \<lparr>co_config = [], co_share_ports = [], co_listen = [], co_check = False, co_status = False, co_invite = False,
      co_join = False, co_expires = False, co_lifetime = DEFAULT_INVITE_LIFETIME_SECONDS, co_token = [],
      co_ticket = empty_ticket\<rparr>"

text \<open>The next argument exists and is a value, not an option.\<close>

definition has_value :: "string list \<Rightarrow> bool" where
  "has_value rest \<longleftrightarrow> (case rest of [] \<Rightarrow> False | v # _ \<Rightarrow> v \<noteq> [] \<and> \<not> starts_with v ''--'')"

text \<open>The minutes of \<open>--expires\<close>.\<close>

definition parse_minutes :: "string \<Rightarrow> nat option" where
  "parse_minutes value =
     (case from_chars value of
        None \<Rightarrow> None
      | Some (minutes, rest) \<Rightarrow>
          if rest \<noteq> [] \<or> minutes = 0 \<or> unat MAX_INVITE_LIFETIME_SECONDS div 60 < minutes then None
          else Some minutes)"

function parse_options :: "cli_options \<Rightarrow> string list \<Rightarrow> string option \<Rightarrow> cli_result" where
  "parse_options o1 [] err = Cli_Options o1"
| "parse_options o1 (argument # rest) err =
     (if argument = ''--config'' \<and> co_config o1 = [] \<and> has_value rest
      then parse_options (o1\<lparr>co_config := hd rest\<rparr>) (tl rest) err
      else if argument = ''--listen'' \<and> co_listen o1 = [] \<and> has_value rest
      then parse_options (o1\<lparr>co_listen := hd rest\<rparr>) (tl rest) err
      else if argument = ''--share-ports'' \<and> \<not> co_status o1 \<and> \<not> co_invite o1 \<and> co_share_ports o1 = [] \<and>
              has_value rest
      then parse_options (o1\<lparr>co_share_ports := hd rest\<rparr>) (tl rest) err
      else if argument = ''--expires'' \<and> co_invite o1 \<and> \<not> co_expires o1 \<and> has_value rest
      then (case parse_minutes (hd rest) of
              None \<Rightarrow> Cli_Error (put_error ''--expires must be between 1 and 1440 minutes'' err)
            | Some minutes \<Rightarrow>
                parse_options (o1\<lparr>co_expires := True, co_lifetime := of_nat minutes * 60\<rparr>) (tl rest) err)
      else if argument = ''--check'' \<and> \<not> co_check o1 \<and> \<not> co_status o1 \<and> \<not> co_invite o1 \<and> \<not> co_join o1
      then parse_options (o1\<lparr>co_check := True\<rparr>) rest err
      else Cli_Exit 2)"
  by pat_completeness auto

termination parse_options
  by (relation "measure (\<lambda>(_, args, _). length args)") (auto simp: has_value_def split: list.splits)

text \<open>The arguments after the name of the program.\<close>

definition parse_command_line ::
  "(string \<Rightarrow> byte list option) \<Rightarrow> (string \<Rightarrow> ipv6 option) \<Rightarrow> string list \<Rightarrow> string option \<Rightarrow> cli_result" where
  "parse_command_line pton4 pton6 args err =
     (if args = [''--help''] then Cli_Exit 0
      else case args of
        [] \<Rightarrow> parse_options no_options [] err
      | command # rest \<Rightarrow>
          if command = ''status'' then parse_options (no_options\<lparr>co_status := True\<rparr>) rest err
          else if command = ''invite'' then parse_options (no_options\<lparr>co_invite := True\<rparr>) rest err
          else if command = ''join''
          then (case rest of
                  [] \<Rightarrow> Cli_Exit 2
                | token # options \<Rightarrow>
                    if starts_with token ''--'' then Cli_Exit 2
                    else case invite_decode pton4 pton6 token err of
                      Inl e \<Rightarrow> Cli_Error e
                    | Inr ticket \<Rightarrow>
                        parse_options (no_options\<lparr>co_join := True, co_token := token, co_ticket := ticket\<rparr>) options err)
          else parse_options no_options args err)"

section \<open>The machine\<close>

text \<open>The Linux branch of \<open>default_state_directory\<close>.\<close>

definition default_state_directory :: "(string \<Rightarrow> string option) \<Rightarrow> path" where
  "default_state_directory getenv =
     (case getenv ''MADOKA_STATE_DIR'' of
        Some (c # cs) \<Rightarrow> c # cs
      | _ \<Rightarrow>
          (case getenv ''XDG_STATE_HOME'' of
             Some (c # cs) \<Rightarrow> path_join (c # cs) ''madoka''
           | _ \<Rightarrow>
               (case getenv ''HOME'' of
                  Some (c # cs) \<Rightarrow> path_join (path_join (path_join (c # cs) ''.local'') ''state'') ''madoka''
                | _ \<Rightarrow> ''.madoka'')))"

text \<open>The address from which a packet to 8.8.8.8 would leave.\<close>

definition socket_detect_local_ip :: "('w, 'k, 's) machine \<Rightarrow> 'w \<Rightarrow> string \<times> 'w" where
  "socket_detect_local_ip m w =
     (let os = h_os (mc_host m) in
      case mc_udp_socket m w of (s, w1) \<Rightarrow>
        if s = INVALID_SOCKET_HANDLE then (''127.0.0.1'', w1)
        else case os_connect os s (AF_INET, [8, 8, 8, 8], 53) w1 of
          (False, w2) \<Rightarrow> (''127.0.0.1'', os_close os s w2)
        | (True, w2) \<Rightarrow>
            (case os_getsockname os s w2 of
               None \<Rightarrow> (''127.0.0.1'', os_close os s w2)
             | Some (_, bytes, _) \<Rightarrow>
                 let ip = os_ntop os AF_INET bytes
                 in (if ip \<noteq> [] \<and> ip \<noteq> ''0.0.0.0'' then ip else ''127.0.0.1'', os_close os s w2)))"

text \<open>
  The result of the random source is ignored: what a failing one did not write stays zero. \<open>None\<close> is a source that
  never returns.
\<close>

definition generate_ula_prefix :: "('w, 'k, 's) machine \<Rightarrow> 'w \<Rightarrow> (ipv6 \<times> 'w) option" where
  "generate_ula_prefix m w =
     (case random_bytes (mc_random m) 7 w of
        None \<Rightarrow> None
      | Some (Inl (_, bytes), w1) \<Rightarrow> Some (0xfd # bytes @ replicate (15 - length bytes) 0, w1)
      | Some (Inr bytes, w1) \<Rightarrow> Some (0xfd # bytes @ replicate 8 0, w1))"

section \<open>The state before the start\<close>

definition new_app :: "'k app_state" where
  "new_app =
     \<lparr>ap_config = default_config,
      ap_identity = \<lparr>id_key = None, id_id = zero_node_id, id_generation = 1, id_storage_path = [], id_lock_handle = None\<rparr>,
      ap_trust = \<lparr>tr_directory = [], tr_peers = []\<rparr>,
      ap_vnet = \<lparr>vn_tun = \<lparr>td_handle = -1, td_name = [], td_mtu = 1280, td_is_open = False, td_is_mock = False\<rparr>,
        vn_address = zero_ipv6, vn_mtu = 1280, vn_packets_received = 0, vn_packets_transmitted = 0, vn_is_up = False\<rparr>,
      ap_kademlia = empty_kademlia_table, ap_topology = \<lparr>peers = []\<rparr>, ap_routing_table = routing_init,
      ap_route_advertisements = [], ap_route_origins = Map.empty, ap_routing_dirty = True,
      ap_next_route_sequence = 1, ap_next_control_sequence = 1, ap_local_contact = empty_contact,
      ap_store = (\<lambda>_. \<lparr>as_transport = new_session, as_contact = empty_contact, as_peer_id = None,
        as_worker_started = False, as_trusted = False\<rparr>),
      ap_sessions = [], ap_outbound_ports = [], ap_next_packet_id = 1, ap_data_metrics = zero_data_metrics,
      ap_routing_metrics = zero_routing_metrics\<rparr>"

definition new_process :: "'k process" where
  "new_process =
     \<lparr>pr_app = new_app,
      pr_server = \<lparr>sv_listen_socket = INVALID_SOCKET_HANDLE,
        sv_tls_ctx = \<lparr>cx_native = None, cx_role = Client,
          cx_config = \<lparr>tc_identity_key = None, tc_identity_id = zero_node_id, tc_generation = 1\<rparr>\<rparr>,
        sv_is_tls = False, sv_bind_address = ''::1'', sv_port = 0, sv_peer_validator = None, sv_is_listening = False\<rparr>,
      pr_state = CREATED, pr_running = False, pr_check_only = False, pr_status_mode = False, pr_join_mode = False,
      pr_invite_mode = False, pr_invite_lifetime = DEFAULT_INVITE_LIFETIME_SECONDS, pr_join_invite = empty_ticket,
      pr_join_token = [], pr_bootstrap_endpoint = [], pr_config_path = []\<rparr>"

section \<open>How the start ends\<close>

text \<open>
  The program exits, or an exception leaves it, or \<open>app_init\<close> returns. \<open>None\<close> in the place of all this is a source of
  random bytes that never returns.
\<close>

datatype 'k init_end = Init_Exit nat | Init_Throws string | Init_Failed "'k process" "string option" | Init_Ready "'k process" "string option"

type_synonym ('w, 'k) init_run = "('k init_end \<times> 'w) option"

text \<open>\<open>std::filesystem::exists\<close> throws when the file cannot be inspected.\<close>

definition if_exists :: "'w fs \<Rightarrow> path \<Rightarrow> 'w \<Rightarrow> (bool \<Rightarrow> ('w, 'k) init_run) \<Rightarrow> ('w, 'k) init_run" where
  "if_exists fs p w continue =
     (case fs_exists fs p w of Inl (_, message) \<Rightarrow> Some (Init_Throws message, w) | Inr there \<Rightarrow> continue there)"

definition init_fail :: "'k process \<Rightarrow> string option \<Rightarrow> 'w \<Rightarrow> ('w, 'k) init_run" where
  "init_fail pr err w = Some (Init_Failed pr err, w)"

definition set_config :: "'k process \<Rightarrow> config \<Rightarrow> 'k process" where
  "set_config pr config = pr\<lparr>pr_app := (pr_app pr)\<lparr>ap_config := config\<rparr>\<rparr>"

definition set_identity :: "'k process \<Rightarrow> 'k identity \<Rightarrow> 'k process" where
  "set_identity pr ident = pr\<lparr>pr_app := (pr_app pr)\<lparr>ap_identity := ident\<rparr>\<rparr>"

definition set_trust :: "'k process \<Rightarrow> trust_state \<Rightarrow> 'k process" where
  "set_trust pr trust = pr\<lparr>pr_app := (pr_app pr)\<lparr>ap_trust := trust\<rparr>\<rparr>"

section \<open>Where to listen, what to share\<close>

definition detect_listen :: "('w, 'k, 's) machine \<Rightarrow> config \<Rightarrow> 'w \<Rightarrow> config \<times> 'w" where
  "detect_listen m config w =
     (case socket_detect_local_ip m w of (address, w1) \<Rightarrow>
      case socket_is_port_available (h_os (mc_host m)) address 9001 w1 of (free, w2) \<Rightarrow>
        (config\<lparr>cfg_listen_address := address, cfg_listen_port := (if free then 9001 else 0)\<rparr>, w2))"

definition listen_at :: "('w, 'k, 's) machine \<Rightarrow> string \<Rightarrow> config \<Rightarrow> string + config" where
  "listen_at m listen_arg config =
     (case parse_endpoint (h_pton4 (mc_host m)) (h_pton6 (mc_host m)) listen_arg of
        None \<Rightarrow> Inl (''Invalid --listen endpoint: '' @ listen_arg)
      | Some (address, port) \<Rightarrow> Inr (config\<lparr>cfg_listen_address := address, cfg_listen_port := port\<rparr>))"

text \<open>The option if there is one, else the detected address if there is none yet.\<close>

definition choose_listen ::
  "('w, 'k, 's) machine \<Rightarrow> string \<Rightarrow> bool \<Rightarrow> config \<Rightarrow> 'w \<Rightarrow> (string + config) \<times> 'w" where
  "choose_listen m listen_arg detect config w =
     (if listen_arg \<noteq> [] then (listen_at m listen_arg config, w)
      else if detect then (case detect_listen m config w of (config1, w1) \<Rightarrow> (Inr config1, w1))
      else (Inr config, w))"

definition choose_ports :: "string \<Rightarrow> config \<Rightarrow> string + config" where
  "choose_ports ports_arg config =
     (if ports_arg = [] then Inr config
      else case parse_port_list ports_arg of
        None \<Rightarrow> Inl (''Invalid --share-ports parameter: '' @ ports_arg)
      | Some (ports, all) \<Rightarrow> Inr (config\<lparr>cfg_shared_ports := ports, cfg_share_all_ports := all\<rparr>))"

text \<open>Both, and what follows when they are right.\<close>

definition with_options ::
  "('w, 'k, 's) machine \<Rightarrow> cli_options \<Rightarrow> bool \<Rightarrow> config \<Rightarrow> 'k process \<Rightarrow> string option \<Rightarrow> 'w \<Rightarrow>
     ('k process \<Rightarrow> 'w \<Rightarrow> ('w, 'k) init_run) \<Rightarrow> ('w, 'k) init_run" where
  "with_options m opts detect config pr err w continue =
     (case choose_listen m (co_listen opts) detect config w of
        (Inl e, w1) \<Rightarrow> init_fail (set_config pr config) (put_error e err) w1
      | (Inr config1, w1) \<Rightarrow>
          (case choose_ports (co_share_ports opts) config1 of
             Inl e \<Rightarrow> init_fail (set_config pr config1) (put_error e err) w1
           | Inr config2 \<Rightarrow> continue (set_config pr config2) w1))"

definition read_config :: "('w, 'k, 's) machine \<Rightarrow> path \<Rightarrow> 'w \<Rightarrow> string + config" where
  "read_config m p w =
     load_config (h_pton4 (mc_host m)) (h_pton6 (mc_host m)) (mc_resolve m p) (mc_same_file m p) (mc_config_file m p w)"

text \<open>What a configuration has when there is no file yet.\<close>

definition fresh_config :: "path \<Rightarrow> config \<Rightarrow> config" where
  "fresh_config p config =
     config\<lparr>cfg_interface_name := ''madoka0'', cfg_mtu := 1280, cfg_share_all_ports := True,
            cfg_identity_file := path_join (parent_path p) ''identity.pem''\<rparr>"

section \<open>Joining a network\<close>

definition join_identity ::
  "('w, 'k, 's) machine \<Rightarrow> bool \<Rightarrow> 'k process \<Rightarrow> string option \<Rightarrow> 'w \<Rightarrow>
     ('k process \<Rightarrow> string option \<Rightarrow> 'w \<Rightarrow> ('w, 'k) init_run) \<Rightarrow> ('w, 'k) init_run" where
  "join_identity m custom pr err w continue =
     (let fs = h_fs (mc_host m); lib = h_lib (mc_host m); app = pr_app pr;
          generate = (case identity_generate fs lib (mc_keys m) (ap_identity app) err w of
              (False, ident, err1, w1) \<Rightarrow> init_fail (set_identity pr ident) err1 w1
            | (True, ident, err1, w1) \<Rightarrow> continue (set_identity pr (ident\<lparr>id_storage_path := []\<rparr>)) err1 w1)
      in if \<not> custom then generate
         else if_exists fs (cfg_identity_file (ap_config app)) w (\<lambda>there.
           if \<not> there then generate
           else case identity_load fs lib (mc_keys m) (ap_identity app) (ap_config app) err w of
               (False, ident, err1, w1) \<Rightarrow> init_fail (set_identity pr ident) err1 w1
             | (True, ident, err1, w1) \<Rightarrow> continue (set_identity pr ident) err1 w1))"

definition join_config ::
  "('w, 'k, 's) machine \<Rightarrow> cli_options \<Rightarrow> path \<Rightarrow> config \<Rightarrow> 'k process \<Rightarrow> string option \<Rightarrow> 'w \<Rightarrow>
     ('k process \<Rightarrow> string option \<Rightarrow> 'w \<Rightarrow> ('w, 'k) init_run) \<Rightarrow> ('w, 'k) init_run" where
  "join_config m opts p config0 pr err w continue =
     (let network = it_network (pr_join_invite pr);
          config = (if network \<noteq> zero_ipv6 then config0\<lparr>cfg_network := network\<rparr> else config0)
      in with_options m opts (cfg_listen_port config = 0) config pr err w (\<lambda>pr1 w1.
           join_identity m (co_config opts \<noteq> []) pr1 err w1 (\<lambda>pr2 err2 w2.
             continue (set_trust pr2 \<lparr>tr_directory = trust_directory (cfg_identity_file (ap_config (pr_app pr2))),
                                      tr_peers = []\<rparr>) err2 w2)))"

definition init_join ::
  "('w, 'k, 's) machine \<Rightarrow> cli_options \<Rightarrow> path \<Rightarrow> 'k process \<Rightarrow> string option \<Rightarrow> 'w \<Rightarrow>
     ('k process \<Rightarrow> string option \<Rightarrow> 'w \<Rightarrow> ('w, 'k) init_run) \<Rightarrow> ('w, 'k) init_run" where
  "init_join m opts p pr err w continue =
     (let custom = (co_config opts \<noteq> []); fs = h_fs (mc_host m) in
      if_exists fs p w (\<lambda>there.
        if \<not> custom \<and> there
        then init_fail pr (put_error (''Node already has state at '' @ p @
                                      ''; remove existing state before joining another network'') err) w
        else if custom \<and> there
        then (case read_config m p w of
                Inl e \<Rightarrow> init_fail pr (put_error e err) w
              | Inr config \<Rightarrow> join_config m opts p config pr err w continue)
        else join_config m opts p (fresh_config p (ap_config (pr_app pr))) pr err w continue))"

section \<open>Starting a node\<close>

text \<open>Identity and trusted peers; \<open>saved\<close> writes the configuration between the two.\<close>

definition load_node ::
  "('w, 'k, 's) machine \<Rightarrow> ('w \<Rightarrow> 'w) \<Rightarrow> 'k process \<Rightarrow> string option \<Rightarrow> 'w \<Rightarrow>
     ('k process \<Rightarrow> string option \<Rightarrow> 'w \<Rightarrow> ('w, 'k) init_run) \<Rightarrow> ('w, 'k) init_run" where
  "load_node m saved pr err w continue =
     (let host = mc_host m; fs = h_fs host; config = ap_config (pr_app pr) in
      case identity_load fs (h_lib host) (mc_keys m) (ap_identity (pr_app pr)) config err w of
        (False, ident, err1, w1) \<Rightarrow> init_fail (set_identity pr ident) err1 w1
      | (True, ident, err1, w1) \<Rightarrow>
          (case trust_load (h_pton4 host) (h_pton6 host) (h_digest host) fs (cfg_identity_file config) err1 (saved w1) of
             (None, err2, w2) \<Rightarrow>
               (case identity_close fs ident w2 of (closed, w3) \<Rightarrow> init_fail (set_identity pr closed) err2 w3)
           | (Some trust, err2, w2) \<Rightarrow> continue (set_trust (set_identity pr ident) trust) err2 w2))"

text \<open>The first start: a new network.\<close>

definition init_first ::
  "('w, 'k, 's) machine \<Rightarrow> cli_options \<Rightarrow> path \<Rightarrow> 'k process \<Rightarrow> string option \<Rightarrow> 'w \<Rightarrow>
     ('k process \<Rightarrow> string option \<Rightarrow> 'w \<Rightarrow> ('w, 'k) init_run) \<Rightarrow> ('w, 'k) init_run" where
  "init_first m opts p pr err w continue =
     (if co_status opts \<or> co_invite opts \<or> co_check opts
      then init_fail pr (put_error ''The node has not been initialized; start madoka first'' err) w
      else let fs = h_fs (mc_host m) in
      case private_ensure_directory fs (parent_path p) err w of
        (False, err1, w1) \<Rightarrow> init_fail pr err1 w1
      | (True, err1, w1) \<Rightarrow>
          (case generate_ula_prefix m w1 of
             None \<Rightarrow> None
           | Some (network, w2) \<Rightarrow>
               with_options m opts True (fresh_config p ((ap_config (pr_app pr))\<lparr>cfg_network := network\<rparr>)) pr err1 w2
                 (\<lambda>pr1 w3. load_node m (save_config fs p (ap_config (pr_app pr1))) pr1 err1 w3 continue)))"

definition init_again ::
  "('w, 'k, 's) machine \<Rightarrow> cli_options \<Rightarrow> path \<Rightarrow> 'k process \<Rightarrow> string option \<Rightarrow> 'w \<Rightarrow>
     ('k process \<Rightarrow> string option \<Rightarrow> 'w \<Rightarrow> ('w, 'k) init_run) \<Rightarrow> ('w, 'k) init_run" where
  "init_again m opts p pr err w continue =
     (case read_config m p w of
        Inl e \<Rightarrow> init_fail pr (put_error e err) w
      | Inr config \<Rightarrow>
          with_options m opts False config pr err w (\<lambda>pr1 w1.
            if co_status opts \<or> co_invite opts then continue pr1 err w1 else load_node m (\<lambda>w. w) pr1 err w1 continue))"

definition init_start ::
  "('w, 'k, 's) machine \<Rightarrow> cli_options \<Rightarrow> path \<Rightarrow> 'k process \<Rightarrow> string option \<Rightarrow> 'w \<Rightarrow>
     ('k process \<Rightarrow> string option \<Rightarrow> 'w \<Rightarrow> ('w, 'k) init_run) \<Rightarrow> ('w, 'k) init_run" where
  "init_start m opts p pr err w continue =
     (if co_config opts \<noteq> [] then init_again m opts p pr err w continue
      else if_exists (h_fs (mc_host m)) p w (\<lambda>there.
        if there then init_again m opts p pr err w continue else init_first m opts p pr err w continue))"

section \<open>The tables\<close>

definition peer_contact :: "config \<Rightarrow> trusted_peer \<Rightarrow> node_contact" where
  "peer_contact config peer =
     empty_contact\<lparr>nc_id := tp_id peer, nc_public_key := tp_public_key peer,
                   nc_virtual_address := virtual_address (cfg_network config) (tp_id peer),
                   nc_endpoint := tp_endpoint peer\<rparr>"

definition known_peers :: "config \<Rightarrow> trusted_peer list \<Rightarrow> kademlia_table \<Rightarrow> kademlia_table" where
  "known_peers config ps table = foldl (\<lambda>t peer. snd (kademlia_insert t (peer_contact config peer) None)) table ps"

definition init_tables :: "'k app_state \<Rightarrow> 'k app_state" where
  "init_tables app =
     app\<lparr>ap_kademlia := known_peers (ap_config app) (tr_peers (ap_trust app))
           (the (kademlia_init (Some (ap_kademlia app)) (id_id (ap_identity app)))),
         ap_topology := the (topology_init (Some (ap_topology app))),
         ap_routing_table := routing_init, ap_route_advertisements := [], ap_route_origins := Map.empty,
         ap_routing_dirty := True, ap_next_route_sequence := 1\<rparr>"

definition init_finish ::
  "('w, 'k, 's) machine \<Rightarrow> cli_options \<Rightarrow> path \<Rightarrow> 'k process \<Rightarrow> string option \<Rightarrow> 'w \<Rightarrow> ('w, 'k) init_run" where
  "init_finish m opts p pr err w =
     (let app = pr_app pr; config = ap_config app; serving = (\<not> co_status opts \<and> \<not> co_invite opts) in
      if serving \<and> \<not> list_all (\<lambda>peer. trust_address_available (ap_trust app) (cfg_network config)
                                           (id_id (ap_identity app)) (tp_id peer)) (tr_peers (ap_trust app))
      then (case identity_close (h_fs (mc_host m)) (ap_identity app) w of (closed, w1) \<Rightarrow>
              init_fail (set_identity pr closed) (put_error ''Trusted peers contain a virtual address collision'' err) w1)
      else let trust = (if co_invite opts then (ap_trust app)\<lparr>tr_directory := trust_directory (cfg_identity_file config)\<rparr>
                        else ap_trust app)
           in Some (Init_Ready (pr\<lparr>pr_app := init_tables (app\<lparr>ap_trust := trust\<rparr>), pr_state := CREATED,
                                   pr_status_mode := co_status opts, pr_check_only := co_check opts,
                                   pr_config_path := p, pr_running := True\<rparr>) err, w))"

section \<open>The whole\<close>

definition SIGINT :: nat where "SIGINT = 2"
definition SIGTERM :: nat where "SIGTERM = 15"

fun set_handlers :: "('w, 'k, 's) machine \<Rightarrow> nat list \<Rightarrow> 'w \<Rightarrow> bool \<times> 'w" where
  "set_handlers m [] w = (True, w)"
| "set_handlers m (signal # signals) w =
     (case mc_signal m signal w of (False, w1) \<Rightarrow> (False, w1) | (True, w1) \<Rightarrow> set_handlers m signals w1)"

definition lifecycle_install_signals ::
  "('w, 'k, 's) machine \<Rightarrow> string option \<Rightarrow> 'w \<Rightarrow> bool \<times> string option \<times> 'w" where
  "lifecycle_install_signals m err w =
     (case set_handlers m [SIGINT, SIGTERM] w of
        (True, w1) \<Rightarrow> (True, err, w1)
      | (False, w1) \<Rightarrow> (False, put_error ''Could not register shutdown signal handlers.'' err, w1))"

definition process_for :: "cli_options \<Rightarrow> 'k process \<Rightarrow> 'k process" where
  "process_for opts pr =
     pr\<lparr>pr_invite_mode := pr_invite_mode pr \<or> co_invite opts, pr_join_mode := pr_join_mode pr \<or> co_join opts,
        pr_join_token := (if co_join opts then co_token opts else pr_join_token pr),
        pr_join_invite := (if co_join opts then co_ticket opts else pr_join_invite pr),
        pr_bootstrap_endpoint := (if co_join opts then it_inviter_endpoint (co_ticket opts) else pr_bootstrap_endpoint pr),
        pr_invite_lifetime := (if co_expires opts then co_lifetime opts else pr_invite_lifetime pr)\<rparr>"

definition config_file_at :: "('w, 'k, 's) machine \<Rightarrow> cli_options \<Rightarrow> 'w \<Rightarrow> (path \<Rightarrow> ('w, 'k) init_run) \<Rightarrow> ('w, 'k) init_run" where
  "config_file_at m opts w continue =
     (if co_config opts \<noteq> [] then continue (co_config opts)
      else if_exists (h_fs (mc_host m)) ''madoka.conf'' w (\<lambda>there.
        continue (if there then ''madoka.conf'' else path_join (default_state_directory (mc_getenv m)) ''madoka.conf'')))"

definition app_init ::
  "('w, 'k, 's) machine \<Rightarrow> string list \<Rightarrow> 'k process \<Rightarrow> string option \<Rightarrow> 'w \<Rightarrow> ('w, 'k) init_run" where
  "app_init m args pr0 err w =
     (case parse_command_line (h_pton4 (mc_host m)) (h_pton6 (mc_host m)) args err of
        Cli_Exit code \<Rightarrow> Some (Init_Exit code, w)
      | Cli_Error err1 \<Rightarrow> init_fail pr0 err1 w
      | Cli_Options opts \<Rightarrow>
          let pr = process_for opts pr0 in
          config_file_at m opts w (\<lambda>p.
            let (installed, err1, w1) = (if co_status opts \<or> co_invite opts then (True, err, w)
                                         else lifecycle_install_signals m err w)
            in if \<not> installed then init_fail pr err1 w1
               else if pr_join_mode pr
               then init_join m opts p pr err1 w1 (init_finish m opts p)
               else init_start m opts p pr err1 w1 (init_finish m opts p)))"

end
