(* ===== verification/Start.thy ===== *)
theory Start
  imports App_Init Node_Invariant
begin

text \<open>
  Facts about starting and stopping a node: what \<open>app_init\<close> has set up when it succeeds, that \<open>start_runtime\<close> then
  gives a node in the state from which the steps of \<open>Node_Invariant\<close> start, that a start which fails leaves no listening
  server and no network behind, and what \<open>app_shutdown\<close> leaves.
\<close>

section \<open>Loading\<close>

lemma identity_create_is_node_id:
  "identity_create fs lib ks p err w = (Some (key, nid, generation), err', w') \<Longrightarrow> is_node_id nid"
  unfolding identity_create_def
  by (auto dest: derived_is_node_id split: option.splits if_splits sum.splits prod.splits bool.splits)

lemma identity_load_is_node_id:
  assumes "identity_load fs lib ks identity config err w = (True, ident, err', w')"
  shows "is_node_id (id_id ident)"
proof -
  note unfolded = assms [unfolded identity_load_def Let_def load_locked_def [symmetric]]
  have "load_locked fs lib ks p there e v = (Some (key, nid, generation), e', v') \<Longrightarrow> is_node_id nid"
    for p there e v key nid generation e' v'
    unfolding load_locked_def
    by (auto dest: identity_create_is_node_id decode_identity_result derived_is_node_id
        split: if_splits prod.splits option.splits sum.splits)
  with unfolded show ?thesis
    by (auto simp: identity_fail_def split: if_splits prod.splits bool.splits sum.splits option.splits)
qed

lemma identity_generate_is_node_id:
  "identity_generate fs lib ks identity err w = (True, ident, err', w') \<Longrightarrow> is_node_id (id_id ident)"
  unfolding identity_generate_def
  by (auto dest: derived_is_node_id split: option.splits prod.splits)

lemma ula_prefix_is_ipv6:
  assumes "bounded_rng (mc_random m)" "generate_ula_prefix m w = Some (network, w')"
  shows "is_ipv6 network"
  using assms(2) random_bytes_fills [OF assms(1)] random_bytes_short [OF assms(1)]
  by (fastforce simp: generate_ula_prefix_def split: option.splits prod.splits sum.splits)

section \<open>The configuration of a start\<close>

text \<open>A process that has not run: no session, an empty table, an identity, a network and sorted, bound trusted peers.\<close>

definition fresh :: "('w, 'k, 's) host \<Rightarrow> 'k process \<Rightarrow> bool" where
  "fresh host pr \<longleftrightarrow> \<not> sv_is_listening (pr_server pr) \<and>
    (let app = pr_app pr in
     \<not> vn_is_up (ap_vnet app) \<and> ap_sessions app = [] \<and> length (kt_buckets (ap_kademlia app)) = KADEMLIA_BUCKETS \<and>
     is_node_id (id_id (ap_identity app)) \<and> is_ipv6 (cfg_network (ap_config app)) \<and>
     table_sorted (tr_peers (ap_trust app)) \<and>
     list_all (trusted_peer_ok (h_pton4 host) (h_pton6 host) (h_digest host)) (tr_peers (ap_trust app)))"

lemma set_fields [simp]:
  "pr_app (set_config pr c) = (pr_app pr)\<lparr>ap_config := c\<rparr>"
  "pr_app (set_identity pr i) = (pr_app pr)\<lparr>ap_identity := i\<rparr>"
  "pr_app (set_trust pr t) = (pr_app pr)\<lparr>ap_trust := t\<rparr>"
  "pr_join_invite (set_config pr c) = pr_join_invite pr"
  "pr_app (process_for opts pr) = pr_app pr"
  "pr_server (set_config pr c) = pr_server pr" "pr_server (set_identity pr i) = pr_server pr"
  "pr_server (set_trust pr t) = pr_server pr" "pr_server (process_for opts pr) = pr_server pr"
  by (simp_all add: set_config_def set_identity_def set_trust_def process_for_def)

text \<open>What a run of the start that ends well has gone through: its continuation, on a fresh process.\<close>

definition passes ::
  "('w, 'k, 's) host \<Rightarrow> ('k process \<Rightarrow> string option \<Rightarrow> 'w \<Rightarrow> ('w, 'k) init_run) \<Rightarrow> ('w, 'k) init_run \<Rightarrow> bool" where
  "passes host continue r \<longleftrightarrow>
     (\<forall>pr' e' w'. r = Some (Init_Ready pr' e', w') \<longrightarrow>
        (\<exists>pr e w. continue pr e w = Some (Init_Ready pr' e', w') \<and> fresh host pr))"

lemma passes_fail [simp]: "passes host k (init_fail pr e w)" "passes host k None"
  by (simp_all add: passes_def init_fail_def)

lemma passes_continue: "fresh host pr \<Longrightarrow> passes host k (k pr e w)"
  by (auto simp: passes_def)

lemma passes_if_exists: "(\<And>there. passes host k (f there)) \<Longrightarrow> passes host k (if_exists fs p w f)"
  by (auto simp: if_exists_def passes_def split: sum.split)

lemma choose_listen_network:
  "choose_listen m arg detect config w = (Inr config', w') \<Longrightarrow> cfg_network config' = cfg_network config"
  by (auto simp: choose_listen_def listen_at_def detect_listen_def split: if_splits option.splits prod.splits)

lemma choose_ports_network: "choose_ports arg config = Inr config' \<Longrightarrow> cfg_network config' = cfg_network config"
  by (auto simp: choose_ports_def split: if_splits option.splits)

lemma passes_options:
  assumes "\<And>config' w1. cfg_network config' = cfg_network config \<Longrightarrow> passes host k (f (set_config pr config') w1)"
  shows "passes host k (with_options m opts detect config pr err w f)"
proof -
  obtain r w1 where listen: "choose_listen m (co_listen opts) detect config w = (r, w1)" by fastforce
  show ?thesis
  proof (cases r)
    case (Inr config1)
    then have "cfg_network config1 = cfg_network config" using choose_listen_network listen by simp
    then show ?thesis
      using assms choose_ports_network [of _ config1]
      by (cases "choose_ports (co_share_ports opts) config1") (simp_all add: with_options_def listen Inr)
  qed (simp add: with_options_def listen)
qed

lemma passes_load_node:
  assumes "fresh (mc_host m) pr"
  shows "passes (mc_host m) k (load_node m saved pr err w k)"
proof -
  have step: "passes (mc_host m) k (k (set_trust (set_identity pr ident) trust) e v)"
    if "is_node_id (id_id ident)" "table_sorted (tr_peers trust)"
      "list_all (trusted_peer_ok (h_pton4 (mc_host m)) (h_pton6 (mc_host m)) (h_digest (mc_host m))) (tr_peers trust)"
    for ident trust e v
    using that assms by (intro passes_continue) (simp add: fresh_def Let_def)
  show ?thesis
    unfolding load_node_def Let_def
    by (auto split: prod.split bool.split option.split
        intro!: step dest: identity_load_is_node_id trust_load_facts)
qed

lemma read_config_network:
  assumes "\<forall>t n. h_pton6 (mc_host m) t = Some n \<longrightarrow> is_ipv6 n" "read_config m p w = Inr config"
  shows "is_ipv6 (cfg_network config)"
  using load_config_valid [OF assms(2) [unfolded read_config_def]] assms(1) by (simp add: network_ok_def)

lemma fresh_config_set:
  "fresh host pr \<Longrightarrow> is_ipv6 (cfg_network c) \<Longrightarrow> fresh host (set_config pr c)"
  by (simp add: fresh_def Let_def)

lemma fresh_network: "fresh host pr \<Longrightarrow> is_ipv6 (cfg_network (ap_config (pr_app pr)))"
  by (simp add: fresh_def Let_def)

text \<open>What is passed on after the identity of a joining node: a fresh process.\<close>

lemma passes_join_identity:
  assumes "fresh host pr"
    and "\<And>pr1 e v. fresh host pr1 \<Longrightarrow> passes host k (f pr1 e v)"
  shows "passes host k (join_identity m custom pr err w f)"
proof -
  have step: "passes host k (f (set_identity pr ident) e v)" if "is_node_id (id_id ident)" for ident e v
    using assms(1) that by (intro assms(2)) (simp add: fresh_def Let_def)
  let ?fs = "h_fs (mc_host m)" and ?lib = "h_lib (mc_host m)"
  obtain ok ident e v where generated: "identity_generate ?fs ?lib (mc_keys m) (ap_identity (pr_app pr)) err w = (ok, ident, e, v)"
    by (metis prod_cases4)
  obtain ok' ident' e' v'
    where loaded: "identity_load ?fs ?lib (mc_keys m) (ap_identity (pr_app pr)) (ap_config (pr_app pr)) err w = (ok', ident', e', v')"
    by (metis prod_cases4)
  have "passes host k (case ok of
      False \<Rightarrow> init_fail (set_identity pr ident) e v | True \<Rightarrow> f (set_identity pr (ident\<lparr>id_storage_path := []\<rparr>)) e v)"
    using generated by (cases ok) (simp_all add: step identity_generate_is_node_id)
  moreover have "passes host k (case ok' of
      False \<Rightarrow> init_fail (set_identity pr ident') e' v' | True \<Rightarrow> f (set_identity pr ident') e' v')"
    using loaded by (cases ok') (simp_all add: step identity_load_is_node_id)
  ultimately show ?thesis
    by (auto simp: join_identity_def Let_def generated loaded intro!: passes_if_exists)
qed

lemma passes_join_config:
  assumes "fresh host pr" "is_ipv6 (cfg_network config)" "is_ipv6 (it_network (pr_join_invite pr))"
  shows "passes host k (join_config m opts p config pr err w k)"
proof -
  have continue: "passes host k (k (set_trust pr1 \<lparr>tr_directory = d, tr_peers = []\<rparr>) e v)"
    if "fresh host pr1" for pr1 d e v
    using that by (intro passes_continue) (simp add: fresh_def Let_def)
  show ?thesis
    unfolding join_config_def Let_def using assms
    by (intro passes_options passes_join_identity continue) (auto intro: fresh_config_set split: if_splits)
qed

text \<open>\<open>inet_pton\<close> gives 16 bytes.\<close>

definition pton_sized :: "('w, 'k, 's) machine \<Rightarrow> bool" where
  "pton_sized m \<longleftrightarrow> (\<forall>t n. h_pton6 (mc_host m) t = Some n \<longrightarrow> is_ipv6 n)"

lemma passes_init_join:
  assumes pton: "pton_sized m" and "fresh (mc_host m) pr" "is_ipv6 (it_network (pr_join_invite pr))"
  shows "passes (mc_host m) k (init_join m opts p pr err w k)"
proof -
  have "is_ipv6 (cfg_network (fresh_config p (ap_config (pr_app pr))))"
    using fresh_network [OF assms(2)] by (simp add: fresh_config_def)
  then show ?thesis
    unfolding init_join_def Let_def using assms
    by (auto intro!: passes_if_exists passes_join_config split: sum.split dest: read_config_network [OF pton [unfolded pton_sized_def]])
qed

lemma passes_init_again:
  assumes pton: "pton_sized m" and "fresh (mc_host m) pr"
  shows "passes (mc_host m) k (init_again m opts p pr err w k)"
proof (cases "read_config m p w")
  case (Inr config)
  note network = read_config_network [OF pton [unfolded pton_sized_def] Inr]
  have "passes (mc_host m) k (if co_status opts \<or> co_invite opts then k (set_config pr c) err v
      else load_node m (\<lambda>w. w) (set_config pr c) err v k)" if "cfg_network c = cfg_network config" for c v
    using fresh_config_set [OF assms(2), of c] that network
    by (auto intro: passes_continue passes_load_node)
  then show ?thesis by (simp add: init_again_def Inr passes_options)
qed (simp add: init_again_def)

lemma passes_init_first:
  assumes pton: "pton_sized m" and "fresh (mc_host m) pr" "bounded_rng (mc_random m)"
  shows "passes (mc_host m) k (init_first m opts p pr err w k)"
proof -
  have step: "passes (mc_host m) k (load_node m saved (set_config pr c) e v k)" if "is_ipv6 (cfg_network c)" for c saved e v
    using fresh_config_set [OF assms(2) that] by (auto intro: passes_load_node)
  show ?thesis
    unfolding init_first_def Let_def
    by (auto split: prod.split bool.split option.split simp: fresh_config_def
        intro!: passes_options step ula_prefix_is_ipv6 [OF assms(3)])
qed

lemma passes_init_start:
  assumes pton: "pton_sized m" and "fresh (mc_host m) pr" "bounded_rng (mc_random m)"
  shows "passes (mc_host m) k (init_start m opts p pr err w k)"
  unfolding init_start_def
  using passes_init_again [OF assms(1,2)] passes_init_first [OF assms] by (auto intro!: passes_if_exists)

section \<open>The command line\<close>

text \<open>A node joins only with an invitation that was decoded.\<close>

lemma parse_options_keeps:
  "parse_options o1 args err = Cli_Options o2 \<Longrightarrow> co_ticket o2 = co_ticket o1 \<and> co_join o2 = co_join o1"
  by (induction o1 args err rule: parse_options.induct)
    (auto split: if_splits option.splits)

lemma parse_command_line_ticket:
  assumes "parse_command_line pton4 pton6 args err = Cli_Options opts"
  shows "is_ipv6 (it_network (co_ticket opts))"
proof -
  have "parse_options o1 rest err = Cli_Options opts \<Longrightarrow> is_ipv6 (it_network (co_ticket o1)) \<Longrightarrow> ?thesis" for o1 rest
    using parse_options_keeps by metis
  moreover have "invite_decode pton4 pton6 token err = Inr ticket \<Longrightarrow> is_ipv6 (it_network ticket)" for token ticket
    using decode_result by (metis ticket_sized_def)
  ultimately show ?thesis
    using assms
    by (auto simp: parse_command_line_def no_options_def empty_ticket_def split: if_splits list.splits sum.splits)
qed

lemma process_for_ticket: "is_ipv6 (it_network (pr_join_invite pr)) \<Longrightarrow> is_ipv6 (it_network (co_ticket opts)) \<Longrightarrow>
    is_ipv6 (it_network (pr_join_invite (process_for opts pr)))"
  by (simp add: process_for_def)

section \<open>The tables\<close>

lemma kademlia_insert_local_id: "kt_local_id (snd (kademlia_insert t c ping)) = kt_local_id t"
  by (simp add: kademlia_insert_def Let_def set_bucket_def split: prod.split)

definition contacts_known :: "(byte list \<Rightarrow> byte list option) \<Rightarrow> ipv6 \<Rightarrow> kademlia_table \<Rightarrow> bool" where
  "contacts_known sha256 network t \<longleftrightarrow>
     known_table t \<and> (\<forall>c\<in>set (all_contacts t).
        bound_identity sha256 c \<and> nc_virtual_address c = virtual_address network (nc_id c))"

lemma known_peers_ok:
  assumes "contacts_known sha256 (cfg_network config) t" "is_ipv6 (cfg_network config)"
    and "list_all (trusted_peer_ok pton4 pton6 sha256) ps"
  shows "contacts_known sha256 (cfg_network config) (known_peers config ps t) \<and>
    kt_local_id (known_peers config ps t) = kt_local_id t"
  using assms(1,3)
proof (induction ps arbitrary: t)
  case Nil
  then show ?case by (simp add: known_peers_def)
next
  case (Cons peer ps)
  let ?c = "peer_contact config peer" and ?n = "cfg_network config"
  let ?t = "snd (kademlia_insert t ?c None)"
  have peer: "is_node_id (tp_id peer)" "length (tp_public_key peer) = 32" "valid_identity_binding sha256 peer"
    "length (tp_endpoint peer) \<le> 255"
    using Cons.prems(2)
    by (simp_all add: trusted_peer_ok_def valid_endpoint_def maximum_endpoint_size_def)
  have c: "contact_ok ?c" "bound_identity sha256 ?c" "nc_virtual_address ?c = virtual_address ?n (nc_id ?c)"
    using peer assms(2)
    by (auto simp: peer_contact_def contact_ok_def virtual_address_def bound_identity_def valid_identity_binding_def
        split: option.splits)
  have id: "is_node_id (nc_id ?c)" using c(1) by (simp add: contact_ok_def)
  have inv: "kademlia_inv t" using Cons.prems(1) by (simp add: contacts_known_def known_table_def)
  have "bound_identity sha256 d \<and> nc_virtual_address d = virtual_address ?n (nc_id d)"
    if "d \<in> set (all_contacts ?t)" for d
    using insert_sources [OF inv id that] Cons.prems(1) c by (auto simp: contacts_known_def bound_identity_def)
  then have "contacts_known sha256 ?n ?t"
    using Cons.prems(1) c(1) by (simp add: contacts_known_def known_table_insert)
  from Cons.IH [OF this] Cons.prems(2) show ?case
    by (simp add: known_peers_def kademlia_insert_local_id)
qed

text \<open>The state that \<open>app_init\<close> leaves: a node that has not started, but for the address of its network.\<close>

definition set_up :: "('w, 'k, 's) host \<Rightarrow> 'k app_state \<Rightarrow> bool" where
  "set_up host app \<longleftrightarrow>
     ap_topology app = \<lparr>peers = []\<rparr> \<and> ap_routing_table app = \<lparr>routes = []\<rparr> \<and> ap_route_advertisements app = [] \<and>
     ap_sessions app = [] \<and> contacts_ok host app \<and> table_sorted (tr_peers (ap_trust app)) \<and>
     is_ipv6 (cfg_network (ap_config app)) \<and> \<not> vn_is_up (ap_vnet app)"

lemma init_tables_ok:
  assumes "fresh host pr" "app = pr_app pr" "tr_peers trust = tr_peers (ap_trust app)"
  shows "set_up host (init_tables (app\<lparr>ap_trust := trust\<rparr>))"
proof -
  let ?nid = "id_id (ap_identity app)" and ?n = "cfg_network (ap_config app)"
  let ?t = "kademlia_clear ((ap_kademlia app)\<lparr>kt_local_id := ?nid\<rparr>)"
  have "all_contacts ?t = []" by (simp add: all_contacts_def kademlia_clear_def)
  moreover have "kademlia_inv ?t" using assms by (intro kademlia_inv_clear) (simp_all add: fresh_def Let_def)
  ultimately have "contacts_known (h_digest host) ?n ?t" by (simp add: contacts_known_def known_table_def)
  from known_peers_ok [OF this, of "h_pton4 host" "h_pton6 host" "tr_peers trust"]
  show ?thesis
    using assms
    by (simp add: set_up_def init_tables_def kademlia_init_def topology_init_def routing_init_def contacts_ok_def
        contacts_known_def fresh_def Let_def kademlia_clear_def)
qed

text \<open>The addresses of the node and of its peers are distinct.\<close>

lemma addresses_distinct:
  assumes "table_sorted (tr_peers state)"
    and "list_all (\<lambda>peer. trust_address_available state network local_id (tp_id peer)) (tr_peers state)"
  shows "distinct (map (virtual_address network) (local_id # map tp_id (tr_peers state)))"
proof -
  let ?ps = "tr_peers state"
  have "distinct (map tp_id ?ps)" using assms(1) by (simp add: strict_sorted_iff)
  moreover have "inj_on (virtual_address network \<circ> tp_id) (set ?ps)"
    using assms by (auto simp: inj_on_def list_all_iff trust_address_available_def Let_def strict_sorted_iff distinct_map
        split: if_splits)
  ultimately have "distinct (map (virtual_address network \<circ> tp_id) ?ps)" by (simp add: distinct_map)
  moreover have "virtual_address network local_id \<notin> (virtual_address network \<circ> tp_id) ` set ?ps"
    using assms(2) by (auto simp: list_all_iff trust_address_available_def Let_def split: if_splits)
  ultimately show ?thesis by simp
qed

section \<open>What a successful \<open>app_init\<close> has set up\<close>

lemma new_process_fresh: "fresh host new_process"
  by (simp add: fresh_def Let_def new_process_def new_app_def empty_kademlia_table_def default_config_def)

definition init_options :: "('w, 'k, 's) machine \<Rightarrow> string list \<Rightarrow> string option \<Rightarrow> cli_options \<Rightarrow> bool" where
  "init_options m args err opts \<longleftrightarrow>
     parse_command_line (h_pton4 (mc_host m)) (h_pton6 (mc_host m)) args err = Cli_Options opts"

lemma init_finish_ready:
  assumes "init_finish m opts p pr0 err0 w0 = Some (Init_Ready pr err, w)" "fresh (mc_host m) pr0"
  shows "set_up (mc_host m) (pr_app pr) \<and> \<not> sv_is_listening (pr_server pr) \<and> pr_state pr = CREATED \<and> pr_running pr \<and>
    (\<not> co_status opts \<and> \<not> co_invite opts \<longrightarrow>
       distinct (map (virtual_address (cfg_network (ap_config (pr_app pr))))
         (id_id (ap_identity (pr_app pr)) # map tp_id (tr_peers (ap_trust (pr_app pr))))))"
proof -
  let ?app = "pr_app pr0" and ?serving = "\<not> co_status opts \<and> \<not> co_invite opts"
  let ?trust = "if co_invite opts then (ap_trust ?app)\<lparr>tr_directory := trust_directory (cfg_identity_file (ap_config ?app))\<rparr>
                else ap_trust ?app"
  have available: "?serving \<longrightarrow> list_all (\<lambda>peer. trust_address_available (ap_trust ?app) (cfg_network (ap_config ?app))
      (id_id (ap_identity ?app)) (tp_id peer)) (tr_peers (ap_trust ?app))"
    and pr: "pr = pr0\<lparr>pr_app := init_tables (?app\<lparr>ap_trust := ?trust\<rparr>), pr_state := CREATED,
        pr_status_mode := co_status opts, pr_check_only := co_check opts, pr_config_path := p, pr_running := True\<rparr>"
    using assms(1) by (auto simp: init_finish_def init_fail_def Let_def split: if_splits prod.splits)
  have "set_up (mc_host m) (init_tables (?app\<lparr>ap_trust := ?trust\<rparr>))"
    by (rule init_tables_ok [OF assms(2) refl]) simp
  moreover have "distinct (map (virtual_address (cfg_network (ap_config ?app)))
      (id_id (ap_identity ?app) # map tp_id (tr_peers (ap_trust ?app))))" if ?serving
    using available that assms(2)
    by (intro addresses_distinct) (simp_all add: fresh_def Let_def)
  moreover have "\<not> sv_is_listening (pr_server pr0)" using assms(2) by (simp add: fresh_def)
  ultimately show ?thesis unfolding pr by (simp add: init_tables_def)
qed

lemma config_file_at_ready:
  "config_file_at m opts w k = Some (Init_Ready pr e, v) \<Longrightarrow> \<exists>p. k p = Some (Init_Ready pr e, v)"
  by (auto simp: config_file_at_def if_exists_def split: if_split_asm sum.splits)

lemma app_init_ready:
  fixes m :: "('w, 'k, 's) machine"
  assumes laws: "pton_sized m" "bounded_rng (mc_random m)"
    and run: "app_init m args new_process err0 w0 = Some (Init_Ready pr err, w)"
  obtains opts p pr0 err1 w1 where "init_options m args err0 opts" "fresh (mc_host m) pr0"
    "init_finish m opts p pr0 err1 w1 = Some (Init_Ready pr err, w)"
proof -
  obtain opts where opts: "parse_command_line (h_pton4 (mc_host m)) (h_pton6 (mc_host m)) args err0 = Cli_Options opts"
    using run by (auto simp: app_init_def init_fail_def split: cli_result.splits)
  let ?pr = "process_for opts new_process :: 'k process"
  note unfolded = run [unfolded app_init_def opts cli_result.case Let_def]
  have ticket: "is_ipv6 (it_network (pr_join_invite ?pr))"
    by (rule process_for_ticket [OF _ parse_command_line_ticket [OF opts]])
      (simp add: new_process_def empty_ticket_def)
  have fresh: "fresh (mc_host m) ?pr" using new_process_fresh by (simp add: fresh_def Let_def)
  from config_file_at_ready [OF unfolded] obtain p where body: "(case (if co_status opts \<or> co_invite opts then (True, err0, w0)
        else lifecycle_install_signals m err0 w0) of (installed, err1, w1) \<Rightarrow>
      if \<not> installed then init_fail ?pr err1 w1
      else if pr_join_mode ?pr then init_join m opts p ?pr err1 w1 (init_finish m opts p)
      else init_start m opts p ?pr err1 w1 (init_finish m opts p)) = Some (Init_Ready pr err, w)"
    by blast
  have "passes (mc_host m) (init_finish m opts p) (Some (Init_Ready pr err, w))"
    unfolding body [symmetric]
    using passes_init_join [OF laws(1) fresh ticket] passes_init_start [OF laws(1) fresh laws(2)]
    by (simp split: prod.split)
  then show thesis using that opts by (auto simp: passes_def init_options_def)
qed

section \<open>The start of the network\<close>

lemma bump_keeps_id:
  "identity_bump_generation fs ks i err w = (ok, i', err', w') \<Longrightarrow> id_id i' = id_id i"
  unfolding identity_bump_generation_def Let_def by (auto split: option.splits if_splits sum.splits prod.splits bool.splits)

lemma vnet_init_address:
  "vnet_init ts os vnet0 config nid err w = (ok, vnet, err', w') \<Longrightarrow>
     vn_address vnet = virtual_address (cfg_network config) nid \<and> vn_is_up vnet = ok"
  by (auto simp: vnet_init_def vnet_shutdown_def Let_def split: prod.splits bool.splits if_splits)

lemma vnet_shutdown_down: "\<not> vn_is_up (fst (vnet_shutdown os vnet w))"
  by (simp add: vnet_shutdown_def split_beta)

lemma server_close_result: "\<not> sv_is_listening (fst (transport_server_close os lib server w))"
  by (simp add: transport_server_close_def Let_def split_beta)

lemma close_server_result:
  "\<not> sv_is_listening (pr_server (fst (close_server m pr w)))" "pr_app (fst (close_server m pr w)) = pr_app pr"
  using server_close_result [of "h_os (mc_host m)" "h_lib (mc_host m)" "pr_server pr" w]
  by (simp_all add: close_server_def split_beta)

lemma stop_network_result:
  "\<not> vn_is_up (ap_vnet (pr_app (fst (stop_network m pr w))))" "pr_server (fst (stop_network m pr w)) = pr_server pr"
  using vnet_shutdown_down [of "h_os (mc_host m)" "ap_vnet (pr_app pr)" w]
  by (simp_all add: stop_network_def split_beta)

lemma give_up_result:
  assumes "give_up m network pr err w = (ok, pr', err', w')" "network \<or> \<not> vn_is_up (ap_vnet (pr_app pr))"
  shows "\<not> ok \<and> \<not> sv_is_listening (pr_server pr') \<and> \<not> vn_is_up (ap_vnet (pr_app pr'))"
proof -
  obtain pr1 w1 where c: "close_server m pr w = (pr1, w1)" by fastforce
  obtain pr2 w2 where s: "stop_network m pr1 w1 = (pr2, w2)" by fastforce
  show ?thesis
    using assms close_server_result [of m pr w] stop_network_result [of m pr1 w1]
    by (cases network) (auto simp: give_up_def c s)
qed

lemma start_listening_result:
  assumes "start_listening m pr err w = (ok, pr', err', w')"
  shows "if ok
    then sv_is_listening (pr_server pr') \<and> (\<exists>c. pr_app pr' = (pr_app pr)\<lparr>ap_local_contact := c\<rparr>) \<and>
      pr_join_invite pr' = pr_join_invite pr
    else \<not> sv_is_listening (pr_server pr') \<and> \<not> vn_is_up (ap_vnet (pr_app pr'))"
proof -
  obtain started server err1 w1
    where s: "transport_server_start (h_os (mc_host m)) (pr_server pr) err w = (started, server, err1, w1)"
    by (metis prod_cases4)
  have give_up: "\<not> ok \<and> \<not> sv_is_listening (pr_server pr') \<and> \<not> vn_is_up (ap_vnet (pr_app pr'))"
    if "give_up m True pr1 e v = (ok, pr', err', w')" for pr1 e v
    using give_up_result [OF that] by simp
  show ?thesis
  proof (cases started)
    case False
    then show ?thesis using assms give_up [of "pr\<lparr>pr_server := server\<rparr>" err1 w1] by (simp add: start_listening_def s)
  next
    case True
    then have "sv_is_listening server"
      using s by (auto simp: transport_server_start_def Let_def split: if_splits prod.splits sum.splits)
    then show ?thesis
      using assms True give_up
      by (cases "extract_public_key (mc_host m) (ap_identity (pr_app pr))")
        (auto simp: start_listening_def s Let_def split: prod.splits)
  qed
qed

lemma start_runtime_result:
  assumes run: "start_runtime m pr err w = (ok, pr', err', w')"
    and before: "set_up (mc_host m) (pr_app pr)" "\<not> sv_is_listening (pr_server pr)"
  shows "if ok
    then node_start (mc_host m) (pr_app pr', w') \<and> sv_is_listening (pr_server pr') \<and> vn_is_up (ap_vnet (pr_app pr')) \<and>
      ap_config (pr_app pr') = ap_config (pr_app pr) \<and> pr_join_invite pr' = pr_join_invite pr
    else \<not> sv_is_listening (pr_server pr') \<and> \<not> vn_is_up (ap_vnet (pr_app pr'))"
proof -
  let ?host = "mc_host m" and ?app = "pr_app pr"
  let ?config = "ap_config ?app"
  have down: "\<not> vn_is_up (ap_vnet ?app)" using before(1) by (simp add: set_up_def)
  obtain initialised server err1 w1
    where tls: "transport_server_init_tls (h_os ?host) (h_lib ?host) (pr_server pr) (tls_config_for ?app)
      (cfg_listen_port ?config) (cfg_listen_address ?config) None err w = (initialised, server, err1, w1)"
    by (metis prod_cases4)
  have closed: "\<not> sv_is_listening server"
    using tls server_close_result [of "h_os ?host" "h_lib ?host" "pr_server pr" w]
    by (auto simp: transport_server_init_tls_def split: prod.splits bool.splits)
  obtain bumped ident err2 w2
    where bump: "identity_bump_generation (h_fs ?host) (mc_keys m) (ap_identity ?app) err1 w1 = (bumped, ident, err2, w2)"
    by (metis prod_cases4)
  obtain up vnet err3 w3
    where vnet: "vnet_init (mc_tun m) (h_os ?host) (ap_vnet ?app) ?config (id_id ident) err2 w2 = (up, vnet, err3, w3)"
    by (metis prod_cases4)
  note address = vnet_init_address [OF vnet]
  let ?pr1 = "pr\<lparr>pr_server := server\<rparr>"
  let ?pr2 = "?pr1\<lparr>pr_app := ?app\<lparr>ap_identity := ident, ap_vnet := vnet\<rparr>\<rparr>"
  note unfolded = run [unfolded start_runtime_def Let_def tls prod.case bump vnet]
  have gave_up: ?thesis if "give_up m False pr1 e v = (ok, pr', err', w')" "\<not> vn_is_up (ap_vnet (pr_app pr1))" for pr1 e v
    using give_up_result [OF that(1)] that(2) by simp
  consider (large) "(ok, pr') = (False, pr)" | (tls_failed) "(ok, pr') = (False, ?pr1)"
    | (failed) pr1 e v where "give_up m False pr1 e v = (ok, pr', err', w')" "\<not> vn_is_up (ap_vnet (pr_app pr1))"
    | (last) "start_listening m ?pr2 err3 w3 = (ok, pr', err', w')" "up"
    using unfolded down address by (auto split: if_splits bool.splits sum.splits)
  then show ?thesis
  proof cases
    case large
    then show ?thesis using before(2) down by simp
  next
    case tls_failed
    then show ?thesis using closed down by simp
  next
    case failed
    then show ?thesis by (rule gave_up)
  next
    case last
    note result = start_listening_result [OF last(1)]
    show ?thesis
    proof (cases ok)
      case True
      then obtain c where app: "pr_app pr' = ?app\<lparr>ap_identity := ident, ap_vnet := vnet, ap_local_contact := c\<rparr>"
        using result by auto
      have "id_id ident = id_id (ap_identity ?app)" using bump_keeps_id [OF bump] .
      then show ?thesis
        using True result before(1) address last(2)
        by (simp add: app node_start_def set_up_def contacts_ok_def)
    qed (use result in simp)
  qed
qed

section \<open>Property\<close>

text \<open>
  C5. A node that has started is sound from then on. When the program has set itself up and its network starts, then
  the server listens, the network is up, the virtual addresses of the node and of its trusted peers are distinct (in
  the modes that serve), and every state that the rounds of its workers lead to satisfies the invariant of the node; when
  the network does not start, no server listens and no network is up. The hypotheses are that \<open>inet_pton\<close> gives 16 bytes
  and that \<open>getrandom\<close> gives no more than asked for.
\<close>

theorem started_node_is_sound:
  assumes laws: "pton_sized m" "bounded_rng (mc_random m)"
    and init: "app_init m args new_process err0 w0 = Some (Init_Ready pr err, w)"
    and run: "start_runtime m pr err w = (ok, pr', err', w')"
  shows "if ok
    then sv_is_listening (pr_server pr') \<and> vn_is_up (ap_vnet (pr_app pr')) \<and>
      (\<exists>opts. init_options m args err0 opts \<and> (\<not> co_status opts \<and> \<not> co_invite opts \<longrightarrow>
         distinct (map (virtual_address (cfg_network (ap_config (pr_app pr))))
           (id_id (ap_identity (pr_app pr)) # map tp_id (tr_peers (ap_trust (pr_app pr))))))) \<and>
      (\<forall>s. (worker_step (mc_host m) (pr_server pr'))\<^sup>*\<^sup>* (pr_app pr', w') s \<longrightarrow> node_ok (mc_host m) (fst s))
    else \<not> sv_is_listening (pr_server pr') \<and> \<not> vn_is_up (ap_vnet (pr_app pr'))"
proof -
  obtain opts p pr0 err1 w1 where opts: "init_options m args err0 opts" and fresh: "fresh (mc_host m) pr0"
    and finish: "init_finish m opts p pr0 err1 w1 = Some (Init_Ready pr err, w)"
    by (rule app_init_ready [OF laws init])
  note ready = init_finish_ready [OF finish fresh]
  note started = start_runtime_result [OF run]
  show ?thesis
  proof (cases ok)
    case True
    then have "node_start (mc_host m) (pr_app pr', w')" using ready started by simp
    then have "node_ok (mc_host m) (pr_app pr')" by (rule node_start_ok)
    then have "\<forall>s. (worker_step (mc_host m) (pr_server pr'))\<^sup>*\<^sup>* (pr_app pr', w') s \<longrightarrow> node_ok (mc_host m) (fst s)"
      using node.run_inv by fastforce
    with True show ?thesis using ready started opts by auto
  qed (use ready started in simp)
qed

section \<open>A sample start\<close>

definition quiet_setup :: "'w tun_setup" where
  "quiet_setup =
     \<lparr>ts_mock = True, ts_open = (\<lambda>w. (- 1, w)), ts_denied = (\<lambda>_. True), ts_set_iff = (\<lambda>_ _ w. (None, w)),
      ts_datagram = (\<lambda>_ w. (- 1, w)), ts_netlink = (\<lambda>w. (- 1, w)), ts_set_mtu = (\<lambda>_ _ _ w. w), ts_name_index = (\<lambda>_ _. 0),
      ts_send_request = (\<lambda>_ _ w. w), ts_receive_answer = (\<lambda>_ w. w), ts_get_flags = (\<lambda>_ _ w. (None, w)),
      ts_set_flags = (\<lambda>_ _ _ w. w), ts_error_text = (\<lambda>_. [])\<rparr>"

definition binding_os :: "fd list os" where
  "binding_os = sample_os\<lparr>os_pton := \<lambda>family _. if family = AF_INET then None else Some (replicate 15 0 @ [1])\<rparr>"

definition sample_machine :: "(fd list, byte, byte) machine" where
  "sample_machine =
     \<lparr>mc_host = sample_host\<lparr>h_os := binding_os\<rparr>, mc_tun = quiet_setup, mc_keys = sample_store,
      mc_random = (\<lambda>n w. (Got (replicate n 7), w)), mc_udp_socket = (\<lambda>w. (INVALID_SOCKET_HANDLE, w)),
      mc_getenv = (\<lambda>_. None), mc_config_file = (\<lambda>_ _. None), mc_resolve = path_join, mc_same_file = (=),
      mc_signal = (\<lambda>_ w. (True, w))\<rparr>"

definition sample_args :: "string list" where
  "sample_args = [''join'', invite_encode (\<lambda>_. None) sample_endpoint_pton6 sample_ticket, ''--listen'', ''[::1]:80'']"

definition joining_options :: cli_options where
  "joining_options = no_options\<lparr>co_join := True, co_token := sample_args ! 1, co_ticket := sample_ticket,
     co_listen := ''[::1]:80''\<rparr>"

lemma sample_options: "parse_command_line (\<lambda>_. None) sample_endpoint_pton6 sample_args err = Cli_Options joining_options"
proof -
  let ?token = "invite_encode (\<lambda>_. None) sample_endpoint_pton6 sample_ticket"
  have ticket: "ticket_sized sample_ticket" "ticket_contents_ok (\<lambda>_. None) sample_endpoint_pton6 sample_ticket"
    "is_ula (it_network sample_ticket)"
    by (simp_all add: ticket_sized_def ticket_contents_ok_def sample_ticket_def sample_endpoint is_ula_def list_all_iff
        zero_node_id_def zero_secret_def MAX_INVITE_LIFETIME_SECONDS_def)
  then have token: "?token = invite_prefix @ base64url_encode (ticket_bytes sample_ticket)"
    by (simp add: invite_encode_def)
  then have "invite_decode (\<lambda>_. None) sample_endpoint_pton6 ?token err = Inr sample_ticket"
    using decode_encoded [OF ticket] by simp
  moreover have "\<not> starts_with ?token ''--''" by (simp add: token starts_with_def invite_prefix_def)
  ultimately show ?thesis
    by (simp add: parse_command_line_def sample_args_def joining_options_def no_options_def has_value_def starts_with_def)
qed

definition joining_process :: "byte process" where
  "joining_process =
     (let app = new_app\<lparr>ap_config := default_config\<lparr>cfg_identity_file := ''.madoka/identity.pem'',
                 cfg_network := 0xfd # replicate 15 0, cfg_listen_address := ''::1'', cfg_listen_port := 80\<rparr>,
               ap_identity := no_identity\<lparr>id_key := Some 7, id_id := replicate 32 8\<rparr>,
               ap_trust := \<lparr>tr_directory = ''.madoka/identity.pem.state'', tr_peers = []\<rparr>\<rparr>
      in (process_for joining_options new_process)\<lparr>pr_app := init_tables app, pr_config_path := ''.madoka/madoka.conf'',
            pr_running := True\<rparr>)"

lemma sample_init: "app_init sample_machine sample_args new_process None w = Some (Init_Ready joining_process None, w)"
proof -
  have host: "h_pton4 (mc_host sample_machine) = (\<lambda>_. None)" "h_pton6 (mc_host sample_machine) = sample_endpoint_pton6"
    "h_fs (mc_host sample_machine) = no_files" "h_lib (mc_host sample_machine) = sample_lib"
    by (simp_all add: sample_machine_def sample_host_def)
  have p: "path_join (default_state_directory (mc_getenv sample_machine)) ''madoka.conf'' = ''.madoka/madoka.conf''"
    by (simp add: sample_machine_def default_state_directory_def path_join_def)
  have signals: "lifecycle_install_signals sample_machine None w = (True, None, w)"
    by (simp add: lifecycle_install_signals_def sample_machine_def)
  have listen: "parse_endpoint (\<lambda>_. None) sample_endpoint_pton6 ''[::1]:80'' = Some (''::1'', 80)"
    by (simp add: sample_endpoint_pton6_def parse_endpoint_def find_char_def c_str_def parse_port_def from_chars_def
        is_digit_def digits_value_def)
  have parent: "path_join (parent_path ''.madoka/madoka.conf'') ''identity.pem'' = ''.madoka/identity.pem''"
    using parent_path_under [of "''madoka.conf''" "''.madoka''"] by (simp add: path_join_def)
  have opts: "co_config joining_options = []" "co_status joining_options = False" "co_invite joining_options = False"
    "co_listen joining_options = ''[::1]:80''" "co_share_ports joining_options = []" "co_join joining_options"
    "co_check joining_options = False" "co_ticket joining_options = sample_ticket"
    by (simp_all add: joining_options_def no_options_def)
  have network: "it_network sample_ticket = 0xfd # replicate 15 0" "(0xfd :: byte) # replicate 15 0 \<noteq> zero_ipv6"
    by (simp_all add: sample_ticket_def zero_ipv6_def replicate_Suc [of 15, simplified])
  have generated: "identity_generate no_files sample_lib sample_store (ap_identity new_app) None w =
      (True, no_identity\<lparr>id_key := Some 7, id_id := replicate 32 8\<rparr>, None, w)"
    by (simp add: identity_generate_def identity_close_def file_lock_release_def new_app_def no_identity_def
        sample_store_def identity_derive_id_def sample_lib_def)
  let ?pr = "process_for joining_options new_process :: byte process"
  let ?config = "default_config\<lparr>cfg_identity_file := ''.madoka/identity.pem'', cfg_network := 0xfd # replicate 15 0,
    cfg_listen_address := ''::1'', cfg_listen_port := 80\<rparr>"
  have pr: "pr_app new_process = new_app" "pr_join_invite ?pr = sample_ticket" "pr_join_mode ?pr"
    by (simp_all add: process_for_def new_process_def opts)
  have config: "fresh_config ''.madoka/madoka.conf'' (ap_config new_app) =
      default_config\<lparr>cfg_identity_file := ''.madoka/identity.pem''\<rparr>"
    by (simp add: fresh_config_def new_app_def parent default_config_def)
  have missing: "fs_exists no_files q v = Inr False" for q and v :: "fd list" by (simp add: no_files_def)
  have keys: "mc_keys sample_machine = sample_store" by (simp add: sample_machine_def)
  have joined: "init_join sample_machine joining_options ''.madoka/madoka.conf'' ?pr None w k =
      k (set_trust (set_identity (set_config ?pr ?config) (no_identity\<lparr>id_key := Some 7, id_id := replicate 32 8\<rparr>))
          \<lparr>tr_directory = ''.madoka/identity.pem.state'', tr_peers = []\<rparr>) None w" for k
    by (simp add: init_join_def Let_def if_exists_def host missing opts join_config_def pr network config with_options_def
        choose_listen_def listen_at_def listen choose_ports_def join_identity_def keys generated trust_directory_def
        no_identity_def)
  have finished: "init_finish sample_machine joining_options ''.madoka/madoka.conf''
      (set_trust (set_identity (set_config ?pr ?config) (no_identity\<lparr>id_key := Some 7, id_id := replicate 32 8\<rparr>))
          \<lparr>tr_directory = ''.madoka/identity.pem.state'', tr_peers = []\<rparr>) None w =
      Some (Init_Ready joining_process None, w)"
    by (simp add: init_finish_def opts pr joining_process_def Let_def)
      (simp add: process_for_def new_process_def set_trust_def set_identity_def set_config_def opts)
  show ?thesis
    by (simp add: app_init_def host sample_options config_file_at_def opts if_exists_def missing p signals pr joined finished)
qed

lemma sample_start_of:
  assumes pr: "pr_app pr = pr_app joining_process" "pr_server pr = pr_server joining_process"
  shows "fst (start_runtime sample_machine pr e [])"
proof -
  let ?host = "sample_host\<lparr>h_os := binding_os\<rparr>" and ?app = "pr_app joining_process"
  have parts: "mc_host sample_machine = ?host" "h_os ?host = binding_os" "h_lib ?host = sample_lib"
    "h_fs ?host = no_files" "mc_tun sample_machine = quiet_setup" "mc_keys sample_machine = sample_store"
    by (simp_all add: sample_machine_def sample_host_def)
  have app: "id_key (ap_identity ?app) = Some 7" "id_id (ap_identity ?app) = replicate 32 8"
    "id_generation (ap_identity ?app) = 1" "id_storage_path (ap_identity ?app) = []"
    "cfg_mtu (ap_config ?app) = 1280" "cfg_listen_port (ap_config ?app) = 80" "cfg_listen_address (ap_config ?app) = ''::1''"
    "vn_is_up (ap_vnet ?app) = False" "vn_tun (ap_vnet ?app) =
      \<lparr>td_handle = -1, td_name = [], td_mtu = 1280, td_is_open = False, td_is_mock = False\<rparr>"
    by (simp_all add: joining_process_def init_tables_def no_identity_def default_config_def new_app_def)
  have server: "sv_listen_socket (pr_server joining_process) = INVALID_SOCKET_HANDLE"
    "sv_is_tls (pr_server joining_process) = False" "cx_native (sv_tls_ctx (pr_server joining_process)) = None"
    by (simp_all add: joining_process_def process_for_def new_process_def)
  define up where "up = (pr_server joining_process)\<lparr>sv_is_listening := False,
    sv_tls_ctx := (sv_tls_ctx (pr_server joining_process))\<lparr>cx_native := Some 1, cx_role := Server, cx_config := tls_config_for ?app\<rparr>,
    sv_is_tls := True, sv_bind_address := ''::1'', sv_port := 80, sv_peer_validator := None\<rparr>"
  have tls: "transport_server_init_tls binding_os sample_lib (pr_server joining_process) (tls_config_for ?app) 80 ''::1''
      None e [] = (True, up, e, [])"
    by (simp add: transport_server_init_tls_def transport_server_close_def socket_close_def socket_is_valid_def server
        tls_context_init_def tls_context_destroy_def enforce_tls13_def make_self_signed_certificate_def
        configure_certificate_def sample_lib_def tls_config_for_def app up_def Let_def)
  have matches: "tls_context_matches_identity sample_lib (sv_tls_ctx up) (replicate 32 8) [] = Inr ()"
    by (simp add: tls_context_matches_identity_def up_def sample_lib_def sample_certificate_def)
  have bump: "identity_bump_generation no_files sample_store (ap_identity ?app) e [] =
      (True, (ap_identity ?app)\<lparr>id_generation := 2\<rparr>, e, [])"
    by (simp add: identity_bump_generation_def app)
  define vnet where "vnet config nid = (ap_vnet ?app)\<lparr>vn_address := virtual_address (cfg_network config) nid,
      vn_mtu := cfg_mtu config, vn_packets_received := 0, vn_packets_transmitted := 0,
      vn_tun := \<lparr>td_handle = -1, td_name = cfg_interface_name config, td_mtu = cfg_mtu config, td_is_open = True,
        td_is_mock = True\<rparr>, vn_is_up := True\<rparr>" for config :: config and nid
  have vnet: "vnet_init quiet_setup binding_os (ap_vnet ?app) config nid e [] = (True, vnet config nid, e, [])"
    for config nid
    by (simp add: vnet_init_def vnet_shutdown_def app tun_open_def tun_close_def quiet_setup_def vnet_def)
  have started: "transport_server_start binding_os up e [] =
      (True, up\<lparr>sv_listen_socket := 3, sv_is_listening := True\<rparr>, e, [3])"
    by (simp add: transport_server_start_def up_def server socket_close_def socket_is_valid_def INVALID_SOCKET_HANDLE_def
        socket_is_ipv4_address_def socket_create_tcp_def socket_set_reuse_addr_def socket_set_ipv6_only_def
        socket_bind_def socket_listen_def binding_os_def sample_os_def)
  have key: "extract_public_key ?host ((ap_identity ?app)\<lparr>id_generation := 2\<rparr>) = Some (replicate 32 7)"
    by (simp add: extract_public_key_def app sample_host_def sample_lib_def)
  have size: "\<not> MAX_PAYLOAD_SIZE - DATA_PACKET_HEADER_SIZE < 1280" by (simp add: frame_sizes DATA_PACKET_HEADER_SIZE_def)
  have listening: "fst (start_listening sample_machine q e [])"
    if "pr_server q = up" "ap_identity (pr_app q) = (ap_identity ?app)\<lparr>id_generation := 2\<rparr>" for q
    using key by (simp add: start_listening_def parts that started Let_def split_beta)
  let ?pr1 = "pr\<lparr>pr_server := up\<rparr>" and ?ident = "(ap_identity ?app)\<lparr>id_generation := 2\<rparr>"
  let ?vnet = "vnet (ap_config ?app) (replicate 32 8)"
  have "start_runtime sample_machine pr e [] =
      start_listening sample_machine (?pr1\<lparr>pr_app := ?app\<lparr>ap_identity := ?ident, ap_vnet := ?vnet\<rparr>\<rparr>) e []"
    using size by (simp only: start_runtime_def Let_def parts pr app tls matches bump vnet prod.case bool.case sum.case if_False
        not_True_eq_False identity.simps process.simps) (simp add: app)
  then show ?thesis by (simp only:) (rule listening; simp)
qed

lemma sample_start: "fst (start_runtime sample_machine joining_process None [])"
  by (rule sample_start_of) simp_all

lemma sample_laws: "pton_sized sample_machine" "bounded_rng (mc_random sample_machine)"
  by (auto simp: pton_sized_def bounded_rng_def sample_machine_def sample_host_def sample_endpoint_pton6_def split: if_splits)

lemma started_node_is_sound_witness:
  "case start_runtime sample_machine joining_process None [] of (ok, pr, _, w) \<Rightarrow>
     ok \<and> sv_is_listening (pr_server pr) \<and> vn_is_up (ap_vnet (pr_app pr)) \<and> node_ok (mc_host sample_machine) (pr_app pr)"
proof -
  obtain ok pr err w where run: "start_runtime sample_machine joining_process None [] = (ok, pr, err, w)"
    by (metis prod_cases4)
  have ok using sample_start run by simp
  with started_node_is_sound [OF sample_laws sample_init run] run show ?thesis by fastforce
qed

section \<open>The end\<close>

lemma transport_close_shuts: "\<not> ss_is_open (fst (transport_close os lib s w))"
  by (simp add: transport_close_def Let_def split_beta)

lemma close_session_closes:
  assumes "close_session host app (Some r) w = (app', w')"
  shows "\<not> ss_is_open (as_transport (ap_store app' r))" "r' \<noteq> r \<Longrightarrow> ap_store app' r' = ap_store app r'"
  using assms transport_close_shuts [of "h_os host" "h_lib host" "as_transport (ap_store app r)" w]
  by (auto simp: close_session_def set_session_def split: prod.splits)

lemma close_sessions_close:
  assumes "close_sessions host rs app w = (app', w')"
    and "r \<in> set rs \<or> \<not> ss_is_open (as_transport (ap_store app r))"
  shows "\<not> ss_is_open (as_transport (ap_store app' r))"
  using assms
proof (induction rs arbitrary: app w)
  case (Cons q rs)
  obtain app1 w1 where q: "close_session host app (Some q) w = (app1, w1)" by fastforce
  note step = close_session_closes [OF q]
  have "r \<in> set rs \<or> \<not> ss_is_open (as_transport (ap_store app1 r))"
    using Cons.prems(2) step(1) step(2) [of r] by (cases "r = q") auto
  then show ?case using Cons.IH Cons.prems(1) q by simp
qed simp

lemma app_shutdown_result:
  "case app_shutdown m pr w of (pr', w') \<Rightarrow>
     \<not> pr_running pr' \<and> \<not> sv_is_listening (pr_server pr') \<and> ap_sessions (pr_app pr') = [] \<and>
     list_all (\<lambda>r. \<not> ss_is_open (as_transport (ap_store (pr_app pr') r))) (ap_sessions (pr_app pr)) \<and>
     \<not> vn_is_up (ap_vnet (pr_app pr')) \<and> id_key (ap_identity (pr_app pr')) = None \<and>
     id_lock_handle (ap_identity (pr_app pr')) = None"
proof -
  let ?host = "mc_host m"
  obtain pr1 w1 where server: "close_server m (pr\<lparr>pr_running := False\<rparr>) w = (pr1, w1)" by fastforce
  obtain app w2 where sessions: "close_sessions ?host (ap_sessions (pr_app pr1)) (pr_app pr1) w1 = (app, w2)" by fastforce
  obtain pr2 w3 where network: "stop_network m (pr1\<lparr>pr_app := app\<lparr>ap_sessions := []\<rparr>\<rparr>) w2 = (pr2, w3)" by fastforce
  have pr1: "pr_app pr1 = pr_app pr" "\<not> sv_is_listening (pr_server pr1)" "\<not> pr_running pr1"
    using close_server_result [of m "pr\<lparr>pr_running := False\<rparr>" w] server by (auto simp: close_server_def split: prod.splits)
  have pr2: "pr_server pr2 = pr_server pr1" "\<not> vn_is_up (ap_vnet (pr_app pr2))" "ap_sessions (pr_app pr2) = []"
    "ap_store (pr_app pr2) = ap_store app" "\<not> pr_running pr2"
    using stop_network_result [of m "pr1\<lparr>pr_app := app\<lparr>ap_sessions := []\<rparr>\<rparr>" w2] network pr1
    by (auto simp: stop_network_def split: prod.splits)
  have "list_all (\<lambda>r. \<not> ss_is_open (as_transport (ap_store app r))) (ap_sessions (pr_app pr))"
    using close_sessions_close [OF sessions] pr1(1) by (simp add: list_all_iff)
  then show ?thesis
    using pr1 pr2
    by (simp add: app_shutdown_def Let_def server sessions [unfolded pr1(1)] network identity_close_def file_lock_release_def
        split: prod.split option.split)
qed


end
