(* ===== verification/Service.thy ===== *)
theory Service
  imports Bootstrap Start
begin

text \<open>
  What a run of the program leads to: \<open>daemon_run\<close> and \<open>run_join\<close> on a process that \<open>app_init\<close> has made ready. A node that
  serves listens, is \<open>ACTIVE\<close>, satisfies the invariant of \<open>Node_Invariant\<close> from then on, and trusts its inviter when it
  has joined; a run that ends leaves nothing open. The lemmas follow the run: the answer of the inviter, what is kept on
  the disk, the lookup and the announcements each keep the invariant and the trust.
\<close>

section \<open>The process before and after\<close>

definition ready :: "('w, 'k, 's) machine \<Rightarrow> 'k process \<Rightarrow> bool" where
  "ready m pr \<longleftrightarrow> set_up (mc_host m) (pr_app pr) \<and> \<not> sv_is_listening (pr_server pr)"

lemma app_init_gives_ready:
  assumes "pton_sized m" "bounded_rng (mc_random m)" "app_init m args new_process err0 w0 = Some (Init_Ready pr err, w)"
  shows "ready m pr"
proof -
  obtain opts p pr0 err1 w1 where "fresh (mc_host m) pr0" "init_finish m opts p pr0 err1 w1 = Some (Init_Ready pr err, w)"
    by (rule app_init_ready [OF assms])
  then show ?thesis using init_finish_ready by (fastforce simp: ready_def)
qed

text \<open>A run that has ended with nothing open.\<close>

definition ended_clean :: "'k run_end \<Rightarrow> bool" where
  "ended_clean res \<longleftrightarrow> (\<exists>pr. res = Ended 1 pr \<and> \<not> sv_is_listening (pr_server pr) \<and> \<not> vn_is_up (ap_vnet (pr_app pr)) \<and>
     ap_sessions (pr_app pr) = [])"

lemma give_up_run_clean: "give_up_run m pr w = (res, w') \<Longrightarrow> ended_clean res"
  using app_shutdown_result [where m = m and pr = pr and w = w] by (auto simp: give_up_run_def ended_clean_def split: prod.splits)

lemma abandon_join_clean: "abandon_join m r pr w = (res, w') \<Longrightarrow> ended_clean res"
  using give_up_run_clean by (auto simp: abandon_join_def split: prod.splits)

lemma change_state_result:
  "change_state pr s = Some pr' \<Longrightarrow> pr' = pr\<lparr>pr_state := s\<rparr>"
  by (auto simp: change_state_def node_state_transition_def split: sum.splits if_splits)

section \<open>The answer of the inviter\<close>

lemma ask_to_join_keeps:
  assumes run: "ask_to_join host pr public_key r w = Some (answer, app', w')"
  shows "quiet (pr_app pr) app' \<and> (\<forall>sender response. answer = Some (sender, response) \<longrightarrow> join_response_ok response)"
proof -
  obtain now w1 where clock: "now_ms host w = (now, w1)" by fastforce
  let ?app = "pr_app pr"
  let ?request = "\<lparr>jr_node_id = id_id (ap_identity ?app), jr_public_key = public_key,
    jr_virtual_address = nc_virtual_address (ap_local_contact ?app), jr_endpoint = nc_endpoint (ap_local_contact ?app),
    jr_timestamp = now, jr_nonce = 1001, jr_invite_token = pr_join_token pr\<rparr>"
  obtain sent app1 err w2 where send: "send_control host ?app (Some r) CT_JOIN_REQUEST 1 (id_id (ap_identity ?app))
      (serialize_join_request ?request) (Some []) w1 = (sent, app1, err, w2)" by (metis prod_cases4)
  note one = send_control_quiet [OF send]
  note unfolded = run [unfolded ask_to_join_def Let_def clock prod.case send]
  show ?thesis
  proof (cases sent)
    case False
    then show ?thesis using unfolded one by simp
  next
    case True
    then obtain m app2 w3 where received: "receive_control host app1 r 5000 w2 = Some (m, app2, w3)"
      using unfolded by (auto split: option.splits)
    have "app' = app2" using unfolded True received by (auto split: option.splits)
    then have "quiet ?app app'" using quiet_trans [OF one receive_control_quiet [OF received]] by simp
    moreover have "join_response_ok response" if "answer = Some (sender, response)" for sender response
      using unfolded True received that join_response_decoded by (auto split: option.splits if_splits sum.splits)
    ultimately show ?thesis by simp
  qed
qed

lemma bootstrap_contact_facts:
  assumes "bootstrap_contact host app t endpoint sender response = Some c"
  shows "nc_id c = sender" "ss_peer_node_id t = Some sender" "nc_endpoint c = endpoint"
    "nc_public_key c = ts_peer_pubkey (ss_tls t)" "valid_node_contact host (ap_config app) c"
    "list_all (valid_node_contact host (ap_config app)) (js_peers response)"
  using assms
  by (cases "js_bootstrap_contact response"; auto simp: bootstrap_contact_def Let_def split: if_splits; fail)+

text \<open>The contact that the table takes from the answer is the one that was checked.\<close>

lemma actual_boot_checked:
  assumes "bootstrap_contact host app t endpoint sender response = Some c" "join_response_ok response"
    and "nc_id (actual_boot response c) \<noteq> zero_node_id"
  shows "actual_boot response c = c"
proof -
  let ?b = "js_bootstrap_contact response"
  have "nc_id ?b \<noteq> zero_node_id"
    using assms(2,3) by (auto simp: actual_boot_def Let_def join_response_ok_def split: if_splits)
  then show ?thesis
    using assms(1) by (cases ?b) (auto simp: bootstrap_contact_def actual_boot_def Let_def split: if_splits)
qed

text \<open>It is a contact for the table once its endpoint is known to be short and its key to be one.\<close>

lemma bootstrap_contact_ok:
  assumes c: "bootstrap_contact host app t endpoint sender response = Some c"
    and "is_public_key (ts_peer_pubkey (ss_tls t))" "is_ipv6 (cfg_network (ap_config app))"
    and "valid_endpoint pton4 pton6 endpoint"
  shows "contact_ok c"
proof -
  note facts = bootstrap_contact_facts [OF c]
  have "is_node_id (nc_id c)" "nc_virtual_address c = virtual_address (cfg_network (ap_config app)) (nc_id c)"
    using facts(5) by (auto simp: valid_node_contact_def split: option.splits)
  then show ?thesis
    using facts assms(2-4) by (auto simp: contact_ok_def virtual_address_def valid_endpoint_def maximum_endpoint_size_def)
qed

section \<open>What is kept on the disk\<close>

lemma identity_save_keeps_id: "identity_save fs ks i p err w = (ok, i', err', w') \<Longrightarrow> id_id i' = id_id i"
  by (auto simp: identity_save_def Let_def split: option.splits if_splits sum.splits prod.splits bool.splits)

lemma persist_identity_keeps:
  assumes "persist_identity m pr w = (ok, pr', w')"
  shows "\<exists>i. pr' = set_app pr ((pr_app pr)\<lparr>ap_identity := i\<rparr>) \<and> id_id i = id_id (ap_identity (pr_app pr))"
proof -
  have "pr' = set_app pr ((pr_app pr)\<lparr>ap_identity := ap_identity (pr_app pr')\<rparr>) \<and>
      id_id (ap_identity (pr_app pr')) = id_id (ap_identity (pr_app pr))"
    using assms unfolding persist_identity_def Let_def
    by (auto simp: set_app_def dest: identity_save_keeps_id split: if_splits prod.splits bool.splits)
  then show ?thesis by blast
qed

lemma node_ok_identity:
  assumes "node_ok host app" "id_id i = id_id (ap_identity app)"
  shows "node_ok host (app\<lparr>ap_identity := i\<rparr>)"
  using assms
  by (auto simp: node_ok_def neighbors_ok_def routes_ok_def rest_ok_def sessions_ok_def contacts_ok_def
      session_ok_def neighbor_ok_def peer_is_trusted_def session_is_open_def)

text \<open>What a join has made of the process when everything is stored.\<close>

lemma persist_join_keeps:
  assumes run: "persist_join m pr key contact w = (True, pr', w')" and inv: "node_ok (mc_host m) (pr_app pr)"
  shows "node_ok (mc_host m) (pr_app pr')" "peer_is_trusted (pr_app pr') (nc_id contact)"
    "\<exists>app. pr' = set_app pr app \<and> ap_store app = ap_store (pr_app pr) \<and> ap_sessions app = ap_sessions (pr_app pr) \<and>
       ap_config app = ap_config (pr_app pr) \<and> id_id (ap_identity app) = id_id (ap_identity (pr_app pr)) \<and>
       ap_kademlia app = ap_kademlia (pr_app pr)"
    "valid_endpoint (h_pton4 (mc_host m)) (h_pton6 (mc_host m)) (nc_endpoint contact)"
proof -
  let ?host = "mc_host m" and ?app = "pr_app pr"
  obtain kept pr1 w1 where identity: "persist_identity m pr w = (kept, pr1, w1)" by (metis prod_cases3)
  obtain i where i: "pr1 = set_app pr (?app\<lparr>ap_identity := i\<rparr>)" "id_id i = id_id (ap_identity ?app)"
    using persist_identity_keeps [OF identity] by blast
  let ?app1 = "?app\<lparr>ap_identity := i\<rparr>"
  have app1: "pr_app pr1 = ?app1" by (simp add: i(1) set_app_def)
  have one: "node_ok ?host ?app1" by (rule node_ok_identity [OF inv i(2)])
  let ?peer = "\<lparr>tp_id = nc_id contact, tp_public_key = key, tp_endpoint = nc_endpoint contact\<rparr>"
  obtain added t err w2 where add: "trust_add (h_pton4 ?host) (h_pton6 ?host) (h_digest ?host) (h_fs ?host)
      (ap_trust ?app1) ?peer (Some []) w1 = (added, t, err, w2)" by (metis prod_cases4)
  have kept: kept "added" and pr': "pr' = set_app pr1 (?app1\<lparr>ap_trust := t\<rparr>)"
    using run identity add app1 by (auto simp: persist_join_def Let_def split: if_splits bool.splits)
  note added = add [unfolded kept(2) [THEN eqTrueI]]
  have sorted: "table_sorted (tr_peers (ap_trust ?app1))" using inv by (simp add: node_ok_def rest_ok_def)
  note facts = trust_contains_add [OF added sorted]
  have new: "pr_app pr' = ?app1\<lparr>ap_trust := t\<rparr>" by (simp add: pr' set_app_def)
  show "node_ok ?host (pr_app pr')" unfolding new by (rule node_ok_trust [OF one facts(1)]) (simp add: facts(2))
  show "peer_is_trusted (pr_app pr') (nc_id contact)" using facts(2) by (simp add: new peer_is_trusted_def)
  show "\<exists>app. pr' = set_app pr app \<and> ap_store app = ap_store ?app \<and> ap_sessions app = ap_sessions ?app \<and>
      ap_config app = ap_config ?app \<and> id_id (ap_identity app) = id_id (ap_identity ?app) \<and> ap_kademlia app = ap_kademlia ?app"
    by (rule exI [of _ "?app1\<lparr>ap_trust := t\<rparr>"]) (simp add: pr' i set_app_def)
  show "valid_endpoint (h_pton4 ?host) (h_pton6 ?host) (nc_endpoint contact)"
    using trust_add_result(2) [OF added] by simp
qed

section \<open>The lookup and the announcements\<close>

text \<open>The invariant, with the trust of the start.\<close>

definition steady :: "('w, 'k, 's) host \<Rightarrow> trust_state \<Rightarrow> 'k app_state \<Rightarrow> bool" where
  "steady host trust app \<longleftrightarrow> node_ok host app \<and> ap_trust app = trust"

lemma steady_quiet: "quiet app app' \<Longrightarrow> steady host trust app \<Longrightarrow> steady host trust app'"
  using node_ok_quiet quiet_trust by (fastforce simp: steady_def)

lemma steady_learns:
  assumes "steady host trust app" "list_all contact_ok cs" "list_all (good_contact host (cfg_network (ap_config app))) cs"
  shows "steady host trust (app\<lparr>ap_kademlia := insert_contacts (ap_kademlia app) cs\<rparr>)"
proof -
  have inv: "node_ok host app" using assms(1) by (simp add: steady_def)
  then have contacts: "contacts_ok host app" by (simp add: node_ok_def rest_ok_def)
  have "kt_local_id (insert_contacts t cs) = kt_local_id t" for t
    by (induction t cs rule: insert_contacts.induct) (simp_all add: kademlia_insert_local_id)
  then have "node_ok host (app\<lparr>ap_kademlia := insert_contacts (ap_kademlia app) cs\<rparr>)"
    using contacts assms(2,3)
    by (intro node_ok_kademlia [OF inv] known_table_insert_contacts insert_contacts_good) (simp_all add: contacts_ok_iff)
  then show ?thesis using assms(1) by (simp add: steady_def)
qed


lemma ask_contact_keeps:
  assumes run: "ask_contact host new n (app, sequence, w) = Some (app', sequence', w')" and inv: "steady host trust app"
    and new: "\<forall>app. new app \<notin> set (ap_sessions app)"
  shows "steady host trust app'"
proof -
  obtain contacts app1 w1 where asked: "query_peer host app n (kt_local_id (ap_kademlia app)) sequence (new app) w =
      Some (contacts, app1, w1)" and app': "app' = app1\<lparr>ap_kademlia := insert_contacts (ap_kademlia app1) contacts\<rparr>"
    using run by (auto simp: ask_contact_def split: option.splits)
  have "asked host app contacts app1" using query_peer_keeps [OF asked] inv new by (simp add: steady_def)
  then show ?thesis
    unfolding app' using inv by (intro steady_learns) (simp_all add: asked_def steady_def)
qed

lemma ask_contacts_keeps:
  "ask_contacts host new cs s = Some s' \<Longrightarrow> steady host trust (fst s) \<Longrightarrow> \<forall>app. new app \<notin> set (ap_sessions app) \<Longrightarrow>
     steady host trust (fst s')"
proof (induction cs arbitrary: s)
  case (Cons c cs)
  obtain app sequence w where s: "s = (app, sequence, w)" by (metis prod_cases3)
  from Cons.prems(1) obtain app1 sequence1 w1
    where step: "ask_contact host new (nc_id c) (app, sequence, w) = Some (app1, sequence1, w1)"
    by (cases "ask_contact host new (nc_id c) s") (auto simp: s)
  from ask_contact_keeps [OF step _ Cons.prems(3)] have "steady host trust app1" using Cons.prems(2) s by simp
  then show ?case using Cons.IH Cons.prems step s by simp
qed simp

lemma self_lookup_keeps:
  "self_lookup rounds host new queried s = Some s' \<Longrightarrow> steady host trust (fst s) \<Longrightarrow>
     \<forall>app. new app \<notin> set (ap_sessions app) \<Longrightarrow> steady host trust (fst s')"
  by (induction rounds host new queried s rule: self_lookup.induct)
    (auto simp: Let_def split: if_splits option.splits dest: ask_contacts_keeps)

lemma announce_contact_keeps:
  assumes run: "announce_contact host c (app, sequence, w) = Some (app', sequence', w')" and inv: "steady host trust app"
  shows "steady host trust app'"
proof (cases "nc_id c = id_id (ap_identity app) \<or> find_idle_session app (nc_id c) = None")
  case True
  then show ?thesis using run inv by (auto simp: announce_contact_def split: if_splits)
next
  case False
  then obtain r where r: "find_idle_session app (nc_id c) = Some r" by blast
  obtain ok app1 w1 where announced: "announce_to_peer host app r sequence w = Some (ok, app1, w1)"
    using run False r by (auto simp: announce_contact_def split: option.splits)
  have one: "steady host trust app1" by (rule steady_quiet [OF announce_to_peer_quiet [OF announced] inv])
  have "steady host trust a" if "drop_session host app1 r w1 = (a, v)" for a v
    using drop_session_asked [OF that] one by (simp add: steady_def asked_def)
  then show ?thesis
    using run False r announced one by (cases ok) (auto simp: announce_contact_def split: prod.splits)
qed

lemma announce_contacts_keeps:
  "announce_contacts host cs s = Some s' \<Longrightarrow> steady host trust (fst s) \<Longrightarrow> steady host trust (fst s')"
proof (induction cs arbitrary: s)
  case (Cons c cs)
  obtain app sequence w where s: "s = (app, sequence, w)" by (metis prod_cases3)
  from Cons.prems(1) obtain app1 sequence1 w1
    where step: "announce_contact host c (app, sequence, w) = Some (app1, sequence1, w1)"
    by (cases "announce_contact host c s") (auto simp: s)
  from announce_contact_keeps [OF step] have "steady host trust app1" using Cons.prems(2) s by simp
  then show ?case using Cons.IH Cons.prems step s by simp
qed simp

lemma make_known_keeps:
  assumes run: "make_known host new app w = Some (app', w')" and inv: "steady host trust app"
    and new: "\<forall>app. new app \<notin> set (ap_sessions app)"
  shows "steady host trust app'"
proof -
  obtain app1 sequence w1 where lookup: "self_lookup 10 host new [] (app, 2, w) = Some (app1, sequence, w1)"
    using run by (auto simp: make_known_def split: option.splits)
  have "steady host trust app1" using self_lookup_keeps [OF lookup _ new] inv by simp
  then show ?thesis
    using run lookup announce_contacts_keeps by (fastforce simp: make_known_def split: option.splits)
qed

lemma start_workers_keeps: "steady host trust app \<Longrightarrow> steady host trust (fold (\<lambda>r app. start_session_worker app r) rs app)"
  by (induction rs arbitrary: app) (auto intro: steady_quiet start_worker_quiet)

section \<open>Joining\<close>

text \<open>A run that serves, on this server, with a neighbour that is trusted.\<close>

definition serves :: "('w, 'k, 's) host \<Rightarrow> 'k transport_server \<Rightarrow> node_id \<Rightarrow> 'k run_end \<Rightarrow> bool" where
  "serves host server n res \<longleftrightarrow>
     (\<exists>pr. res = Serving pr \<and> pr_state pr = ACTIVE \<and> pr_server pr = server \<and> node_ok host (pr_app pr) \<and>
        peer_is_trusted (pr_app pr) n)"

lemma set_app_fields [simp]:
  "pr_app (set_app pr app) = app" "pr_server (set_app pr app) = pr_server pr" "set_app (set_app pr app) app' = set_app pr app'"
  "pr_bootstrap_endpoint (set_app pr app) = pr_bootstrap_endpoint pr"
  by (simp_all add: set_app_def)

lemma join_response_contacts:
  "snd (handle_join_response t r c) =
     (if js_accepted r
      then insert_contacts t ((if nc_id (actual_boot r c) = zero_node_id then [] else [actual_boot r c]) @ js_peers r)
      else t)"
  by (simp add: handle_join_response_def Let_def)

lemma finish_join_result:
  assumes run: "finish_join loss m new response c pr w = Some (res, w')"
    and inv: "node_ok (mc_host m) (pr_app pr)" "peer_is_trusted (pr_app pr) n"
    and boot: "nc_id (actual_boot response c) \<noteq> zero_node_id \<longrightarrow> actual_boot response c = c"
    and contacts: "list_all contact_ok (c # js_peers response)"
      "list_all (valid_node_contact (mc_host m) (ap_config (pr_app pr))) (c # js_peers response)"
    and new: "\<forall>app. new app \<notin> set (ap_sessions app)"
  shows "serves (mc_host m) (pr_server pr) n res \<or> ended_clean res"
proof -
  let ?host = "mc_host m" and ?app = "pr_app pr"
  let ?trust = "ap_trust ?app" and ?known = "(if nc_id (actual_boot response c) = zero_node_id then [] else [actual_boot response c]) @ js_peers response"
  define app1 where "app1 = ?app\<lparr>ap_kademlia := snd (handle_join_response (ap_kademlia ?app) response c)\<rparr>"
  have start: "steady ?host ?trust ?app" using inv by (simp add: steady_def)
  have "list_all contact_ok ?known" "list_all (good_contact ?host (cfg_network (ap_config ?app))) ?known"
    using contacts boot valid_contact_good [of ?host "ap_config ?app"] by (auto simp: list_all_iff)
  from steady_learns [OF start this] have one: "steady ?host ?trust app1"
    using start by (auto simp: app1_def join_response_contacts)
  obtain app2 w1 where known: "make_known ?host new app1 w = Some (app2, w1)"
    using run by (auto simp: finish_join_def Let_def app1_def split: option.splits)
  note two = start_workers_keeps [OF make_known_keeps [OF known one new]]
  show ?thesis
  proof (cases "change_state (set_app pr app2) ACTIVE")
    case None
    then have "give_up_run m (set_app pr app2) w1 = (res, w')"
      using run known by (simp add: finish_join_def Let_def flip: app1_def)
    then show ?thesis by (auto dest: give_up_run_clean)
  next
    case (Some pr1)
    then have "res = Serving (set_app pr1 (fold (\<lambda>r app. start_session_worker app r) (ap_sessions app2) app2))"
      using run known by (simp add: finish_join_def Let_def flip: app1_def)
    moreover have "pr_state pr1 = ACTIVE" "pr_server pr1 = pr_server pr" using change_state_result [OF Some] by simp_all
    moreover have "pr_state (set_app pr1 a) = pr_state pr1" for a by (simp add: set_app_def)
    ultimately show ?thesis using two inv(2) by (auto simp: serves_def steady_def peer_is_trusted_def)
  qed
qed

text \<open>With an authenticated session to the inviter, whose address was new.\<close>

lemma join_over_session_result:
  assumes run: "join_over_session loss m new public_key r pr w = Some (res, w')"
    and inv: "node_ok (mc_host m) (pr_app pr)" "is_ipv6 (cfg_network (ap_config (pr_app pr)))" "r \<notin> set (ap_sessions (pr_app pr))"
    and session: "ss_peer_node_id (as_transport (ap_store (pr_app pr) r)) = Some n"
      "is_public_key (ts_peer_pubkey (ss_tls (as_transport (ap_store (pr_app pr) r))))"
    and new: "\<forall>app. new app \<notin> set (ap_sessions app)"
  shows "serves (mc_host m) (pr_server pr) n res \<or> ended_clean res"
proof -
  let ?host = "mc_host m"
  obtain answer app1 w1 where ask: "ask_to_join ?host pr public_key r w = Some (answer, app1, w1)"
    using run by (auto simp: join_over_session_def Let_def split: option.splits)
  note quiet = ask_to_join_keeps [OF ask, THEN conjunct1]
  have one: "node_ok ?host app1" by (rule node_ok_quiet [OF quiet inv(1)])
  let ?t = "as_transport (ap_store app1 r)" and ?pr1 = "set_app pr app1"
  have frame: "ss_peer_node_id ?t = Some n" "is_public_key (ts_peer_pubkey (ss_tls ?t))" "r \<notin> set (ap_sessions app1)"
    "is_ipv6 (cfg_network (ap_config app1))"
    using quiet session inv by (auto simp: quiet_def kept_session_def same_link_def)
  note unfolded = run [unfolded join_over_session_def Let_def ask option.case prod.case]
  have clean: ?thesis if "Some (abandon_join m r p v) = Some (res, w')" for p v
    using abandon_join_clean that by (metis option.inject)
  show ?thesis
  proof (cases answer)
    case None
    then show ?thesis using unfolded clean by simp
  next
    case (Some p)
    obtain sender response where p: "p = (sender, response)" by fastforce
    note unfolded1 = unfolded [unfolded Some p option.case prod.case]
    have response: "join_response_ok response" using ask_to_join_keeps [OF ask] Some p by blast
    show ?thesis
    proof (cases "bootstrap_contact ?host app1 ?t (pr_bootstrap_endpoint ?pr1) sender response")
      case None
      then show ?thesis using unfolded1 clean by simp
    next
      case (Some c)
      note facts = bootstrap_contact_facts [OF Some]
      have sender: "sender = n" using facts(2) frame(1) by simp
      obtain ok pr2 w2 where persist: "persist_join m ?pr1 (ts_peer_pubkey (ss_tls ?t)) c w1 = (ok, pr2, w2)"
        by (metis prod_cases3)
      note unfolded2 = unfolded1 [unfolded set_app_fields Some [unfolded set_app_fields] option.case persist prod.case]
      show ?thesis
      proof (cases ok)
        case False
        then show ?thesis using unfolded2 clean by simp
      next
        case True
        have "persist_join m ?pr1 (ts_peer_pubkey (ss_tls ?t)) c w1 = (True, pr2, w2)" using persist True by simp
        note kept = persist_join_keeps [OF this, unfolded set_app_fields, OF one]
        obtain app2 where pr2: "pr2 = set_app pr app2" "ap_store app2 = ap_store app1" "ap_sessions app2 = ap_sessions app1"
          "ap_config app2 = ap_config app1"
          using kept(3) by auto
        let ?s = "(ap_store app2 r)\<lparr>as_trusted := True, as_peer_id := Some (nc_id c), as_contact := c\<rparr>"
        obtain adopted app3 w3
          where adopt: "adopt_session ?host (set_session app2 r ?s) r c w2 = (adopted, app3, w3)" by (metis prod_cases3)
        have s: "session_ok app2 ?s" using frame(1) kept(2) facts(1) sender pr2 by (simp add: session_ok_def)
        have three: "node_ok ?host app3 \<and> ap_trust app3 = ap_trust app2 \<and> (adopted \<longrightarrow> ap_config app3 = ap_config app2)"
          using adopt_session_keeps [OF adopt _ _ s] kept(1) frame(3) pr2 by simp
        note unfolded3 = unfolded2 [unfolded True [THEN eqTrueI] bool.case adopt_bootstrap_def Let_def pr2(1) set_app_fields adopt prod.case]
        show ?thesis
        proof (cases adopted)
          case False
          then show ?thesis using unfolded3 by (auto dest: give_up_run_clean)
        next
          case True
          have c: "contact_ok c" using bootstrap_contact_ok [OF Some frame(2,4)] kept(4) facts(3) by simp
          have trusted: "peer_is_trusted app3 n"
            using kept(2) three facts(1) sender pr2(1) by (simp add: peer_is_trusted_def)
          have config: "ap_config app3 = ap_config app1" using three True pr2(4) by simp
          have "list_all contact_ok (c # js_peers response)"
            using c response by (simp add: join_response_ok_def peers_ok_def)
          moreover have "list_all (valid_node_contact ?host (ap_config app3)) (c # js_peers response)"
            using facts(5,6) by (simp add: config)
          moreover have "nc_id (actual_boot response c) \<noteq> zero_node_id \<longrightarrow> actual_boot response c = c"
            using actual_boot_checked [OF Some response] by blast
          moreover have "finish_join loss m new response c (set_app pr app3) w3 = Some (res, w')"
            using unfolded3 True by simp
          ultimately show ?thesis
            using finish_join_result [of loss m new response c "set_app pr app3" w3 res w' n] three trusted new by simp
        qed
      qed
    qed
  qed
qed

lemma ready_ended: "ready m pr \<Longrightarrow> ended_clean (Ended 1 (pr\<lparr>pr_state := s\<rparr>))" "ready m pr \<Longrightarrow> ended_clean (Ended 1 pr)"
  by (simp_all add: ready_def ended_clean_def set_up_def)

lemma run_join_result:
  assumes run: "run_join loss m new pr w = Some (res, w')" and ready: "ready m pr"
    and new: "\<forall>app. new app \<notin> set (ap_sessions app)"
  shows "(\<exists>server. sv_is_listening server \<and> serves (mc_host m) server (it_inviter_id (pr_join_invite pr)) res) \<or>
    ended_clean res"
proof -
  let ?host = "mc_host m" and ?pr1 = "pr\<lparr>pr_state := DISCOVERING\<rparr>"
  have clean: ?thesis if "Some (give_up_run m p v) = Some (res, w') \<or> Some (abandon_join m r p v) = Some (res, w')" for p v r
    using that by (auto dest: give_up_run_clean abandon_join_clean)
  obtain ok pr2 err w1 where start: "start_runtime m ?pr1 (Some []) w = (ok, pr2, err, w1)" by (metis prod_cases4)
  consider (stopped) "res = Ended 1 pr \<or> res = Ended 1 ?pr1"
    | (failed) p v r where "Some (give_up_run m p v) = Some (res, w') \<or> Some (abandon_join m r p v) = Some (res, w')"
    | (connected) public_key pr3 address port t v e where "ok" "change_state pr2 JOINING_NETWORK = Some pr3"
        "transport_connect_tls (h_os ?host) (h_lib ?host) new_session (tls_config_for (pr_app pr3)) address port
           (Some (it_inviter_id (pr_join_invite pr3))) 5000 (Some []) w1 = (True, t, e, v)"
        "join_over_session loss m new public_key (new (pr_app pr3))
           (set_app pr3 (set_session (pr_app pr3) (new (pr_app pr3)) (new_peer_session\<lparr>as_transport := t\<rparr>))) v =
         Some (res, w')"
    using run start change_state_result [of pr DISCOVERING]
    by (auto simp: run_join_def Let_def split: option.splits if_splits prod.splits bool.splits)
  then show ?thesis
  proof cases
    case stopped
    then show ?thesis using ready_ended [OF ready] by auto
  next
    case failed
    then show ?thesis by (rule clean)
  next
    case connected
    let ?app = "pr_app pr3" and ?n = "it_inviter_id (pr_join_invite pr3)"
    let ?r = "new ?app" and ?s = "new_peer_session\<lparr>as_transport := t\<rparr>"
    have "set_up ?host (pr_app ?pr1)" "\<not> sv_is_listening (pr_server ?pr1)" using ready by (simp_all add: ready_def)
    note started = start_runtime_result [OF start this]
    have pr3: "pr3 = pr2\<lparr>pr_state := JOINING_NETWORK\<rparr>" by (rule change_state_result [OF connected(2)])
    have inv: "node_ok ?host ?app" "is_ipv6 (cfg_network (ap_config ?app))" "sv_is_listening (pr_server pr3)"
      "pr_join_invite pr3 = pr_join_invite pr"
      using started connected(1) node_start_ok ready by (auto simp: pr3 ready_def set_up_def)
    have peer: "ss_peer_node_id t = Some ?n" "is_public_key (ts_peer_pubkey (ss_tls t))"
      using connect_outcome [OF connected(3)] by (auto simp: connect_outcome_def)
    have r: "?r \<notin> set (ap_sessions ?app)" using new by blast
    have "serves ?host (pr_server (set_app pr3 (set_session ?app ?r ?s))) ?n res \<or> ended_clean res"
      using inv(1,2) peer r
      by (intro join_over_session_result [OF connected(4) _ _ _ _ _ new])
        (simp_all add: node_ok_fresh, simp_all add: set_session_def)
    then show ?thesis using inv(3,4) by auto
  qed
qed

section \<open>Property\<close>

text \<open>
  C4. A run serves soundly or leaves nothing open. On a process that has been made ready (as \<open>app_init\<close> does), a run that
  serves listens in the state \<open>ACTIVE\<close>, trusts the inviter of its invitation when it has joined, and satisfies the invariant
  of the node in every state that its workers lead to, whatever the peers answer; any other run that ends has exit code 1,
  does not listen, and has no session and no network. The only hypothesis on the machine is that a new session
  has an address that no registered session has.
\<close>

theorem run_serves_or_leaves_nothing:
  assumes ready: "ready m pr" and new: "\<forall>app. new app \<notin> set (ap_sessions app)"
    and run: "daemon_run loss m new pr w = Some (res, w')"
  shows "case res of
      Serving pr' \<Rightarrow> pr_state pr' = ACTIVE \<and> sv_is_listening (pr_server pr') \<and>
        (pr_join_mode pr \<longrightarrow> peer_is_trusted (pr_app pr') (it_inviter_id (pr_join_invite pr))) \<and>
        (\<forall>s. (worker_step (mc_host m) (pr_server pr'))\<^sup>*\<^sup>* (pr_app pr', w') s \<longrightarrow> node_ok (mc_host m) (fst s))
    | Ended code pr' \<Rightarrow> code = 1 \<and> \<not> sv_is_listening (pr_server pr') \<and> \<not> vn_is_up (ap_vnet (pr_app pr')) \<and>
        ap_sessions (pr_app pr') = []"
proof -
  let ?host = "mc_host m"
  have keeps: "node_ok ?host (fst s)" if "(worker_step ?host server)\<^sup>*\<^sup>* (app, w') s" "node_ok ?host app" for server app s
    using that by (induction rule: rtranclp_induct) (auto dest: worker_step_ok)
  have ended: ?thesis if "ended_clean res" using that by (auto simp: ended_clean_def)
  show ?thesis
  proof (cases "pr_join_mode pr")
    case True
    then have "run_join loss m new pr w = Some (res, w')" using run by (simp add: daemon_run_def)
    from run_join_result [OF this ready new] show ?thesis using ended keeps by (auto simp: serves_def)
  next
    case False
    let ?pr1 = "pr\<lparr>pr_state := DISCOVERING\<rparr>"
    obtain ok pr2 err w1 where start: "start_runtime m ?pr1 (Some []) w = (ok, pr2, err, w1)" by (metis prod_cases4)
    have "set_up ?host (pr_app ?pr1)" "\<not> sv_is_listening (pr_server ?pr1)" using ready by (simp_all add: ready_def)
    note started = start_runtime_result [OF start this]
    consider (failed) p v where "give_up_run m p v = (res, w')"
      | (active) "ok" "res = Serving (pr2\<lparr>pr_state := ACTIVE\<rparr>)"
      using run False start change_state_result [of pr DISCOVERING] change_state_result [of pr2 ACTIVE]
      by (auto simp: daemon_run_def split: option.splits prod.splits bool.splits)
    then show ?thesis
    proof cases
      case failed
      then show ?thesis by (rule ended [OF give_up_run_clean])
    next
      case active
      then have "node_ok ?host (pr_app pr2)" using started node_start_ok by auto
      then show ?thesis using active started False keeps by simp
    qed
  qed
qed

section \<open>A sample run\<close>

text \<open>The sample process of \<open>Start\<close>, as a node that does not join.\<close>

definition founding_process :: "byte process" where
  "founding_process = joining_process\<lparr>pr_join_mode := False\<rparr>"

definition next_ref :: "'k app_state \<Rightarrow> session_ref" where
  "next_ref app = Suc (sum_list (ap_sessions app))"

lemma next_ref_new: "next_ref app \<notin> set (ap_sessions app)"
  using member_le_sum_list by (fastforce simp: next_ref_def)

lemma start_runtime_state: "start_runtime m pr err w = (ok, pr', err', w') \<Longrightarrow> pr_state pr' = pr_state pr"
  by (auto simp: start_runtime_def start_listening_def give_up_def close_server_def stop_network_def Let_def
      split: if_splits prod.splits bool.splits sum.splits option.splits)

lemma sample_run:
  "\<exists>pr w. daemon_run (\<lambda>_ _. []) sample_machine next_ref founding_process [] = Some (Serving pr, w)"
proof -
  let ?pr = "founding_process\<lparr>pr_state := DISCOVERING\<rparr>"
  have created: "pr_state founding_process = CREATED"
    by (simp add: founding_process_def joining_process_def process_for_def new_process_def)
  obtain ok pr2 err w1 where start: "start_runtime sample_machine ?pr (Some []) [] = (ok, pr2, err, w1)" by (metis prod_cases4)
  have ok using sample_start_of [of ?pr "Some []"] start by (simp add: founding_process_def)
  moreover have "pr_state pr2 = DISCOVERING" using start_runtime_state [OF start] by simp
  moreover have "\<not> pr_join_mode founding_process" by (simp add: founding_process_def)
  ultimately show ?thesis
    using start created by (simp add: daemon_run_def change_state_def node_state_transition_def)
qed

lemma founding_ready: "ready sample_machine founding_process"
  using app_init_gives_ready [OF sample_laws sample_init] by (simp add: ready_def founding_process_def)

lemma run_serves_or_leaves_nothing_witness:
  "case daemon_run (\<lambda>_ _. []) sample_machine next_ref founding_process [] of
     Some (Serving pr, w) \<Rightarrow> pr_state pr = ACTIVE \<and> sv_is_listening (pr_server pr) \<and> node_ok (mc_host sample_machine) (pr_app pr)
   | _ \<Rightarrow> False"
proof -
  obtain pr w where run: "daemon_run (\<lambda>_ _. []) sample_machine next_ref founding_process [] = Some (Serving pr, w)"
    using sample_run by blast
  have "\<forall>app :: byte app_state. next_ref app \<notin> set (ap_sessions app)" using next_ref_new by blast
  from run_serves_or_leaves_nothing [OF founding_ready this run] show ?thesis by (auto simp: run)
qed

end
