(* ===== verification/Spec2Isabelle.thy ===== *)
theory Spec2Isabelle
  imports Distance_Vector Forwarding Codec Control_Message Route_Wire Join_Wire Join Config Node_State
    Session_Access Trust Data_Plane Node_Properties Control_Properties Service
begin

text \<open>
  A verification development for madoka, an overlay network of IPv6 nodes. A node has an Ed25519 identity whose SHA-256
  digest is its identifier, talks to its peers over mutually authenticated TLS, admits new peers by invitations, learns
  routes by a distance-vector protocol and contacts by a Kademlia table, and forwards the packets of a network device.
  Every definition is translated from the C++ sources under \<open>src/\<close>; the fields of a record carry the names of the struct
  with a short prefix, and the functions their own names.

  \<^bold>\<open>Parts and theories.\<close> The layers, from the bottom:

  \<^item> \<open>Prelude\<close>: machine integers (\<open>u8\<close> to \<open>u64\<close> are words of their width), first matches in lists, and the locale
    \<open>invariant_system\<close> of step relations with an invariant. \<open>Wire\<close>: big-endian fields, reads that may leave the buffer, and
    the locales \<open>prefix_codec\<close>, \<open>wire_codec\<close> and \<open>canonical_codec\<close> that every format is an interpretation of.
  \<^item> The platform: \<open>Socket\<close> (\<open>platform/socket.cpp\<close>), \<open>Tun\<close> (\<open>platform/tun.cpp\<close>), \<open>Storage\<close> (\<open>private_storage.cpp\<close>,
    \<open>durability.cpp\<close>, \<open>file_lock.cpp\<close>), \<open>Random_Bytes\<close> (\<open>random.cpp\<close>).
  \<^item> Security: \<open>Tls\<close> (\<open>crypto/tls.cpp\<close>), \<open>Identity\<close> (\<open>crypto/identity.cpp\<close>), \<open>Base64\<close>, \<open>Invite\<close> and \<open>Trust\<close>
    (\<open>security/invite.cpp\<close>).
  \<^item> Messages: \<open>Codec\<close> (\<open>protocol/codec.cpp\<close>), \<open>Control_Message\<close>, \<open>Route_Wire\<close>, \<open>Contact_Wire\<close>, \<open>Join_Wire\<close>
    (\<open>network/serialization.cpp\<close>), \<open>Data_Packet\<close> (\<open>data_packet.cpp\<close>, \<open>data_serialization.cpp\<close>).
  \<^item> The network: \<open>Topology\<close> (peers, topology, heartbeat, discovery), \<open>Routing\<close> (routes, table, advertisements),
    \<open>Distance_Vector\<close>, \<open>Forwarding\<close>, \<open>Kademlia\<close> and \<open>Join\<close>, each for the files of \<open>src/network/\<close> with its name.
  \<^item> Connections: \<open>Session\<close> and \<open>Session_Access\<close> (\<open>transport/session.cpp\<close>).
  \<^item> The node: \<open>Node_State\<close> (\<open>network/node_state.cpp\<close>), \<open>Config\<close> (\<open>core/config.cpp\<close>), \<open>Node\<close>, \<open>Neighbors\<close>, \<open>Data_Plane\<close>,
    \<open>Control\<close> and \<open>Bootstrap\<close> (\<open>core/daemon.cpp\<close>), \<open>Saved_Config\<close>, \<open>Runtime\<close>, \<open>App_Init\<close> and \<open>Status\<close> (\<open>core/app.cpp\<close>,
    \<open>core/lifecycle.cpp\<close>).
  \<^item> What holds of the whole: \<open>Node_Invariant\<close>, \<open>Node_Properties\<close>, \<open>Control_Properties\<close>, \<open>Start\<close> and \<open>Service\<close>.

  \<^bold>\<open>How they interact.\<close> \<open>app_init\<close> reads the command line and the configuration, loads or makes the identity and the trust
  and fills the tables; \<open>daemon_run\<close> starts the server and the network device and, when it joins, proves an invitation to
  the inviter before it stores anything. Then workers accept sessions, serve one session each, move packets, maintain the
  routes and reconnect. They share one \<open>AppState\<close>, here the record \<open>app_state\<close>, whose sessions are addresses into a store,
  because the code shares them by \<open>shared_ptr\<close>. \<open>app_shutdown\<close> closes everything.

  \<^bold>\<open>State and effects.\<close> The outside world is a value of a type variable that is passed through. What the program calls
  but does not contain are records of functions on it: the system calls (\<open>os\<close>, \<open>tun_os\<close>, \<open>tun_setup\<close>, \<open>fs\<close>), OpenSSL
  (\<open>ssl_lib\<close>, \<open>key_store\<close>), the clocks, SHA-256 and \<open>inet_pton\<close> (\<open>host\<close>, \<open>machine\<close>). Where a theorem relies on what they do, the
  hypothesis has a name (\<open>fs_laws\<close>, \<open>bounded_reads\<close>, \<open>bounded_rng\<close>, \<open>pton_sized\<close>, \<open>keeps_descriptors\<close>) and its witness has an
  instance. Errors are left results of sums or \<open>False\<close> with the text that is written through the \<open>error\<close> pointer, which
  is \<open>None\<close> for a null pointer.

  \<^bold>\<open>Threads.\<close> A step of \<open>worker_step\<close> is one round of one worker, run without interruption, in any order and with any change
  of the world between two steps. The rounds of the code hold its mutexes for shorter stretches than that; interleavings
  inside a round are not modelled. The two flags that stop the workers belong to the world, so a stop can come at any time. The
  status file that the workers refresh after a round is such a change of the world, too; its content is in \<open>Status\<close>.

  \<^bold>\<open>What the lemmas show.\<close> For the formats: what is written is read back, and only that is accepted. For the tables:
  the invariants of topology, routes, contacts and trust over every operation, the distance vector as Bellman-Ford
  relaxation, no loops of two nodes under poison reverse, delivery over descending tables and the life time of packets in
  any tables. For the disk: a file has its old or its new contents whatever fails, an identity that exists survives, an
  invitation is used once, a saved configuration is read back. For the node: the invariant \<open>node_ok\<close> over every round (neighbours
  are trusted and have their own addresses, sessions belong to the peers that authenticated, routes lead through neighbours,
  contacts are bound to keys), strangers can only ask to join, trust changes only by an admission, data messages carry the
  addresses of their nodes. For a run: a node that serves is sound from its start on and trusts its inviter, and a run that
  ends, or is shut down, leaves nothing open.

  \<^bold>\<open>Loops.\<close> Loops over data are recursive functions with termination proofs. Two loops may never end and are partial:
  \<open>receive_loop\<close> (a peer that always sends too little) and \<open>random_loop\<close> (\<open>getrandom\<close> interrupted forever), with what calls them;
  their result \<open>None\<close> is not returning. \<open>messages_cross_in_order\<close> shows that receiving ends when a message arrives. Bounds
  that appear as numbers are those of the code: ten rounds of the self lookup, twenty attempts to read a status, and the
  retries of \<open>private_write_atomically\<close>. \<open>journey\<close> of \<open>Forwarding\<close> needs no fuel: the time to live is its measure.

  \<^bold>\<open>Not modelled.\<close> The Windows branches of the platform files with \<open>wintun.h\<close>, and the branches of other
  systems in \<open>random.cpp\<close>; creating and joining threads, waiting on condition variables and pauses; the text printed on
  the console apart from the two commands whose output is their purpose; \<open>main.cpp\<close>, which calls \<open>app_init\<close> and \<open>app_run\<close>;
  the signal handler, whose flag is a part of the world; the conversion of the loss rate to text, a floating
  point number, which is a parameter. Failing allocations are left out.
\<close>

end
